(* ===== verification/BTree.thy ===== *)
theory BTree
  imports Prelude
begin

text \<open>
  The standard library's ordered containers. A \<^verbatim>\<open>BTreeMap<K, V>\<close> is the list of its entries in
  increasing key order, a \<^verbatim>\<open>BTreeSet<K>\<close> the increasing list of its elements: iteration order is
  observable in the program (the order of normalized caches, of ready checks, of JSON keys), so
  the model keeps it. The locale \<open>ordered_dict\<close> is the contract the components rely on.
\<close>

section \<open>Definitions\<close>

type_synonym ('k, 'v) btree_map = "('k \<times> 'v) list"

type_synonym 'k btree_set = "'k list"

fun bt_get :: "('k::linorder, 'v) btree_map \<Rightarrow> 'k \<Rightarrow> 'v option" where
  "bt_get [] k = None"
| "bt_get ((k', v) # m) k = (if k = k' then Some v else bt_get m k)"

fun bt_insert :: "'k::linorder \<Rightarrow> 'v \<Rightarrow> ('k, 'v) btree_map \<Rightarrow> ('k, 'v) btree_map" where
  "bt_insert k v [] = [(k, v)]"
| "bt_insert k v ((k', v') # m) =
     (if k < k' then (k, v) # (k', v') # m
      else if k = k' then (k, v) # m
      else (k', v') # bt_insert k v m)"

text \<open>\<^verbatim>\<open>*map.get_mut(k) = v\<close>: the entry is overwritten in place.\<close>

fun bt_update :: "'k \<Rightarrow> 'v \<Rightarrow> ('k, 'v) btree_map \<Rightarrow> ('k, 'v) btree_map" where
  "bt_update k v [] = []"
| "bt_update k v ((k', v') # m) = (if k = k' then (k', v) # m else (k', v') # bt_update k v m)"

definition bt_contains :: "('k::linorder, 'v) btree_map \<Rightarrow> 'k \<Rightarrow> bool" where
  "bt_contains m k \<longleftrightarrow> bt_get m k \<noteq> None"

definition bt_keys :: "('k, 'v) btree_map \<Rightarrow> 'k list" where
  "bt_keys m = map fst m"

definition bt_values :: "('k, 'v) btree_map \<Rightarrow> 'v list" where
  "bt_values m = map snd m"

text \<open>\<^verbatim>\<open>entries.collect::<BTreeMap<_, _>>()\<close>: later entries replace earlier ones.\<close>

definition bt_collect :: "('k::linorder \<times> 'v) list \<Rightarrow> ('k, 'v) btree_map" where
  "bt_collect kvs = fold (\<lambda>kv. bt_insert (fst kv) (snd kv)) kvs []"

definition bt_inv :: "('k::linorder, 'v) btree_map \<Rightarrow> bool" where
  "bt_inv m \<longleftrightarrow> sorted_wrt (<) (map fst m)"

fun bs_insert :: "'k::linorder \<Rightarrow> 'k btree_set \<Rightarrow> 'k btree_set" where
  "bs_insert k [] = [k]"
| "bs_insert k (x # xs) =
     (if k < x then k # x # xs else if k = x then x # xs else x # bs_insert k xs)"

definition bs_collect :: "'k::linorder list \<Rightarrow> 'k btree_set" where
  "bs_collect ks = fold bs_insert ks []"

definition bs_inv :: "'k::linorder btree_set \<Rightarrow> bool" where
  "bs_inv s \<longleftrightarrow> sorted_wrt (<) s"

section \<open>The contract of an ordered dictionary\<close>

locale ordered_dict =
  fixes empty :: "'m"
    and insert :: "'k::linorder \<Rightarrow> 'v \<Rightarrow> 'm \<Rightarrow> 'm"
    and get :: "'m \<Rightarrow> 'k \<Rightarrow> 'v option"
    and entries :: "'m \<Rightarrow> ('k \<times> 'v) list"
    and inv :: "'m \<Rightarrow> bool"
  assumes get_empty: "get empty = (\<lambda>_. None)"
    and get_insert: "inv m \<Longrightarrow> get (insert k v m) = (get m)(k \<mapsto> v)"
    and inv_empty: "inv empty"
    and inv_insert: "inv m \<Longrightarrow> inv (insert k v m)"
    and entries_sorted: "inv m \<Longrightarrow> sorted_wrt (<) (map fst (entries m))"
    and get_entries: "inv m \<Longrightarrow> get m = map_of (entries m)"
begin

lemma entries_distinct: "inv m \<Longrightarrow> distinct (map fst (entries m))"
  using entries_sorted [of m] by (simp add: strict_sorted_iff)

lemma dom_get: "inv m \<Longrightarrow> dom (get m) = fst ` set (entries m)"
  by (simp add: get_entries dom_map_of_conv_image_fst)

lemma entries_iff: "inv m \<Longrightarrow> (k, v) \<in> set (entries m) \<longleftrightarrow> get m k = Some v"
  using entries_distinct [of m] by (simp add: get_entries)

text \<open>The entries are determined by the lookups: iteration order carries no history.\<close>

lemma entries_unique:
  assumes "inv m" and "inv m'" and "get m = get m'"
  shows "entries m = entries m'"
proof -
  have eq: "set (entries m) = set (entries m')"
    using assms by (auto simp: entries_iff)
  have sd: "sorted (map fst (entries m)) \<and> distinct (map fst (entries m))"
    "sorted (map fst (entries m')) \<and> distinct (map fst (entries m'))"
    using assms(1,2) entries_sorted by (simp_all add: strict_sorted_iff)
  then have "inj_on fst (set (entries m) \<union> set (entries m'))"
    using eq by (simp add: distinct_map)
  with sd eq show ?thesis by (intro map_sorted_distinct_set_unique) auto
qed

lemma fold_insert:
  assumes "inv m"
  shows "inv (fold (\<lambda>kv. insert (fst kv) (snd kv)) kvs m)"
    and "get (fold (\<lambda>kv. insert (fst kv) (snd kv)) kvs m) = get m ++ map_of (rev kvs)"
  using assms
proof (induction kvs arbitrary: m)
  case Nil
  { case 1 then show ?case by simp }
  { case 2 then show ?case by simp }
next
  case (Cons kv kvs)
  { case 1 then show ?case by (simp add: inv_insert Cons.IH(1)) }
  { case 2 then show ?case
      by (simp add: inv_insert Cons.IH(2) get_insert) (simp add: map_add_def fun_eq_iff split: option.splits) }
qed

lemma length_entries: "inv m \<Longrightarrow> length (entries m) = card (dom (get m))"
  using entries_distinct [of m] distinct_card [of "map fst (entries m)"] by (simp add: dom_get)

end

section \<open>The sorted-list model meets it\<close>

lemma bt_inv_simps [simp]:
  "bt_inv []" "bt_inv (kv # m) \<longleftrightarrow> (\<forall>k\<in>fst ` set m. fst kv < k) \<and> bt_inv m"
  by (auto simp: bt_inv_def)

lemma bt_get_map_of [simp]: "bt_get m = map_of m"
proof
  show "bt_get m k = map_of m k" for k by (induction m) auto
qed

lemma set_bt_insert_keys: "fst ` set (bt_insert k v m) = insert k (fst ` set m)"
  by (induction k v m rule: bt_insert.induct) auto

lemma bt_insert_inv: "bt_inv m \<Longrightarrow> bt_inv (bt_insert k v m)"
proof (induction k v m rule: bt_insert.induct)
  case (1 k v)
  then show ?case by simp
next
  case (2 k v k' v' m)
  then show ?case by (auto simp: set_bt_insert_keys)
qed

lemma map_of_bt_insert: "bt_inv m \<Longrightarrow> map_of (bt_insert k v m) = (map_of m)(k \<mapsto> v)"
proof (induction k v m rule: bt_insert.induct)
  case (1 k v)
  then show ?case by simp
next
  case (2 k v k' v' m)
  then show ?case by (auto simp: fun_eq_iff)
qed

interpretation bt: ordered_dict "[]" bt_insert bt_get id bt_inv
  by unfold_locales (auto simp: bt_insert_inv map_of_bt_insert fun_eq_iff, simp add: bt_inv_def)

lemma bt_collect_inv [simp]: "bt_inv (bt_collect kvs)"
  by (simp add: bt_collect_def bt.fold_insert)

lemma map_of_bt_collect: "map_of (bt_collect kvs) = map_of (rev kvs)"
  using bt.fold_insert(2) [of "[]" kvs] by (simp add: bt_collect_def fun_eq_iff)

lemma set_bt_collect: "kv \<in> set (bt_collect kvs) \<Longrightarrow> kv \<in> set kvs"
proof -
  assume "kv \<in> set (bt_collect kvs)"
  then have "map_of (rev kvs) (fst kv) = Some (snd kv)"
    using bt.entries_iff [of "bt_collect kvs" "fst kv" "snd kv"] by (simp add: map_of_bt_collect)
  then have "(fst kv, snd kv) \<in> set (rev kvs)" by (rule map_of_SomeD)
  then show "kv \<in> set kvs" by simp
qed

lemma bt_collect_sorted_id: "bt_inv m \<Longrightarrow> bt_collect m = m"
proof -
  assume inv: "bt_inv m"
  then have "distinct (map fst m)" using bt.entries_distinct [of m] by simp
  then have "map_of (rev m) = map_of m"
    using map_of_inject_set [of "rev m" m] by (simp flip: rev_map)
  then show "bt_collect m = m"
    using bt.entries_unique [of "bt_collect m" m] inv by (simp add: map_of_bt_collect fun_eq_iff)
qed

lemma bt_contains_iff: "bt_contains m k \<longleftrightarrow> k \<in> fst ` set m"
  by (auto simp: bt_contains_def map_of_eq_None_iff)

lemma bt_update_keys [simp]: "map fst (bt_update k v m) = map fst m"
  by (induction k v m rule: bt_update.induct) auto

lemma bt_update_inv [simp]: "bt_inv (bt_update k v m) \<longleftrightarrow> bt_inv m"
  by (simp add: bt_inv_def)

lemma map_of_bt_update:
  "map_of (bt_update k v m) = (if k \<in> fst ` set m then (map_of m)(k \<mapsto> v) else map_of m)"
  by (induction k v m rule: bt_update.induct) (auto simp: fun_eq_iff)

section \<open>Ordered sets\<close>

lemma set_bs_insert [simp]: "set (bs_insert k s) = insert k (set s)"
  by (induction k s rule: bs_insert.induct) auto

lemma bs_insert_inv: "bs_inv s \<Longrightarrow> bs_inv (bs_insert k s)"
  by (induction k s rule: bs_insert.induct) (auto simp: bs_inv_def)

lemma bs_inv_sorted: "bs_inv s \<Longrightarrow> s = sorted_list_of_set (set s)"
  by (simp add: bs_inv_def strict_sorted_iff sorted_list_of_set.idem_if_sorted_distinct)

lemma fold_bs_insert:
  "bs_inv s \<Longrightarrow> bs_inv (fold bs_insert ks s) \<and> set (fold bs_insert ks s) = set s \<union> set ks"
  by (induction ks arbitrary: s) (auto simp: bs_insert_inv)

lemma bs_collect_eq: "bs_collect ks = sorted_list_of_set (set ks)"
proof -
  have "bs_inv (bs_collect ks)" "set (bs_collect ks) = set ks"
    using fold_bs_insert [of "[]" ks] by (auto simp: bs_collect_def bs_inv_def)
  then show ?thesis using bs_inv_sorted by metis
qed

lemma bs_collect_inv [simp]: "bs_inv (bs_collect ks)"
  using fold_bs_insert [of "[]" ks] by (simp add: bs_collect_def bs_inv_def)

lemma set_bs_collect [simp]: "set (bs_collect ks) = set ks"
  by (simp add: bs_collect_eq)

section \<open>Scanning a list for repeated keys\<close>

text \<open>
  The loop that recurs in every validator of the crate: accept each item, and refuse a key that an
  earlier item had. What it returns is the set of the keys, and it succeeds exactly on lists of
  acceptable items with distinct keys, whatever the order of the two tests in its body.
\<close>

locale unique_scan =
  fixes step :: "'k::linorder btree_set \<Rightarrow> 'a \<Rightarrow> ('e, 'k btree_set) result"
    and key :: "'a \<Rightarrow> 'k"
    and accepts :: "'a \<Rightarrow> bool"
  assumes step_law: "step s x = Ok t \<longleftrightarrow> accepts x \<and> key x \<notin> set s \<and> t = bs_insert (key x) s"
begin

lemma scan:
  "try_fold step s xs = Ok t \<longleftrightarrow>
     list_all accepts xs \<and> distinct (map key xs) \<and> set s \<inter> key ` set xs = {} \<and>
     t = fold bs_insert (map key xs) s"
proof (induction xs arbitrary: s)
  case (Cons x xs)
  have "try_fold step s (x # xs) = Ok t \<longleftrightarrow>
      accepts x \<and> key x \<notin> set s \<and> try_fold step (bs_insert (key x) s) xs = Ok t"
    by (auto simp: result_simps step_law)
  then show ?case by (auto simp: Cons.IH)
qed auto

lemma scan_empty:
  "try_fold step [] xs = Ok t \<longleftrightarrow>
     list_all accepts xs \<and> distinct (map key xs) \<and> t = sorted_list_of_set (key ` set xs)"
  using bs_collect_eq [of "map key xs"] by (simp add: scan bs_collect_def)

end

end
