(* ===== verification/Rust_Str.thy ===== *)
theory Rust_Str
  imports Prelude
begin

text \<open>
  Rust strings. A \<^verbatim>\<open>String\<close> is the list of its UTF-8 bytes, so that \<^verbatim>\<open>len()\<close> counts bytes
  and the order of \<^verbatim>\<open>str\<close> (which every \<^verbatim>\<open>BTreeMap<String, _>\<close> of the program uses) is the
  lexicographic order of the list. \<open>chars\<close> decodes the bytes to code points for the
  predicates of \<^verbatim>\<open>char\<close> the validators call. The searches the program makes
  (\<^verbatim>\<open>split\<close>, \<^verbatim>\<open>rsplit_once\<close>, \<^verbatim>\<open>contains\<close> with a character) are for ASCII characters, which
  never occur inside a multi-byte sequence, so they work on the bytes.
\<close>

section \<open>Code points\<close>

abbreviation byte_val :: "char \<Rightarrow> nat" where
  "byte_val c \<equiv> of_char c"

abbreviation cont_bits :: "char \<Rightarrow> nat" where
  "cont_bits c \<equiv> of_char c mod 64"

text \<open>
  A sequence that is too short or overlong decodes to U+FFFD; no Rust string has one.
\<close>

definition replacement :: nat where
  "replacement = 65533"

definition code_point :: "nat \<Rightarrow> nat \<Rightarrow> nat" where
  "code_point least n = (if n < least then replacement else n)"

definition decode2 :: "char \<Rightarrow> char \<Rightarrow> nat" where
  "decode2 a b = code_point 128 (byte_val a mod 32 * 64 + cont_bits b)"

definition decode3 :: "char \<Rightarrow> char \<Rightarrow> char \<Rightarrow> nat" where
  "decode3 a b c = code_point 2048 (byte_val a mod 16 * 4096 + cont_bits b * 64 + cont_bits c)"

definition decode4 :: "char \<Rightarrow> char \<Rightarrow> char \<Rightarrow> char \<Rightarrow> nat" where
  "decode4 a b c d = code_point 65536
     (byte_val a mod 8 * 262144 + cont_bits b * 4096 + cont_bits c * 64 + cont_bits d)"

fun chars :: "string \<Rightarrow> nat list" where
  "chars [] = []"
| "chars [a] = [if byte_val a < 128 then byte_val a else replacement]"
| "chars [a, b] =
     (if byte_val a < 128 then byte_val a # chars [b]
      else [if byte_val a < 224 then decode2 a b else replacement])"
| "chars [a, b, c] =
     (if byte_val a < 128 then byte_val a # chars [b, c]
      else if byte_val a < 224 then decode2 a b # chars [c]
      else [if byte_val a < 240 then decode3 a b c else replacement])"
| "chars (a # b # c # d # r) =
     (if byte_val a < 128 then byte_val a # chars (b # c # d # r)
      else if byte_val a < 224 then decode2 a b # chars (c # d # r)
      else if byte_val a < 240 then decode3 a b c # chars (d # r)
      else decode4 a b c d # chars r)"

text \<open>\<^verbatim>\<open>std::str::from_utf8\<close> accepts exactly the well-formed byte sequences.\<close>

definition is_cont :: "nat \<Rightarrow> nat \<Rightarrow> char \<Rightarrow> bool" where
  "is_cont lo hi b \<longleftrightarrow> lo \<le> byte_val b \<and> byte_val b \<le> hi"

definition utf8_second :: "nat \<Rightarrow> char \<Rightarrow> bool" where
  "utf8_second a b \<longleftrightarrow>
     (if a = 224 then is_cont 160 191 b else if a = 237 then is_cont 128 159 b
      else if a = 240 then is_cont 144 191 b else if a = 244 then is_cont 128 143 b
      else is_cont 128 191 b)"

fun utf8_valid :: "string \<Rightarrow> bool" where
  "utf8_valid [] \<longleftrightarrow> True"
| "utf8_valid (a # r) \<longleftrightarrow>
     (let n = byte_val a
      in if n < 128 then utf8_valid r
         else if 194 \<le> n \<and> n \<le> 223 then
           (case r of b # r' \<Rightarrow> utf8_second n b \<and> utf8_valid r' | _ \<Rightarrow> False)
         else if 224 \<le> n \<and> n \<le> 239 then
           (case r of b # c # r' \<Rightarrow> utf8_second n b \<and> is_cont 128 191 c \<and> utf8_valid r' | _ \<Rightarrow> False)
         else if 240 \<le> n \<and> n \<le> 244 then
           (case r of b # c # d # r' \<Rightarrow>
              utf8_second n b \<and> is_cont 128 191 c \<and> is_cont 128 191 d \<and> utf8_valid r' | _ \<Rightarrow> False)
         else False)"

definition is_control :: "nat \<Rightarrow> bool" where
  "is_control n \<longleftrightarrow> n < 32 \<or> 127 \<le> n \<and> n < 160"

definition is_whitespace :: "nat \<Rightarrow> bool" where
  "is_whitespace n \<longleftrightarrow>
     9 \<le> n \<and> n \<le> 13 \<or> n = 32 \<or> n = 133 \<or> n = 160 \<or> n = 5760 \<or> 8192 \<le> n \<and> n \<le> 8202 \<or>
     n = 8232 \<or> n = 8233 \<or> n = 8239 \<or> n = 8287 \<or> n = 12288"

definition is_ascii_digit :: "nat \<Rightarrow> bool" where
  "is_ascii_digit n \<longleftrightarrow> 48 \<le> n \<and> n \<le> 57"

definition is_ascii_alphabetic :: "nat \<Rightarrow> bool" where
  "is_ascii_alphabetic n \<longleftrightarrow> 65 \<le> n \<and> n \<le> 90 \<or> 97 \<le> n \<and> n \<le> 122"

definition is_ascii_alphanumeric :: "nat \<Rightarrow> bool" where
  "is_ascii_alphanumeric n \<longleftrightarrow> is_ascii_alphabetic n \<or> is_ascii_digit n"

text \<open>\<^verbatim>\<open>byte.is_ascii_digit() || (b'a'..=b'f').contains(&byte)\<close>\<close>

definition is_lower_hex :: "char \<Rightarrow> bool" where
  "is_lower_hex c \<longleftrightarrow> is_ascii_digit (byte_val c) \<or> 97 \<le> byte_val c \<and> byte_val c \<le> 102"

text \<open>\<^verbatim>\<open>is_ascii_alphanumeric() || matches!(c, '-' | '_' | '.')\<close>\<close>

definition is_name_char :: "nat \<Rightarrow> bool" where
  "is_name_char n \<longleftrightarrow> is_ascii_alphanumeric n \<or> n = 45 \<or> n = 95 \<or> n = 46"

definition any_control :: "string \<Rightarrow> bool" where
  "any_control s = list_ex is_control (chars s)"

text \<open>The code points that \<^verbatim>\<open>str::trim\<close> leaves.\<close>

definition str_trim :: "string \<Rightarrow> nat list" where
  "str_trim s = rev (dropWhile is_whitespace (rev (dropWhile is_whitespace (chars s))))"

section \<open>Searching and splitting\<close>

primrec split_on :: "char \<Rightarrow> string \<Rightarrow> string list" where
  "split_on c [] = [[]]"
| "split_on c (x # xs) =
     (if x = c then [] # split_on c xs
      else case split_on c xs of [] \<Rightarrow> [[x]] | s # ss \<Rightarrow> (x # s) # ss)"

fun strip_prefix :: "string \<Rightarrow> string \<Rightarrow> string option" where
  "strip_prefix [] s = Some s"
| "strip_prefix (p # ps) [] = None"
| "strip_prefix (p # ps) (x # xs) = (if p = x then strip_prefix ps xs else None)"

definition starts_with :: "string \<Rightarrow> string \<Rightarrow> bool" where
  "starts_with p s \<longleftrightarrow> strip_prefix p s \<noteq> None"

text \<open>\<^verbatim>\<open>rsplit_once(c)\<close>: the last occurrence of the character splits.\<close>

primrec rsplit_once :: "char \<Rightarrow> string \<Rightarrow> (string \<times> string) option" where
  "rsplit_once c [] = None"
| "rsplit_once c (x # xs) =
     (case rsplit_once c xs of
        Some (l, r) \<Rightarrow> Some (x # l, r)
      | None \<Rightarrow> if x = c then Some ([], xs) else None)"

primrec contains_str :: "string \<Rightarrow> string \<Rightarrow> bool" where
  "contains_str p [] \<longleftrightarrow> p = []"
| "contains_str p (x # xs) \<longleftrightarrow> starts_with p (x # xs) \<or> contains_str p xs"

definition join :: "string \<Rightarrow> string list \<Rightarrow> string" where
  "join sep ss = (case ss of [] \<Rightarrow> [] | s # r \<Rightarrow> s @ concat (map ((@) sep) r))"

section \<open>Decimal numerals\<close>

definition digit_char :: "nat \<Rightarrow> char" where
  "digit_char d = char_of (48 + d)"

fun show_nat :: "nat \<Rightarrow> string" where
  "show_nat n = (if n < 10 then [digit_char n] else show_nat (n div 10) @ [digit_char (n mod 10)])"

declare show_nat.simps [simp del]

text \<open>\<^verbatim>\<open>{:0w}\<close> of a non-negative number.\<close>

definition show_pad :: "nat \<Rightarrow> nat \<Rightarrow> string" where
  "show_pad w n = (let s = show_nat n in replicate (w - length s) (CHR ''0'') @ s)"

text \<open>\<^verbatim>\<open>try_fold(0, |v, b| b.is_ascii_digit().then(|| v * 10 + (b - b'0')))\<close> in \<^verbatim>\<open>u32\<close>.\<close>

definition decimal_step :: "u32 \<Rightarrow> char \<Rightarrow> u32 option" where
  "decimal_step v b =
     (if is_ascii_digit (byte_val b) then Some (v * 10 + of_nat (byte_val b - 48)) else None)"

definition parse_decimal :: "string \<Rightarrow> u32 option" where
  "parse_decimal bs = try_fold_option decimal_step 0 bs"

section \<open>Facts\<close>

lemma chars_Cons_ascii [simp]: "byte_val a < 128 \<Longrightarrow> chars (a # s) = byte_val a # chars s"
  by (cases s rule: chars.cases) auto

lemma chars_not_Nil: "chars (a # s) \<noteq> []"
  by (cases s rule: chars.cases) simp_all

lemma chars_ascii: "list_all (\<lambda>c. byte_val c < 128) s \<Longrightarrow> chars s = map byte_val s"
  by (induction s) auto

lemma multi_byte_ge_128 [simp]:
  "128 \<le> decode2 a b" "128 \<le> decode3 a b c" "128 \<le> decode4 a b c d" "128 \<le> replacement"
  by (simp_all add: decode2_def decode3_def decode4_def code_point_def replacement_def)

lemma hd_chars_multi_byte: "128 \<le> byte_val a \<Longrightarrow> 128 \<le> hd (chars (a # s))"
  by (cases s rule: chars.cases) simp_all

lemma ascii_of_chars: "list_all (\<lambda>n. n < 128) (chars s) \<Longrightarrow> list_all (\<lambda>c. byte_val c < 128) s"
proof (induction s)
  case Nil
  then show ?case by simp
next
  case (Cons a s)
  have "\<not> 128 \<le> byte_val a"
  proof
    assume "128 \<le> byte_val a"
    from hd_chars_multi_byte [OF this, of s] Cons.prems chars_not_Nil [of a s] show False
      by (cases "chars (a # s)") auto
  qed
  with Cons show ?case by simp
qed

lemma chars_all_ascii:
  assumes "list_all P (chars s)" and "\<And>n. P n \<Longrightarrow> n < 128"
  shows "chars s = map byte_val s" and "list_all (\<lambda>c. P (byte_val c)) s"
proof -
  from assms have "list_all (\<lambda>n. n < 128) (chars s)" by (auto simp: list_all_iff)
  then show eq: "chars s = map byte_val s" by (intro chars_ascii ascii_of_chars)
  with assms(1) show "list_all (\<lambda>c. P (byte_val c)) s" by (simp add: list_all_iff)
qed

lemma is_name_char_ascii: "is_name_char n \<Longrightarrow> n < 128"
  by (auto simp: is_name_char_def is_ascii_alphanumeric_def is_ascii_alphabetic_def is_ascii_digit_def)

lemma chars_eq_Nil_iff [simp]: "chars s = [] \<longleftrightarrow> s = []"
  by (cases s) (simp_all add: chars_not_Nil)

lemma strip_prefix_eq_Some_iff [simp]: "strip_prefix p s = Some r \<longleftrightarrow> s = p @ r"
  by (induction p s rule: strip_prefix.induct) auto

lemma strip_prefix_append [simp]: "strip_prefix p (p @ r) = Some r"
  by simp

lemma starts_with_iff: "starts_with p s \<longleftrightarrow> (\<exists>r. s = p @ r)"
  by (auto simp: starts_with_def)

lemma split_on_not_Nil [simp]: "split_on c s \<noteq> []"
  by (induction s) (auto split: list.splits)

lemma split_on_elem: "p \<in> set (split_on c s) \<Longrightarrow> c \<notin> set p"
proof (induction s arbitrary: p)
  case Nil
  then show ?case by simp
next
  case (Cons x xs)
  obtain q qs where q: "split_on c xs = q # qs" by (cases "split_on c xs") auto
  with Cons.IH [of q] Cons.IH [of p] Cons.prems show ?case by (auto split: if_splits)
qed

lemma join_Cons2: "join sep (a # b # r) = a @ sep @ join sep (b # r)"
  by (simp add: join_def)

lemma join_split_on: "join [c] (split_on c s) = s"
proof (induction s)
  case Nil
  then show ?case by (simp add: join_def)
next
  case (Cons x xs)
  obtain q qs where q: "split_on c xs = q # qs" by (cases "split_on c xs") auto
  with Cons.IH show ?case by (auto simp: join_def)
qed

lemma split_on_join:
  assumes "ss \<noteq> []" and "\<forall>p\<in>set ss. c \<notin> set p"
  shows "split_on c (join [c] ss) = ss"
proof -
  have app: "c \<notin> set p \<Longrightarrow> split_on c (p @ c # t) = p # split_on c t" for p t
    by (induction p) auto
  have one: "c \<notin> set p \<Longrightarrow> split_on c p = [p]" for p
    by (induction p) auto
  show ?thesis
    using assms
  proof (induction ss rule: induct_list012)
    case 1
    then show ?case by simp
  next
    case (2 x)
    then show ?case by (simp add: join_def one)
  next
    case (3 x y zs)
    then show ?case by (simp add: join_Cons2 app)
  qed
qed

lemma rsplit_once_eq_None_iff: "rsplit_once c s = None \<longleftrightarrow> c \<notin> set s"
  by (induction s) (auto split: option.splits)

lemma rsplit_once_eq_Some_iff:
  "rsplit_once c s = Some (l, r) \<longleftrightarrow> s = l @ c # r \<and> c \<notin> set r"
proof (induction s arbitrary: l)
  case Nil
  then show ?case by simp
next
  case (Cons x xs)
  show ?case
  proof (cases "rsplit_once c xs")
    case None
    then have "c \<notin> set xs" by (simp add: rsplit_once_eq_None_iff)
    with None show ?thesis by (auto simp: Cons_eq_append_conv)
  next
    case (Some lr)
    obtain l' r' where lr: "lr = (l', r')" by (cases lr)
    with Some have "c \<in> set xs" using rsplit_once_eq_None_iff [of c xs] by auto
    with Some lr Cons.IH [of "tl l"] show ?thesis by (cases l) auto
  qed
qed

section \<open>Decimal numerals\<close>

lemma byte_val_digit_char [simp]: "d < 10 \<Longrightarrow> byte_val (digit_char d) = 48 + d"
  by (simp add: digit_char_def)

lemma decimal_step_digit [simp]:
  "d < 10 \<Longrightarrow> decimal_step v (digit_char d) = Some (v * 10 + of_nat d)"
  by (simp add: decimal_step_def is_ascii_digit_def)

lemma try_fold_option_append:
  "try_fold_option f s (xs @ ys) = Option.bind (try_fold_option f s xs) (\<lambda>t. try_fold_option f t ys)"
  by (induction xs arbitrary: s) (auto split: Option.bind_splits)

lemma decimal_of_show_nat: "try_fold_option decimal_step 0 (show_nat n) = Some (of_nat n)"
proof (induction n rule: show_nat.induct)
  case (1 n)
  show ?case
  proof (cases "n < 10")
    case True
    then show ?thesis by (simp add: show_nat.simps [of n])
  next
    case False
    have "(of_nat (n div 10) * 10 + of_nat (n mod 10) :: u32) = of_nat n"
      by (metis div_mult_mod_eq of_nat_add of_nat_mult of_nat_numeral)
    with False "1.IH" show ?thesis
      by (simp add: show_nat.simps [of n] try_fold_option_append)
  qed
qed

lemma decimal_zeros: "try_fold_option decimal_step 0 (replicate k (CHR ''0'') @ s) = try_fold_option decimal_step 0 s"
  by (induction k) (simp_all add: decimal_step_def is_ascii_digit_def)

lemma parse_decimal_show_pad: "parse_decimal (show_pad w n) = Some (of_nat n)"
  by (simp add: parse_decimal_def show_pad_def Let_def decimal_zeros decimal_of_show_nat)

lemma show_nat_digits: "c \<in> set (show_nat n) \<Longrightarrow> is_ascii_digit (byte_val c)"
proof (induction n rule: show_nat.induct)
  case (1 n)
  then show ?case by (subst (asm) (2) show_nat.simps) (auto simp: byte_val_digit_char is_ascii_digit_def split: if_splits)
qed

lemma length_show_nat: "0 < k \<Longrightarrow> n < 10 ^ k \<Longrightarrow> length (show_nat n) \<le> k"
proof (induction k arbitrary: n)
  case 0
  then show ?case by simp
next
  case (Suc k)
  show ?case
  proof (cases "n < 10")
    case True
    then show ?thesis by (simp add: show_nat.simps [of n])
  next
    case False
    with Suc.prems have "0 < k" by (cases k) auto
    moreover have "n div 10 < 10 ^ k" using Suc.prems by (simp add: less_mult_imp_div_less)
    ultimately have "length (show_nat (n div 10)) \<le> k" by (rule Suc.IH)
    with False show ?thesis by (simp add: show_nat.simps [of n])
  qed
qed

lemma length_show_pad: "0 < w \<Longrightarrow> n < 10 ^ w \<Longrightarrow> length (show_pad w n) = w"
  using length_show_nat [of w n] by (simp add: show_pad_def Let_def)

section \<open>The value of a digit string\<close>

abbreviation digits :: "string \<Rightarrow> bool" where
  "digits ds \<equiv> list_all (\<lambda>c. is_ascii_digit (byte_val c)) ds"

primrec dec_value :: "string \<Rightarrow> nat" where
  "dec_value [] = 0"
| "dec_value (c # cs) = (byte_val c - 48) * 10 ^ length cs + dec_value cs"

lemma dec_value_less: "digits ds \<Longrightarrow> dec_value ds < 10 ^ length ds"
proof (induction ds)
  case (Cons c cs)
  then have "byte_val c - 48 \<le> 9" "dec_value cs < 10 ^ length cs" by (auto simp: is_ascii_digit_def)
  then have "(byte_val c - 48) * 10 ^ length cs + dec_value cs < 9 * 10 ^ length cs + 10 ^ length cs"
    by (intro add_le_less_mono mult_right_mono) auto
  then show ?case by simp
qed simp

end
