(* ===== verification/Canonical.thy ===== *)
theory Canonical
  imports BTree Rust_Str
begin

text \<open>
  Canonical JSON and digests (\<^verbatim>\<open>src/src/receipt.rs\<close>: \<open>canonical_json\<close>, \<open>canonical_digest\<close>,
  \<open>normalize_json\<close>, \<open>encode_hex\<close>, and the error type they share). The JSON text writer of
  \<^verbatim>\<open>serde_json\<close> and the SHA-256 function of \<^verbatim>\<open>sha2\<close> are outside the repository: they are the
  fields of the \<open>codec\<close> argument. A structure that derives \<^verbatim>\<open>Serialize\<close> enters as its JSON value.
\<close>

section \<open>JSON values\<close>

datatype json_number = PosInt u64 | NegInt u64 | Float u64

datatype json =
    JNull
  | JBool bool
  | JNumber json_number
  | JString string
  | JArray "json list"
  | JObject "(string \<times> json) list"

text \<open>What a derived \<^verbatim>\<open>Serialize\<close> builds: an object whose keys are the field names.\<close>

definition json_object :: "(string \<times> json) list \<Rightarrow> json" where
  "json_object fields = JObject (bt_collect fields)"

definition json_u64 :: "u64 \<Rightarrow> json" where
  "json_u64 n = JNumber (PosInt n)"

definition json_option :: "('a \<Rightarrow> json) \<Rightarrow> 'a option \<Rightarrow> json" where
  "json_option f v = (case v of None \<Rightarrow> JNull | Some x \<Rightarrow> f x)"

text \<open>\<^verbatim>\<open>#[serde(skip_serializing_if = "Option::is_none")]\<close>\<close>

definition skip_none :: "string \<Rightarrow> ('a \<Rightarrow> json) \<Rightarrow> 'a option \<Rightarrow> (string \<times> json) list" where
  "skip_none k f v = (case v of None \<Rightarrow> [] | Some x \<Rightarrow> [(k, f x)])"

text \<open>\<^verbatim>\<open>#[serde(skip_serializing_if = "Vec::is_empty")]\<close>\<close>

definition skip_empty :: "string \<Rightarrow> ('a \<Rightarrow> json) \<Rightarrow> 'a list \<Rightarrow> (string \<times> json) list" where
  "skip_empty k f xs = (if xs = [] then [] else [(k, JArray (map f xs))])"

definition json_get :: "json \<Rightarrow> string \<Rightarrow> json option" where
  "json_get v k = (case v of JObject kvs \<Rightarrow> bt_get kvs k | _ \<Rightarrow> None)"

definition as_str :: "json \<Rightarrow> string option" where
  "as_str v = (case v of JString s \<Rightarrow> Some s | _ \<Rightarrow> None)"

lemma size_list_elem: "x \<in> set xs \<Longrightarrow> f x \<le> size_list f xs"
  by (induction xs) auto

lemma size_entry: "(k, v) \<in> set kvs \<Longrightarrow> size v \<le> size_list (size_prod (\<lambda>_. 0) size) kvs"
  by (induction kvs) auto

text \<open>Objects are backed by an ordered map: keys increase at every level.\<close>

function json_wf :: "json \<Rightarrow> bool" where
  "json_wf JNull \<longleftrightarrow> True"
| "json_wf (JBool b) \<longleftrightarrow> True"
| "json_wf (JNumber n) \<longleftrightarrow> True"
| "json_wf (JString s) \<longleftrightarrow> True"
| "json_wf (JArray xs) \<longleftrightarrow> list_all json_wf xs"
| "json_wf (JObject kvs) \<longleftrightarrow> bt_inv kvs \<and> list_all (\<lambda>kv. json_wf (snd kv)) kvs"
  by pat_completeness auto
termination
  by (relation "measure size") (auto simp: less_Suc_eq_le size_list_elem size_entry)

function normalize_json :: "json \<Rightarrow> json" where
  "normalize_json (JArray items) = JArray (map normalize_json items)"
| "normalize_json (JObject items) =
     JObject (bt_collect (bt_collect (map (\<lambda>kv. (fst kv, normalize_json (snd kv))) items)))"
| "normalize_json JNull = JNull"
| "normalize_json (JBool b) = JBool b"
| "normalize_json (JNumber n) = JNumber n"
| "normalize_json (JString s) = JString s"
  by pat_completeness auto
termination
  by (relation "measure size") (auto simp: less_Suc_eq_le size_list_elem size_entry)

section \<open>Digests\<close>

record codec =
  to_vec :: "json \<Rightarrow> (string, string) result"
  sha256 :: "string \<Rightarrow> string"

datatype evidence_status = Pass | Fail | Pending | NotRun

datatype receipt_error =
    RcpSerialization string
  | RcpUnsupportedSchemaVersion string
  | RcpUnsupportedSourceSnapshotSchemaVersion string
  | RcpEmptyField string
  | RcpControlCharacter string
  | RcpInvalidCommitSha string
  | RcpInvalidRepositoryIdentity
  | RcpInvalidSha256 string
  | RcpInvalidTimestamp string
  | RcpInvalidRunWindow
  | RcpImageDigestMismatch
  | RcpUnsafePath string
  | RcpNoChecks
  | RcpNoRequiredChecks
  | RcpDuplicateCheckId string
  | RcpInvalidCommand string
  | RcpInvalidCheckResult string
  | RcpMissingIncompleteReason string
  | RcpUnexpectedIncompleteReason string
  | RcpInvalidSourceSnapshotEntryCount u64
  | RcpOverallStatusMismatch evidence_status evidence_status
  | RcpDigestMismatch string string
  | RcpExecutionPlanDigestMismatch string string
  | RcpExecutionPlanCheckMismatch string
  | RcpDuplicateArtifactEvidence string
  | RcpArtifactManifestMismatch string
  | RcpMissingRuntimeCapabilityEvidence
  | RcpUnexpectedRuntimeCapabilityEvidence
  | RcpInvalidRuntimeCapabilityEvidence string
  | RcpRuntimeCapabilityEvidenceMismatch

definition RECEIPT_ID_PREFIX :: string where
  "RECEIPT_ID_PREFIX = ''sha256:''"

definition hex_digit :: "nat \<Rightarrow> char" where
  "hex_digit n = ''0123456789abcdef'' ! n"

definition encode_hex :: "string \<Rightarrow> string" where
  "encode_hex bytes = concat (map (\<lambda>b. [hex_digit (byte_val b div 16), hex_digit (byte_val b mod 16)]) bytes)"

definition canonical_json :: "codec \<Rightarrow> json \<Rightarrow> (receipt_error, string) result" where
  "canonical_json cx v = map_err RcpSerialization (to_vec cx (normalize_json v))"

definition canonical_digest :: "codec \<Rightarrow> json \<Rightarrow> (receipt_error, string) result" where
  "canonical_digest cx v =
     and_then (canonical_json cx v) (\<lambda>bytes. Ok (RECEIPT_ID_PREFIX @ encode_hex (sha256 cx bytes)))"

text \<open>The shape every digest of the program has: the prefix and 64 lowercase hex digits.\<close>

definition sha256_text :: "string \<Rightarrow> bool" where
  "sha256_text s \<longleftrightarrow> (case strip_prefix RECEIPT_ID_PREFIX s of
     None \<Rightarrow> False
   | Some hex \<Rightarrow> length hex = 64 \<and> list_all is_lower_hex hex)"

section \<open>Normalization\<close>

lemma normalize_json_wf: "json_wf (normalize_json v)"
proof (induction v rule: normalize_json.induct)
  case (2 items)
  let ?m = "bt_collect (map (\<lambda>kv. (fst kv, normalize_json (snd kv))) items)"
  have "json_wf (snd kv)" if "kv \<in> set ?m" for kv
    using set_bt_collect [OF that] "2.IH" by auto
  then show ?case by (simp add: bt_collect_sorted_id list_all_iff)
qed (auto simp: list_all_iff)

lemma normalize_json_id: "json_wf v \<Longrightarrow> normalize_json v = v"
proof (induction v rule: normalize_json.induct)
  case (1 items)
  then show ?case by (simp add: list_all_iff map_idI)
next
  case (2 items)
  then have "map (\<lambda>kv. (fst kv, normalize_json (snd kv))) items = items"
    by (intro map_idI) (auto simp: list_all_iff)
  with "2.prems" show ?case by (simp add: bt_collect_sorted_id)
qed auto

text \<open>Objects with the same lookups have one normal form, whatever order they were built in.\<close>

lemma normalize_json_object_cong:
  assumes "map_of (rev kvs) = map_of (rev kvs')"
  shows "normalize_json (JObject kvs) = normalize_json (JObject kvs')"
proof -
  let ?n = "\<lambda>kvs. map (\<lambda>kv. (fst kv, normalize_json (snd kv))) kvs"
  have look: "map_of (rev (?n kvs)) = map_option normalize_json \<circ> map_of (rev kvs)" for kvs
    using map_of_map [of normalize_json "rev kvs"] by (simp add: rev_map split_beta')
  have "map_of (bt_collect (?n kvs)) = map_of (bt_collect (?n kvs'))"
    using assms by (simp add: map_of_bt_collect look)
  then have "bt_collect (?n kvs) = bt_collect (?n kvs')"
    using bt.entries_unique [of "bt_collect (?n kvs)" "bt_collect (?n kvs')"] by simp
  then show ?thesis by simp
qed

section \<open>Hexadecimal text\<close>

lemma hex_digit_hex: "n < 16 \<Longrightarrow> is_lower_hex (hex_digit n)"
proof -
  assume "n < 16"
  then have "n \<in> set [0..<16]" by simp
  moreover have "list_all (\<lambda>n. is_lower_hex (hex_digit n)) [0..<16]" by code_simp
  ultimately show ?thesis by (simp only: list_all_iff)
qed

lemma hex_digit_inj: "m < 16 \<Longrightarrow> n < 16 \<Longrightarrow> hex_digit m = hex_digit n \<longleftrightarrow> m = n"
proof -
  assume "m < 16" "n < 16"
  moreover have "distinct ''0123456789abcdef''" by code_simp
  ultimately show ?thesis by (simp add: hex_digit_def nth_eq_iff_index_eq)
qed

lemma encode_hex_simps [simp]:
  "encode_hex [] = []"
  "encode_hex (b # bs) = hex_digit (byte_val b div 16) # hex_digit (byte_val b mod 16) # encode_hex bs"
  by (simp_all add: encode_hex_def)

lemma length_encode_hex [simp]: "length (encode_hex bs) = 2 * length bs"
  by (induction bs) auto

lemma encode_hex_lower: "list_all is_lower_hex (encode_hex bs)"
proof (induction bs)
  case (Cons b bs)
  have "byte_val b < 256" by simp
  then have "byte_val b div 16 < 16" "byte_val b mod 16 < 16" by linarith+
  with Cons show ?case by (simp add: hex_digit_hex)
qed simp

lemma encode_hex_inj: "encode_hex bs = encode_hex bs' \<Longrightarrow> bs = bs'"
proof (induction bs arbitrary: bs')
  case Nil
  then show ?case by (cases bs') auto
next
  case (Cons b bs)
  then obtain c cs where bs': "bs' = c # cs" by (cases bs') auto
  have lt: "byte_val b div 16 < 16" "byte_val c div 16 < 16"
    using nat_of_char_less_256 [of b] nat_of_char_less_256 [of c] by linarith+
  have "byte_val b div 16 = byte_val c div 16" "byte_val b mod 16 = byte_val c mod 16"
    using Cons.prems bs' lt by (simp_all add: hex_digit_inj)
  then have "byte_val b = byte_val c" by (metis div_mult_mod_eq)
  with Cons bs' show ?case by simp
qed

lemma canonical_digest_eq_Ok_iff:
  "canonical_digest cx v = Ok d \<longleftrightarrow>
     (\<exists>bytes. to_vec cx (normalize_json v) = Ok bytes \<and> d = RECEIPT_ID_PREFIX @ encode_hex (sha256 cx bytes))"
  by (auto simp: canonical_digest_def canonical_json_def result_simps)

lemma canonical_digest_text:
  assumes "canonical_digest cx v = Ok d" and "\<And>b. length (sha256 cx b) = 32"
  shows "sha256_text d"
  using assms by (auto simp: canonical_digest_eq_Ok_iff sha256_text_def encode_hex_lower)

text \<open>
  Equal digests of two values: the values have one normal form, or their two canonical texts are
  an explicit SHA-256 collision.
\<close>

definition digest_collision :: "codec \<Rightarrow> json \<Rightarrow> json \<Rightarrow> bool" where
  "digest_collision cx v w \<longleftrightarrow>
     (case (canonical_json cx v, canonical_json cx w) of
        (Inr s, Inr t) \<Rightarrow> s \<noteq> t \<and> sha256 cx s = sha256 cx t
      | _ \<Rightarrow> False)"

definition injective_writer :: "codec \<Rightarrow> bool" where
  "injective_writer cx \<longleftrightarrow> (\<forall>a b t. to_vec cx a = Ok t \<longrightarrow> to_vec cx b = Ok t \<longrightarrow> a = b)"

lemma canonical_digest_binding:
  assumes "canonical_digest cx v = Ok d" and "canonical_digest cx w = Ok d" and inj: "injective_writer cx"
  shows "normalize_json v = normalize_json w \<or> digest_collision cx v w"
proof -
  from assms(1,2) obtain s t where
    s: "to_vec cx (normalize_json v) = Ok s" and t: "to_vec cx (normalize_json w) = Ok t"
    and d: "encode_hex (sha256 cx s) = encode_hex (sha256 cx t)"
    by (auto simp: canonical_digest_eq_Ok_iff)
  from d have "sha256 cx s = sha256 cx t" by (rule encode_hex_inj)
  with inj s t show ?thesis
    by (cases "s = t") (auto simp: injective_writer_def digest_collision_def canonical_json_def)
qed

end
