(* ===== verification/Config_Types.thy ===== *)
theory Config_Types
  imports Canonical
begin

text \<open>
  The data of \<^verbatim>\<open>src/src/config.rs\<close>: the configuration file as parsed (\<open>config_v1\<close> and its
  parts), the normalized execution plan built from it, the errors and their messages, and the
  JSON values the derived serializers give the plan. A structure is a record whose fields carry a
  prefix for the structure, since field names are global in a theory.
\<close>

section \<open>The configuration as parsed\<close>

datatype runtime_kind = DockerCompatible | Host

datatype runtime_pull_policy = PullNever

datatype runtime_swap_mode = SwapDisabled

datatype artifact_kind = RegularFile | Directory

record runtime_config =
  rc_kind :: runtime_kind
  rc_image :: string
  rc_cpu_count :: u16
  rc_memory_mib :: u64
  rc_pids_limit :: u32
  rc_network :: bool
  rc_pull_policy :: "runtime_pull_policy option"
  rc_swap_mode :: "runtime_swap_mode option"

record receipt_config =
  rcc_output :: string
  rcc_freshness_seconds :: u64

definition receipt_config_default :: receipt_config where
  "receipt_config_default = \<lparr>rcc_output = ''.ccp/receipt.json'', rcc_freshness_seconds = 86400\<rparr>"

record runtime_internal_environment_config =
  rie_name :: string
  rie_cache_id :: string

record environment_config =
  env_allow :: "string list"
  env_fixed :: "(string, string) btree_map"
  env_runtime_internal :: "runtime_internal_environment_config list"
  env_remote_secret_only :: "string list"

record cache_config =
  cc_id :: string
  cc_mount_path :: string

record storage_config =
  sc_min_free_bytes :: u64
  sc_receipt_journal_reserve_bytes :: u64
  sc_max_cache_growth_bytes :: u64

record artifact_contract_config =
  ac_path :: string
  ac_kind :: artifact_kind
  ac_max_bytes :: u64
  ac_max_entries :: u64

record check_config =
  ck_id :: string
  ck_required :: bool
  ck_argv :: "string list"
  ck_working_directory :: string
  ck_timeout_seconds :: u64
  ck_depends_on :: "string list"
  ck_artifacts :: "string list"
  ck_artifact_contracts :: "artifact_contract_config list"

record config_v1 =
  cfg_schema_version :: string
  cfg_project :: string
  cfg_runtime :: runtime_config
  cfg_receipt :: receipt_config
  cfg_environment :: environment_config
  cfg_caches :: "cache_config list"
  cfg_storage :: "storage_config option"
  cfg_checks :: "check_config list"

section \<open>The execution plan\<close>

record normalized_runtime =
  nr_kind :: runtime_kind
  nr_image :: string
  nr_cpu_count :: u16
  nr_memory_mib :: u64
  nr_pids_limit :: u32
  nr_network :: bool
  nr_pull_policy :: "runtime_pull_policy option"
  nr_swap_mode :: "runtime_swap_mode option"

record normalized_receipt =
  nrc_output :: string
  nrc_freshness_seconds :: u64

record normalized_fixed_environment =
  nfe_name :: string
  nfe_value_digest :: string

record normalized_runtime_internal_environment =
  nri_name :: string
  nri_cache_id :: string
  nri_container_target :: string

record normalized_environment =
  ne_inherit :: "string list"
  ne_fixed :: "normalized_fixed_environment list"
  ne_runtime_internal :: "normalized_runtime_internal_environment list"
  ne_remote_secret_only :: "string list"

definition environment_names :: "normalized_environment \<Rightarrow> string list" where
  "environment_names e =
     sort (ne_inherit e @ map nfe_name (ne_fixed e) @ map nri_name (ne_runtime_internal e))"

record normalized_cache =
  nc_id :: string
  nc_mount_path :: string

record normalized_storage =
  ns_min_free_bytes :: u64
  ns_receipt_journal_reserve_bytes :: u64
  ns_max_cache_growth_bytes :: u64
  ns_max_artifact_bytes :: u64

record normalized_artifact_contract =
  na_path :: string
  na_kind :: artifact_kind
  na_max_bytes :: u64
  na_max_entries :: u64
  na_producer_check :: string

record normalized_check =
  nk_id :: string
  nk_required :: bool
  nk_argv :: "string list"
  nk_working_directory :: string
  nk_timeout_seconds :: u64
  nk_depends_on :: "string list"
  nk_artifacts :: "string list"
  nk_artifact_contracts :: "normalized_artifact_contract list"

record execution_plan_v1 =
  pl_schema_version :: string
  pl_project :: string
  pl_runtime :: normalized_runtime
  pl_receipt :: normalized_receipt
  pl_environment :: normalized_environment
  pl_caches :: "normalized_cache list"
  pl_storage :: "normalized_storage option"
  pl_checks :: "normalized_check list"

record execution_plan_envelope_v1 =
  pe_plan_digest :: string
  pe_plan :: execution_plan_v1
  pe_fixed_environment :: "(string, string) btree_map"

section \<open>Errors\<close>

text \<open>
  The variants of \<^verbatim>\<open>ConfigError\<close> in order. \<open>CfgPanic\<close> is not one of them: it is the model's value
  for a failed \<^verbatim>\<open>expect\<close> and for an arithmetic overflow, which abort the program.
\<close>

datatype config_error =
    CfgIo string string
  | CfgParse string
  | CfgReceipt receipt_error
  | CfgUnsupportedSchemaVersion string
  | CfgConfigTooLarge nat nat
  | CfgInvalidField string
  | CfgOutOfRange string u64 u64 u64
  | CfgTooManyItems string nat nat
  | CfgNoChecks
  | CfgNoRequiredChecks
  | CfgDuplicateId string string
  | CfgDuplicateValue string
  | CfgDuplicateArtifact string
  | CfgPathOverlap string string
  | CfgSelfDependency string
  | CfgUnknownDependency string string
  | CfgUnknownEnvironmentCache string string
  | CfgMissingStoragePolicy
  | CfgMissingRuntimeCapabilityPolicy
  | CfgDependencyCycle "string list"
  | CfgPlanDigestMismatch
  | CfgPanic string

section \<open>JSON values of the plan\<close>

primrec runtime_kind_to_value :: "runtime_kind \<Rightarrow> json" where
  "runtime_kind_to_value DockerCompatible = JString ''docker_compatible''"
| "runtime_kind_to_value Host = JString ''host''"

primrec pull_policy_to_value :: "runtime_pull_policy \<Rightarrow> json" where
  "pull_policy_to_value PullNever = JString ''never''"

primrec swap_mode_to_value :: "runtime_swap_mode \<Rightarrow> json" where
  "swap_mode_to_value SwapDisabled = JString ''disabled''"

primrec artifact_kind_to_value :: "artifact_kind \<Rightarrow> json" where
  "artifact_kind_to_value RegularFile = JString ''regular-file''"
| "artifact_kind_to_value Directory = JString ''directory''"

definition runtime_to_value :: "normalized_runtime \<Rightarrow> json" where
  "runtime_to_value r = json_object
     ([(''kind'', runtime_kind_to_value (nr_kind r)),
       (''image'', JString (nr_image r)),
       (''cpu_count'', json_u64 (ucast (nr_cpu_count r))),
       (''memory_mib'', json_u64 (nr_memory_mib r)),
       (''pids_limit'', json_u64 (ucast (nr_pids_limit r))),
       (''network'', JBool (nr_network r))]
      @ skip_none ''pull_policy'' pull_policy_to_value (nr_pull_policy r)
      @ skip_none ''swap_mode'' swap_mode_to_value (nr_swap_mode r))"

definition receipt_to_value :: "normalized_receipt \<Rightarrow> json" where
  "receipt_to_value r = json_object
     [(''output'', JString (nrc_output r)),
      (''freshness_seconds'', json_u64 (nrc_freshness_seconds r))]"

definition fixed_environment_to_value :: "normalized_fixed_environment \<Rightarrow> json" where
  "fixed_environment_to_value e = json_object
     [(''name'', JString (nfe_name e)), (''value_digest'', JString (nfe_value_digest e))]"

definition runtime_internal_to_value :: "normalized_runtime_internal_environment \<Rightarrow> json" where
  "runtime_internal_to_value e = json_object
     [(''name'', JString (nri_name e)),
      (''cache_id'', JString (nri_cache_id e)),
      (''container_target'', JString (nri_container_target e))]"

definition environment_to_value :: "normalized_environment \<Rightarrow> json" where
  "environment_to_value e = json_object
     [(''inherit'', JArray (map JString (ne_inherit e))),
      (''fixed'', JArray (map fixed_environment_to_value (ne_fixed e))),
      (''runtime_internal'', JArray (map runtime_internal_to_value (ne_runtime_internal e))),
      (''remote_secret_only'', JArray (map JString (ne_remote_secret_only e)))]"

definition cache_to_value :: "normalized_cache \<Rightarrow> json" where
  "cache_to_value c = json_object
     [(''id'', JString (nc_id c)), (''mount_path'', JString (nc_mount_path c))]"

definition storage_to_value :: "normalized_storage \<Rightarrow> json" where
  "storage_to_value s = json_object
     [(''min_free_bytes'', json_u64 (ns_min_free_bytes s)),
      (''receipt_journal_reserve_bytes'', json_u64 (ns_receipt_journal_reserve_bytes s)),
      (''max_cache_growth_bytes'', json_u64 (ns_max_cache_growth_bytes s)),
      (''max_artifact_bytes'', json_u64 (ns_max_artifact_bytes s))]"

definition artifact_contract_to_value :: "normalized_artifact_contract \<Rightarrow> json" where
  "artifact_contract_to_value a = json_object
     [(''path'', JString (na_path a)),
      (''kind'', artifact_kind_to_value (na_kind a)),
      (''max_bytes'', json_u64 (na_max_bytes a)),
      (''max_entries'', json_u64 (na_max_entries a)),
      (''producer_check'', JString (na_producer_check a))]"

definition check_to_value :: "normalized_check \<Rightarrow> json" where
  "check_to_value c = json_object
     ([(''id'', JString (nk_id c)),
       (''required'', JBool (nk_required c)),
       (''argv'', JArray (map JString (nk_argv c))),
       (''working_directory'', JString (nk_working_directory c)),
       (''timeout_seconds'', json_u64 (nk_timeout_seconds c)),
       (''depends_on'', JArray (map JString (nk_depends_on c))),
       (''artifacts'', JArray (map JString (nk_artifacts c)))]
      @ skip_empty ''artifact_contracts'' artifact_contract_to_value (nk_artifact_contracts c))"

definition plan_to_value :: "execution_plan_v1 \<Rightarrow> json" where
  "plan_to_value p = json_object
     ([(''schema_version'', JString (pl_schema_version p)),
       (''project'', JString (pl_project p)),
       (''runtime'', runtime_to_value (pl_runtime p)),
       (''receipt'', receipt_to_value (pl_receipt p)),
       (''environment'', environment_to_value (pl_environment p)),
       (''caches'', JArray (map cache_to_value (pl_caches p)))]
      @ skip_none ''storage'' storage_to_value (pl_storage p)
      @ [(''checks'', JArray (map check_to_value (pl_checks p)))])"

definition plan_envelope_to_value :: "execution_plan_envelope_v1 \<Rightarrow> json" where
  "plan_envelope_to_value e = json_object
     [(''plan_digest'', JString (pe_plan_digest e)), (''plan'', plan_to_value (pe_plan e))]"

end
