(* ===== verification/Config.thy ===== *)
theory Config
  imports Config_Types
begin

text \<open>
  Validation and normalization of the configuration (\<^verbatim>\<open>src/src/config.rs\<close>): every validator and
  every \<open>normalize_\<close> function in the order of the file, the deterministic topological order of the
  checks, and \<open>into_plan\<close>, which composes them into the execution plan.
\<close>

section \<open>Limits\<close>

definition CONFIG_SCHEMA_VERSION :: string where
  "CONFIG_SCHEMA_VERSION = ''1.0''"

definition MAX_CONFIG_BYTES :: nat where
  "MAX_CONFIG_BYTES = 1048576"

definition MAX_CHECKS :: nat where
  "MAX_CHECKS = 128"

definition MAX_CACHES :: nat where
  "MAX_CACHES = 32"

definition MAX_ARGV_PARTS :: nat where
  "MAX_ARGV_PARTS = 64"

definition MAX_STRING_BYTES :: nat where
  "MAX_STRING_BYTES = 4096"

definition MAX_TIMEOUT_SECONDS :: u64 where
  "MAX_TIMEOUT_SECONDS = 86400"

definition MAX_MEMORY_MIB :: u64 where
  "MAX_MEMORY_MIB = 262144"

definition MAX_CPU_COUNT :: u16 where
  "MAX_CPU_COUNT = 256"

definition MAX_PIDS :: u32 where
  "MAX_PIDS = 65536"

definition MAX_STORAGE_BYTES :: u64 where
  "MAX_STORAGE_BYTES = 1099511627776"

definition MIN_RECEIPT_JOURNAL_RESERVE_BYTES :: u64 where
  "MIN_RECEIPT_JOURNAL_RESERVE_BYTES = 4096"

section \<open>Field validators\<close>

definition validate_text :: "string \<Rightarrow> string \<Rightarrow> (config_error, unit) result" where
  "validate_text field v =
     (if v = [] \<or> MAX_STRING_BYTES < length v \<or> any_control v
      then Err (CfgInvalidField field) else Ok ())"

definition validate_identifier :: "string \<Rightarrow> string \<Rightarrow> (config_error, unit) result" where
  "validate_identifier field v =
     and_then (validate_text field v) (\<lambda>_.
       if length v \<le> 64 \<and> list_all is_name_char (chars v) \<and> v \<noteq> ''.'' \<and> v \<noteq> ''..''
       then Ok () else Err (CfgInvalidField field))"

definition validate_environment_name :: "string \<Rightarrow> (config_error, unit) result" where
  "validate_environment_name v =
     and_then (validate_text ''environment.allow'' v) (\<lambda>_.
       case chars v of
         [] \<Rightarrow> Err (CfgInvalidField ''environment.allow'')
       | c # cs \<Rightarrow>
           if (c = 95 \<or> is_ascii_alphabetic c) \<and> list_all (\<lambda>c. c = 95 \<or> is_ascii_alphanumeric c) cs
           then Ok () else Err (CfgInvalidField ''environment.allow''))"

text \<open>\<^verbatim>\<open>segments.next().unwrap_or_default()\<close> and the rest of the iterator.\<close>

definition next_segment :: "string list \<Rightarrow> string \<times> string list" where
  "next_segment segs = (case segs of [] \<Rightarrow> ([], []) | s # r \<Rightarrow> (s, r))"

definition validate_repository_identity :: "string \<Rightarrow> (config_error, unit) result" where
  "validate_repository_identity v =
     (let (owner, r1) = next_segment (split_on (CHR ''/'') v);
          (repository, r2) = next_segment r1
      in and_then (validate_identifier ''project'' owner) (\<lambda>_.
         and_then (validate_identifier ''project'' repository) (\<lambda>_.
           if r2 \<noteq> [] then Err (CfgInvalidField ''project'') else Ok ())))"

definition safe_relative_path :: "string \<Rightarrow> bool" where
  "safe_relative_path v \<longleftrightarrow>
     v = ''.'' \<or>
     \<not> starts_with ''/'' v \<and> \<not> starts_with ''~'' v \<and> CHR 0x5C \<notin> set v \<and> CHR '':'' \<notin> set v \<and>
     list_all (\<lambda>seg. seg \<noteq> [] \<and> seg \<noteq> ''.'' \<and> seg \<noteq> ''..'') (split_on (CHR ''/'') v)"

definition validate_relative_path :: "string \<Rightarrow> string \<Rightarrow> (config_error, unit) result" where
  "validate_relative_path field v =
     and_then (validate_text field v) (\<lambda>_.
       if safe_relative_path v then Ok () else Err (CfgInvalidField field))"

definition validate_image_reference :: "string \<Rightarrow> (config_error, unit) result" where
  "validate_image_reference v =
     and_then (validate_text ''runtime.image'' v) (\<lambda>_.
       case rsplit_once (CHR ''@'') v of
         None \<Rightarrow> Err (CfgInvalidField ''runtime.image'')
       | Some (name, digest) \<Rightarrow>
           (case strip_prefix ''sha256:'' digest of
              None \<Rightarrow> Err (CfgInvalidField ''runtime.image'')
            | Some hex \<Rightarrow>
                if name \<noteq> [] \<and> \<not> list_ex is_whitespace (chars name) \<and> CHR ''@'' \<notin> set name \<and>
                   \<not> contains_str ''://'' name \<and> CHR 0x5C \<notin> set name \<and>
                   length hex = 64 \<and> list_all is_lower_hex hex
                then Ok () else Err (CfgInvalidField ''runtime.image'')))"

definition validate_bounded :: "string \<Rightarrow> u64 \<Rightarrow> u64 \<Rightarrow> u64 \<Rightarrow> (config_error, unit) result" where
  "validate_bounded field value minimum maximum =
     (if minimum \<le> value \<and> value \<le> maximum then Ok ()
      else Err (CfgOutOfRange field minimum maximum value))"

text \<open>A loop that validates each value and rejects a repeated one.\<close>

definition unique_sorted_step ::
  "string \<Rightarrow> (string \<Rightarrow> (config_error, unit) result) \<Rightarrow> string btree_set \<Rightarrow> string
     \<Rightarrow> (config_error, string btree_set) result" where
  "unique_sorted_step field validate unique value =
     and_then (validate value) (\<lambda>_.
       if value \<in> set unique then Err (CfgDuplicateValue field) else Ok (bs_insert value unique))"

definition unique_sorted ::
  "string \<Rightarrow> string list \<Rightarrow> (string \<Rightarrow> (config_error, unit) result)
     \<Rightarrow> (config_error, string list) result" where
  "unique_sorted field values validate = try_fold (unique_sorted_step field validate) [] values"

section \<open>Top level and runtime\<close>

definition validate_top_level :: "config_v1 \<Rightarrow> (config_error, unit) result" where
  "validate_top_level cfg =
     (if cfg_schema_version cfg \<notin> {CONFIG_SCHEMA_VERSION, ''1.1'', ''1.2'', ''1.3''}
      then Err (CfgUnsupportedSchemaVersion (cfg_schema_version cfg))
      else
        and_then (validate_repository_identity (cfg_project cfg)) (\<lambda>_.
        and_then (validate_image_reference (rc_image (cfg_runtime cfg))) (\<lambda>_.
        and_then (validate_bounded ''runtime.cpu_count'' (ucast (rc_cpu_count (cfg_runtime cfg)))
                    1 (ucast MAX_CPU_COUNT)) (\<lambda>_.
        and_then (validate_bounded ''runtime.memory_mib'' (rc_memory_mib (cfg_runtime cfg))
                    64 MAX_MEMORY_MIB) (\<lambda>_.
        and_then (validate_bounded ''runtime.pids_limit'' (ucast (rc_pids_limit (cfg_runtime cfg)))
                    1 (ucast MAX_PIDS)) (\<lambda>_.
        and_then (validate_relative_path ''receipt.output'' (rcc_output (cfg_receipt cfg))) (\<lambda>_.
          if rcc_output (cfg_receipt cfg) = ''.'' then Err (CfgInvalidField ''receipt.output'')
          else validate_bounded ''receipt.freshness_seconds''
                 (rcc_freshness_seconds (cfg_receipt cfg)) 1 31536000)))))))"

definition normalize_runtime :: "string \<Rightarrow> runtime_config \<Rightarrow> (config_error, normalized_runtime) result" where
  "normalize_runtime schema_version r =
     and_then
       (if schema_version = ''1.3'' then
          and_then (ok_or CfgMissingRuntimeCapabilityPolicy (rc_pull_policy r)) (\<lambda>pull.
          and_then (ok_or CfgMissingRuntimeCapabilityPolicy (rc_swap_mode r)) (\<lambda>swap.
            Ok (Some pull, Some swap)))
        else if rc_pull_policy r \<noteq> None then Err (CfgInvalidField ''runtime.pull_policy'')
        else if rc_swap_mode r \<noteq> None then Err (CfgInvalidField ''runtime.swap_mode'')
        else Ok (None, None))
       (\<lambda>(pull, swap). Ok
          \<lparr>nr_kind = rc_kind r, nr_image = rc_image r, nr_cpu_count = rc_cpu_count r,
           nr_memory_mib = rc_memory_mib r, nr_pids_limit = rc_pids_limit r,
           nr_network = rc_network r, nr_pull_policy = pull, nr_swap_mode = swap\<rparr>)"

section \<open>Caches\<close>

definition normalize_cache_step ::
  "(string, normalized_cache) btree_map \<times> string btree_set \<Rightarrow> cache_config
     \<Rightarrow> (config_error, (string, normalized_cache) btree_map \<times> string btree_set) result" where
  "normalize_cache_step st cache =
     (let (by_id, mount_paths) = st
      in and_then (validate_identifier ''cache.id'' (cc_id cache)) (\<lambda>_.
         and_then (validate_relative_path ''cache.mount_path'' (cc_mount_path cache)) (\<lambda>_.
           if cc_mount_path cache = ''.'' then Err (CfgInvalidField ''cache.mount_path'')
           else if bt_contains by_id (cc_id cache) then Err (CfgDuplicateId ''cache.id'' (cc_id cache))
           else if cc_mount_path cache \<in> set mount_paths
           then Err (CfgDuplicateValue ''cache.mount_path'')
           else Ok (bt_insert (cc_id cache)
                      \<lparr>nc_id = cc_id cache, nc_mount_path = cc_mount_path cache\<rparr> by_id,
                    bs_insert (cc_mount_path cache) mount_paths))))"

definition normalize_caches :: "cache_config list \<Rightarrow> (config_error, normalized_cache list) result" where
  "normalize_caches caches =
     (if MAX_CACHES < length caches then Err (CfgTooManyItems ''caches'' (length caches) MAX_CACHES)
      else and_then (try_fold normalize_cache_step ([], []) caches)
             (\<lambda>(by_id, _). Ok (bt_values by_id)))"

section \<open>Checks\<close>

definition validate_check :: "check_config \<Rightarrow> (config_error, unit) result" where
  "validate_check ck =
     and_then (validate_identifier ''check.id'' (ck_id ck)) (\<lambda>_.
       if ck_argv ck = [] \<or> MAX_ARGV_PARTS < length (ck_argv ck)
       then Err (CfgInvalidField ''check.argv'')
       else
         and_then (try_each (validate_text ''check.argv'') (ck_argv ck)) (\<lambda>_.
         and_then (validate_relative_path ''check.working_directory'' (ck_working_directory ck)) (\<lambda>_.
           validate_bounded ''check.timeout_seconds'' (ck_timeout_seconds ck) 1 MAX_TIMEOUT_SECONDS)))"

definition normalize_check :: "check_config \<Rightarrow> normalized_check" where
  "normalize_check ck =
     \<lparr>nk_id = ck_id ck, nk_required = ck_required ck, nk_argv = ck_argv ck,
      nk_working_directory = ck_working_directory ck, nk_timeout_seconds = ck_timeout_seconds ck,
      nk_depends_on = ck_depends_on ck, nk_artifacts = ck_artifacts ck,
      nk_artifact_contracts =
        map (\<lambda>a. \<lparr>na_path = ac_path a, na_kind = ac_kind a, na_max_bytes = ac_max_bytes a,
                  na_max_entries = ac_max_entries a, na_producer_check = ck_id ck\<rparr>)
          (ck_artifact_contracts ck)\<rparr>"

definition maximum_entries :: "artifact_kind \<Rightarrow> u64" where
  "maximum_entries k = (case k of RegularFile \<Rightarrow> 1 | Directory \<Rightarrow> 10000)"

definition validate_artifact_contract_step ::
  "check_config \<Rightarrow> string btree_set \<Rightarrow> artifact_contract_config
     \<Rightarrow> (config_error, string btree_set) result" where
  "validate_artifact_contract_step ck paths a =
     and_then (validate_relative_path ''check.artifact_contracts.path'' (ac_path a)) (\<lambda>_.
       if ac_path a = ''.'' \<or> ac_path a \<notin> set (ck_artifacts ck)
       then Err (CfgInvalidField ''check.artifact_contracts.path'')
       else if ac_path a \<in> set paths then Err (CfgDuplicateValue ''check.artifact_contracts.path'')
       else
         and_then (validate_bounded ''check.artifact_contracts.max_bytes'' (ac_max_bytes a) 1 1073741824)
           (\<lambda>_.
         and_then (validate_bounded ''check.artifact_contracts.max_entries'' (ac_max_entries a) 1
                     (maximum_entries (ac_kind a))) (\<lambda>_.
           if ac_kind a = RegularFile \<and> ac_max_entries a \<noteq> 1
           then Err (CfgInvalidField ''check.artifact_contracts.max_entries'')
           else Ok (bs_insert (ac_path a) paths))))"

definition validate_artifact_contracts :: "check_config \<Rightarrow> (config_error, unit) result" where
  "validate_artifact_contracts ck =
     and_then (try_fold (validate_artifact_contract_step ck) [] (ck_artifact_contracts ck)) (\<lambda>_. Ok ())"

definition validate_check_dependencies ::
  "(string, check_config) btree_map \<Rightarrow> check_config \<Rightarrow> (config_error, unit) result" where
  "validate_check_dependencies by_id ck =
     try_each (\<lambda>d. if d = ck_id ck then Err (CfgSelfDependency (ck_id ck))
                    else if \<not> bt_contains by_id d then Err (CfgUnknownDependency (ck_id ck) d)
                    else Ok ()) (ck_depends_on ck)"

definition validate_dependencies :: "(string, check_config) btree_map \<Rightarrow> (config_error, unit) result" where
  "validate_dependencies by_id = try_each (validate_check_dependencies by_id) (bt_values by_id)"

text \<open>
  \<open>topological_checks\<close>: the in-degrees, the dependents of each check, and the work-list loop,
  which always takes the least ready identifier.
\<close>

definition initial_indegree :: "(string, check_config) btree_map \<Rightarrow> (string, nat) btree_map" where
  "initial_indegree by_id = map (\<lambda>(k, ck). (k, length (ck_depends_on ck))) by_id"

definition add_dependent ::
  "string \<Rightarrow> (string, string btree_set) btree_map \<Rightarrow> string \<Rightarrow> (string, string btree_set) btree_map" where
  "add_dependent k deps d =
     bt_insert d (bs_insert k (case bt_get deps d of None \<Rightarrow> [] | Some s \<Rightarrow> s)) deps"

definition collect_dependents ::
  "(string, check_config) btree_map \<Rightarrow> (string, string btree_set) btree_map" where
  "collect_dependents by_id =
     fold (\<lambda>(k, ck) deps. fold (\<lambda>d deps. add_dependent k deps d) (ck_depends_on ck) deps) by_id []"

definition relax_child ::
  "string btree_set \<times> (string, nat) btree_map \<Rightarrow> string
     \<Rightarrow> (config_error, string btree_set \<times> (string, nat) btree_map) result" where
  "relax_child st child =
     (let (ready, indegree) = st
      in case bt_get indegree child of
           None \<Rightarrow> Err (CfgPanic ''dependent check exists'')
         | Some count \<Rightarrow>
             if count = 0 then Err (CfgPanic ''attempt to subtract with overflow'')
             else Ok (if count - 1 = 0 then bs_insert child ready else ready,
                      bt_update child (count - 1) indegree))"

definition indegree_weight :: "string btree_set \<times> (string, nat) btree_map \<Rightarrow> nat" where
  "indegree_weight st = length (fst st) + sum_list (map snd (snd st))"

lemma length_bs_insert: "length (bs_insert k s) \<le> Suc (length s)"
  by (induction k s rule: bs_insert.induct) auto

lemma sum_bt_update:
  "bt_get m k = Some v \<Longrightarrow> sum_list (map snd (bt_update k w m)) + v = sum_list (map snd m) + w"
  for m :: "('k::linorder, nat) btree_map"
  by (induction k w m rule: bt_update.induct) (auto split: if_splits)

lemma relax_child_weight:
  assumes "relax_child st child = Inr st'"
  shows "indegree_weight st' \<le> indegree_weight st"
proof -
  obtain ready indegree where st: "st = (ready, indegree)" by (cases st)
  from assms st obtain c where c: "bt_get indegree child = Some c" and pos: "c \<noteq> 0"
    and st': "st' = (if c - 1 = 0 then bs_insert child ready else ready, bt_update child (c - 1) indegree)"
    by (auto simp: relax_child_def split: option.splits if_splits)
  from sum_bt_update [OF c, of "c - 1"] pos
  have "Suc (sum_list (map snd (bt_update child (c - 1) indegree))) = sum_list (map snd indegree)"
    by linarith
  with length_bs_insert [of child ready] show ?thesis
    by (auto simp: indegree_weight_def st st')
qed

lemma relax_children_weight:
  "try_fold relax_child st cs = Inr st' \<Longrightarrow> indegree_weight st' \<le> indegree_weight st"
proof (induction cs arbitrary: st)
  case (Cons c cs)
  then show ?case by (force simp: result_simps dest: relax_child_weight intro: order_trans)
qed simp

function topological_loop ::
  "(string, check_config) btree_map \<Rightarrow> (string, string btree_set) btree_map \<Rightarrow> string btree_set
     \<Rightarrow> (string, nat) btree_map \<Rightarrow> normalized_check list
     \<Rightarrow> (config_error, normalized_check list \<times> (string, nat) btree_map) result" where
  "topological_loop by_id dependents ready indegree ordered =
     (case ready of
        [] \<Rightarrow> Ok (ordered, indegree)
      | k # rest \<Rightarrow>
          (case bt_get by_id k of
             None \<Rightarrow> Err (CfgPanic ''ready check exists'')
           | Some ck \<Rightarrow>
               (case try_fold relax_child (rest, indegree)
                       (case bt_get dependents k of None \<Rightarrow> [] | Some children \<Rightarrow> children) of
                  Inl e \<Rightarrow> Err e
                | Inr (ready', indegree') \<Rightarrow>
                    topological_loop by_id dependents ready' indegree'
                      (ordered @ [normalize_check ck]))))"
  by pat_completeness auto
termination
  by (relation "measure (\<lambda>(by_id, dependents, ready, indegree, ordered). indegree_weight (ready, indegree))")
    (auto dest!: relax_children_weight simp: indegree_weight_def)

declare topological_loop.simps [simp del]

definition topological_checks ::
  "(string, check_config) btree_map \<Rightarrow> (config_error, normalized_check list) result" where
  "topological_checks by_id =
     (let indegree = initial_indegree by_id;
          dependents = collect_dependents by_id;
          ready = bs_collect (map fst (filter (\<lambda>kv. snd kv = 0) indegree))
      in and_then (topological_loop by_id dependents ready indegree []) (\<lambda>(ordered, indegree').
           if length ordered \<noteq> length by_id
           then Err (CfgDependencyCycle (map fst (filter (\<lambda>kv. 0 < snd kv) indegree')))
           else Ok ordered))"

definition normalize_check_step ::
  "(string, check_config) btree_map \<Rightarrow> check_config
     \<Rightarrow> (config_error, (string, check_config) btree_map) result" where
  "normalize_check_step by_id ck =
     and_then (validate_check ck) (\<lambda>_.
     and_then (unique_sorted ''check.depends_on'' (ck_depends_on ck)
                 (validate_identifier ''check.depends_on'')) (\<lambda>depends_on.
     and_then (unique_sorted ''check.artifacts'' (ck_artifacts ck)
                 (validate_relative_path ''check.artifacts'')) (\<lambda>artifacts.
       let ck' = ck\<lparr>ck_depends_on := depends_on, ck_artifacts := artifacts\<rparr>
       in if ''.'' \<in> set artifacts then Err (CfgInvalidField ''check.artifacts'')
          else and_then (validate_artifact_contracts ck') (\<lambda>_.
            if bt_contains by_id (ck_id ck) then Err (CfgDuplicateId ''check.id'' (ck_id ck))
            else Ok (bt_insert (ck_id ck) ck' by_id)))))"

definition normalize_checks :: "check_config list \<Rightarrow> (config_error, normalized_check list) result" where
  "normalize_checks checks =
     (if checks = [] then Err CfgNoChecks
      else if MAX_CHECKS < length checks
      then Err (CfgTooManyItems ''checks'' (length checks) MAX_CHECKS)
      else if \<not> list_ex ck_required checks then Err CfgNoRequiredChecks
      else
        and_then (try_fold normalize_check_step [] checks) (\<lambda>by_id.
        and_then (validate_dependencies by_id) (\<lambda>_. topological_checks by_id)))"

section \<open>Storage\<close>

definition normalize_storage ::
  "string \<Rightarrow> storage_config option \<Rightarrow> normalized_check list
     \<Rightarrow> (config_error, normalized_storage option) result" where
  "normalize_storage schema_version storage checks =
     (if schema_version \<notin> {''1.2'', ''1.3''} then
        (if storage \<noteq> None then Err (CfgInvalidField ''storage'') else Ok None)
      else
        and_then (ok_or CfgMissingStoragePolicy storage) (\<lambda>s.
        and_then (validate_bounded ''storage.min_free_bytes'' (sc_min_free_bytes s) 1 MAX_STORAGE_BYTES) (\<lambda>_.
        and_then (validate_bounded ''storage.receipt_journal_reserve_bytes''
                    (sc_receipt_journal_reserve_bytes s)
                    MIN_RECEIPT_JOURNAL_RESERVE_BYTES MAX_STORAGE_BYTES) (\<lambda>_.
        and_then (validate_bounded ''storage.max_cache_growth_bytes'' (sc_max_cache_growth_bytes s)
                    0 MAX_STORAGE_BYTES) (\<lambda>_.
        and_then (ok_or (CfgInvalidField ''storage.max_artifact_bytes'')
                    (try_fold_option (\<lambda>total a. checked_add total (na_max_bytes a)) 0
                       (concat (map nk_artifact_contracts checks)))) (\<lambda>max_artifact_bytes.
        and_then (ok_or (CfgInvalidField ''storage'')
                    (Option.bind (checked_add (sc_min_free_bytes s) (sc_receipt_journal_reserve_bytes s)) (\<lambda>total.
                     Option.bind (checked_add total (sc_max_cache_growth_bytes s)) (\<lambda>total.
                       checked_add total max_artifact_bytes)))) (\<lambda>required.
          if MAX_STORAGE_BYTES < required
          then Err (CfgOutOfRange ''storage.required_free_bytes'' 1 MAX_STORAGE_BYTES required)
          else Ok (Some
            \<lparr>ns_min_free_bytes = sc_min_free_bytes s,
             ns_receipt_journal_reserve_bytes = sc_receipt_journal_reserve_bytes s,
             ns_max_cache_growth_bytes = sc_max_cache_growth_bytes s,
             ns_max_artifact_bytes = max_artifact_bytes\<rparr>))))))))"

section \<open>Path isolation\<close>

definition path_overlap :: "string \<Rightarrow> string \<Rightarrow> bool" where
  "path_overlap a b \<longleftrightarrow>
     a = b \<or>
     (case strip_prefix b a of None \<Rightarrow> False | Some suffix \<Rightarrow> starts_with ''/'' suffix) \<or>
     (case strip_prefix a b of None \<Rightarrow> False | Some suffix \<Rightarrow> starts_with ''/'' suffix)"

definition reject_path_overlap :: "string \<Rightarrow> string \<Rightarrow> (config_error, unit) result" where
  "reject_path_overlap a b = (if path_overlap a b then Err (CfgPathOverlap a b) else Ok ())"

primrec isolate_caches :: "string \<Rightarrow> string list \<Rightarrow> (config_error, unit) result" where
  "isolate_caches output [] = Ok ()"
| "isolate_caches output (m # ms) =
     and_then (try_each (reject_path_overlap m) ms) (\<lambda>_.
     and_then (reject_path_overlap m output) (\<lambda>_. isolate_caches output ms))"

definition isolate_artifact ::
  "string \<Rightarrow> string list \<Rightarrow> string btree_set \<Rightarrow> string \<Rightarrow> (config_error, string btree_set) result" where
  "isolate_artifact output mounts artifacts artifact =
     (if artifact \<in> set artifacts then Err (CfgDuplicateArtifact artifact)
      else
        and_then (try_each (reject_path_overlap artifact) artifacts) (\<lambda>_.
        and_then (reject_path_overlap artifact output) (\<lambda>_.
        and_then (try_each (reject_path_overlap artifact) mounts) (\<lambda>_.
          Ok (bs_insert artifact artifacts)))))"

definition validate_path_isolation ::
  "normalized_receipt \<Rightarrow> normalized_cache list \<Rightarrow> normalized_check list \<Rightarrow> (config_error, unit) result" where
  "validate_path_isolation receipt caches checks =
     and_then (isolate_caches (nrc_output receipt) (map nc_mount_path caches)) (\<lambda>_.
     and_then (try_fold (\<lambda>artifacts ck.
                 try_fold (isolate_artifact (nrc_output receipt) (map nc_mount_path caches))
                   artifacts (nk_artifacts ck)) [] checks) (\<lambda>_. Ok ()))"

section \<open>Environment\<close>

definition fixed_environment_step ::
  "codec \<Rightarrow> string btree_set \<times> normalized_fixed_environment list \<Rightarrow> string \<times> string
     \<Rightarrow> (config_error, string btree_set \<times> normalized_fixed_environment list) result" where
  "fixed_environment_step cx st nv =
     (let (names, fixed) = st; (name, value) = nv
      in and_then (validate_environment_name name) (\<lambda>_.
         and_then (validate_text ''environment.fixed'' value) (\<lambda>_.
           if name \<in> set names then Err (CfgDuplicateValue ''environment'')
           else and_then (map_err CfgReceipt (canonical_digest cx (JString value))) (\<lambda>d.
             Ok (bs_insert name names, fixed @ [\<lparr>nfe_name = name, nfe_value_digest = d\<rparr>])))))"

definition runtime_internal_step ::
  "(string, string) btree_map
     \<Rightarrow> string btree_set \<times> normalized_runtime_internal_environment list
     \<Rightarrow> runtime_internal_environment_config
     \<Rightarrow> (config_error, string btree_set \<times> normalized_runtime_internal_environment list) result" where
  "runtime_internal_step cache_targets st binding =
     (let (names, bound) = st
      in and_then (validate_environment_name (rie_name binding)) (\<lambda>_.
         and_then (validate_identifier ''environment.runtime_internal.cache_id'' (rie_cache_id binding)) (\<lambda>_.
           if rie_name binding \<in> set names then Err (CfgDuplicateValue ''environment'')
           else and_then (ok_or (CfgUnknownEnvironmentCache (rie_name binding) (rie_cache_id binding))
                            (bt_get cache_targets (rie_cache_id binding))) (\<lambda>mount_path.
             Ok (bs_insert (rie_name binding) names,
                 bound @ [\<lparr>nri_name = rie_name binding, nri_cache_id = rie_cache_id binding,
                           nri_container_target = ''/workspace/'' @ mount_path\<rparr>])))))"

definition remote_secret_step ::
  "string btree_set \<Rightarrow> string \<Rightarrow> (config_error, string btree_set) result" where
  "remote_secret_step names name =
     (if name \<in> set names then Err (CfgDuplicateValue ''environment'') else Ok (bs_insert name names))"

definition normalize_environment ::
  "codec \<Rightarrow> string \<Rightarrow> environment_config \<Rightarrow> normalized_cache list
     \<Rightarrow> (config_error, normalized_environment) result" where
  "normalize_environment cx schema_version env caches =
     and_then (unique_sorted ''environment.allow'' (env_allow env) validate_environment_name) (\<lambda>inherit.
     and_then (unique_sorted ''environment.remote_secret_only'' (env_remote_secret_only env)
                 validate_environment_name) (\<lambda>remote_secret_only.
       if schema_version = CONFIG_SCHEMA_VERSION \<and>
          (env_fixed env \<noteq> [] \<or> env_runtime_internal env \<noteq> [] \<or> remote_secret_only \<noteq> [])
       then Err (CfgInvalidField ''environment'')
       else if schema_version \<noteq> CONFIG_SCHEMA_VERSION \<and> inherit \<noteq> []
       then Err (CfgInvalidField ''environment.allow'')
       else
         and_then (try_fold (fixed_environment_step cx) (bs_collect inherit, []) (env_fixed env))
           (\<lambda>(names, fixed).
         and_then (try_fold (runtime_internal_step
                       (bt_collect (map (\<lambda>c. (nc_id c, nc_mount_path c)) caches)))
                     (names, []) (env_runtime_internal env)) (\<lambda>(names, bound).
         and_then (try_fold remote_secret_step names remote_secret_only) (\<lambda>_.
           Ok \<lparr>ne_inherit = inherit, ne_fixed = sort_key nfe_name fixed,
               ne_runtime_internal = sort_key nri_name bound,
               ne_remote_secret_only = remote_secret_only\<rparr>)))))"

section \<open>The plan\<close>

definition parse_config :: "(string \<Rightarrow> (string, config_v1) result) \<Rightarrow> string \<Rightarrow> (config_error, config_v1) result" where
  "parse_config from_str input =
     (if MAX_CONFIG_BYTES < length input
      then Err (CfgConfigTooLarge (length input) MAX_CONFIG_BYTES)
      else map_err CfgParse (from_str input))"

definition into_plan :: "codec \<Rightarrow> config_v1 \<Rightarrow> (config_error, execution_plan_envelope_v1) result" where
  "into_plan cx cfg =
     and_then (validate_top_level cfg) (\<lambda>_.
     and_then (normalize_caches (cfg_caches cfg)) (\<lambda>caches.
     and_then (normalize_runtime (cfg_schema_version cfg) (cfg_runtime cfg)) (\<lambda>runtime.
     and_then (normalize_environment cx (cfg_schema_version cfg) (cfg_environment cfg) caches) (\<lambda>environment.
     and_then (normalize_checks (cfg_checks cfg)) (\<lambda>checks.
     and_then (normalize_storage (cfg_schema_version cfg) (cfg_storage cfg) checks) (\<lambda>storage.
       let receipt = \<lparr>nrc_output = rcc_output (cfg_receipt cfg),
                      nrc_freshness_seconds = rcc_freshness_seconds (cfg_receipt cfg)\<rparr>
       in and_then (validate_path_isolation receipt caches checks) (\<lambda>_.
          let plan = \<lparr>pl_schema_version = cfg_schema_version cfg, pl_project = cfg_project cfg,
                      pl_runtime = runtime, pl_receipt = receipt, pl_environment = environment,
                      pl_caches = caches, pl_storage = storage, pl_checks = checks\<rparr>
          in and_then (map_err CfgReceipt (canonical_digest cx (plan_to_value plan))) (\<lambda>digest.
             Ok \<lparr>pe_plan_digest = digest, pe_plan = plan,
                 pe_fixed_environment = env_fixed (cfg_environment cfg)\<rparr>))))))))"

definition plan_canonical_bytes :: "codec \<Rightarrow> execution_plan_envelope_v1 \<Rightarrow> (config_error, string) result" where
  "plan_canonical_bytes cx e =
     and_then (map_err CfgReceipt (canonical_digest cx (plan_to_value (pe_plan e)))) (\<lambda>expected.
       if pe_plan_digest e \<noteq> expected then Err CfgPlanDigestMismatch
       else map_err CfgReceipt (canonical_json cx (plan_envelope_to_value e)))"

end
