(* ===== verification/Config_Topo.thy ===== *)
theory Config_Topo
  imports Config
begin

text \<open>
  The order in which the checks run (\<^verbatim>\<open>topological_checks\<close> in \<^verbatim>\<open>src/src/config.rs\<close>). The reference
  order is declarative: each check of the order is the least identifier whose dependencies all
  come before it. The work-list loop computes exactly that order, never panics on validated
  dependencies, and reports a cycle exactly when the dependency relation has one.
\<close>

section \<open>The reference order\<close>

definition check_ids :: "(string, check_config) btree_map \<Rightarrow> string set" where
  "check_ids by_id = fst ` set by_id"

definition deps_of :: "(string, check_config) btree_map \<Rightarrow> string \<Rightarrow> string list" where
  "deps_of by_id k = (case bt_get by_id k of None \<Rightarrow> [] | Some ck \<Rightarrow> ck_depends_on ck)"

text \<open>What validation leaves: ordered map, keys are the ids, dependencies distinct and known.\<close>

definition graph_ok :: "(string, check_config) btree_map \<Rightarrow> bool" where
  "graph_ok by_id \<longleftrightarrow> bt_inv by_id \<and>
     (\<forall>(k, ck)\<in>set by_id. ck_id ck = k \<and> distinct (ck_depends_on ck) \<and>
        set (ck_depends_on ck) \<subseteq> check_ids by_id)"

definition available :: "(string, check_config) btree_map \<Rightarrow> string set \<Rightarrow> string set" where
  "available by_id finished =
     {k \<in> check_ids by_id. k \<notin> finished \<and> set (deps_of by_id k) \<subseteq> finished}"

primrec least_first :: "(string, check_config) btree_map \<Rightarrow> string set \<Rightarrow> string list \<Rightarrow> bool" where
  "least_first by_id finished [] \<longleftrightarrow> True"
| "least_first by_id finished (k # ks) \<longleftrightarrow>
     k \<in> available by_id finished \<and> (\<forall>k'\<in>available by_id finished. k \<le> k') \<and>
     least_first by_id (insert k finished) ks"

definition dependency_relation :: "(string, check_config) btree_map \<Rightarrow> (string \<times> string) set" where
  "dependency_relation by_id = {(d, k). k \<in> check_ids by_id \<and> d \<in> set (deps_of by_id k)}"

definition dependents_of :: "(string, string btree_set) btree_map \<Rightarrow> string \<Rightarrow> string list" where
  "dependents_of m d = (case bt_get m d of None \<Rightarrow> [] | Some s \<Rightarrow> s)"

text \<open>What the loop keeps between its iterations.\<close>

definition topo_inv ::
  "(string, check_config) btree_map \<Rightarrow> string set \<Rightarrow> string btree_set \<Rightarrow> (string, nat) btree_map \<Rightarrow> bool" where
  "topo_inv by_id finished ready indegree \<longleftrightarrow>
     finished \<subseteq> check_ids by_id \<and>
     (\<forall>k\<in>finished. set (deps_of by_id k) \<subseteq> finished) \<and>
     bs_inv ready \<and> set ready = available by_id finished \<and>
     map fst indegree = map fst by_id \<and>
     (\<forall>k\<in>check_ids by_id. map_of indegree k = Some (card (set (deps_of by_id k) - finished)))"

section \<open>Dependents\<close>

lemma dependents_of_add:
  assumes "bt_inv m"
  shows "dependents_of (add_dependent k m d) d' =
    (if d' = d then bs_insert k (dependents_of m d) else dependents_of m d')"
  using assms by (auto simp: dependents_of_def add_dependent_def map_of_bt_insert)

lemma add_dependent_inv: "bt_inv m \<Longrightarrow> bt_inv (add_dependent k m d)"
  by (simp add: add_dependent_def bt_insert_inv)

definition dependents_ok :: "(string, string btree_set) btree_map \<Rightarrow> bool" where
  "dependents_ok m \<longleftrightarrow> bt_inv m \<and> (\<forall>d. bs_inv (dependents_of m d))"

lemma dependents_ok_add: "dependents_ok m \<Longrightarrow> dependents_ok (add_dependent k m d)"
  by (auto simp: dependents_ok_def add_dependent_inv dependents_of_add bs_insert_inv)

lemma fold_add_dependent:
  assumes "dependents_ok m"
  shows "dependents_ok (fold (\<lambda>d m. add_dependent k m d) ds m) \<and>
    (\<forall>d. set (dependents_of (fold (\<lambda>d m. add_dependent k m d) ds m) d) =
         set (dependents_of m d) \<union> {k' . k' = k \<and> d \<in> set ds})"
  using assms
proof (induction ds arbitrary: m)
  case (Cons d' ds)
  from Cons.prems have ok: "dependents_ok (add_dependent k m d')" by (rule dependents_ok_add)
  from Cons.prems have inv: "bt_inv m" by (simp add: dependents_ok_def)
  from Cons.IH [OF ok] show ?case by (auto simp: dependents_of_add [OF inv] split: if_splits)
qed simp

lemma fold_dependents:
  assumes "dependents_ok m"
  shows "dependents_ok (fold (\<lambda>(k, ck) m. fold (\<lambda>d m. add_dependent k m d) (ck_depends_on ck) m) kcs m) \<and>
    (\<forall>d. set (dependents_of (fold (\<lambda>(k, ck) m. fold (\<lambda>d m. add_dependent k m d) (ck_depends_on ck) m) kcs m) d) =
         set (dependents_of m d) \<union> {k. \<exists>ck. (k, ck) \<in> set kcs \<and> d \<in> set (ck_depends_on ck)})"
  using assms
proof (induction kcs arbitrary: m)
  case (Cons kc kcs)
  obtain k ck where kc: "kc = (k, ck)" by (cases kc)
  note fa = fold_add_dependent [OF Cons.prems, of k "ck_depends_on ck"]
  from Cons.IH [OF fa [THEN conjunct1]] fa show ?case by (auto simp: kc)
qed simp

lemma collect_dependents:
  "bs_inv (dependents_of (collect_dependents by_id) d)"
  "set (dependents_of (collect_dependents by_id) d) =
     {k. \<exists>ck. (k, ck) \<in> set by_id \<and> d \<in> set (ck_depends_on ck)}"
proof -
  have "dependents_ok []" by (simp add: dependents_ok_def dependents_of_def bs_inv_def)
  from fold_dependents [OF this, of by_id]
  show "bs_inv (dependents_of (collect_dependents by_id) d)"
    "set (dependents_of (collect_dependents by_id) d) =
       {k. \<exists>ck. (k, ck) \<in> set by_id \<and> d \<in> set (ck_depends_on ck)}"
    by (simp_all add: collect_dependents_def dependents_ok_def dependents_of_def)
qed

section \<open>One iteration\<close>

lemma bs_inv_distinct: "bs_inv s \<Longrightarrow> distinct s"
  by (simp add: bs_inv_def strict_sorted_iff)

lemma relax_children:
  assumes "distinct cs" and "bs_inv rest"
    and "\<forall>c\<in>set cs. \<exists>n. map_of indegree c = Some (Suc n)"
  shows "\<exists>ready' indegree'. try_fold relax_child (rest, indegree) cs = Inr (ready', indegree') \<and>
    map fst indegree' = map fst indegree \<and> bs_inv ready' \<and>
    set ready' = set rest \<union> {c \<in> set cs. map_of indegree c = Some 1} \<and>
    (\<forall>k. map_of indegree' k =
       (if k \<in> set cs then map_option (\<lambda>n. n - 1) (map_of indegree k) else map_of indegree k))"
  using assms
proof (induction cs arbitrary: rest indegree)
  case (Cons c cs)
  from Cons.prems(3) obtain n where n: "map_of indegree c = Some (Suc n)" by auto
  let ?rest = "if n = 0 then bs_insert c rest else rest"
  let ?ind = "bt_update c n indegree"
  have keys: "c \<in> fst ` set indegree" using n by (metis domI dom_map_of_conv_image_fst)
  then have look: "map_of ?ind = (map_of indegree)(c \<mapsto> n)" by (simp add: map_of_bt_update)
  have step: "relax_child (rest, indegree) c = Inr (?rest, ?ind)"
    using n by (simp add: relax_child_def)
  have pre: "distinct cs" "bs_inv ?rest" "\<forall>c\<in>set cs. \<exists>n. map_of ?ind c = Some (Suc n)"
    using Cons.prems by (auto simp: bs_insert_inv look)
  from Cons.IH [OF pre] obtain ready' indegree' where
    r: "try_fold relax_child (?rest, ?ind) cs = Inr (ready', indegree')"
      "map fst indegree' = map fst ?ind" "bs_inv ready'"
      "set ready' = set ?rest \<union> {c \<in> set cs. map_of ?ind c = Some 1}"
      "\<forall>k. map_of indegree' k =
         (if k \<in> set cs then map_option (\<lambda>n. n - 1) (map_of ?ind k) else map_of ?ind k)"
    by blast
  note r' = r(2-5) [unfolded look]
  have c: "c \<notin> set cs" using Cons.prems(1) by simp
  have "try_fold relax_child (rest, indegree) (c # cs) = Inr (ready', indegree')"
    using step r(1) by simp
  moreover have "set ready' = set rest \<union> {d \<in> set (c # cs). map_of indegree d = Some 1}"
  proof -
    have "{d \<in> set cs. ((map_of indegree)(c \<mapsto> n)) d = Some 1} = {d \<in> set cs. map_of indegree d = Some 1}"
      using c by (intro Collect_cong) auto
    moreover have "{d \<in> set (c # cs). map_of indegree d = Some 1} =
        (if n = 0 then {c} else {}) \<union> {d \<in> set cs. map_of indegree d = Some 1}"
      using n c by (intro set_eqI) (auto split: if_splits)
    ultimately show ?thesis using r'(3) by simp
  qed
  moreover have "\<forall>k. map_of indegree' k =
      (if k \<in> set (c # cs) then map_option (\<lambda>n. n - 1) (map_of indegree k) else map_of indegree k)"
    using r'(4) n c by simp
  ultimately show ?case using r'(1,2) by (intro exI conjI) simp_all
qed simp

lemma graph_ok_get:
  assumes "graph_ok by_id"
  shows "k \<in> check_ids by_id \<longleftrightarrow> (\<exists>ck. map_of by_id k = Some ck)"
    and "map_of by_id k = Some ck \<Longrightarrow> ck_id ck = k \<and> deps_of by_id k = ck_depends_on ck"
    and "(k, ck) \<in> set by_id \<longleftrightarrow> map_of by_id k = Some ck"
proof -
  have inv: "bt_inv by_id" using assms by (simp add: graph_ok_def)
  show mem: "(k, ck) \<in> set by_id \<longleftrightarrow> map_of by_id k = Some ck"
    using bt.entries_iff [OF inv, of k ck] by simp
  show "k \<in> check_ids by_id \<longleftrightarrow> (\<exists>ck. map_of by_id k = Some ck)"
    using bt.dom_get [OF inv] by (auto simp: check_ids_def)
  show "map_of by_id k = Some ck \<Longrightarrow> ck_id ck = k \<and> deps_of by_id k = ck_depends_on ck"
    using assms mem by (fastforce simp: graph_ok_def deps_of_def)
qed

lemma graph_ok_deps:
  assumes "graph_ok by_id" and "k \<in> check_ids by_id"
  shows "distinct (deps_of by_id k)" "set (deps_of by_id k) \<subseteq> check_ids by_id"
proof -
  from assms graph_ok_get(1) obtain ck where ck: "map_of by_id k = Some ck" by blast
  with graph_ok_get(3) [OF assms(1)] have "(k, ck) \<in> set by_id" by blast
  with assms(1) show "distinct (deps_of by_id k)" "set (deps_of by_id k) \<subseteq> check_ids by_id"
    using graph_ok_get(2) [OF assms(1) ck] by (auto simp: graph_ok_def)
qed

lemma topo_step:
  assumes ok: "graph_ok by_id" and inv: "topo_inv by_id finished (k # rest) indegree"
  shows "\<exists>ready' indegree'.
    try_fold relax_child (rest, indegree) (dependents_of (collect_dependents by_id) k) = Inr (ready', indegree') \<and>
    topo_inv by_id (insert k finished) ready' indegree'"
proof -
  let ?cs = "dependents_of (collect_dependents by_id) k"
  let ?deps = "\<lambda>c. set (deps_of by_id c)"
  have avail: "k \<in> available by_id finished" and rest: "set rest = available by_id finished - {k}"
    and bsr: "bs_inv rest"
    using inv by (auto simp: topo_inv_def bs_inv_def)
  then have k: "k \<in> check_ids by_id" "k \<notin> finished" "?deps k \<subseteq> finished"
    by (auto simp: available_def)
  have cs: "set ?cs = {c \<in> check_ids by_id. k \<in> ?deps c}"
    using graph_ok_get [OF ok] by (auto simp: collect_dependents)
  have cnt: "map_of indegree c = Some (card (?deps c - finished))" if "c \<in> check_ids by_id" for c
    using inv that by (simp add: topo_inv_def)
  have card_child: "card (?deps c - finished) = Suc (card (?deps c - insert k finished))" if "c \<in> set ?cs" for c
  proof -
    have "?deps c - finished = insert k (?deps c - insert k finished)" using that k cs by auto
    then have "card (?deps c - finished) = card (insert k (?deps c - insert k finished))" by (rule arg_cong)
    also have "\<dots> = Suc (card (?deps c - insert k finished))" by (rule card_insert_disjoint) auto
    finally show ?thesis .
  qed
  have "\<forall>c\<in>set ?cs. \<exists>n. map_of indegree c = Some (Suc n)"
    using cs cnt card_child by auto
  from relax_children [OF bs_inv_distinct [OF collect_dependents(1)] bsr this]
  obtain ready' indegree' where
    r: "try_fold relax_child (rest, indegree) ?cs = Inr (ready', indegree')"
      "map fst indegree' = map fst indegree" "bs_inv ready'"
      "set ready' = set rest \<union> {c \<in> set ?cs. map_of indegree c = Some 1}"
      "\<forall>c. map_of indegree' c =
         (if c \<in> set ?cs then map_option (\<lambda>n. n - 1) (map_of indegree c) else map_of indegree c)"
    by blast
  have cnt': "map_of indegree' c = Some (card (?deps c - insert k finished))" if "c \<in> check_ids by_id" for c
  proof (cases "c \<in> set ?cs")
    case True
    with r(5) cnt [OF that] card_child show ?thesis by simp
  next
    case False
    with cs that have "?deps c - insert k finished = ?deps c - finished" by auto
    with False r(5) cnt [OF that] show ?thesis by simp
  qed
  have closed: "?deps c \<subseteq> finished" if "c \<in> finished" for c
    using inv that by (auto simp: topo_inv_def)
  have one: "map_of indegree c = Some 1 \<longleftrightarrow> ?deps c \<subseteq> insert k finished" if "c \<in> set ?cs" for c
  proof -
    have "map_of indegree c = Some (Suc (card (?deps c - insert k finished)))"
      using that cs cnt card_child by auto
    then show ?thesis by (auto simp: card_eq_0_iff)
  qed
  have "{c \<in> set ?cs. map_of indegree c = Some 1} = {c \<in> set ?cs. ?deps c \<subseteq> insert k finished}"
    using one by (intro Collect_cong) blast
  then have new: "set ready' = (available by_id finished - {k}) \<union>
      {c \<in> check_ids by_id. k \<in> ?deps c \<and> ?deps c \<subseteq> insert k finished}"
    unfolding r(4) rest using cs by auto
  have "set ready' = available by_id (insert k finished)"
    unfolding new available_def using closed k by blast
  moreover have "map fst indegree' = map fst by_id" using r(2) inv by (simp add: topo_inv_def)
  moreover have "insert k finished \<subseteq> check_ids by_id" using inv k(1) by (simp add: topo_inv_def)
  moreover have "\<forall>c\<in>insert k finished. ?deps c \<subseteq> insert k finished" using closed k(3) by blast
  ultimately have "topo_inv by_id (insert k finished) ready' indegree'"
    using r(3) cnt' by (simp add: topo_inv_def)
  with r(1) show ?thesis by blast
qed

section \<open>The loop\<close>

lemma topological_loop_correct:
  assumes ok: "graph_ok by_id" and inv: "topo_inv by_id finished ready indegree"
  shows "\<exists>ks indegree'.
    topological_loop by_id (collect_dependents by_id) ready indegree ordered =
      Ok (ordered @ map (\<lambda>k. normalize_check (the (map_of by_id k))) ks, indegree') \<and>
    least_first by_id finished ks \<and> topo_inv by_id (finished \<union> set ks) [] indegree'"
  using inv
proof (induction "indegree_weight (ready, indegree)" arbitrary: finished ready indegree ordered rule: less_induct)
  case less
  show ?case
  proof (cases ready)
    case Nil
    with less.prems have "topological_loop by_id (collect_dependents by_id) ready indegree ordered =
        Ok (ordered @ map (\<lambda>k. normalize_check (the (map_of by_id k))) [], indegree) \<and>
      least_first by_id finished [] \<and> topo_inv by_id (finished \<union> set []) [] indegree"
      by (simp add: topological_loop.simps [of by_id])
    then show ?thesis by blast
  next
    case (Cons k rest)
    from topo_step [OF ok] less.prems Cons obtain ready' indegree' where
      step: "try_fold relax_child (rest, indegree) (dependents_of (collect_dependents by_id) k) = Inr (ready', indegree')"
      and inv': "topo_inv by_id (insert k finished) ready' indegree'" by blast
    from less.prems Cons have bsi: "bs_inv (k # rest)" and
      eq: "set (k # rest) = available by_id finished" by (auto simp: topo_inv_def)
    have least: "k \<in> available by_id finished" "\<forall>k'\<in>available by_id finished. k \<le> k'"
      using bsi by (auto simp: bs_inv_def less_imp_le simp flip: eq)
    then have "k \<in> check_ids by_id" by (simp add: available_def)
    then obtain ck where ck: "map_of by_id k = Some ck" using graph_ok_get(1) [OF ok] by blast
    have "indegree_weight (ready', indegree') < indegree_weight (ready, indegree)"
      using relax_children_weight [OF step] Cons by (simp add: indegree_weight_def)
    from less.hyps [OF this inv', of "ordered @ [normalize_check ck]"] obtain ks indegree'' where
      rec: "topological_loop by_id (collect_dependents by_id) ready' indegree' (ordered @ [normalize_check ck]) =
        Ok ((ordered @ [normalize_check ck]) @ map (\<lambda>k. normalize_check (the (map_of by_id k))) ks, indegree'')"
      "least_first by_id (insert k finished) ks" "topo_inv by_id (insert k finished \<union> set ks) [] indegree''"
      by blast
    have "topological_loop by_id (collect_dependents by_id) ready indegree ordered =
      Ok (ordered @ map (\<lambda>k. normalize_check (the (map_of by_id k))) (k # ks), indegree'')"
      using step rec(1) ck Cons by (simp add: topological_loop.simps [of by_id _ "k # rest"] dependents_of_def)
    moreover have "least_first by_id finished (k # ks)" using least rec(2) by simp
    moreover have "topo_inv by_id (finished \<union> set (k # ks)) [] indegree''" using rec(3) by simp
    ultimately show ?thesis by blast
  qed
qed

lemma initial_indegree_get:
  "map_of (initial_indegree by_id) = map_option (\<lambda>ck. length (ck_depends_on ck)) \<circ> map_of by_id"
  by (induction by_id) (auto simp: initial_indegree_def fun_eq_iff)

lemma topo_inv_initial:
  assumes ok: "graph_ok by_id"
  shows "topo_inv by_id {} (bs_collect (map fst (filter (\<lambda>kv. snd kv = 0) (initial_indegree by_id)))) (initial_indegree by_id)"
proof -
  have keys: "map fst (initial_indegree by_id) = map fst by_id"
    by (simp add: initial_indegree_def case_prod_beta)
  have cnt: "map_of (initial_indegree by_id) k = Some (card (set (deps_of by_id k)))"
    if "k \<in> check_ids by_id" for k
  proof -
    from that graph_ok_get(1) [OF ok] obtain ck where ck: "map_of by_id k = Some ck" by blast
    from graph_ok_get(2) [OF ok ck] graph_ok_deps(1) [OF ok that] ck show ?thesis
      by (simp add: initial_indegree_get distinct_card)
  qed
  have inv: "bt_inv (initial_indegree by_id)" using ok keys by (simp add: bt_inv_def graph_ok_def)
  have "k \<in> fst ` {kv \<in> set (initial_indegree by_id). snd kv = 0} \<longleftrightarrow> k \<in> available by_id {}" for k
  proof -
    have "k \<in> fst ` {kv \<in> set (initial_indegree by_id). snd kv = 0} \<longleftrightarrow>
        map_of (initial_indegree by_id) k = Some 0"
      using bt.entries_iff [OF inv, of k 0] by force
    also have "\<dots> \<longleftrightarrow> k \<in> available by_id {}"
    proof (cases "k \<in> check_ids by_id")
      case True
      with cnt show ?thesis by (simp add: available_def)
    next
      case False
      then have "map_of by_id k = None" using graph_ok_get(1) [OF ok] by auto
      with False show ?thesis by (simp add: available_def initial_indegree_get)
    qed
    finally show ?thesis .
  qed
  then show ?thesis using keys cnt by (auto simp: topo_inv_def)
qed

section \<open>Results\<close>

lemma least_first_facts:
  assumes "least_first by_id finished ks" 
  shows "distinct ks \<and> set ks \<inter> finished = {} \<and> set ks \<subseteq> check_ids by_id"
  using assms
proof (induction ks arbitrary: finished)
  case (Cons k ks)
  then have "k \<in> available by_id finished" "least_first by_id (insert k finished) ks" by auto
  with Cons.IH [of "insert k finished"] show ?case by (auto simp: available_def)
qed simp

lemma least_first_before:
  assumes "least_first by_id finished ks" and "ks = as @ k # bs"
  shows "set (deps_of by_id k) \<subseteq> finished \<union> set as"
  using assms
proof (induction as arbitrary: ks finished)
  case Nil
  then show ?case by (auto simp: available_def)
next
  case (Cons a as)
  then have "least_first by_id (insert a finished) (as @ k # bs)" by simp
  from Cons.IH [OF this refl] show ?case by auto
qed

text \<open>The order is determined by the declarative reading alone.\<close>

lemma least_first_unique:
  assumes "least_first by_id finished ks" "least_first by_id finished ls" "length ks = length ls"
  shows "ks = ls"
  using assms
proof (induction ks arbitrary: finished ls)
  case (Cons k ks)
  then obtain l ls' where ls: "ls = l # ls'" by (cases ls) auto
  with Cons.prems have "k = l" by (auto intro: order_antisym)
  with Cons.prems ls Cons.IH [of "insert k finished" ls'] show ?case by simp
qed simp

lemma length_by_id:
  assumes "graph_ok by_id"
  shows "length by_id = card (check_ids by_id)" "finite (check_ids by_id)"
proof -
  have "bt_inv by_id" using assms by (simp add: graph_ok_def)
  from bt.length_entries [OF this] bt.dom_get [OF this]
  show "length by_id = card (check_ids by_id)" by (simp add: check_ids_def)
  show "finite (check_ids by_id)" by (simp add: check_ids_def)
qed

text \<open>When the ready set is empty, the positive counters are exactly the unfinished checks.\<close>

lemma stuck_checks:
  assumes ok: "graph_ok by_id" and inv: "topo_inv by_id finished [] indegree"
  shows "set (map fst (filter (\<lambda>kv. 0 < snd kv) indegree)) = check_ids by_id - finished"
    and "sorted_wrt (<) (map fst (filter (\<lambda>kv. 0 < snd kv) indegree))"
proof -
  let ?stuck = "map fst (filter (\<lambda>kv. 0 < snd kv) indegree)"
  have keys: "map fst indegree = map fst by_id" using inv by (simp add: topo_inv_def)
  then have binv: "bt_inv indegree" using ok by (simp add: bt_inv_def graph_ok_def)
  have ids: "fst ` set indegree = check_ids by_id" using keys by (metis check_ids_def list.set_map)
  have none: "available by_id finished = {}" using inv by (simp add: topo_inv_def)
  have "k \<in> set ?stuck \<longleftrightarrow> k \<in> check_ids by_id \<and> \<not> set (deps_of by_id k) \<subseteq> finished" for k
  proof -
    have "k \<in> set ?stuck \<longleftrightarrow> (\<exists>n. map_of indegree k = Some n \<and> 0 < n)"
      using bt.entries_iff [OF binv, of k] by force
    also have "\<dots> \<longleftrightarrow> k \<in> check_ids by_id \<and> \<not> set (deps_of by_id k) \<subseteq> finished"
    proof (cases "k \<in> check_ids by_id")
      case True
      with inv show ?thesis by (simp add: topo_inv_def card_gt_0_iff)
    next
      case False
      with ids have "map_of indegree k = None" by (simp add: map_of_eq_None_iff)
      with False show ?thesis by simp
    qed
    finally show ?thesis .
  qed
  then have "set ?stuck = {k \<in> check_ids by_id. \<not> set (deps_of by_id k) \<subseteq> finished}" by blast
  also have "\<dots> = check_ids by_id - finished" using none inv by (auto simp: available_def topo_inv_def)
  finally show "set ?stuck = check_ids by_id - finished" .
  show "sorted_wrt (<) ?stuck" using binv by (simp add: bt_inv_def sorted_wrt_map sorted_wrt_filter)
qed

lemma stuck_waits:
  assumes ok: "graph_ok by_id" and none: "available by_id finished = {}" and k: "k \<in> check_ids by_id - finished"
  shows "\<exists>d\<in>set (deps_of by_id k). d \<in> check_ids by_id - finished"
proof -
  from none k have "\<not> set (deps_of by_id k) \<subseteq> finished" by (auto simp: available_def)
  with graph_ok_deps(2) [OF ok, of k] k show ?thesis by auto
qed

text \<open>All outcomes of the function on a validated graph.\<close>

lemma topological_checks_outcome:
  assumes ok: "graph_ok by_id"
  obtains (ordered) ks where
    "topological_checks by_id = Ok (map (\<lambda>k. normalize_check (the (map_of by_id k))) ks)"
    "least_first by_id {} ks" "set ks = check_ids by_id"
  | (cycle) stuck where
    "topological_checks by_id = Err (CfgDependencyCycle stuck)" "stuck \<noteq> []"
    "sorted_wrt (<) stuck" "set stuck \<subseteq> check_ids by_id"
    "\<forall>k\<in>set stuck. \<exists>d\<in>set (deps_of by_id k). d \<in> set stuck"
    "available by_id (check_ids by_id - set stuck) = {}"
proof -
  from topological_loop_correct [OF ok topo_inv_initial [OF ok], of "[]"] obtain ks indegree where
    run: "topological_loop by_id (collect_dependents by_id)
        (bs_collect (map fst (filter (\<lambda>kv. snd kv = 0) (initial_indegree by_id)))) (initial_indegree by_id) [] =
      Ok (map (\<lambda>k. normalize_check (the (map_of by_id k))) ks, indegree)"
    and lf: "least_first by_id {} ks" and inv: "topo_inv by_id (set ks) [] indegree" by auto
  from least_first_facts [OF lf] have d: "distinct ks" and sub: "set ks \<subseteq> check_ids by_id" by auto
  show thesis
  proof (cases "length ks = length by_id")
    case True
    with d length_by_id [OF ok] sub have "set ks = check_ids by_id"
      by (metis card_subset_eq distinct_card)
    with ordered run lf True show thesis by (simp add: topological_checks_def Let_def)
  next
    case False
    let ?stuck = "map fst (filter (\<lambda>kv. 0 < snd kv) indegree)"
    note stuck = stuck_checks [OF ok inv]
    have none: "available by_id (set ks) = {}" using inv by (simp add: topo_inv_def)
    have "set ks \<noteq> check_ids by_id"
      using False d length_by_id [OF ok] by (metis distinct_card)
    with sub stuck(1) have ne: "?stuck \<noteq> []" by (metis Diff_eq_empty_iff list.set(1) subset_antisym)
    have "topological_checks by_id = Err (CfgDependencyCycle ?stuck)"
      using run False by (simp add: topological_checks_def Let_def)
    moreover have "available by_id (check_ids by_id - set ?stuck) = {}"
      unfolding stuck(1) using none sub by (simp add: double_diff)
    moreover have "\<forall>k\<in>set ?stuck. \<exists>d\<in>set (deps_of by_id k). d \<in> set ?stuck"
      unfolding stuck(1) using stuck_waits [OF ok none] by blast
    ultimately show thesis using cycle [of ?stuck] ne stuck by blast
  qed
qed

text \<open>A complete order makes the dependency relation acyclic.\<close>

lemma least_first_acyclic:
  assumes ok: "graph_ok by_id" and lf: "least_first by_id {} ks" and all: "set ks = check_ids by_id"
  shows "acyclic (dependency_relation by_id)"
proof -
  define pos where "pos k = length (takeWhile (\<lambda>x. x \<noteq> k) ks)" for k
  have "pos d < pos k" if "(d, k) \<in> dependency_relation by_id" for d k
  proof -
    from that have k: "k \<in> set ks" and d: "d \<in> set (deps_of by_id k)"
      using all by (auto simp: dependency_relation_def)
    from split_list_first [OF k] obtain as bs where ks: "ks = as @ k # bs" "k \<notin> set as" by blast
    from least_first_before [OF lf ks(1)] d have "d \<in> set as" by auto
    from split_list_first [OF this] obtain as1 as2 where as: "as = as1 @ d # as2" "d \<notin> set as1" by blast
    have tw: "takeWhile (\<lambda>x. x \<noteq> y) (us @ y # vs) = us" if "y \<notin> set us" for y :: string and us vs
      using that by (induction us) auto
    from tw [OF ks(2), of bs] tw [OF as(2), of "as2 @ k # bs"] show ?thesis
      by (simp add: pos_def ks(1) as(1))
  qed
  then have "dependency_relation by_id \<subseteq> measure pos" by auto
  then have "wf (dependency_relation by_id)" by (rule wf_subset [OF wf_measure])
  then show ?thesis by (rule wf_acyclic)
qed

lemma stuck_not_acyclic:
  assumes ok: "graph_ok by_id" and ne: "stuck \<noteq> []" and sub: "set stuck \<subseteq> check_ids by_id"
    and next_stuck: "\<forall>k\<in>set stuck. \<exists>d\<in>set (deps_of by_id k). d \<in> set stuck"
  shows "\<not> acyclic (dependency_relation by_id)"
proof
  assume acyc: "acyclic (dependency_relation by_id)"
  have "dependency_relation by_id \<subseteq> check_ids by_id \<times> check_ids by_id"
    using graph_ok_deps(2) [OF ok] by (auto simp: dependency_relation_def)
  then have "finite (dependency_relation by_id)"
    using length_by_id(2) [OF ok] finite_subset by blast
  then have "wf (dependency_relation by_id)" using acyc by (rule finite_acyclic_wf)
  moreover have "hd stuck \<in> set stuck" using ne by simp
  ultimately obtain k where "k \<in> set stuck" "\<forall>d. (d, k) \<in> dependency_relation by_id \<longrightarrow> d \<notin> set stuck"
    by (metis wfE_min)
  with next_stuck sub show False by (fastforce simp: dependency_relation_def)
qed

end
