(* ===== verification/Config_Correct.thy ===== *)
theory Config_Correct
  imports Config_Topo "HOL-Library.Multiset" "HOL-Library.Sublist"
begin

text \<open>
  What the validators accept and what normalization yields. \<open>string_validator\<close> is the contract of
  a field validator, met by each validator of \<^verbatim>\<open>src/src/config.rs\<close>; \<open>unique_sorted\<close> is proved once
  against it. The later sections characterise the successful runs of the normalizers: caches,
  checks, path isolation, storage, environment.
\<close>

section \<open>Accepted texts\<close>

definition valid_text :: "string \<Rightarrow> bool" where
  "valid_text v \<longleftrightarrow> v \<noteq> [] \<and> length v \<le> 4096 \<and> \<not> any_control v"

definition valid_identifier :: "string \<Rightarrow> bool" where
  "valid_identifier v \<longleftrightarrow> v \<noteq> [] \<and> length v \<le> 64 \<and> list_all (\<lambda>c. is_name_char (byte_val c)) v \<and>
     v \<noteq> ''.'' \<and> v \<noteq> ''..''"

definition valid_environment_name :: "string \<Rightarrow> bool" where
  "valid_environment_name v \<longleftrightarrow> length v \<le> 4096 \<and>
     (case v of [] \<Rightarrow> False
      | c # cs \<Rightarrow> (byte_val c = 95 \<or> is_ascii_alphabetic (byte_val c)) \<and>
                  list_all (\<lambda>c. byte_val c = 95 \<or> is_ascii_alphanumeric (byte_val c)) cs)"

definition valid_path :: "string \<Rightarrow> bool" where
  "valid_path v \<longleftrightarrow> valid_text v \<and> safe_relative_path v"

lemmas ascii_class_defs =
  is_name_char_def is_ascii_alphanumeric_def is_ascii_alphabetic_def is_ascii_digit_def is_control_def

lemma is_name_char_not_control: "is_name_char n \<Longrightarrow> \<not> is_control n"
  by (auto simp: ascii_class_defs)

lemma validate_text_iff: "validate_text field v = Ok u \<longleftrightarrow> valid_text v"
  by (auto simp: validate_text_def valid_text_def MAX_STRING_BYTES_def)

lemma list_all_not_control:
  assumes "list_all P (chars v)" "\<And>n. P n \<Longrightarrow> \<not> is_control n"
  shows "\<not> any_control v"
  using assms by (auto simp: any_control_def list_all_iff list_ex_iff)

lemma validate_identifier_iff: "validate_identifier field v = Ok u \<longleftrightarrow> valid_identifier v"
proof
  assume "validate_identifier field v = Ok u"
  then have v: "validate_text field v = Ok ()" "length v \<le> 64" "list_all is_name_char (chars v)"
    "v \<noteq> ''.''" "v \<noteq> ''..''"
    by (auto simp: validate_identifier_def result_simps)
  from chars_all_ascii(2) [OF v(3) is_name_char_ascii] v show "valid_identifier v"
    by (simp add: valid_identifier_def validate_text_iff valid_text_def)
next
  assume v: "valid_identifier v"
  then have ascii: "list_all (\<lambda>c. byte_val c < 128) v"
    by (auto simp: valid_identifier_def list_all_iff dest: is_name_char_ascii)
  from v have names: "list_all is_name_char (chars v)"
    by (simp add: chars_ascii [OF ascii] valid_identifier_def list_all_iff)
  with v list_all_not_control [OF names is_name_char_not_control]
  have "valid_text v" by (simp add: valid_text_def valid_identifier_def)
  with v names show "validate_identifier field v = Ok u"
    by (simp add: validate_identifier_def validate_text_def valid_text_def valid_identifier_def
        MAX_STRING_BYTES_def)
qed

definition env_char :: "nat \<Rightarrow> bool" where
  "env_char n \<longleftrightarrow> n = 95 \<or> is_ascii_alphanumeric n"

lemma env_char_ascii: "env_char n \<Longrightarrow> n < 128"
  by (auto simp: env_char_def ascii_class_defs)

lemma env_char_not_control: "env_char n \<Longrightarrow> \<not> is_control n"
  by (auto simp: env_char_def ascii_class_defs)

lemma validate_environment_name_iff:
  "validate_environment_name v = Ok u \<longleftrightarrow> valid_environment_name v"
proof (cases v)
  case Nil
  then show ?thesis
    by (simp add: validate_environment_name_def valid_environment_name_def validate_text_def)
next
  case (Cons c cs)
  let ?start = "\<lambda>n. n = 95 \<or> is_ascii_alphabetic n"
  have start: "?start n \<Longrightarrow> env_char n" for n by (auto simp: env_char_def is_ascii_alphanumeric_def)
  show ?thesis
  proof
    assume "validate_environment_name v = Ok u"
    then obtain n ns where v: "chars v = n # ns" "?start n" "list_all env_char ns" "valid_text v"
      by (auto simp: validate_environment_name_def result_simps validate_text_iff env_char_def
          list_all_iff split: list.splits)
    then have all: "list_all env_char (chars v)" using start by simp
    from chars_all_ascii(1) [OF all env_char_ascii] Cons v show "valid_environment_name v"
      by (auto simp: valid_environment_name_def valid_text_def env_char_def list_all_iff)
  next
    assume v: "valid_environment_name v"
    then have cs: "?start (byte_val c)" "list_all (\<lambda>c. env_char (byte_val c)) cs" "length v \<le> 4096"
      using Cons by (auto simp: valid_environment_name_def env_char_def)
    then have all: "list_all (\<lambda>c. env_char (byte_val c)) v" using Cons start by simp
    then have "list_all (\<lambda>c. byte_val c < 128) v" by (auto simp: list_all_iff dest: env_char_ascii)
    then have ch: "chars v = map byte_val v" by (rule chars_ascii)
    with all have "list_all env_char (chars v)" by (simp add: list_all_iff)
    from list_all_not_control [OF this env_char_not_control] have "\<not> any_control v" .
    with Cons cs ch show "validate_environment_name v = Ok u"
      by (simp add: validate_environment_name_def validate_text_def MAX_STRING_BYTES_def
          list_all_iff env_char_def)
  qed
qed

lemma validate_relative_path_iff: "validate_relative_path field v = Ok u \<longleftrightarrow> valid_path v"
  by (auto simp: validate_relative_path_def result_simps validate_text_iff valid_path_def)

lemma validate_bounded_iff: "validate_bounded field v lo hi = Ok u \<longleftrightarrow> lo \<le> v \<and> v \<le> hi"
  by (simp add: validate_bounded_def)

lemmas validator_iffs =
  validate_text_iff validate_identifier_iff validate_environment_name_iff
  validate_relative_path_iff validate_bounded_iff

section \<open>The contract of a field validator\<close>

locale string_validator =
  fixes validate :: "string \<Rightarrow> (config_error, unit) result"
    and accepts :: "string \<Rightarrow> bool"
  assumes validate_accepts: "validate v = Ok () \<longleftrightarrow> accepts v"

sublocale string_validator < unique: unique_scan "unique_sorted_step field validate" "\<lambda>v. v" accepts for field
  by unfold_locales (auto simp: unique_sorted_step_def result_simps validate_accepts)

context string_validator begin

lemma unique_sorted_iff:
  "unique_sorted field vs validate = Ok r \<longleftrightarrow>
     list_all accepts vs \<and> distinct vs \<and> r = sorted_list_of_set (set vs)"
  using unique.scan_empty [of field vs r] by (simp add: unique_sorted_def)

lemma validate_all: "try_each validate vs = Ok u \<longleftrightarrow> list_all accepts vs"
  by (auto simp: result_simps validate_accepts list_all_iff)

end

interpretation ident: string_validator "validate_identifier field" valid_identifier for field
  by unfold_locales (simp add: validate_identifier_iff)

interpretation rel_path: string_validator "validate_relative_path field" valid_path for field
  by unfold_locales (simp add: validate_relative_path_iff)

interpretation env_name: string_validator validate_environment_name valid_environment_name
  by unfold_locales (simp add: validate_environment_name_iff)

interpretation plain_text: string_validator "validate_text field" valid_text for field
  by unfold_locales (simp add: validate_text_iff)

section \<open>Paths\<close>

text \<open>Overlap is containment of the segment lists: one path is the other or lies below it.\<close>

lemma split_on_append_sep: "split_on c (a @ c # b) = split_on c a @ split_on c b"
proof (induction a)
  case (Cons x a)
  obtain q qs where "split_on c a = q # qs" by (cases "split_on c a") auto
  with Cons show ?case by auto
qed simp

lemma split_on_inj: "split_on c a = split_on c b \<longleftrightarrow> a = b"
  by (metis join_split_on)

lemma join_append: "p \<noteq> [] \<Longrightarrow> q \<noteq> [] \<Longrightarrow> join [c] (p @ q) = join [c] p @ c # join [c] q"
  by (cases p; cases q) (auto simp: join_def)

lemma below_iff_prefix:
  "a = b \<or> (\<exists>r. b = a @ CHR ''/'' # r) \<longleftrightarrow> prefix (split_on (CHR ''/'') a) (split_on (CHR ''/'') b)"
proof
  assume "a = b \<or> (\<exists>r. b = a @ CHR ''/'' # r)"
  then show "prefix (split_on (CHR ''/'') a) (split_on (CHR ''/'') b)"
    by (auto simp: split_on_append_sep)
next
  assume "prefix (split_on (CHR ''/'') a) (split_on (CHR ''/'') b)"
  then obtain zs where zs: "split_on (CHR ''/'') b = split_on (CHR ''/'') a @ zs" by (auto simp: prefix_def)
  show "a = b \<or> (\<exists>r. b = a @ CHR ''/'' # r)"
  proof (cases "zs = []")
    case True
    with zs show ?thesis by (simp add: split_on_inj)
  next
    case False
    from zs have "join ''/'' (split_on (CHR ''/'') b) = join ''/'' (split_on (CHR ''/'') a @ zs)" by simp
    with False have "b = a @ CHR ''/'' # join ''/'' zs" by (simp add: join_append join_split_on)
    then show ?thesis by blast
  qed
qed

lemma path_overlap_iff:
  "path_overlap a b \<longleftrightarrow>
     prefix (split_on (CHR ''/'') a) (split_on (CHR ''/'') b) \<or>
     prefix (split_on (CHR ''/'') b) (split_on (CHR ''/'') a)"
proof -
  have "(case strip_prefix x y of None \<Rightarrow> False | Some t \<Rightarrow> starts_with ''/'' t) \<longleftrightarrow>
      (\<exists>r. y = x @ CHR ''/'' # r)" for x y
  proof (cases "strip_prefix x y")
    case None
    then have "\<not> (\<exists>r. y = x @ r)" by (metis option.distinct(1) strip_prefix_append)
    with None show ?thesis by auto
  qed (auto simp: starts_with_iff)
  then show ?thesis unfolding path_overlap_def by (simp flip: below_iff_prefix) blast
qed

lemma path_overlap_sym: "path_overlap a b \<longleftrightarrow> path_overlap b a"
  by (auto simp: path_overlap_iff)

lemma path_overlap_refl [simp]: "path_overlap a a"
  by (simp add: path_overlap_iff)

text \<open>Pairwise disjoint paths.\<close>

definition disjoint_paths :: "string list \<Rightarrow> bool" where
  "disjoint_paths ps \<longleftrightarrow> sorted_wrt (\<lambda>a b. \<not> path_overlap a b) ps"

lemma reject_path_overlap_iff: "reject_path_overlap a b = Ok u \<longleftrightarrow> \<not> path_overlap a b"
  by (simp add: reject_path_overlap_def)

lemma isolate_caches_iff:
  "isolate_caches output ms = Ok u \<longleftrightarrow> disjoint_paths ms \<and> (\<forall>m\<in>set ms. \<not> path_overlap m output)"
  by (induction ms) (auto simp: result_simps reject_path_overlap_iff disjoint_paths_def)

text \<open>The running artifact set against the list of artifacts read so far.\<close>

lemma isolate_artifacts:
  assumes "try_fold (isolate_artifact output mounts) s as = Ok s'"
    and "\<forall>p\<in>set s. \<not> path_overlap p output \<and> (\<forall>m\<in>set mounts. \<not> path_overlap p m)"
    and "disjoint_paths ps" "set s = set ps"
  shows "disjoint_paths (ps @ as) \<and> set s' = set (ps @ as) \<and>
    (\<forall>p\<in>set s'. \<not> path_overlap p output \<and> (\<forall>m\<in>set mounts. \<not> path_overlap p m))"
  using assms
proof (induction as arbitrary: s ps)
  case (Cons a as)
  from Cons.prems(1) obtain t where t: "isolate_artifact output mounts s a = Ok t"
    and rest: "try_fold (isolate_artifact output mounts) t as = Ok s'"
    by (auto simp: result_simps)
  from t have a: "\<forall>p\<in>set s \<union> {output} \<union> set mounts. \<not> path_overlap a p" and t': "set t = insert a (set s)"
    by (auto simp: isolate_artifact_def result_simps reject_path_overlap_iff)
  have d: "disjoint_paths (ps @ [a])"
    using a Cons.prems(3,4) path_overlap_sym by (auto simp: disjoint_paths_def sorted_wrt_append)
  have o: "\<forall>p\<in>set t. \<not> path_overlap p output \<and> (\<forall>m\<in>set mounts. \<not> path_overlap p m)"
    using a Cons.prems(2) t' by auto
  have "set t = set (ps @ [a])" using t' Cons.prems(4) by simp
  from Cons.IH [OF rest o d this] show ?case by simp
qed simp

lemma isolate_checks:
  assumes "try_fold (\<lambda>s ck. try_fold (isolate_artifact output mounts) s (nk_artifacts ck)) s cks = Ok s'"
    and "\<forall>p\<in>set s. \<not> path_overlap p output \<and> (\<forall>m\<in>set mounts. \<not> path_overlap p m)"
    and "disjoint_paths ps" "set s = set ps"
  shows "disjoint_paths (ps @ concat (map nk_artifacts cks)) \<and>
    (\<forall>p\<in>set (ps @ concat (map nk_artifacts cks)).
       \<not> path_overlap p output \<and> (\<forall>m\<in>set mounts. \<not> path_overlap p m))"
  using assms
proof (induction cks arbitrary: s ps)
  case (Cons ck cks)
  from Cons.prems(1) obtain t where t: "try_fold (isolate_artifact output mounts) s (nk_artifacts ck) = Ok t"
    and rest: "try_fold (\<lambda>s ck. try_fold (isolate_artifact output mounts) s (nk_artifacts ck)) t cks = Ok s'"
    by (auto simp: result_simps)
  from isolate_artifacts [OF t Cons.prems(2-4)]
  have "disjoint_paths (ps @ nk_artifacts ck)" "set t = set (ps @ nk_artifacts ck)"
    "\<forall>p\<in>set t. \<not> path_overlap p output \<and> (\<forall>m\<in>set mounts. \<not> path_overlap p m)" by blast+
  from Cons.IH [OF rest this(3,1,2)] show ?case by simp
qed auto

lemma validate_path_isolation_sound:
  assumes "validate_path_isolation receipt caches checks = Ok u"
  shows "disjoint_paths
    (nrc_output receipt # map nc_mount_path caches @ concat (map nk_artifacts checks))"
proof -
  let ?out = "nrc_output receipt" and ?ms = "map nc_mount_path caches"
  from assms obtain s where c: "isolate_caches ?out ?ms = Ok ()"
    and f: "try_fold (\<lambda>s ck. try_fold (isolate_artifact ?out ?ms) s (nk_artifacts ck)) [] checks = Ok s"
    by (auto simp: validate_path_isolation_def result_simps)
  from isolate_checks [OF f, of "[]"] have a: "disjoint_paths (concat (map nk_artifacts checks))"
    "\<forall>p\<in>set (concat (map nk_artifacts checks)). \<not> path_overlap p ?out \<and> (\<forall>m\<in>set ?ms. \<not> path_overlap p m)"
    by (simp_all add: disjoint_paths_def)
  from c have m: "disjoint_paths ?ms" "\<forall>m\<in>set ?ms. \<not> path_overlap m ?out"
    by (simp_all add: isolate_caches_iff)
  have o: "\<forall>x\<in>set (?ms @ concat (map nk_artifacts checks)). \<not> path_overlap ?out x"
    using a(2) m(2) path_overlap_sym [of ?out] by auto
  have ma: "\<forall>x\<in>set ?ms. \<forall>y\<in>set (concat (map nk_artifacts checks)). \<not> path_overlap x y"
    using a(2) path_overlap_sym by blast
  from o ma a(1) m(1) show ?thesis
    unfolding disjoint_paths_def by (simp only: sorted_wrt_append sorted_wrt.simps)
qed

end
