(* ===== verification/Config_Plan.thy ===== *)
theory Config_Plan
  imports Config_Correct
begin

text \<open>
  Successful runs of the normalizers of \<^verbatim>\<open>src/src/config.rs\<close>, composed to \<open>into_plan\<close>: which
  checks the plan holds and in which order, the caches, the storage arithmetic, the environment
  names, and that no run reaches one of the aborts of the code.
\<close>

section \<open>Caches\<close>

lemma normalize_caches_fold:
  assumes "try_fold normalize_cache_step ([], []) caches = Ok (by_id, mounts)"
  shows "bt_inv by_id \<and> map_of by_id =
      map_of (map (\<lambda>c. (cc_id c, \<lparr>nc_id = cc_id c, nc_mount_path = cc_mount_path c\<rparr>)) caches) \<and>
    distinct (map cc_id caches) \<and> distinct (map cc_mount_path caches) \<and>
    set mounts = cc_mount_path ` set caches \<and>
    (\<forall>c\<in>set caches. valid_identifier (cc_id c) \<and> valid_path (cc_mount_path c) \<and> cc_mount_path c \<noteq> ''.'')"
    (is "?P caches (by_id, mounts)")
proof -
  let ?entry = "\<lambda>c. (cc_id c, \<lparr>nc_id = cc_id c, nc_mount_path = cc_mount_path c\<rparr>)"
  define P where "P cs st \<longleftrightarrow> bt_inv (fst st) \<and> map_of (fst st) = map_of (map ?entry cs) \<and>
    distinct (map cc_id cs) \<and> distinct (map cc_mount_path cs) \<and> set (snd st) = cc_mount_path ` set cs \<and>
    (\<forall>c\<in>set cs. valid_identifier (cc_id c) \<and> valid_path (cc_mount_path c) \<and> cc_mount_path c \<noteq> ''.'')"
    for cs :: "cache_config list" and st :: "(string, normalized_cache) btree_map \<times> string btree_set"
  have "P caches (by_id, mounts)"
  proof (rule try_fold_invariant [OF assms, of P])
    show "P [] ([], [])" by (simp add: P_def)
  next
    fix ys c zs t t'
    assume P: "P ys t" and step: "normalize_cache_step t c = Ok t'"
    obtain b m where t: "t = (b, m)" by (cases t)
    from step t have s: "valid_identifier (cc_id c)" "valid_path (cc_mount_path c)" "cc_mount_path c \<noteq> ''.''"
      "\<not> bt_contains b (cc_id c)" "cc_mount_path c \<notin> set m"
      "t' = (bt_insert (cc_id c) \<lparr>nc_id = cc_id c, nc_mount_path = cc_mount_path c\<rparr> b, bs_insert (cc_mount_path c) m)"
      by (auto simp: normalize_cache_step_def result_simps validator_iffs)
    from P t have b: "bt_inv b" "map_of b = map_of (map ?entry ys)" by (auto simp: P_def)
    have new: "cc_id c \<notin> cc_id ` set ys"
    proof
      assume "cc_id c \<in> cc_id ` set ys"
      then have "map_of (map ?entry ys) (cc_id c) \<noteq> None"
        by (auto simp: map_of_eq_None_iff image_image)
      with s(4) b(2) show False by (simp add: bt_contains_def)
    qed
    have "map_of (map ?entry (ys @ [c])) = (map_of (map ?entry ys))(cc_id c \<mapsto> snd (?entry c))"
    proof
      fix k
      have "map_of (map ?entry ys) (cc_id c) = None"
        using new by (auto simp: map_of_eq_None_iff image_image)
      then show "map_of (map ?entry (ys @ [c])) k = ((map_of (map ?entry ys))(cc_id c \<mapsto> snd (?entry c))) k"
        by (auto simp: map_add_def split: option.splits)
    qed
    with P t s b new show "P (ys @ [c]) t'"
      by (auto simp: P_def bt_insert_inv map_of_bt_insert)
  qed
  then show ?thesis by (simp add: P_def)
qed

text \<open>The normalized caches are the configured ones in the order of their identifiers.\<close>

lemma bt_values_ids:
  assumes "bt_inv m" and "\<forall>(k, v)\<in>set m. f v = k"
  shows "map f (bt_values m) = map fst m"
  using assms by (induction m) (auto simp: bt_values_def)

lemma normalize_caches_sound:
  assumes "normalize_caches caches = Ok ncs"
  shows "sorted_wrt (<) (map nc_id ncs)" "distinct (map cc_id caches)" "distinct (map cc_mount_path caches)"
    "length caches \<le> 32"
    "set ncs = (\<lambda>c. \<lparr>nc_id = cc_id c, nc_mount_path = cc_mount_path c\<rparr>) ` set caches"
    "\<forall>c\<in>set caches. valid_identifier (cc_id c) \<and> valid_path (cc_mount_path c) \<and> cc_mount_path c \<noteq> ''.''"
proof -
  let ?entry = "\<lambda>c. (cc_id c, \<lparr>nc_id = cc_id c, nc_mount_path = cc_mount_path c\<rparr>)"
  from assms obtain by_id mounts where f: "try_fold normalize_cache_step ([], []) caches = Ok (by_id, mounts)"
    and ncs: "ncs = bt_values by_id" and len: "length caches \<le> MAX_CACHES"
    by (auto simp: normalize_caches_def result_simps)
  note r = normalize_caches_fold [OF f]
  have "map fst (map ?entry caches) = map cc_id caches" by simp
  then have dist: "distinct (map fst (map ?entry caches))" using r by metis
  have mem: "(k, v) \<in> set by_id \<longleftrightarrow> (k, v) \<in> set (map ?entry caches)" for k v
    using bt.entries_iff [of by_id k v] r map_of_eq_Some_iff [OF dist, of k v] by simp
  then have eq: "set by_id = set (map ?entry caches)" by auto
  then have "map nc_id ncs = map fst by_id"
    unfolding ncs using r by (intro bt_values_ids) auto
  with r show "sorted_wrt (<) (map nc_id ncs)" by (simp add: bt_inv_def)
  show "set ncs = (\<lambda>c. \<lparr>nc_id = cc_id c, nc_mount_path = cc_mount_path c\<rparr>) ` set caches"
    by (simp add: ncs bt_values_def eq image_image)
  show "distinct (map cc_id caches)" "distinct (map cc_mount_path caches)"
    "\<forall>c\<in>set caches. valid_identifier (cc_id c) \<and> valid_path (cc_mount_path c) \<and> cc_mount_path c \<noteq> ''.''"
    using r by blast+
  show "length caches \<le> 32" using len by (simp add: MAX_CACHES_def)
qed

section \<open>Checks\<close>

text \<open>A check with its dependencies and artifacts sorted, and what validation demands of it.\<close>

definition sorted_check :: "check_config \<Rightarrow> check_config" where
  "sorted_check ck = ck\<lparr>ck_depends_on := sorted_list_of_set (set (ck_depends_on ck)),
                       ck_artifacts := sorted_list_of_set (set (ck_artifacts ck))\<rparr>"

definition valid_check :: "check_config \<Rightarrow> bool" where
  "valid_check ck \<longleftrightarrow>
     valid_identifier (ck_id ck) \<and> ck_argv ck \<noteq> [] \<and> length (ck_argv ck) \<le> 64 \<and>
     list_all valid_text (ck_argv ck) \<and> valid_path (ck_working_directory ck) \<and>
     1 \<le> ck_timeout_seconds ck \<and> ck_timeout_seconds ck \<le> 86400 \<and>
     distinct (ck_depends_on ck) \<and> list_all valid_identifier (ck_depends_on ck) \<and>
     distinct (ck_artifacts ck) \<and> list_all valid_path (ck_artifacts ck) \<and> ''.'' \<notin> set (ck_artifacts ck)"

definition checks_by_id :: "check_config list \<Rightarrow> (string, check_config) btree_map" where
  "checks_by_id checks = bt_collect (map (\<lambda>ck. (ck_id ck, sorted_check ck)) checks)"

lemma sorted_check_simps [simp]:
  "ck_id (sorted_check ck) = ck_id ck"
  "set (ck_depends_on (sorted_check ck)) = set (ck_depends_on ck)"
  "distinct (ck_depends_on (sorted_check ck))"
  "ck_required (sorted_check ck) = ck_required ck"
  by (simp_all add: sorted_check_def)

lemma validate_check_iff:
  "validate_check ck = Ok u \<longleftrightarrow>
     valid_identifier (ck_id ck) \<and> ck_argv ck \<noteq> [] \<and> length (ck_argv ck) \<le> 64 \<and>
     list_all valid_text (ck_argv ck) \<and> valid_path (ck_working_directory ck) \<and>
     1 \<le> ck_timeout_seconds ck \<and> ck_timeout_seconds ck \<le> 86400"
  by (auto simp: validate_check_def result_simps validator_iffs list_all_iff MAX_ARGV_PARTS_def
      MAX_TIMEOUT_SECONDS_def)

lemma normalize_check_step_sound:
  assumes "normalize_check_step by_id ck = Ok by_id'"
  shows "valid_check ck" "\<not> bt_contains by_id (ck_id ck)" "by_id' = bt_insert (ck_id ck) (sorted_check ck) by_id"
    "is_ok (validate_artifact_contracts (sorted_check ck))"
proof -
  from assms obtain deps arts where s: "validate_check ck = Ok ()"
    "unique_sorted ''check.depends_on'' (ck_depends_on ck) (validate_identifier ''check.depends_on'') = Ok deps"
    "unique_sorted ''check.artifacts'' (ck_artifacts ck) (validate_relative_path ''check.artifacts'') = Ok arts"
    "''.'' \<notin> set arts" "\<not> bt_contains by_id (ck_id ck)"
    "validate_artifact_contracts (ck\<lparr>ck_depends_on := deps, ck_artifacts := arts\<rparr>) = Ok ()"
    "by_id' = bt_insert (ck_id ck) (ck\<lparr>ck_depends_on := deps, ck_artifacts := arts\<rparr>) by_id"
    by (auto simp: normalize_check_step_def result_simps Let_def)
  from s(2) have d: "list_all valid_identifier (ck_depends_on ck)" "distinct (ck_depends_on ck)"
    "deps = sorted_list_of_set (set (ck_depends_on ck))" by (simp_all add: ident.unique_sorted_iff)
  from s(3) have a: "list_all valid_path (ck_artifacts ck)" "distinct (ck_artifacts ck)"
    "arts = sorted_list_of_set (set (ck_artifacts ck))" by (simp_all add: rel_path.unique_sorted_iff)
  show "valid_check ck" using s(1,4) d a by (simp add: valid_check_def validate_check_iff)
  show "\<not> bt_contains by_id (ck_id ck)" by (rule s(5))
  show "by_id' = bt_insert (ck_id ck) (sorted_check ck) by_id"
    using s(7) d(3) a(3) by (simp add: sorted_check_def)
  show "is_ok (validate_artifact_contracts (sorted_check ck))"
    using s(6) d(3) a(3) by (simp add: sorted_check_def)
qed

text \<open>The converse: acceptance does not depend on the order of the checks.\<close>

definition acceptable_check :: "check_config \<Rightarrow> bool" where
  "acceptable_check ck \<longleftrightarrow> valid_check ck \<and> is_ok (validate_artifact_contracts (sorted_check ck))"

lemma normalize_check_step_iff:
  "normalize_check_step by_id ck = Ok by_id' \<longleftrightarrow>
     acceptable_check ck \<and> \<not> bt_contains by_id (ck_id ck) \<and>
     by_id' = bt_insert (ck_id ck) (sorted_check ck) by_id"
proof
  assume "normalize_check_step by_id ck = Ok by_id'"
  from normalize_check_step_sound [OF this]
  show "acceptable_check ck \<and> \<not> bt_contains by_id (ck_id ck) \<and>
     by_id' = bt_insert (ck_id ck) (sorted_check ck) by_id" by (simp add: acceptable_check_def)
next
  assume a: "acceptable_check ck \<and> \<not> bt_contains by_id (ck_id ck) \<and>
     by_id' = bt_insert (ck_id ck) (sorted_check ck) by_id"
  then have v: "valid_check ck" and c: "validate_artifact_contracts (sorted_check ck) = Ok ()"
    by (auto simp: acceptable_check_def is_ok_iff)
  from v have "validate_check ck = Ok ()" by (simp add: valid_check_def validate_check_iff)
  moreover from v have "unique_sorted ''check.depends_on'' (ck_depends_on ck)
      (validate_identifier ''check.depends_on'') = Ok (ck_depends_on (sorted_check ck))"
    by (simp add: ident.unique_sorted_iff valid_check_def sorted_check_def)
  moreover from v have "unique_sorted ''check.artifacts'' (ck_artifacts ck)
      (validate_relative_path ''check.artifacts'') = Ok (ck_artifacts (sorted_check ck))"
    by (simp add: rel_path.unique_sorted_iff valid_check_def sorted_check_def)
  moreover have "''.'' \<notin> set (ck_artifacts (sorted_check ck))"
    using v by (simp add: valid_check_def sorted_check_def)
  moreover have "ck\<lparr>ck_depends_on := ck_depends_on (sorted_check ck), ck_artifacts := ck_artifacts (sorted_check ck)\<rparr> = sorted_check ck"
    by (simp add: sorted_check_def)
  ultimately show "normalize_check_step by_id ck = Ok by_id'"
    using a c by (simp add: normalize_check_step_def)
qed

lemma checks_by_id_snoc: "checks_by_id (cs @ [ck]) = bt_insert (ck_id ck) (sorted_check ck) (checks_by_id cs)"
  by (simp add: checks_by_id_def bt_collect_def)

lemma checks_by_id_contains: "bt_contains (checks_by_id cs) k \<longleftrightarrow> k \<in> ck_id ` set cs"
proof -
  have "map_of (rev (map (\<lambda>ck. (ck_id ck, sorted_check ck)) cs)) k = None \<longleftrightarrow> k \<notin> ck_id ` set cs"
    by (auto simp: map_of_eq_None_iff image_image)
  then show ?thesis by (simp add: bt_contains_def checks_by_id_def map_of_bt_collect)
qed

lemma normalize_check_fold_iff:
  "try_fold normalize_check_step [] checks = Ok by_id \<longleftrightarrow>
     distinct (map ck_id checks) \<and> list_all acceptable_check checks \<and> by_id = checks_by_id checks"
proof (induction checks arbitrary: by_id rule: rev_induct)
  case Nil
  then show ?case by (auto simp: checks_by_id_def bt_collect_def)
next
  case (snoc ck checks)
  then show ?case
    by (auto simp: try_fold_append result_simps normalize_check_step_iff checks_by_id_contains
        checks_by_id_snoc)
qed

lemma normalize_check_fold:
  assumes "try_fold normalize_check_step [] checks = Ok by_id"
  shows "by_id = checks_by_id checks \<and> distinct (map ck_id checks) \<and> (\<forall>ck\<in>set checks. valid_check ck)"
  using assms by (auto simp: normalize_check_fold_iff list_all_iff acceptable_check_def)

lemma checks_by_id_perm:
  assumes "mset checks = mset checks'" and "distinct (map ck_id checks)"
  shows "checks_by_id checks = checks_by_id checks'"
proof -
  let ?es = "\<lambda>cs. map (\<lambda>ck. (ck_id ck, sorted_check ck)) cs"
  have d': "distinct (map ck_id checks')"
    using assms by (metis mset_map mset_eq_imp_distinct_iff)
  have "map_of (rev (?es checks)) = map_of (rev (?es checks'))"
    using assms d' mset_eq_setD [OF assms(1)]
    by (intro map_of_inject_set [THEN iffD2]) (simp_all add: o_def rev_map [symmetric])
  then have "map_of (checks_by_id checks) = map_of (checks_by_id checks')"
    by (simp add: checks_by_id_def map_of_bt_collect)
  then show ?thesis
    using bt.entries_unique [of "checks_by_id checks" "checks_by_id checks'"] by (simp add: checks_by_id_def)
qed

lemma normalize_checks_perm:
  assumes p: "mset checks = mset checks'" and ok: "normalize_checks checks = Ok ns"
  shows "normalize_checks checks' = Ok ns"
proof -
  from ok obtain by_id where r: "checks \<noteq> []" "length checks \<le> MAX_CHECKS" "list_ex ck_required checks"
    "try_fold normalize_check_step [] checks = Ok by_id" "validate_dependencies by_id = Ok ()"
    "topological_checks by_id = Ok ns"
    by (auto simp: normalize_checks_def result_simps)
  from r(4) have f: "distinct (map ck_id checks)" "list_all acceptable_check checks" "by_id = checks_by_id checks"
    by (simp_all add: normalize_check_fold_iff)
  have s: "set checks' = set checks" "length checks' = length checks"
    using mset_eq_setD [OF p] mset_eq_length [OF p] by simp_all
  have "distinct (map ck_id checks')" using p f(1) by (metis mset_map mset_eq_imp_distinct_iff)
  with f s have "try_fold normalize_check_step [] checks' = Ok by_id"
    using checks_by_id_perm [OF p] by (simp add: normalize_check_fold_iff list_all_iff)
  moreover have "checks' \<noteq> []" "length checks' \<le> MAX_CHECKS" "list_ex ck_required checks'"
    using r(1-3) s by (auto simp: list_ex_iff)
  ultimately show ?thesis using r(5,6) by (simp add: normalize_checks_def)
qed

lemma checks_by_id_iff:
  assumes "distinct (map ck_id checks)"
  shows "(k, c) \<in> set (checks_by_id checks) \<longleftrightarrow> (\<exists>ck\<in>set checks. k = ck_id ck \<and> c = sorted_check ck)"
proof -
  let ?es = "map (\<lambda>ck. (ck_id ck, sorted_check ck)) checks"
  have "map fst ?es = map ck_id checks" by simp
  then have d: "distinct (map fst (rev ?es))" using assms by (metis distinct_rev rev_map)
  have "(k, c) \<in> set (checks_by_id checks) \<longleftrightarrow> map_of (rev ?es) k = Some c"
    using bt.entries_iff [of "checks_by_id checks" k c] by (simp add: checks_by_id_def map_of_bt_collect)
  also have "\<dots> \<longleftrightarrow> (k, c) \<in> set ?es" using map_of_eq_Some_iff [OF d, of k c] by simp
  finally show ?thesis by auto
qed

lemma check_ids_checks_by_id:
  "distinct (map ck_id checks) \<Longrightarrow> check_ids (checks_by_id checks) = ck_id ` set checks"
proof -
  assume d: "distinct (map ck_id checks)"
  have "check_ids (checks_by_id checks) = {k. \<exists>c. (k, c) \<in> set (checks_by_id checks)}"
    by (force simp: check_ids_def)
  then show ?thesis using checks_by_id_iff [OF d] by auto
qed

lemma graph_ok_checks:
  assumes d: "distinct (map ck_id checks)"
    and v: "validate_dependencies (checks_by_id checks) = Ok u"
  shows "graph_ok (checks_by_id checks)"
proof -
  have "set (ck_depends_on ck) \<subseteq> ck_id ` set checks" if "ck \<in> set checks" for ck
  proof
    fix x assume x: "x \<in> set (ck_depends_on ck)"
    have "(ck_id ck, sorted_check ck) \<in> set (checks_by_id checks)"
      using that d by (auto simp: checks_by_id_iff)
    then have "sorted_check ck \<in> set (bt_values (checks_by_id checks))"
      by (force simp: bt_values_def)
    with v x have "bt_contains (checks_by_id checks) x"
      by (auto simp: validate_dependencies_def validate_check_dependencies_def result_simps split: if_splits)
    then show "x \<in> ck_id ` set checks"
      using check_ids_checks_by_id [OF d] by (simp add: bt_contains_iff check_ids_def)
  qed
  then show ?thesis
    using d by (auto simp: graph_ok_def checks_by_id_iff check_ids_checks_by_id)
      (auto simp: checks_by_id_def)
qed

text \<open>Everything a successful normalization of the checks guarantees.\<close>

lemma normalize_checks_sound:
  assumes "normalize_checks checks = Ok ns"
  obtains ks where
    "distinct (map ck_id checks)" "\<forall>ck\<in>set checks. valid_check ck"
    "graph_ok (checks_by_id checks)" "least_first (checks_by_id checks) {} ks"
    "set ks = ck_id ` set checks" "distinct ks" "ks = map nk_id ns"
    "ns = map (\<lambda>k. normalize_check (the (map_of (checks_by_id checks) k))) ks"
    "checks \<noteq> []" "length checks \<le> 128" "\<exists>ck\<in>set checks. ck_required ck"
proof -
  from assms obtain by_id where f: "try_fold normalize_check_step [] checks = Ok by_id"
    and v: "validate_dependencies by_id = Ok ()" and t: "topological_checks by_id = Ok ns"
    and c: "checks \<noteq> []" "length checks \<le> 128" "\<exists>ck\<in>set checks. ck_required ck"
    by (auto simp: normalize_checks_def result_simps list_ex_iff MAX_CHECKS_def)
  from normalize_check_fold [OF f] have b: "by_id = checks_by_id checks" "distinct (map ck_id checks)"
    "\<forall>ck\<in>set checks. valid_check ck" by blast+
  from graph_ok_checks [OF b(2)] v b(1) have g: "graph_ok (checks_by_id checks)" by simp
  from g show thesis
  proof (cases rule: topological_checks_outcome)
    case (ordered ks)
    with t b(1) have ns: "ns = map (\<lambda>k. normalize_check (the (map_of (checks_by_id checks) k))) ks" by simp
    have "nk_id (normalize_check (the (map_of (checks_by_id checks) k))) = k" if "k \<in> set ks" for k
    proof -
      from that ordered(3) graph_ok_get(1) [OF g] obtain ck where ck: "map_of (checks_by_id checks) k = Some ck"
        by blast
      from graph_ok_get(2) [OF g ck] ck show ?thesis by (simp add: normalize_check_def)
    qed
    then have ids: "ks = map nk_id ns" by (simp add: ns map_idI)
    show thesis
      using that [OF b(2,3) g ordered(2) _ _ ids ns c] ordered(3) check_ids_checks_by_id [OF b(2)]
        least_first_facts [OF ordered(2)] by simp
  next
    case (cycle stuck)
    with t b(1) show thesis by simp
  qed
qed

lemma normalize_check_lookup:
  assumes d: "distinct (map ck_id checks)" and ck: "ck \<in> set checks"
  shows "map_of (checks_by_id checks) (ck_id ck) = Some (sorted_check ck)"
proof -
  have "(ck_id ck, sorted_check ck) \<in> set (checks_by_id checks)" using d ck by (auto simp: checks_by_id_iff)
  then show ?thesis
    using bt.entries_iff [of "checks_by_id checks" "ck_id ck"] by (simp add: checks_by_id_def)
qed

lemma normalize_checks_set:
  assumes "normalize_checks checks = Ok ns"
  shows "set ns = (\<lambda>ck. normalize_check (sorted_check ck)) ` set checks"
proof -
  from assms obtain ks where r: "distinct (map ck_id checks)" "set ks = ck_id ` set checks"
    "ns = map (\<lambda>k. normalize_check (the (map_of (checks_by_id checks) k))) ks"
    by (rule normalize_checks_sound)
  have "set ns = (\<lambda>ck. normalize_check (the (map_of (checks_by_id checks) (ck_id ck)))) ` set checks"
    by (simp add: r(3) r(2) image_image)
  also have "\<dots> = (\<lambda>ck. normalize_check (sorted_check ck)) ` set checks"
    using normalize_check_lookup [OF r(1)] by (intro image_cong) auto
  finally show ?thesis .
qed

section \<open>Storage\<close>

lemma normalize_storage_iff:
  "normalize_storage sv storage checks = Ok (Some n) \<longleftrightarrow>
     sv \<in> {''1.2'', ''1.3''} \<and>
     (\<exists>s. storage = Some s \<and>
        1 \<le> sc_min_free_bytes s \<and> sc_min_free_bytes s \<le> MAX_STORAGE_BYTES \<and>
        4096 \<le> sc_receipt_journal_reserve_bytes s \<and> sc_receipt_journal_reserve_bytes s \<le> MAX_STORAGE_BYTES \<and>
        sc_max_cache_growth_bytes s \<le> MAX_STORAGE_BYTES \<and>
        ns_min_free_bytes n = sc_min_free_bytes s \<and>
        ns_receipt_journal_reserve_bytes n = sc_receipt_journal_reserve_bytes s \<and>
        ns_max_cache_growth_bytes n = sc_max_cache_growth_bytes s \<and>
        unat (ns_max_artifact_bytes n) = (\<Sum>a\<leftarrow>concat (map nk_artifact_contracts checks). unat (na_max_bytes a)) \<and>
        unat (ns_min_free_bytes n) + unat (ns_receipt_journal_reserve_bytes n) +
          unat (ns_max_cache_growth_bytes n) + unat (ns_max_artifact_bytes n) \<le> 2 ^ 40)"
  (is "?L \<longleftrightarrow> ?R")
proof -
  have max: "unat MAX_STORAGE_BYTES = 2 ^ 40" by (simp add: MAX_STORAGE_BYTES_def)
  have required: "Option.bind (checked_add a b) (\<lambda>t. Option.bind (checked_add t c) (\<lambda>t. checked_add t d)) = Some r
      \<longleftrightarrow> unat r = unat a + unat b + unat c + unat d" for a b c d r :: u64
  proof
    assume "Option.bind (checked_add a b) (\<lambda>t. Option.bind (checked_add t c) (\<lambda>t. checked_add t d)) = Some r"
    then show "unat r = unat a + unat b + unat c + unat d" by (auto simp: bind_eq_Some_conv u_simps)
  next
    assume r: "unat r = unat a + unat b + unat c + unat d"
    have lt: "unat r < 2 ^ 64" using unsigned_less [of r] by simp
    have "unat (a + b) = unat a + unat b" "unat (a + b + c) = unat a + unat b + unat c"
      using r lt by (simp_all add: unat_word_ariths)
    then have "checked_add a b = Some (a + b)" "checked_add (a + b) c = Some (a + b + c)"
      "checked_add (a + b + c) d = Some r"
      using r by (simp_all only: checked_add_eq_Some_iff)
    then show "Option.bind (checked_add a b) (\<lambda>t. Option.bind (checked_add t c) (\<lambda>t. checked_add t d)) = Some r"
      by simp
  qed
  show ?thesis
  proof
    assume ?L
    then obtain s total req where "sv \<in> {''1.2'', ''1.3''}" "storage = Some s"
      "1 \<le> sc_min_free_bytes s" "sc_min_free_bytes s \<le> MAX_STORAGE_BYTES"
      "4096 \<le> sc_receipt_journal_reserve_bytes s" "sc_receipt_journal_reserve_bytes s \<le> MAX_STORAGE_BYTES"
      "sc_max_cache_growth_bytes s \<le> MAX_STORAGE_BYTES"
      "unat total = (\<Sum>a\<leftarrow>concat (map nk_artifact_contracts checks). unat (na_max_bytes a))"
      "unat req = unat (sc_min_free_bytes s) + unat (sc_receipt_journal_reserve_bytes s) +
         unat (sc_max_cache_growth_bytes s) + unat total" "req \<le> MAX_STORAGE_BYTES"
      "n = \<lparr>ns_min_free_bytes = sc_min_free_bytes s,
            ns_receipt_journal_reserve_bytes = sc_receipt_journal_reserve_bytes s,
            ns_max_cache_growth_bytes = sc_max_cache_growth_bytes s, ns_max_artifact_bytes = total\<rparr>"
      by (auto simp: normalize_storage_def result_simps validator_iffs try_fold_checked_add required
          MIN_RECEIPT_JOURNAL_RESERVE_BYTES_def not_less split: if_splits)
    then show ?R by (simp add: word_le_nat_alt max)
  next
    assume ?R
    then obtain s where s: "sv \<in> {''1.2'', ''1.3''}" "storage = Some s"
      "1 \<le> sc_min_free_bytes s" "sc_min_free_bytes s \<le> MAX_STORAGE_BYTES"
      "4096 \<le> sc_receipt_journal_reserve_bytes s" "sc_receipt_journal_reserve_bytes s \<le> MAX_STORAGE_BYTES"
      "sc_max_cache_growth_bytes s \<le> MAX_STORAGE_BYTES"
      "ns_min_free_bytes n = sc_min_free_bytes s"
      "ns_receipt_journal_reserve_bytes n = sc_receipt_journal_reserve_bytes s"
      "ns_max_cache_growth_bytes n = sc_max_cache_growth_bytes s"
      and t: "unat (ns_max_artifact_bytes n) = (\<Sum>a\<leftarrow>concat (map nk_artifact_contracts checks). unat (na_max_bytes a))"
      and le: "unat (ns_min_free_bytes n) + unat (ns_receipt_journal_reserve_bytes n) +
          unat (ns_max_cache_growth_bytes n) + unat (ns_max_artifact_bytes n) \<le> 2 ^ 40"
      by blast
    define req where "req = (of_nat (unat (ns_min_free_bytes n) + unat (ns_receipt_journal_reserve_bytes n) +
          unat (ns_max_cache_growth_bytes n) + unat (ns_max_artifact_bytes n)) :: u64)"
    have req: "unat req = unat (sc_min_free_bytes s) + unat (sc_receipt_journal_reserve_bytes s) +
         unat (sc_max_cache_growth_bytes s) + unat (ns_max_artifact_bytes n)"
      unfolding req_def using le s(8-10) by (simp add: unat_word_ariths mod_simps)
    have "try_fold_option (\<lambda>total a. checked_add total (na_max_bytes a)) 0
        (concat (map nk_artifact_contracts checks)) = Some (ns_max_artifact_bytes n)"
      using t by (simp add: try_fold_checked_add)
    moreover have "req \<le> MAX_STORAGE_BYTES" using le req s(8-10) by (simp add: word_le_nat_alt max)
    ultimately show ?L
      using s required [THEN iffD2, OF req]
      by (cases n) (simp add: normalize_storage_def validate_bounded_def MIN_RECEIPT_JOURNAL_RESERVE_BYTES_def)
  qed
qed

section \<open>Environment\<close>

lemma fixed_environment_fold:
  assumes "try_fold (fixed_environment_step cx) (names, []) es = Ok (names', fixed)"
  shows "map nfe_name fixed = map fst es \<and> distinct (map fst es) \<and>
    set names \<inter> fst ` set es = {} \<and> set names' = set names \<union> fst ` set es \<and>
    (\<forall>e\<in>set fixed. \<exists>v. (nfe_name e, v) \<in> set es \<and> canonical_digest cx (JString v) = Ok (nfe_value_digest e))"
proof -
  define P where "P ys st \<longleftrightarrow> map nfe_name (snd st) = map fst ys \<and> distinct (map fst ys) \<and>
    set names \<inter> fst ` set ys = {} \<and> set (fst st) = set names \<union> fst ` set ys \<and>
    (\<forall>e\<in>set (snd st). \<exists>v. (nfe_name e, v) \<in> set ys \<and> canonical_digest cx (JString v) = Ok (nfe_value_digest e))"
    for ys :: "(string \<times> string) list" and st :: "string btree_set \<times> normalized_fixed_environment list"
  have "P es (names', fixed)"
  proof (rule try_fold_invariant [OF assms, of P])
    show "P [] (names, [])" by (simp add: P_def)
  next
    fix ys nv zs t t'
    assume P: "P ys t" and step: "fixed_environment_step cx t nv = Ok t'"
    obtain ns fs where t: "t = (ns, fs)" by (cases t)
    from step t obtain d where "fst nv \<notin> set ns" "canonical_digest cx (JString (snd nv)) = Ok d"
      "t' = (bs_insert (fst nv) ns, fs @ [\<lparr>nfe_name = fst nv, nfe_value_digest = d\<rparr>])"
      by (auto simp: fixed_environment_step_def result_simps split: prod.splits)
    with P t show "P (ys @ [nv]) t'"
      by (auto simp: P_def) (metis prod.collapse)+
  qed
  then show ?thesis by (simp add: P_def)
qed

lemma runtime_internal_fold:
  assumes "try_fold (runtime_internal_step targets) (names, []) bs = Ok (names', bound)"
  shows "map nri_name bound = map rie_name bs \<and> distinct (map rie_name bs) \<and>
    set names \<inter> rie_name ` set bs = {} \<and> set names' = set names \<union> rie_name ` set bs \<and>
    (\<forall>e\<in>set bound. \<exists>m. bt_get targets (nri_cache_id e) = Some m \<and> nri_container_target e = ''/workspace/'' @ m)"
proof -
  define P where "P ys st \<longleftrightarrow> map nri_name (snd st) = map rie_name ys \<and> distinct (map rie_name ys) \<and>
    set names \<inter> rie_name ` set ys = {} \<and> set (fst st) = set names \<union> rie_name ` set ys \<and>
    (\<forall>e\<in>set (snd st). \<exists>m. bt_get targets (nri_cache_id e) = Some m \<and> nri_container_target e = ''/workspace/'' @ m)"
    for ys :: "runtime_internal_environment_config list"
      and st :: "string btree_set \<times> normalized_runtime_internal_environment list"
  have "P bs (names', bound)"
  proof (rule try_fold_invariant [OF assms, of P])
    show "P [] (names, [])" by (simp add: P_def)
  next
    fix ys b zs t t'
    assume P: "P ys t" and step: "runtime_internal_step targets t b = Ok t'"
    obtain ns fs where t: "t = (ns, fs)" by (cases t)
    from step t obtain m where "rie_name b \<notin> set ns" "bt_get targets (rie_cache_id b) = Some m"
      "t' = (bs_insert (rie_name b) ns,
             fs @ [\<lparr>nri_name = rie_name b, nri_cache_id = rie_cache_id b, nri_container_target = ''/workspace/'' @ m\<rparr>])"
      by (auto simp: runtime_internal_step_def result_simps split: prod.splits)
    with P t show "P (ys @ [b]) t'" by (auto simp: P_def)
  qed
  then show ?thesis by (simp add: P_def)
qed

lemma remote_secret_fold:
  "try_fold remote_secret_step names ss = Ok names' \<Longrightarrow> distinct ss \<and> set names \<inter> set ss = {}"
proof (induction ss arbitrary: names)
  case (Cons x ss)
  from Cons.prems obtain t where t: "remote_secret_step names x = Ok t" "try_fold remote_secret_step t ss = Ok names'"
    by (auto simp: result_simps)
  from t(1) have "x \<notin> set names" "set t = insert x (set names)"
    by (auto simp: remote_secret_step_def split: if_splits)
  with Cons.IH [OF t(2)] show ?case by auto
qed simp

lemma distinct_map_sort_key: "distinct (map f (sort_key f xs)) \<longleftrightarrow> distinct (map f xs)"
  by (metis mset_map mset_sort mset_eq_imp_distinct_iff)

lemma normalize_environment_sound:
  assumes "normalize_environment cx sv env caches = Ok e"
  shows "distinct (ne_inherit e @ map nfe_name (ne_fixed e) @ map nri_name (ne_runtime_internal e) @ ne_remote_secret_only e)"
    "set (ne_inherit e) = set (env_allow env)" "sorted (ne_inherit e)"
    "set (map nfe_name (ne_fixed e)) = fst ` set (env_fixed env)" "sorted (map nfe_name (ne_fixed e))"
    "\<forall>b\<in>set (ne_runtime_internal e). \<exists>c\<in>set caches.
       nri_cache_id b = nc_id c \<and> nri_container_target b = ''/workspace/'' @ nc_mount_path c"
    "set (map nri_name (ne_runtime_internal e)) = rie_name ` set (env_runtime_internal env)"
    "set (ne_remote_secret_only e) = set (env_remote_secret_only env)"
    "sv = CONFIG_SCHEMA_VERSION \<Longrightarrow> ne_fixed e = [] \<and> ne_runtime_internal e = [] \<and> ne_remote_secret_only e = []"
    "sv \<noteq> CONFIG_SCHEMA_VERSION \<Longrightarrow> ne_inherit e = []"
proof -
  let ?targets = "bt_collect (map (\<lambda>c. (nc_id c, nc_mount_path c)) caches)"
  from assms obtain inh rso names fixed names' bound names'' where
    inh: "unique_sorted ''environment.allow'' (env_allow env) validate_environment_name = Ok inh"
    and rso: "unique_sorted ''environment.remote_secret_only'' (env_remote_secret_only env) validate_environment_name = Ok rso"
    and old: "sv = CONFIG_SCHEMA_VERSION \<longrightarrow> env_fixed env = [] \<and> env_runtime_internal env = [] \<and> rso = []"
    and new: "sv \<noteq> CONFIG_SCHEMA_VERSION \<longrightarrow> inh = []"
    and f: "try_fold (fixed_environment_step cx) (bs_collect inh, []) (env_fixed env) = Ok (names, fixed)"
    and r: "try_fold (runtime_internal_step ?targets) (names, []) (env_runtime_internal env) = Ok (names', bound)"
    and s: "try_fold remote_secret_step names' rso = Ok names''"
    and e: "e = \<lparr>ne_inherit = inh, ne_fixed = sort_key nfe_name fixed, ne_runtime_internal = sort_key nri_name bound,
                ne_remote_secret_only = rso\<rparr>"
    by (auto simp: normalize_environment_def result_simps split: prod.splits)
  note F = fixed_environment_fold [OF f] and R = runtime_internal_fold [OF r] and S = remote_secret_fold [OF s]
  from inh have I: "inh = sorted_list_of_set (set (env_allow env))" by (simp add: env_name.unique_sorted_iff)
  from rso have O: "rso = sorted_list_of_set (set (env_remote_secret_only env))" by (simp add: env_name.unique_sorted_iff)
  have sets: "set (map nfe_name fixed) = fst ` set (env_fixed env)" "set (map nri_name bound) = rie_name ` set (env_runtime_internal env)"
    using F R by (simp_all del: set_map add: list.set_map [symmetric])
  have d: "distinct inh" "distinct (map nfe_name (sort_key nfe_name fixed))"
    "distinct (map nri_name (sort_key nri_name bound))" "distinct rso"
    using F R S by (simp_all add: distinct_map_sort_key I)
  have ss: "set (map nfe_name (sort_key nfe_name fixed)) = set (map nfe_name fixed)"
    "set (map nri_name (sort_key nri_name bound)) = set (map nri_name bound)" by simp_all
  have names: "set names = set inh \<union> set (map nfe_name fixed)" "set inh \<inter> set (map nfe_name fixed) = {}"
    using F sets(1) by (metis set_bs_collect)+
  have names': "set names' = set names \<union> set (map nri_name bound)" "set names \<inter> set (map nri_name bound) = {}"
    using R sets(2) by metis+
  have "set names' \<inter> set rso = {}" using S by blast
  with d names names' show "distinct (ne_inherit e @ map nfe_name (ne_fixed e) @ map nri_name (ne_runtime_internal e) @ ne_remote_secret_only e)"
    unfolding e normalized_environment.simps distinct_append set_append ss by blast
  show "set (ne_inherit e) = set (env_allow env)" "sorted (ne_inherit e)" by (simp_all add: e I)
  show "set (map nfe_name (ne_fixed e)) = fst ` set (env_fixed env)"
    "set (map nri_name (ne_runtime_internal e)) = rie_name ` set (env_runtime_internal env)"
    using sets by (simp_all add: e)
  show "sorted (map nfe_name (ne_fixed e))" by (simp add: e)
  show "set (ne_remote_secret_only e) = set (env_remote_secret_only env)" by (simp add: e O)
  show "\<forall>b\<in>set (ne_runtime_internal e). \<exists>c\<in>set caches.
       nri_cache_id b = nc_id c \<and> nri_container_target b = ''/workspace/'' @ nc_mount_path c"
  proof
    fix b assume "b \<in> set (ne_runtime_internal e)"
    with R e obtain m where m: "map_of ?targets (nri_cache_id b) = Some m" "nri_container_target b = ''/workspace/'' @ m"
      by auto
    from m(1) have "(nri_cache_id b, m) \<in> set ?targets" by (rule map_of_SomeD)
    from set_bt_collect [OF this] m(2) show "\<exists>c\<in>set caches.
       nri_cache_id b = nc_id c \<and> nri_container_target b = ''/workspace/'' @ nc_mount_path c" by auto
  qed
  show "sv \<noteq> CONFIG_SCHEMA_VERSION \<Longrightarrow> ne_inherit e = []" using new by (simp add: e)
  show "sv = CONFIG_SCHEMA_VERSION \<Longrightarrow> ne_fixed e = [] \<and> ne_runtime_internal e = [] \<and> ne_remote_secret_only e = []"
    using old F R by (simp add: e)
qed

section \<open>The whole plan\<close>

lemma into_plan_sound:
  assumes "into_plan cx cfg = Ok env"
  shows "validate_top_level cfg = Ok ()"
    "normalize_caches (cfg_caches cfg) = Ok (pl_caches (pe_plan env))"
    "normalize_runtime (cfg_schema_version cfg) (cfg_runtime cfg) = Ok (pl_runtime (pe_plan env))"
    "normalize_environment cx (cfg_schema_version cfg) (cfg_environment cfg) (pl_caches (pe_plan env)) =
       Ok (pl_environment (pe_plan env))"
    "normalize_checks (cfg_checks cfg) = Ok (pl_checks (pe_plan env))"
    "normalize_storage (cfg_schema_version cfg) (cfg_storage cfg) (pl_checks (pe_plan env)) =
       Ok (pl_storage (pe_plan env))"
    "validate_path_isolation (pl_receipt (pe_plan env)) (pl_caches (pe_plan env)) (pl_checks (pe_plan env)) = Ok ()"
    "canonical_digest cx (plan_to_value (pe_plan env)) = Ok (pe_plan_digest env)"
    "pl_schema_version (pe_plan env) = cfg_schema_version cfg" "pl_project (pe_plan env) = cfg_project cfg"
    "nrc_output (pl_receipt (pe_plan env)) = rcc_output (cfg_receipt cfg)"
    "pe_fixed_environment env = env_fixed (cfg_environment cfg)"
  using assms by (auto simp: into_plan_def result_simps Let_def)

section \<open>No abort is reachable\<close>

definition no_panic :: "(config_error, 'a) result \<Rightarrow> bool" where
  "no_panic r \<longleftrightarrow> (\<forall>m. r \<noteq> Err (CfgPanic m))"

named_theorems no_panic_simps \<open>computations that never abort\<close>

lemma no_panic_Ok [no_panic_simps]: "no_panic (Ok x)"
  by (simp add: no_panic_def)

lemma no_panic_Err [no_panic_simps]: "no_panic (Err e) \<longleftrightarrow> (\<forall>m. e \<noteq> CfgPanic m)"
  by (auto simp: no_panic_def)

lemma no_panic_if [no_panic_simps]:
  "no_panic (if c then r else s) \<longleftrightarrow> (c \<longrightarrow> no_panic r) \<and> (\<not> c \<longrightarrow> no_panic s)"
  by simp

lemma no_panic_and_then [no_panic_simps]:
  "no_panic (and_then r k) \<longleftrightarrow> no_panic r \<and> (\<forall>x. r = Ok x \<longrightarrow> no_panic (k x))"
  by (cases r) (auto simp: no_panic_def)

lemma no_panic_try_each: "(\<And>x. no_panic (f x)) \<Longrightarrow> no_panic (try_each f xs)"
  by (induction xs) (simp_all add: no_panic_simps)

lemma no_panic_try_fold: "(\<And>s x. no_panic (f s x)) \<Longrightarrow> no_panic (try_fold f s xs)"
  by (induction xs arbitrary: s) (simp_all add: no_panic_simps)

lemma no_panic_map_err [no_panic_simps]: "no_panic (map_err CfgReceipt r)"
  by (cases r) (simp_all add: no_panic_simps)

lemma no_panic_ok_or [no_panic_simps]: "no_panic (ok_or e v) \<longleftrightarrow> v \<noteq> None \<or> (\<forall>m. e \<noteq> CfgPanic m)"
  by (cases v) (auto simp: no_panic_simps)

lemma no_panic_validators [no_panic_simps]:
  "no_panic (validate_text f v)" "no_panic (validate_identifier f v)" "no_panic (validate_environment_name v)"
  "no_panic (validate_relative_path f v)" "no_panic (validate_bounded f a b c)"
  "no_panic (reject_path_overlap p q)"
  by (simp_all add: validate_text_def validate_identifier_def validate_environment_name_def
      validate_relative_path_def validate_bounded_def reject_path_overlap_def no_panic_simps split: list.splits)

lemma no_panic_unique_sorted [no_panic_simps]: "(\<And>v. no_panic (f v)) \<Longrightarrow> no_panic (unique_sorted g vs f)"
  unfolding unique_sorted_def
  by (rule no_panic_try_fold) (simp add: unique_sorted_step_def no_panic_simps)

lemma no_panic_top_level: "no_panic (validate_top_level cfg)"
  by (simp add: validate_top_level_def validate_repository_identity_def validate_image_reference_def
      no_panic_simps split: prod.splits option.splits)

lemma no_panic_caches: "no_panic (normalize_caches cs)"
proof -
  have "no_panic (normalize_cache_step st c)" for st c
    by (simp add: normalize_cache_step_def no_panic_simps split: prod.splits)
  then show ?thesis
    by (simp add: normalize_caches_def no_panic_simps no_panic_try_fold split: prod.splits)
qed

lemma no_panic_environment: "no_panic (normalize_environment cx sv env cs)"
proof -
  have "no_panic (fixed_environment_step cx st nv)" "no_panic (runtime_internal_step ts st' b)"
    "no_panic (remote_secret_step ns n)" for st nv ts st' b ns n
    by (simp_all add: fixed_environment_step_def runtime_internal_step_def remote_secret_step_def
        no_panic_simps split: prod.splits)
  then show ?thesis
    by (simp add: normalize_environment_def no_panic_simps no_panic_try_fold split: prod.splits)
qed

lemma no_panic_checks: "no_panic (normalize_checks cks)"
proof -
  have "no_panic (validate_artifact_contract_step ck ps a)" for ck ps a
    by (simp add: validate_artifact_contract_step_def no_panic_simps)
  then have "no_panic (validate_artifact_contracts ck)" for ck
    by (simp add: validate_artifact_contracts_def no_panic_simps no_panic_try_fold)
  then have "no_panic (normalize_check_step b ck)" for b ck
    by (simp add: normalize_check_step_def validate_check_def no_panic_simps no_panic_try_each Let_def)
  then have fold: "no_panic (try_fold normalize_check_step [] cks)" by (rule no_panic_try_fold)
  have deps: "no_panic (validate_dependencies b)" for b
    by (simp add: validate_dependencies_def validate_check_dependencies_def no_panic_simps no_panic_try_each)
  have topo: "no_panic (topological_checks b)"
    if "try_fold normalize_check_step [] cks = Ok b" "validate_dependencies b = Ok ()" for b
  proof -
    from normalize_check_fold [OF that(1)] that(2) have "graph_ok b"
      using graph_ok_checks by auto
    then show ?thesis by (cases rule: topological_checks_outcome) (simp_all add: no_panic_simps)
  qed
  from fold deps topo show ?thesis by (simp add: normalize_checks_def no_panic_simps)
qed

lemma no_panic_storage: "no_panic (normalize_storage sv s cks)"
  by (simp add: normalize_storage_def no_panic_simps)

lemma no_panic_runtime: "no_panic (normalize_runtime sv r)"
  by (simp add: normalize_runtime_def no_panic_simps split: prod.splits)

lemma no_panic_isolation: "no_panic (validate_path_isolation r cs cks)"
proof -
  have "no_panic (isolate_caches out ms)" for out ms
    by (induction ms) (simp_all add: no_panic_simps no_panic_try_each)
  moreover have "no_panic (isolate_artifact out ms s a)" for out ms s a
    by (simp add: isolate_artifact_def no_panic_simps no_panic_try_each)
  ultimately show ?thesis
    by (simp add: validate_path_isolation_def no_panic_simps no_panic_try_fold)
qed

lemma no_panic_into_plan: "no_panic (into_plan cx cfg)"
  by (simp add: into_plan_def no_panic_simps Let_def no_panic_top_level no_panic_caches
      no_panic_environment no_panic_checks no_panic_storage no_panic_runtime no_panic_isolation)

end
