(* ===== verification/Samples.thy ===== *)
theory Samples
  imports Config_Plan "HOL-Library.Code_Target_Numeral"
begin

text \<open>
  Concrete inputs the witnesses evaluate: a codec with a constant writer and digest, and a
  complete configuration with two caches, a bound environment, three dependent checks and one
  artifact contract. The numeral representation makes kernel evaluation of the limits feasible.
\<close>

section \<open>A writer that loses nothing\<close>

primrec write_bytes :: "nat \<Rightarrow> nat \<Rightarrow> string" where
  "write_bytes 0 n = []"
| "write_bytes (Suc k) n = char_of (n mod 256) # write_bytes k (n div 256)"

definition write_u64 :: "u64 \<Rightarrow> string" where
  "write_u64 n = write_bytes 8 (unat n)"

primrec write_text :: "string \<Rightarrow> string" where
  "write_text [] = [CHR ''e'']"
| "write_text (c # cs) = CHR ''+'' # c # write_text cs"

definition write_each :: "('a \<Rightarrow> string) \<Rightarrow> 'a list \<Rightarrow> string" where
  "write_each f xs = concat (map (\<lambda>x. CHR ''+'' # f x) xs) @ [CHR ''e'']"

lemma write_each_cong [fundef_cong]:
  "xs = ys \<Longrightarrow> (\<And>x. x \<in> set ys \<Longrightarrow> f x = g x) \<Longrightarrow> write_each f xs = write_each g ys"
  by (simp add: write_each_def cong: map_cong)

function write_json :: "json \<Rightarrow> string" where
  "write_json JNull = ''n''"
| "write_json (JBool b) = (if b then ''t'' else ''f'')"
| "write_json (JNumber (PosInt n)) = CHR ''p'' # write_u64 n"
| "write_json (JNumber (NegInt n)) = CHR ''m'' # write_u64 n"
| "write_json (JNumber (Float n)) = CHR ''d'' # write_u64 n"
| "write_json (JString s) = CHR ''s'' # write_text s"
| "write_json (JArray xs) = CHR ''a'' # write_each write_json xs"
| "write_json (JObject kvs) = CHR ''o'' # write_each (\<lambda>kv. write_text (fst kv) @ write_json (snd kv)) kvs"
  by pat_completeness auto
termination
  by (relation "measure size") (auto simp: less_Suc_eq_le size_list_elem size_entry)

lemma length_write_bytes [simp]: "length (write_bytes k n) = k"
  by (induction k arbitrary: n) simp_all

lemma write_bytes_inj: "write_bytes k m = write_bytes k n \<Longrightarrow> m < 256 ^ k \<Longrightarrow> n < 256 ^ k \<Longrightarrow> m = n"
proof (induction k arbitrary: m n)
  case (Suc k)
  from Suc.prems(1) have "byte_val (char_of (m mod 256)) = byte_val (char_of (n mod 256))" by simp
  then have "m mod 256 = n mod 256" by simp
  moreover from Suc have "m div 256 = n div 256" by (simp add: less_mult_imp_div_less mult.commute)
  ultimately show ?case by (metis div_mult_mod_eq)
qed simp

lemma write_u64_prefix: "write_u64 m @ r = write_u64 n @ s \<Longrightarrow> m = n \<and> r = s"
proof -
  assume "write_u64 m @ r = write_u64 n @ s"
  then have "write_bytes 8 (unat m) = write_bytes 8 (unat n)" and rs: "r = s"
    by (simp_all add: write_u64_def)
  moreover have "unat w < 256 ^ 8" for w :: u64 using unsigned_less [of w, where 'a = nat] by simp
  ultimately have "unat m = unat n" by (intro write_bytes_inj) auto
  with rs show ?thesis by (simp add: word_unat_eq_iff)
qed

lemma write_text_prefix: "write_text a @ r = write_text b @ s \<Longrightarrow> a = b \<and> r = s"
  by (induction a arbitrary: b) (case_tac b; auto)+

lemma write_each_prefix:
  assumes "\<And>x y r s. x \<in> set xs \<Longrightarrow> f x @ r = f y @ s \<Longrightarrow> x = y \<and> r = s"
    and "write_each f xs @ r = write_each f ys @ s"
  shows "xs = ys \<and> r = s"
  using assms
proof (induction xs arbitrary: ys)
  case Nil
  then show ?case by (cases ys) (auto simp: write_each_def)
next
  case (Cons x xs)
  from Cons.prems(2) obtain y ys' where ys: "ys = y # ys'" by (cases ys) (auto simp: write_each_def)
  from Cons.prems(2) have "f x @ write_each f xs @ r = f y @ write_each f ys' @ s"
    by (simp add: ys write_each_def)
  from Cons.prems(1) [OF _ this] have "x = y" "write_each f xs @ r = write_each f ys' @ s" by auto
  with Cons.IH [of ys'] Cons.prems(1) ys show ?case by auto
qed

lemma write_json_prefix: "write_json v @ r = write_json w @ s \<Longrightarrow> v = w \<and> r = s"
proof (induction v arbitrary: w r s rule: write_json.induct)
  case (7 xs)
  have each: "xs = ys \<and> r' = s'" if "write_each write_json xs @ r' = write_each write_json ys @ s'" for ys r' s'
    using that by (rule write_each_prefix [rotated]) (rule "7.IH")
  from "7.prems" show ?case
    by (cases w rule: write_json.cases) (auto split: if_splits dest: each)
next
  case (8 kvs)
  let ?f = "\<lambda>kv. write_text (fst kv) @ write_json (snd kv)"
  have entry: "x = y \<and> r' = s'" if "x \<in> set kvs"
    "?f x @ r' = ?f y @ s'" for x y r' s'
  proof -
    from that(2) write_text_prefix [of "fst x" _ "fst y"]
    have "fst x = fst y" "write_json (snd x) @ r' = write_json (snd y) @ s'" by auto
    with "8.IH" [OF that(1)] show ?thesis by (simp add: prod_eq_iff)
  qed
  have each: "kvs = ys \<and> r' = s'" if "write_each ?f kvs @ r' = write_each ?f ys @ s'" for ys r' s'
    using that by (rule write_each_prefix [rotated]) (rule entry)
  from "8.prems" show ?case
    by (cases w rule: write_json.cases) (auto split: if_splits dest: each)
qed (case_tac w rule: write_json.cases;
  force split: if_splits dest: write_u64_prefix write_text_prefix)+

definition sample_codec :: codec where
  "sample_codec = \<lparr>to_vec = \<lambda>v. Ok (case v of JString s \<Rightarrow> write_json v | _ \<Rightarrow> ''x''), sha256 = \<lambda>b. take 32 (b @ replicate 32 (CHR ''0''))\<rparr>"

definition writing_codec :: codec where
  "writing_codec = sample_codec\<lparr>to_vec := \<lambda>v. Ok (write_json v)\<rparr>"

lemma writing_codec_injective: "injective_writer writing_codec"
  using write_json_prefix [of _ "[]" _ "[]"] by (auto simp: injective_writer_def writing_codec_def)

lemma sample_codec_length: "length (sha256 sample_codec b) = 32" "length (sha256 writing_codec b) = 32"
  by (simp_all add: writing_codec_def sample_codec_def)

section \<open>A configuration\<close>

definition sample_check :: "string \<Rightarrow> string list \<Rightarrow> artifact_contract_config list \<Rightarrow> check_config" where
  "sample_check i ds as =
     \<lparr>ck_id = i, ck_required = True, ck_argv = [''cargo'', ''test''], ck_working_directory = ''.'',
      ck_timeout_seconds = 600, ck_depends_on = ds, ck_artifacts = map ac_path as,
      ck_artifact_contracts = as\<rparr>"

definition sample_image :: string where
  "sample_image = ''rust@sha256:'' @ replicate 64 (CHR ''a'')"

definition sample_checks :: "check_config list" where
  "sample_checks =
     [sample_check ''test'' [''build'', ''fmt''] [], sample_check ''fmt'' [] [],
      sample_check ''build'' [''fmt'']
        [\<lparr>ac_path = ''out/app'', ac_kind = RegularFile, ac_max_bytes = 100, ac_max_entries = 1\<rparr>]]"

definition sample_config :: config_v1 where
  "sample_config =
     \<lparr>cfg_schema_version = ''1.2'', cfg_project = ''acme/demo'',
      cfg_runtime =
        \<lparr>rc_kind = DockerCompatible, rc_image = sample_image, rc_cpu_count = 2, rc_memory_mib = 2048,
         rc_pids_limit = 256, rc_network = False, rc_pull_policy = None, rc_swap_mode = None\<rparr>,
      cfg_receipt = receipt_config_default,
      cfg_environment =
        \<lparr>env_allow = [], env_fixed = [(''CI'', ''true'')],
         env_runtime_internal = [\<lparr>rie_name = ''CARGO_HOME'', rie_cache_id = ''cargo''\<rparr>],
         env_remote_secret_only = [''TOKEN'']\<rparr>,
      cfg_caches = [\<lparr>cc_id = ''target'', cc_mount_path = ''cache/target''\<rparr>,
                    \<lparr>cc_id = ''cargo'', cc_mount_path = ''cache/cargo''\<rparr>],
      cfg_storage = Some \<lparr>sc_min_free_bytes = 1000, sc_receipt_journal_reserve_bytes = 4096,
                         sc_max_cache_growth_bytes = 0\<rparr>,
      cfg_checks = sample_checks\<rparr>"

definition sample_plan :: execution_plan_envelope_v1 where
  "sample_plan = projr (into_plan sample_codec sample_config)"

text \<open>One evaluation of the whole pipeline, and the facts about its result that are used below.\<close>

lemma sample_evaluation:
  "case into_plan sample_codec sample_config of
     Inl e \<Rightarrow> False
   | Inr env \<Rightarrow>
       map nk_id (pl_checks (pe_plan env)) = [''fmt'', ''build'', ''test''] \<and>
       map_option ns_max_artifact_bytes (pl_storage (pe_plan env)) = Some 100 \<and>
       map nri_container_target (ne_runtime_internal (pl_environment (pe_plan env))) = [''/workspace/cache/cargo'']"
  by code_simp

lemma sample_into_plan: "into_plan sample_codec sample_config = Ok sample_plan"
  and sample_plan_checks: "map nk_id (pl_checks (pe_plan sample_plan)) = [''fmt'', ''build'', ''test'']"
  and sample_plan_storage: "map_option ns_max_artifact_bytes (pl_storage (pe_plan sample_plan)) = Some 100"
  and sample_plan_targets:
    "map nri_container_target (ne_runtime_internal (pl_environment (pe_plan sample_plan))) = [''/workspace/cache/cargo'']"
  using sample_evaluation by (auto simp: sample_plan_def split: sum.splits)

text \<open>The two writers agree on strings, so the plans agree and only the digests differ.\<close>

lemma into_plan_recode:
  assumes "into_plan cx cfg = Ok env" and "normalize_environment cx' = normalize_environment cx"
    and "canonical_digest cx' (plan_to_value (pe_plan env)) = Ok d"
  shows "into_plan cx' cfg = Ok (env\<lparr>pe_plan_digest := d\<rparr>)"
  using assms(1,3) unfolding into_plan_def assms(2) by (auto simp: result_simps Let_def)

definition writing_plan :: execution_plan_envelope_v1 where
  "writing_plan = sample_plan\<lparr>pe_plan_digest := projr (canonical_digest writing_codec (plan_to_value (pe_plan sample_plan)))\<rparr>"

lemma writing_into_plan: "into_plan writing_codec sample_config = Ok writing_plan"
proof -
  have fixed: "fixed_environment_step writing_codec = fixed_environment_step sample_codec"
    by (simp add: fun_eq_iff fixed_environment_step_def canonical_digest_def
        canonical_json_def writing_codec_def sample_codec_def)
  have env: "normalize_environment writing_codec = normalize_environment sample_codec"
    by (intro ext) (simp only: normalize_environment_def fixed)
  obtain d where d: "canonical_digest writing_codec (plan_to_value (pe_plan sample_plan)) = Ok d"
    by (simp add: canonical_digest_def canonical_json_def writing_codec_def)
  from into_plan_recode [OF sample_into_plan env d] d show ?thesis by (simp add: writing_plan_def)
qed

end
