(* ===== verification/Plan_Json.thy ===== *)
theory Plan_Json
  imports Config_Types
begin

text \<open>
  The JSON value of an execution plan determines the plan, and it is already in normal form:
  the plan digest of \<^verbatim>\<open>src/src/config.rs\<close> and the field-by-field comparison of
  \<^verbatim>\<open>src/src/verify.rs\<close> both speak about the whole plan.
\<close>

section \<open>Objects\<close>

lemma json_object_lookup: "json_object fs = json_object gs \<Longrightarrow> map_of (rev fs) k = map_of (rev gs) k"
  using map_of_bt_collect [of fs] map_of_bt_collect [of gs] by (simp add: json_object_def)

lemma json_object_wf: "(\<And>k v. (k, v) \<in> set fs \<Longrightarrow> json_wf v) \<Longrightarrow> json_wf (json_object fs)"
  by (auto simp: json_object_def list_all_iff dest!: set_bt_collect)

named_theorems to_value_eq \<open>a JSON value determines the record it was made from\<close>

lemma map_inj_eq: "(\<And>x y. f x = f y \<longleftrightarrow> x = y) \<Longrightarrow> map f xs = map f ys \<longleftrightarrow> xs = ys"
  by (metis injI inj_map_eq_map)

lemma map_option_inj_eq: "(\<And>x y. f x = f y \<longleftrightarrow> x = y) \<Longrightarrow> map_option f v = map_option f w \<longleftrightarrow> v = w"
  by (cases v; cases w) auto

lemma skip_none_lookup:
  "map_of (rev (skip_none k f v)) k' = (if k' = k then map_option f v else None)"
  by (cases v) (auto simp: skip_none_def)

lemma skip_empty_lookup:
  "map_of (rev (skip_empty k f xs)) k' = (if k' = k \<and> xs \<noteq> [] then Some (JArray (map f xs)) else None)"
  by (auto simp: skip_empty_def)

lemma JString_map_eq [to_value_eq]: "map JString xs = map JString ys \<longleftrightarrow> xs = ys"
  by (rule map_inj_eq) simp

lemma json_u64_eq [to_value_eq]: "json_u64 a = json_u64 b \<longleftrightarrow> a = b"
  by (simp add: json_u64_def)

lemma ucast_u16_u64_eq [to_value_eq]: "(ucast a :: u64) = ucast b \<longleftrightarrow> a = b" for a b :: u16
proof
  assume eq: "(ucast a :: u64) = ucast b"
  have "(ucast (ucast x :: u64) :: u16) = x" for x
    by (rule ucast_up_ucast_id) (simp add: is_up)
  with eq show "a = b" by metis
qed simp

lemma ucast_u32_u64_eq [to_value_eq]: "(ucast a :: u64) = ucast b \<longleftrightarrow> a = b" for a b :: u32
proof
  assume eq: "(ucast a :: u64) = ucast b"
  have "(ucast (ucast x :: u64) :: u32) = x" for x
    by (rule ucast_up_ucast_id) (simp add: is_up)
  with eq show "a = b" by metis
qed simp

lemma enum_to_value_eq [to_value_eq]:
  "runtime_kind_to_value a = runtime_kind_to_value b \<longleftrightarrow> a = b"
  "pull_policy_to_value p = pull_policy_to_value q \<longleftrightarrow> p = q"
  "swap_mode_to_value m = swap_mode_to_value n \<longleftrightarrow> m = n"
  "artifact_kind_to_value k = artifact_kind_to_value l \<longleftrightarrow> k = l"
proof -
  show "runtime_kind_to_value a = runtime_kind_to_value b \<longleftrightarrow> a = b" by (cases a; cases b) simp_all
  show "pull_policy_to_value p = pull_policy_to_value q \<longleftrightarrow> p = q" by (cases p; cases q) simp_all
  show "swap_mode_to_value m = swap_mode_to_value n \<longleftrightarrow> m = n" by (cases m; cases n) simp_all
  show "artifact_kind_to_value k = artifact_kind_to_value l \<longleftrightarrow> k = l" by (cases k; cases l) simp_all
qed

lemma map_add_absent:
  "n k = None \<Longrightarrow> (m ++ n) k = m k" "m k = None \<Longrightarrow> (m ++ n) k = n k"
  by (auto simp: map_add_def split: option.splits)

lemmas lookup_simps = map_add_absent skip_none_lookup skip_empty_lookup

section \<open>One record at a time\<close>

lemma runtime_to_value_eq [to_value_eq]: "runtime_to_value x = runtime_to_value y \<longleftrightarrow> x = y"
proof
  assume "runtime_to_value x = runtime_to_value y"
  note look = json_object_lookup [OF this [unfolded runtime_to_value_def]]
  show "x = y"
    using look [of "''kind''"] look [of "''image''"] look [of "''cpu_count''"] look [of "''memory_mib''"] look [of "''pids_limit''"] look [of "''network''"] look [of "''pull_policy''"] look [of "''swap_mode''"]
    by (cases x; cases y) (simp add: lookup_simps to_value_eq
        map_option_inj_eq [OF enum_to_value_eq(2)] map_option_inj_eq [OF enum_to_value_eq(3)])
qed simp

lemma receipt_to_value_eq [to_value_eq]: "receipt_to_value x = receipt_to_value y \<longleftrightarrow> x = y"
proof
  assume "receipt_to_value x = receipt_to_value y"
  note look = json_object_lookup [OF this [unfolded receipt_to_value_def]]
  show "x = y"
    using look [of "''output''"] look [of "''freshness_seconds''"]
    by (cases x; cases y) (simp add: lookup_simps to_value_eq)
qed simp

lemma fixed_environment_to_value_eq [to_value_eq]: "fixed_environment_to_value x = fixed_environment_to_value y \<longleftrightarrow> x = y"
proof
  assume "fixed_environment_to_value x = fixed_environment_to_value y"
  note look = json_object_lookup [OF this [unfolded fixed_environment_to_value_def]]
  show "x = y"
    using look [of "''name''"] look [of "''value_digest''"]
    by (cases x; cases y) (simp add: lookup_simps to_value_eq)
qed simp

lemma runtime_internal_to_value_eq [to_value_eq]: "runtime_internal_to_value x = runtime_internal_to_value y \<longleftrightarrow> x = y"
proof
  assume "runtime_internal_to_value x = runtime_internal_to_value y"
  note look = json_object_lookup [OF this [unfolded runtime_internal_to_value_def]]
  show "x = y"
    using look [of "''name''"] look [of "''cache_id''"] look [of "''container_target''"]
    by (cases x; cases y) (simp add: lookup_simps to_value_eq)
qed simp

lemma environment_to_value_eq [to_value_eq]: "environment_to_value x = environment_to_value y \<longleftrightarrow> x = y"
proof
  assume "environment_to_value x = environment_to_value y"
  note look = json_object_lookup [OF this [unfolded environment_to_value_def]]
  show "x = y"
    using look [of "''inherit''"] look [of "''fixed''"] look [of "''runtime_internal''"] look [of "''remote_secret_only''"]
    by (cases x; cases y) (simp add: lookup_simps to_value_eq
        map_inj_eq [OF fixed_environment_to_value_eq] map_inj_eq [OF runtime_internal_to_value_eq])
qed simp

lemma cache_to_value_eq [to_value_eq]: "cache_to_value x = cache_to_value y \<longleftrightarrow> x = y"
proof
  assume "cache_to_value x = cache_to_value y"
  note look = json_object_lookup [OF this [unfolded cache_to_value_def]]
  show "x = y"
    using look [of "''id''"] look [of "''mount_path''"]
    by (cases x; cases y) (simp add: lookup_simps to_value_eq)
qed simp

lemma storage_to_value_eq [to_value_eq]: "storage_to_value x = storage_to_value y \<longleftrightarrow> x = y"
proof
  assume "storage_to_value x = storage_to_value y"
  note look = json_object_lookup [OF this [unfolded storage_to_value_def]]
  show "x = y"
    using look [of "''min_free_bytes''"] look [of "''receipt_journal_reserve_bytes''"] look [of "''max_cache_growth_bytes''"] look [of "''max_artifact_bytes''"]
    by (cases x; cases y) (simp add: lookup_simps to_value_eq)
qed simp

lemma artifact_contract_to_value_eq [to_value_eq]: "artifact_contract_to_value x = artifact_contract_to_value y \<longleftrightarrow> x = y"
proof
  assume "artifact_contract_to_value x = artifact_contract_to_value y"
  note look = json_object_lookup [OF this [unfolded artifact_contract_to_value_def]]
  show "x = y"
    using look [of "''path''"] look [of "''kind''"] look [of "''max_bytes''"] look [of "''max_entries''"] look [of "''producer_check''"]
    by (cases x; cases y) (simp add: lookup_simps to_value_eq)
qed simp

lemma check_to_value_eq [to_value_eq]: "check_to_value x = check_to_value y \<longleftrightarrow> x = y"
proof
  assume "check_to_value x = check_to_value y"
  note look = json_object_lookup [OF this [unfolded check_to_value_def]]
  show "x = y"
    using look [of "''id''"] look [of "''required''"] look [of "''argv''"] look [of "''working_directory''"] look [of "''timeout_seconds''"] look [of "''depends_on''"] look [of "''artifacts''"] look [of "''artifact_contracts''"]
    by (cases x; cases y) (simp add: lookup_simps to_value_eq
        map_inj_eq [OF artifact_contract_to_value_eq] split: if_splits)
qed simp

lemma plan_to_value_eq [to_value_eq]: "plan_to_value x = plan_to_value y \<longleftrightarrow> x = y"
proof
  assume "plan_to_value x = plan_to_value y"
  note look = json_object_lookup [OF this [unfolded plan_to_value_def]]
  show "x = y"
    using look [of "''schema_version''"] look [of "''project''"] look [of "''runtime''"] look [of "''receipt''"] look [of "''environment''"] look [of "''caches''"] look [of "''storage''"] look [of "''checks''"]
    by (cases x; cases y) (simp add: lookup_simps to_value_eq
        map_inj_eq [OF cache_to_value_eq] map_inj_eq [OF check_to_value_eq] map_option_inj_eq [OF storage_to_value_eq])
qed simp

section \<open>Normal form\<close>

lemma json_wf_object [simp]: "list_all (\<lambda>kv. json_wf (snd kv)) fs \<Longrightarrow> json_wf (json_object fs)"
  by (rule json_object_wf) (auto simp: list_all_iff)

lemma json_wf_scalars [simp]:
  "json_wf (json_u64 n)" "json_wf (runtime_kind_to_value k)" "json_wf (pull_policy_to_value p)"
  "json_wf (swap_mode_to_value m)" "json_wf (artifact_kind_to_value a)"
  by (simp add: json_u64_def, (cases k; simp), (cases p; simp), (cases m; simp), (cases a; simp))

lemma json_wf_skips [simp]:
  "(\<And>x. json_wf (f x)) \<Longrightarrow> list_all (\<lambda>kv. json_wf (snd kv)) (skip_none k f v)"
  "(\<And>x. json_wf (g x)) \<Longrightarrow> list_all (\<lambda>kv. json_wf (snd kv)) (skip_empty k g xs)"
  by (auto simp: skip_none_def skip_empty_def list_all_iff split: option.splits)

lemma json_wf_array [simp]: "(\<And>x. json_wf (f x)) \<Longrightarrow> json_wf (JArray (map f xs))"
  by (simp add: list_all_iff)

lemma plan_parts_wf [simp]:
  "json_wf (runtime_to_value a)" "json_wf (receipt_to_value b)" "json_wf (fixed_environment_to_value c)"
  "json_wf (runtime_internal_to_value d)" "json_wf (cache_to_value f)" "json_wf (storage_to_value g)"
  "json_wf (artifact_contract_to_value h)"
  by (simp_all add: runtime_to_value_def receipt_to_value_def fixed_environment_to_value_def
      runtime_internal_to_value_def cache_to_value_def storage_to_value_def artifact_contract_to_value_def)

lemma environment_check_wf [simp]: "json_wf (environment_to_value e)" "json_wf (check_to_value c)"
  by (simp_all add: environment_to_value_def check_to_value_def del: json_wf.simps(5))

lemma plan_to_value_wf: "json_wf (plan_to_value p)"
  by (simp add: plan_to_value_def del: json_wf.simps(5))

end
