(* ===== verification/Config_Props.thy ===== *)
theory Config_Props
  imports Samples Plan_Json
begin

text \<open>
  The correctness properties of configuration loading (\<^verbatim>\<open>src/src/config.rs\<close>): what a plan that
  \<open>into_plan\<close> returns guarantees to the runner, and what its digest binds.
\<close>

section \<open>Path isolation\<close>

text \<open>
  C1. In every plan that \<open>into_plan\<close> returns, the receipt output, the cache mount points and the
  artifacts of all checks are pairwise disjoint as directory trees: of any two of these paths,
  neither one's list of segments is a prefix of the other's, so no declared output can be written
  through, or shadow, another one.
\<close>

theorem into_plan_isolates_paths:
  assumes "into_plan cx cfg = Ok env"
  shows "sorted_wrt (\<lambda>a b. \<not> prefix (split_on (CHR ''/'') a) (split_on (CHR ''/'') b) \<and>
                           \<not> prefix (split_on (CHR ''/'') b) (split_on (CHR ''/'') a))
    (nrc_output (pl_receipt (pe_plan env)) # map nc_mount_path (pl_caches (pe_plan env)) @
     concat (map nk_artifacts (pl_checks (pe_plan env))))"
  using validate_path_isolation_sound [OF into_plan_sound(7) [OF assms]]
  unfolding disjoint_paths_def path_overlap_iff de_Morgan_disj .

theorem into_plan_isolates_paths_witness:
  "into_plan sample_codec sample_config = Ok sample_plan \<and>
   sorted_wrt (\<lambda>a b. \<not> prefix (split_on (CHR ''/'') a) (split_on (CHR ''/'') b) \<and>
                     \<not> prefix (split_on (CHR ''/'') b) (split_on (CHR ''/'') a))
    (nrc_output (pl_receipt (pe_plan sample_plan)) # map nc_mount_path (pl_caches (pe_plan sample_plan)) @
     concat (map nk_artifacts (pl_checks (pe_plan sample_plan))))"
  using into_plan_isolates_paths [OF sample_into_plan] sample_into_plan by blast

section \<open>Check order\<close>

text \<open>
  C5. The checks of a plan are exactly the configured checks, each once, in the order that always
  takes the alphabetically least check whose dependencies are all done; in particular every check
  comes after all of its dependencies.
\<close>

theorem into_plan_check_order:
  assumes "into_plan cx cfg = Ok env"
  shows "least_first (checks_by_id (cfg_checks cfg)) {} (map nk_id (pl_checks (pe_plan env))) \<and>
    mset (map nk_id (pl_checks (pe_plan env))) = mset (map ck_id (cfg_checks cfg)) \<and>
    (\<forall>as c bs. pl_checks (pe_plan env) = as @ c # bs \<longrightarrow> set (nk_depends_on c) \<subseteq> nk_id ` set as)"
proof -
  let ?m = "checks_by_id (cfg_checks cfg)" and ?ns = "pl_checks (pe_plan env)"
  from normalize_checks_sound [OF into_plan_sound(5) [OF assms]] obtain ks where
    d: "distinct (map ck_id (cfg_checks cfg))" and g: "graph_ok ?m" and lf: "least_first ?m {} ks"
    and s: "set ks = ck_id ` set (cfg_checks cfg)" "distinct ks" and ks: "ks = map nk_id ?ns"
    and ns: "?ns = map (\<lambda>k. normalize_check (the (map_of ?m k))) ks" by blast
  have "mset ks = mset (map ck_id (cfg_checks cfg))"
    using d s set_eq_iff_mset_eq_distinct [of ks "map ck_id (cfg_checks cfg)"] by simp
  moreover have "set (nk_depends_on c) \<subseteq> nk_id ` set as" if "?ns = as @ c # bs" for as c bs
  proof -
    from that ks have split: "ks = map nk_id as @ nk_id c # map nk_id bs" by simp
    from that ns have "c \<in> set (map (\<lambda>k. normalize_check (the (map_of ?m k))) ks)" by simp
    then obtain k where k: "k \<in> set ks" "c = normalize_check (the (map_of ?m k))" by auto
    from k(1) s(1) check_ids_checks_by_id [OF d] graph_ok_get(1) [OF g] obtain ck where
      ck: "map_of ?m k = Some ck" by blast
    from graph_ok_get(2) [OF g ck] k(2) ck have "nk_id c = k" "nk_depends_on c = deps_of ?m k"
      by (simp_all add: normalize_check_def deps_of_def)
    with least_first_before [OF lf split] show ?thesis by simp
  qed
  ultimately show ?thesis using lf ks by blast
qed

theorem into_plan_check_order_witness:
  "into_plan sample_codec sample_config = Ok sample_plan \<and>
   map nk_id (pl_checks (pe_plan sample_plan)) = [''fmt'', ''build'', ''test''] \<and>
   least_first (checks_by_id sample_checks) {} [''fmt'', ''build'', ''test'']"
proof -
  have "cfg_checks sample_config = sample_checks" by (simp add: sample_config_def)
  with into_plan_check_order [OF sample_into_plan] sample_plan_checks sample_into_plan show ?thesis by simp
qed

text \<open>
  C6. On a validated dependency graph the topological sort succeeds exactly when the dependencies
  are acyclic; otherwise it reports, in increasing order, a non-empty set of checks each of which
  waits for another check of the same set.
\<close>

theorem topological_checks_decides:
  assumes "graph_ok by_id"
  shows "(is_ok (topological_checks by_id) \<longleftrightarrow> acyclic (dependency_relation by_id)) \<and>
    (\<not> acyclic (dependency_relation by_id) \<longrightarrow>
       (\<exists>stuck. topological_checks by_id = Err (CfgDependencyCycle stuck) \<and> stuck \<noteq> [] \<and>
          sorted_wrt (<) stuck \<and> (\<forall>k\<in>set stuck. \<exists>d\<in>set stuck. (d, k) \<in> dependency_relation by_id)))"
  using assms
proof (cases rule: topological_checks_outcome)
  case (ordered ks)
  with least_first_acyclic [OF assms ordered(2,3)] show ?thesis by simp
next
  case (cycle stuck)
  have "\<forall>k\<in>set stuck. \<exists>d\<in>set stuck. (d, k) \<in> dependency_relation by_id"
    using cycle(4,5) by (force simp: dependency_relation_def)
  moreover have "\<not> acyclic (dependency_relation by_id)"
    using stuck_not_acyclic [OF assms cycle(2,4,5)] .
  ultimately show ?thesis using cycle(1-3) by simp
qed

definition sample_cycle :: "(string, check_config) btree_map" where
  "sample_cycle =
     [(''a'', sample_check ''a'' [''b''] []), (''b'', sample_check ''b'' [''a''] []),
      (''c'', sample_check ''c'' [] [])]"

theorem topological_checks_decides_witness:
  "graph_ok sample_cycle \<and> topological_checks sample_cycle = Err (CfgDependencyCycle [''a'', ''b'']) \<and>
   \<not> acyclic (dependency_relation sample_cycle)"
proof -
  have ok: "graph_ok sample_cycle" by code_simp
  have run: "topological_checks sample_cycle = Err (CfgDependencyCycle [''a'', ''b''])" by code_simp
  from topological_checks_decides [OF ok] run ok show ?thesis by simp
qed

text \<open>
  C7. The order in which the configuration file lists the checks does not matter: permuting them
  leaves the plan, and so its digest, unchanged.
\<close>

theorem into_plan_check_permutation:
  assumes "into_plan cx cfg = Ok env" and "mset checks = mset (cfg_checks cfg)"
  shows "into_plan cx (cfg\<lparr>cfg_checks := checks\<rparr>) = Ok env"
proof -
  have "normalize_checks checks = Ok (pl_checks (pe_plan env))"
    using normalize_checks_perm [OF assms(2) [symmetric] into_plan_sound(5) [OF assms(1)]] .
  moreover have "validate_top_level (cfg\<lparr>cfg_checks := checks\<rparr>) = validate_top_level cfg"
    by (simp add: validate_top_level_def)
  moreover have "normalize_checks (cfg_checks cfg) = Ok (pl_checks (pe_plan env))"
    by (rule into_plan_sound(5) [OF assms(1)])
  ultimately show ?thesis using assms(1) by (simp add: into_plan_def)
qed

theorem into_plan_check_permutation_witness:
  "into_plan sample_codec (sample_config\<lparr>cfg_checks := rev sample_checks\<rparr>) = Ok sample_plan \<and>
   rev sample_checks \<noteq> sample_checks"
  using into_plan_check_permutation [OF sample_into_plan, of "rev sample_checks"]
  by (simp add: sample_config_def sample_checks_def sample_check_def)

section \<open>Robustness and budgets\<close>

text \<open>
  C8. No configuration makes \<open>into_plan\<close> abort: every \<open>expect\<close>, index and unsigned decrement in
  its call tree is guarded, so each input gives a plan or a reported error.
\<close>

theorem into_plan_never_panics: "into_plan cx cfg \<noteq> Err (CfgPanic m)"
  using no_panic_into_plan [of cx cfg] by (auto simp: no_panic_def)

text \<open>
  C9. The storage budget of a plan is exact: the artifact reserve is the mathematical sum of all
  artifact bounds, and all four reserves together stay within one tebibyte, so none of the 64-bit
  additions wrapped around.
\<close>

theorem into_plan_storage_budget:
  assumes "into_plan cx cfg = Ok env" and "pl_storage (pe_plan env) = Some n"
  shows "unat (ns_max_artifact_bytes n) =
      (\<Sum>a\<leftarrow>concat (map nk_artifact_contracts (pl_checks (pe_plan env))). unat (na_max_bytes a)) \<and>
    unat (ns_min_free_bytes n) + unat (ns_receipt_journal_reserve_bytes n) +
      unat (ns_max_cache_growth_bytes n) + unat (ns_max_artifact_bytes n) \<le> 2 ^ 40 \<and>
    1 \<le> unat (ns_min_free_bytes n) \<and> 4096 \<le> unat (ns_receipt_journal_reserve_bytes n)"
proof -
  have "normalize_storage (cfg_schema_version cfg) (cfg_storage cfg) (pl_checks (pe_plan env)) = Ok (Some n)"
    using into_plan_sound(6) [OF assms(1)] assms(2) by simp
  then show ?thesis
    by (auto simp: normalize_storage_iff word_le_nat_alt)
qed

theorem into_plan_storage_budget_witness:
  "\<exists>n. pl_storage (pe_plan sample_plan) = Some n \<and> unat (ns_max_artifact_bytes n) = 100 \<and>
     unat (ns_min_free_bytes n) + unat (ns_receipt_journal_reserve_bytes n) +
      unat (ns_max_cache_growth_bytes n) + unat (ns_max_artifact_bytes n) \<le> 2 ^ 40"
proof -
  from sample_plan_storage obtain n where n: "pl_storage (pe_plan sample_plan) = Some n" "unat (ns_max_artifact_bytes n) = 100"
    by auto
  from into_plan_storage_budget [OF sample_into_plan n(1)] n show ?thesis by blast
qed

text \<open>
  C10. The four environment classes of a plan name disjoint sets of variables, the names of each
  class are those of the configuration, and every runtime-internal variable points into the mount
  of a cache of the same plan.
\<close>

theorem into_plan_environment:
  assumes "into_plan cx cfg = Ok env"
  shows "let e = pl_environment (pe_plan env) in
    distinct (ne_inherit e @ map nfe_name (ne_fixed e) @ map nri_name (ne_runtime_internal e) @
      ne_remote_secret_only e) \<and>
    set (ne_inherit e) = set (env_allow (cfg_environment cfg)) \<and>
    set (map nfe_name (ne_fixed e)) = fst ` set (env_fixed (cfg_environment cfg)) \<and>
    set (map nri_name (ne_runtime_internal e)) = rie_name ` set (env_runtime_internal (cfg_environment cfg)) \<and>
    set (ne_remote_secret_only e) = set (env_remote_secret_only (cfg_environment cfg)) \<and>
    (\<forall>b\<in>set (ne_runtime_internal e). \<exists>c\<in>set (pl_caches (pe_plan env)).
       nri_cache_id b = nc_id c \<and> nri_container_target b = ''/workspace/'' @ nc_mount_path c)"
  using normalize_environment_sound(1,2,4,6,7,8) [OF into_plan_sound(4) [OF assms]] unfolding Let_def by blast

theorem into_plan_environment_witness:
  "map nri_container_target (ne_runtime_internal (pl_environment (pe_plan sample_plan))) =
     [''/workspace/cache/cargo''] \<and>
   set (ne_remote_secret_only (pl_environment (pe_plan sample_plan))) = {''TOKEN''}"
proof -
  have "set (env_remote_secret_only (cfg_environment sample_config)) = {''TOKEN''}"
    by (simp add: sample_config_def)
  with into_plan_environment [OF sample_into_plan] sample_plan_targets show ?thesis by (simp add: Let_def)
qed

section \<open>Digest\<close>

text \<open>
  C11. The plan digest binds the whole plan: if two configurations yield the same digest, their
  plans are equal, or the canonical texts of the two plans are an explicit SHA-256 collision. The
  only assumption on the JSON writer is that two values never have one text.
\<close>

theorem into_plan_digest_binds:
  assumes "into_plan cx cfg = Ok env" and "into_plan cx cfg' = Ok env'"
    and "pe_plan_digest env = pe_plan_digest env'" and "injective_writer cx"
  shows "pe_plan env = pe_plan env' \<or>
    digest_collision cx (plan_to_value (pe_plan env)) (plan_to_value (pe_plan env'))"
  using canonical_digest_binding [OF into_plan_sound(8) [OF assms(1)], of "plan_to_value (pe_plan env')"]
    into_plan_sound(8) [OF assms(2)] assms(3,4)
  by (simp add: normalize_json_id plan_to_value_wf plan_to_value_eq)

theorem into_plan_digest_binds_witness:
  "injective_writer writing_codec \<and> into_plan writing_codec sample_config = Ok writing_plan \<and>
   (pe_plan writing_plan = pe_plan writing_plan \<or>
    digest_collision writing_codec (plan_to_value (pe_plan writing_plan)) (plan_to_value (pe_plan writing_plan)))"
  using into_plan_digest_binds [OF writing_into_plan writing_into_plan refl writing_codec_injective]
    writing_codec_injective writing_into_plan by blast

text \<open>
  A plan returned by \<open>into_plan\<close> passes the digest check of its own writer: its canonical bytes
  are those of the envelope, never a digest mismatch, while any envelope whose recorded digest
  differs from the digest of its plan is refused.
\<close>

theorem plan_canonical_bytes_checks_digest:
  assumes "into_plan cx cfg = Ok env"
  shows "plan_canonical_bytes cx env = map_err CfgReceipt (canonical_json cx (plan_envelope_to_value env)) \<and>
    (\<forall>d. d \<noteq> pe_plan_digest env \<longrightarrow>
       plan_canonical_bytes cx (env\<lparr>pe_plan_digest := d\<rparr>) = Err CfgPlanDigestMismatch)"
  using into_plan_sound(8) [OF assms] by (simp add: plan_canonical_bytes_def)

theorem plan_canonical_bytes_checks_digest_witness:
  "plan_canonical_bytes sample_codec (sample_plan\<lparr>pe_plan_digest := []\<rparr>) = Err CfgPlanDigestMismatch"
proof -
  have "[] \<noteq> pe_plan_digest sample_plan"
    using into_plan_sound(8) [OF sample_into_plan] by (auto simp: canonical_digest_eq_Ok_iff RECEIPT_ID_PREFIX_def)
  with plan_canonical_bytes_checks_digest [OF sample_into_plan] show ?thesis by blast
qed

end
