(* ===== verification/Receipt_Types.thy ===== *)
theory Receipt_Types
  imports Plan_Json
begin

text \<open>
  The evidence records of \<^verbatim>\<open>src/src/receipt.rs\<close> (and \<^verbatim>\<open>RuntimeCapabilityEvidenceV1\<close> of
  \<^verbatim>\<open>src/src/runtime.rs\<close>) with the JSON value each derived \<^verbatim>\<open>Serialize\<close> writes, and the proof that
  the value of a receipt determines the receipt.
\<close>

section \<open>Data\<close>

record artifact_evidence =
  ae_path :: string
  ae_kind :: artifact_kind
  ae_producer_check :: string
  ae_entry_count :: u64
  ae_total_bytes :: u64
  ae_manifest_digest :: string

datatype source_snapshot_strategy = GitObject | GitArchive | DetachedWorktree

record source_snapshot_evidence =
  ss_schema_version :: string
  ss_strategy :: source_snapshot_strategy
  ss_manifest_digest :: string
  ss_entry_count :: u64

record producer_evidence =
  pr_name :: string
  pr_version :: string

record repository_evidence =
  re_repository :: string
  re_commit_sha :: string
  re_dirty :: bool

record run_evidence =
  ru_run_id :: string
  ru_generation :: u64
  ru_started_at_utc :: string
  ru_finished_at_utc :: string

record platform_evidence =
  pf_host_os :: string
  pf_host_arch :: string
  pf_runtime_kind :: string
  pf_runtime_version :: string
  pf_image_reference :: string
  pf_image_digest :: string

record check_evidence =
  ce_id :: string
  ce_required :: bool
  ce_argv :: "string list"
  ce_working_directory :: string
  ce_status :: evidence_status
  ce_exit_code :: "i32 option"
  ce_duration_ms :: u64
  ce_timed_out :: bool
  ce_cancelled :: bool
  ce_output_digest :: "string option"
  ce_incomplete_reason :: "string option"

record runtime_capability_evidence_v1 =
  rce_schema_version :: string
  rce_memory_limit_supported :: bool
  rce_swap_limit_supported :: bool
  rce_context_digest :: string
  rce_resolved_image_id :: string
  rce_resolved_image_reference :: string

record receipt_v1 =
  r1_schema_version :: string
  r1_producer :: producer_evidence
  r1_repository :: repository_evidence
  r1_run :: run_evidence
  r1_platform :: platform_evidence
  r1_configuration_digest :: string
  r1_checks :: "check_evidence list"
  r1_overall_status :: evidence_status
  r1_incomplete_reason :: "string option"
  r1_redaction_policy_version :: string

record receipt_envelope_v1 =
  e1_receipt_id :: string
  e1_receipt :: receipt_v1

record receipt_v2 =
  r2_schema_version :: string
  r2_producer :: producer_evidence
  r2_repository :: repository_evidence
  r2_run :: run_evidence
  r2_source_snapshot :: source_snapshot_evidence
  r2_platform :: platform_evidence
  r2_configuration_digest :: string
  r2_execution_plan :: execution_plan_v1
  r2_runtime_capability_evidence :: "runtime_capability_evidence_v1 option"
  r2_artifact_manifest :: "artifact_evidence list"
  r2_checks :: "check_evidence list"
  r2_overall_status :: evidence_status
  r2_incomplete_reason :: "string option"
  r2_redaction_policy_version :: string

record receipt_envelope_v2 =
  e2_receipt_id :: string
  e2_receipt :: receipt_v2

section \<open>JSON values\<close>

primrec evidence_status_to_value :: "evidence_status \<Rightarrow> json" where
  "evidence_status_to_value Pass = JString ''PASS''"
| "evidence_status_to_value Fail = JString ''FAIL''"
| "evidence_status_to_value Pending = JString ''PENDING''"
| "evidence_status_to_value NotRun = JString ''NOT_RUN''"

primrec strategy_to_value :: "source_snapshot_strategy \<Rightarrow> json" where
  "strategy_to_value GitObject = JString ''git-object''"
| "strategy_to_value GitArchive = JString ''git-archive''"
| "strategy_to_value DetachedWorktree = JString ''detached-worktree''"

text \<open>A signed number: \<^verbatim>\<open>serde_json\<close> keeps the negative ones apart.\<close>

definition json_i32 :: "i32 \<Rightarrow> json" where
  "json_i32 n = JNumber (if 0 \<le> sint n then PosInt (ucast n) else NegInt (scast n))"

definition artifact_evidence_to_value :: "artifact_evidence \<Rightarrow> json" where
  "artifact_evidence_to_value a = json_object
     [(''path'', JString (ae_path a)), (''kind'', artifact_kind_to_value (ae_kind a)),
      (''producer_check'', JString (ae_producer_check a)), (''entry_count'', json_u64 (ae_entry_count a)),
      (''total_bytes'', json_u64 (ae_total_bytes a)), (''manifest_digest'', JString (ae_manifest_digest a))]"

definition source_snapshot_to_value :: "source_snapshot_evidence \<Rightarrow> json" where
  "source_snapshot_to_value s = json_object
     [(''schema_version'', JString (ss_schema_version s)), (''strategy'', strategy_to_value (ss_strategy s)),
      (''manifest_digest'', JString (ss_manifest_digest s)), (''entry_count'', json_u64 (ss_entry_count s))]"

definition producer_to_value :: "producer_evidence \<Rightarrow> json" where
  "producer_to_value p = json_object [(''name'', JString (pr_name p)), (''version'', JString (pr_version p))]"

definition repository_to_value :: "repository_evidence \<Rightarrow> json" where
  "repository_to_value r = json_object
     [(''repository'', JString (re_repository r)), (''commit_sha'', JString (re_commit_sha r)),
      (''dirty'', JBool (re_dirty r))]"

definition run_to_value :: "run_evidence \<Rightarrow> json" where
  "run_to_value r = json_object
     [(''run_id'', JString (ru_run_id r)), (''generation'', json_u64 (ru_generation r)),
      (''started_at_utc'', JString (ru_started_at_utc r)), (''finished_at_utc'', JString (ru_finished_at_utc r))]"

definition platform_to_value :: "platform_evidence \<Rightarrow> json" where
  "platform_to_value p = json_object
     [(''host_os'', JString (pf_host_os p)), (''host_arch'', JString (pf_host_arch p)),
      (''runtime_kind'', JString (pf_runtime_kind p)), (''runtime_version'', JString (pf_runtime_version p)),
      (''image_reference'', JString (pf_image_reference p)), (''image_digest'', JString (pf_image_digest p))]"

definition check_evidence_to_value :: "check_evidence \<Rightarrow> json" where
  "check_evidence_to_value c = json_object
     [(''id'', JString (ce_id c)), (''required'', JBool (ce_required c)),
      (''argv'', JArray (map JString (ce_argv c))), (''working_directory'', JString (ce_working_directory c)),
      (''status'', evidence_status_to_value (ce_status c)), (''exit_code'', json_option json_i32 (ce_exit_code c)),
      (''duration_ms'', json_u64 (ce_duration_ms c)), (''timed_out'', JBool (ce_timed_out c)),
      (''cancelled'', JBool (ce_cancelled c)), (''output_digest'', json_option JString (ce_output_digest c)),
      (''incomplete_reason'', json_option JString (ce_incomplete_reason c))]"

definition runtime_capability_to_value :: "runtime_capability_evidence_v1 \<Rightarrow> json" where
  "runtime_capability_to_value r = json_object
     [(''schema_version'', JString (rce_schema_version r)),
      (''memory_limit_supported'', JBool (rce_memory_limit_supported r)),
      (''swap_limit_supported'', JBool (rce_swap_limit_supported r)),
      (''context_digest'', JString (rce_context_digest r)),
      (''resolved_image_id'', JString (rce_resolved_image_id r)),
      (''resolved_image_reference'', JString (rce_resolved_image_reference r))]"

definition receipt_v1_to_value :: "receipt_v1 \<Rightarrow> json" where
  "receipt_v1_to_value r = json_object
     [(''schema_version'', JString (r1_schema_version r)), (''producer'', producer_to_value (r1_producer r)),
      (''repository'', repository_to_value (r1_repository r)), (''run'', run_to_value (r1_run r)),
      (''platform'', platform_to_value (r1_platform r)),
      (''configuration_digest'', JString (r1_configuration_digest r)),
      (''checks'', JArray (map check_evidence_to_value (r1_checks r))),
      (''overall_status'', evidence_status_to_value (r1_overall_status r)),
      (''incomplete_reason'', json_option JString (r1_incomplete_reason r)),
      (''redaction_policy_version'', JString (r1_redaction_policy_version r))]"

definition receipt_envelope_v1_to_value :: "receipt_envelope_v1 \<Rightarrow> json" where
  "receipt_envelope_v1_to_value e = json_object
     [(''receipt_id'', JString (e1_receipt_id e)), (''receipt'', receipt_v1_to_value (e1_receipt e))]"

definition receipt_v2_to_value :: "receipt_v2 \<Rightarrow> json" where
  "receipt_v2_to_value r = json_object
     ([(''schema_version'', JString (r2_schema_version r)), (''producer'', producer_to_value (r2_producer r)),
       (''repository'', repository_to_value (r2_repository r)), (''run'', run_to_value (r2_run r)),
       (''source_snapshot'', source_snapshot_to_value (r2_source_snapshot r)),
       (''platform'', platform_to_value (r2_platform r)),
       (''configuration_digest'', JString (r2_configuration_digest r)),
       (''execution_plan'', plan_to_value (r2_execution_plan r))]
      @ skip_none ''runtime_capability_evidence'' runtime_capability_to_value (r2_runtime_capability_evidence r)
      @ skip_empty ''artifact_manifest'' artifact_evidence_to_value (r2_artifact_manifest r)
      @ [(''checks'', JArray (map check_evidence_to_value (r2_checks r))),
         (''overall_status'', evidence_status_to_value (r2_overall_status r)),
         (''incomplete_reason'', json_option JString (r2_incomplete_reason r)),
         (''redaction_policy_version'', JString (r2_redaction_policy_version r))])"

definition receipt_envelope_v2_to_value :: "receipt_envelope_v2 \<Rightarrow> json" where
  "receipt_envelope_v2_to_value e = json_object
     [(''receipt_id'', JString (e2_receipt_id e)), (''receipt'', receipt_v2_to_value (e2_receipt e))]"

section \<open>The value determines the receipt\<close>

lemma evidence_enum_eq [to_value_eq]:
  "evidence_status_to_value a = evidence_status_to_value b \<longleftrightarrow> a = b"
  "strategy_to_value s = strategy_to_value t \<longleftrightarrow> s = t"
proof -
  show "evidence_status_to_value a = evidence_status_to_value b \<longleftrightarrow> a = b" by (cases a; cases b) simp_all
  show "strategy_to_value s = strategy_to_value t \<longleftrightarrow> s = t" by (cases s; cases t) simp_all
qed

lemma json_i32_eq [to_value_eq]: "json_i32 a = json_i32 b \<longleftrightarrow> a = b"
proof
  assume "json_i32 a = json_i32 b"
  moreover have "sint (scast x :: u64) = sint x" for x :: i32
    by (rule sint_up_scast) (simp add: is_up)
  then have "(scast a :: u64) = scast b \<longleftrightarrow> a = b" by (metis signed_word_eqI)
  ultimately show "a = b" by (auto simp: json_i32_def ucast_u32_u64_eq split: if_splits)
qed simp

lemma json_option_eq:
  "(\<And>x y. f x = f y \<longleftrightarrow> x = y) \<Longrightarrow> (\<And>x. f x \<noteq> JNull) \<Longrightarrow> json_option f v = json_option f w \<longleftrightarrow> v = w"
  by (cases v; cases w) (auto simp: json_option_def, metis+)

lemma json_option_JString_eq [to_value_eq]: "json_option JString v = json_option JString w \<longleftrightarrow> v = w"
  by (rule json_option_eq) simp_all

lemma json_option_i32_eq [to_value_eq]: "json_option json_i32 v = json_option json_i32 w \<longleftrightarrow> v = w"
  by (rule json_option_eq [OF json_i32_eq]) (simp add: json_i32_def)

lemma artifact_evidence_to_value_eq [to_value_eq]: "artifact_evidence_to_value x = artifact_evidence_to_value y \<longleftrightarrow> x = y"
proof
  assume "artifact_evidence_to_value x = artifact_evidence_to_value y"
  note look = json_object_lookup [OF this [unfolded artifact_evidence_to_value_def]]
  show "x = y"
    using look [of "''path''"] look [of "''kind''"] look [of "''producer_check''"] look [of "''entry_count''"]
      look [of "''total_bytes''"] look [of "''manifest_digest''"]
    by (cases x; cases y) (simp add: lookup_simps to_value_eq)
qed simp

lemma source_snapshot_to_value_eq [to_value_eq]: "source_snapshot_to_value x = source_snapshot_to_value y \<longleftrightarrow> x = y"
proof
  assume "source_snapshot_to_value x = source_snapshot_to_value y"
  note look = json_object_lookup [OF this [unfolded source_snapshot_to_value_def]]
  show "x = y"
    using look [of "''schema_version''"] look [of "''strategy''"] look [of "''manifest_digest''"] look [of
      "''entry_count''"]
    by (cases x; cases y) (simp add: lookup_simps to_value_eq)
qed simp

lemma producer_to_value_eq [to_value_eq]: "producer_to_value x = producer_to_value y \<longleftrightarrow> x = y"
proof
  assume "producer_to_value x = producer_to_value y"
  note look = json_object_lookup [OF this [unfolded producer_to_value_def]]
  show "x = y"
    using look [of "''name''"] look [of "''version''"]
    by (cases x; cases y) (simp add: lookup_simps to_value_eq)
qed simp

lemma repository_to_value_eq [to_value_eq]: "repository_to_value x = repository_to_value y \<longleftrightarrow> x = y"
proof
  assume "repository_to_value x = repository_to_value y"
  note look = json_object_lookup [OF this [unfolded repository_to_value_def]]
  show "x = y"
    using look [of "''repository''"] look [of "''commit_sha''"] look [of "''dirty''"]
    by (cases x; cases y) (simp add: lookup_simps to_value_eq)
qed simp

lemma run_to_value_eq [to_value_eq]: "run_to_value x = run_to_value y \<longleftrightarrow> x = y"
proof
  assume "run_to_value x = run_to_value y"
  note look = json_object_lookup [OF this [unfolded run_to_value_def]]
  show "x = y"
    using look [of "''run_id''"] look [of "''generation''"] look [of "''started_at_utc''"] look [of
      "''finished_at_utc''"]
    by (cases x; cases y) (simp add: lookup_simps to_value_eq)
qed simp

lemma platform_to_value_eq [to_value_eq]: "platform_to_value x = platform_to_value y \<longleftrightarrow> x = y"
proof
  assume "platform_to_value x = platform_to_value y"
  note look = json_object_lookup [OF this [unfolded platform_to_value_def]]
  show "x = y"
    using look [of "''host_os''"] look [of "''host_arch''"] look [of "''runtime_kind''"] look [of
      "''runtime_version''"] look [of "''image_reference''"] look [of "''image_digest''"]
    by (cases x; cases y) (simp add: lookup_simps to_value_eq)
qed simp

lemma check_evidence_to_value_eq [to_value_eq]: "check_evidence_to_value x = check_evidence_to_value y \<longleftrightarrow> x = y"
proof
  assume "check_evidence_to_value x = check_evidence_to_value y"
  note look = json_object_lookup [OF this [unfolded check_evidence_to_value_def]]
  show "x = y"
    using look [of "''id''"] look [of "''required''"] look [of "''argv''"] look [of "''working_directory''"]
      look [of "''status''"] look [of "''exit_code''"] look [of "''duration_ms''"] look [of
      "''timed_out''"] look [of "''cancelled''"] look [of "''output_digest''"] look [of
      "''incomplete_reason''"]
    by (cases x; cases y) (simp add: lookup_simps to_value_eq)
qed simp

lemma runtime_capability_to_value_eq [to_value_eq]: "runtime_capability_to_value x = runtime_capability_to_value y \<longleftrightarrow> x = y"
proof
  assume "runtime_capability_to_value x = runtime_capability_to_value y"
  note look = json_object_lookup [OF this [unfolded runtime_capability_to_value_def]]
  show "x = y"
    using look [of "''schema_version''"] look [of "''memory_limit_supported''"] look [of
      "''swap_limit_supported''"] look [of "''context_digest''"] look [of "''resolved_image_id''"] look
      [of "''resolved_image_reference''"]
    by (cases x; cases y) (simp add: lookup_simps to_value_eq)
qed simp

lemma receipt_v1_to_value_eq [to_value_eq]: "receipt_v1_to_value x = receipt_v1_to_value y \<longleftrightarrow> x = y"
proof
  assume "receipt_v1_to_value x = receipt_v1_to_value y"
  note look = json_object_lookup [OF this [unfolded receipt_v1_to_value_def]]
  show "x = y"
    using look [of "''schema_version''"] look [of "''producer''"] look [of "''repository''"] look [of
      "''run''"] look [of "''platform''"] look [of "''configuration_digest''"] look [of "''checks''"] look
      [of "''overall_status''"] look [of "''incomplete_reason''"] look [of "''redaction_policy_version''"]
    by (cases x; cases y) (simp add: lookup_simps to_value_eq
        map_inj_eq [OF check_evidence_to_value_eq])
qed simp

lemma receipt_v2_to_value_eq [to_value_eq]: "receipt_v2_to_value x = receipt_v2_to_value y \<longleftrightarrow> x = y"
proof
  assume "receipt_v2_to_value x = receipt_v2_to_value y"
  note look = json_object_lookup [OF this [unfolded receipt_v2_to_value_def]]
  show "x = y"
    using look [of "''schema_version''"] look [of "''producer''"] look [of "''repository''"] look [of
      "''run''"] look [of "''source_snapshot''"] look [of "''platform''"] look [of
      "''configuration_digest''"] look [of "''execution_plan''"] look [of
      "''runtime_capability_evidence''"] look [of "''artifact_manifest''"] look [of "''checks''"] look [of
      "''overall_status''"] look [of "''incomplete_reason''"] look [of "''redaction_policy_version''"]
    by (cases x; cases y) (simp add: lookup_simps to_value_eq
        map_inj_eq [OF check_evidence_to_value_eq]
        map_inj_eq [OF artifact_evidence_to_value_eq]
        map_option_inj_eq [OF runtime_capability_to_value_eq] split: if_splits)
qed simp

section \<open>Normal form\<close>

lemma evidence_scalars_wf [simp]:
  "json_wf (evidence_status_to_value s)" "json_wf (strategy_to_value t)" "json_wf (json_i32 i)"
  by ((cases s; simp), (cases t; simp), simp add: json_i32_def)

lemma json_option_wf [simp]: "(\<And>x. json_wf (f x)) \<Longrightarrow> json_wf (json_option f v)"
  by (cases v) (simp_all add: json_option_def)

lemma evidence_parts_wf [simp]:
  "json_wf (artifact_evidence_to_value a)" "json_wf (source_snapshot_to_value s)" "json_wf (producer_to_value p)"
  "json_wf (repository_to_value r)" "json_wf (run_to_value u)" "json_wf (platform_to_value f)"
  "json_wf (check_evidence_to_value c)" "json_wf (runtime_capability_to_value k)"
  by (simp_all add: artifact_evidence_to_value_def source_snapshot_to_value_def producer_to_value_def
      repository_to_value_def run_to_value_def platform_to_value_def check_evidence_to_value_def
      runtime_capability_to_value_def del: json_wf.simps(5))

lemma receipt_v1_to_value_wf: "json_wf (receipt_v1_to_value r)"
  by (simp add: receipt_v1_to_value_def del: json_wf.simps(5))

lemma receipt_v2_to_value_wf: "json_wf (receipt_v2_to_value r)"
  by (simp add: receipt_v2_to_value_def plan_to_value_wf del: json_wf.simps(5))

end
