(* ===== verification/Receipt.thy ===== *)
theory Receipt
  imports Receipt_Types
begin

text \<open>
  Receipt validation and sealing (\<^verbatim>\<open>src/src/receipt.rs\<close>): the field validators, the evidence of one
  check, what both receipt versions share, the version 2 bindings to the execution plan, and
  \<open>seal\<close>, \<open>verify\<close> and \<open>canonical_bytes\<close> of both envelopes.
\<close>

definition RECEIPT_SCHEMA_VERSION :: string where
  "RECEIPT_SCHEMA_VERSION = ''1.0''"

definition RECEIPT_V2_SCHEMA_VERSION :: string where
  "RECEIPT_V2_SCHEMA_VERSION = ''2.0''"

definition SOURCE_SNAPSHOT_SCHEMA_VERSION :: string where
  "SOURCE_SNAPSHOT_SCHEMA_VERSION = ''1.0''"

section \<open>Field validators\<close>

definition require_text :: "string \<Rightarrow> string \<Rightarrow> (receipt_error, unit) result" where
  "require_text field v =
     (if str_trim v = [] then Err (RcpEmptyField field)
      else if any_control v then Err (RcpControlCharacter field)
      else Ok ())"

definition validate_commit_sha :: "string \<Rightarrow> (receipt_error, unit) result" where
  "validate_commit_sha v =
     (if (length v = 40 \<or> length v = 64) \<and> list_all is_lower_hex v
      then Ok () else Err (RcpInvalidCommitSha v))"

definition receipt_repository_identity :: "string \<Rightarrow> (receipt_error, unit) result" where
  "receipt_repository_identity v =
     and_then (require_text ''repository.repository'' v) (\<lambda>_.
       let segments = split_on (CHR ''/'') v;
           owner = (case segments of [] \<Rightarrow> [] | s # _ \<Rightarrow> s);
           repository = (case segments of _ # s # _ \<Rightarrow> s | _ \<Rightarrow> [])
       in if owner \<noteq> [] \<and> repository \<noteq> [] \<and> length segments \<le> 2 \<and>
             list_all is_name_char (chars owner) \<and> list_all is_name_char (chars repository)
          then Ok () else Err RcpInvalidRepositoryIdentity)"

definition validate_sha256 :: "string \<Rightarrow> string \<Rightarrow> (receipt_error, unit) result" where
  "validate_sha256 field v =
     (case strip_prefix RECEIPT_ID_PREFIX v of
        None \<Rightarrow> Err (RcpInvalidSha256 field)
      | Some hex \<Rightarrow>
          if length hex = 64 \<and> list_all is_lower_hex hex then Ok () else Err (RcpInvalidSha256 field))"

definition divisible_by :: "u32 \<Rightarrow> u32 \<Rightarrow> bool" where
  "divisible_by v d \<longleftrightarrow> v div d * d = v"

text \<open>\<^verbatim>\<open>&bytes[a..b]\<close> within bounds, and the separators of \<^verbatim>\<open>YYYY-MM-DDThh:mm:ssZ\<close>.\<close>

definition slice :: "nat \<Rightarrow> nat \<Rightarrow> 'a list \<Rightarrow> 'a list" where
  "slice a b xs = take (b - a) (drop a xs)"

definition timestamp_layout :: "string \<Rightarrow> bool" where
  "timestamp_layout v \<longleftrightarrow>
     length v = 20 \<and> v ! 4 = CHR ''-'' \<and> v ! 7 = CHR ''-'' \<and> v ! 10 = CHR ''T'' \<and>
     v ! 13 = CHR '':'' \<and> v ! 16 = CHR '':'' \<and> v ! 19 = CHR ''Z''"

definition days_in_month :: "bool \<Rightarrow> nat \<Rightarrow> nat" where
  "days_in_month leap month =
     (if month \<in> {1, 3, 5, 7, 8, 10, 12} then 31
      else if month \<in> {4, 6, 9, 11} then 30
      else if month = 2 then (if leap then 29 else 28)
      else 0)"

definition require_timestamp :: "string \<Rightarrow> string \<Rightarrow> (receipt_error, unit) result" where
  "require_timestamp field v =
     and_then (require_text field v) (\<lambda>_.
       let decimal = (\<lambda>a b. ok_or (RcpInvalidTimestamp field) (parse_decimal (slice a b v)))
       in if \<not> timestamp_layout v then Err (RcpInvalidTimestamp field)
          else
            and_then (decimal 0 4) (\<lambda>year.
            and_then (decimal 5 7) (\<lambda>month.
            and_then (decimal 8 10) (\<lambda>day.
            and_then (decimal 11 13) (\<lambda>hour.
            and_then (decimal 14 16) (\<lambda>minute.
            and_then (decimal 17 19) (\<lambda>second.
              let leap_year = divisible_by year 4 \<and> (\<not> divisible_by year 100 \<or> divisible_by year 400)
              in if 0 < year \<and> 1 \<le> unat day \<and> unat day \<le> days_in_month leap_year (unat month) \<and>
                    hour \<le> 23 \<and> minute \<le> 59 \<and> second \<le> 59
                 then Ok () else Err (RcpInvalidTimestamp field))))))))"

definition receipt_relative_path :: "string \<Rightarrow> string \<Rightarrow> (receipt_error, unit) result" where
  "receipt_relative_path field v =
     and_then (require_text field v) (\<lambda>_.
       if v = ''.'' \<or>
          \<not> starts_with ''/'' v \<and> \<not> starts_with ''~'' v \<and> CHR 0x5C \<notin> set v \<and> CHR '':'' \<notin> set v \<and>
          list_all (\<lambda>seg. seg \<noteq> [] \<and> seg \<noteq> ''.'' \<and> seg \<noteq> ''..'') (split_on (CHR ''/'') v)
       then Ok () else Err (RcpUnsafePath field))"

section \<open>Status\<close>

definition incomplete :: "evidence_status \<Rightarrow> bool" where
  "incomplete s \<longleftrightarrow> (case s of Pending \<Rightarrow> True | NotRun \<Rightarrow> True | _ \<Rightarrow> False)"

definition derive_overall_status :: "evidence_status list \<Rightarrow> evidence_status" where
  "derive_overall_status statuses =
     (if Fail \<in> set statuses then Fail
      else if list_ex incomplete statuses then Pending
      else Pass)"

definition validate_incomplete_reason ::
  "string \<Rightarrow> evidence_status \<Rightarrow> string option \<Rightarrow> (receipt_error, unit) result" where
  "validate_incomplete_reason field status reason =
     (case (incomplete status, map_option str_trim reason) of
        (True, None) \<Rightarrow> Err (RcpMissingIncompleteReason field)
      | (True, Some []) \<Rightarrow> Err (RcpMissingIncompleteReason field)
      | (False, Some (_ # _)) \<Rightarrow> Err (RcpUnexpectedIncompleteReason field)
      | _ \<Rightarrow> Ok ())"

section \<open>Evidence of one check\<close>

definition consistent_result :: "check_evidence \<Rightarrow> bool" where
  "consistent_result c \<longleftrightarrow>
     (case ce_status c of
        Pass \<Rightarrow> \<not> (ce_exit_code c \<noteq> Some 0 \<or> ce_timed_out c \<or> ce_cancelled c)
      | Fail \<Rightarrow> \<not> ((ce_exit_code c = None \<or> ce_exit_code c = Some 0) \<and> \<not> ce_timed_out c \<and> \<not> ce_cancelled c)
      | _ \<Rightarrow> \<not> (ce_exit_code c \<noteq> None \<or> ce_duration_ms c \<noteq> 0 \<or> ce_timed_out c \<or> ce_cancelled c \<or>
               ce_output_digest c \<noteq> None))"

definition check_evidence_validate :: "check_evidence \<Rightarrow> (receipt_error, unit) result" where
  "check_evidence_validate c =
     and_then (require_text ''check.id'' (ce_id c)) (\<lambda>_.
     if ce_argv c = [] \<or> list_ex (\<lambda>part. part = []) (ce_argv c) then Err (RcpInvalidCommand (ce_id c))
     else
       and_then (receipt_relative_path ''check.working_directory'' (ce_working_directory c)) (\<lambda>_.
       and_then (validate_incomplete_reason ''check.incomplete_reason'' (ce_status c) (ce_incomplete_reason c)) (\<lambda>_.
         if \<not> consistent_result c then Err (RcpInvalidCheckResult (ce_id c))
         else (case ce_output_digest c of
                 None \<Rightarrow> Ok ()
               | Some digest \<Rightarrow> validate_sha256 ''check.output_digest'' digest))))"

definition source_snapshot_validate :: "source_snapshot_evidence \<Rightarrow> (receipt_error, unit) result" where
  "source_snapshot_validate s =
     (if ss_schema_version s \<noteq> SOURCE_SNAPSHOT_SCHEMA_VERSION
      then Err (RcpUnsupportedSourceSnapshotSchemaVersion (ss_schema_version s))
      else
        and_then (require_text ''source_snapshot.manifest_digest'' (ss_manifest_digest s)) (\<lambda>_.
        and_then (validate_sha256 ''source_snapshot.manifest_digest'' (ss_manifest_digest s)) (\<lambda>_.
          if ss_entry_count s = 0 then Err (RcpInvalidSourceSnapshotEntryCount (ss_entry_count s))
          else Ok ())))"

section \<open>What both versions share\<close>

record receipt_common =
  cm_expected_schema_version :: string
  cm_schema_version :: string
  cm_producer :: producer_evidence
  cm_repository :: repository_evidence
  cm_run :: run_evidence
  cm_platform :: platform_evidence
  cm_configuration_digest :: string
  cm_checks :: "check_evidence list"
  cm_overall_status :: evidence_status
  cm_incomplete_reason :: "string option"
  cm_redaction_policy_version :: string

text \<open>The loop over the checks: the ids seen and the statuses of the required checks.\<close>

definition common_check_step ::
  "string btree_set \<times> evidence_status list \<Rightarrow> check_evidence
     \<Rightarrow> (receipt_error, string btree_set \<times> evidence_status list) result" where
  "common_check_step st c =
     (let (check_ids, required_statuses) = st
      in and_then (check_evidence_validate c) (\<lambda>_.
           if ce_id c \<in> set check_ids then Err (RcpDuplicateCheckId (ce_id c))
           else Ok (bs_insert (ce_id c) check_ids,
                    if ce_required c then required_statuses @ [ce_status c] else required_statuses)))"

definition common_header_validate :: "receipt_common \<Rightarrow> (receipt_error, unit) result" where
  "common_header_validate r =
     (if cm_schema_version r \<noteq> cm_expected_schema_version r
      then Err (RcpUnsupportedSchemaVersion (cm_schema_version r))
      else
        and_then (require_text ''producer.name'' (pr_name (cm_producer r))) (\<lambda>_.
        and_then (require_text ''producer.version'' (pr_version (cm_producer r))) (\<lambda>_.
        and_then (receipt_repository_identity (re_repository (cm_repository r))) (\<lambda>_.
        and_then (validate_commit_sha (re_commit_sha (cm_repository r))) (\<lambda>_.
        and_then (require_text ''run.run_id'' (ru_run_id (cm_run r))) (\<lambda>_.
        and_then (require_timestamp ''run.started_at_utc'' (ru_started_at_utc (cm_run r))) (\<lambda>_.
        and_then (require_timestamp ''run.finished_at_utc'' (ru_finished_at_utc (cm_run r))) (\<lambda>_.
        if ru_finished_at_utc (cm_run r) < ru_started_at_utc (cm_run r) then Err RcpInvalidRunWindow
        else
        and_then (require_text ''platform.host_os'' (pf_host_os (cm_platform r))) (\<lambda>_.
        and_then (require_text ''platform.host_arch'' (pf_host_arch (cm_platform r))) (\<lambda>_.
        and_then (require_text ''platform.runtime_kind'' (pf_runtime_kind (cm_platform r))) (\<lambda>_.
        and_then (require_text ''platform.runtime_version'' (pf_runtime_version (cm_platform r))) (\<lambda>_.
        and_then (require_text ''platform.image_reference'' (pf_image_reference (cm_platform r))) (\<lambda>_.
        and_then (validate_sha256 ''platform.image_digest'' (pf_image_digest (cm_platform r))) (\<lambda>_.
        if map_option snd (rsplit_once (CHR ''@'') (pf_image_reference (cm_platform r)))
             \<noteq> Some (pf_image_digest (cm_platform r))
        then Err RcpImageDigestMismatch
        else
        and_then (validate_sha256 ''configuration_digest'' (cm_configuration_digest r)) (\<lambda>_.
        require_text ''redaction_policy_version'' (cm_redaction_policy_version r))))))))))))))))"

definition common_validate :: "receipt_common \<Rightarrow> (receipt_error, unit) result" where
  "common_validate r =
     and_then (common_header_validate r) (\<lambda>_.
     if cm_checks r = [] then Err RcpNoChecks
     else
       and_then (try_fold common_check_step ([], []) (cm_checks r)) (\<lambda>(check_ids, required_statuses).
         if required_statuses = [] then Err RcpNoRequiredChecks
         else
           let expected_status = derive_overall_status required_statuses
           in if cm_overall_status r \<noteq> expected_status
              then Err (RcpOverallStatusMismatch expected_status (cm_overall_status r))
              else validate_incomplete_reason ''receipt.incomplete_reason'' (cm_overall_status r)
                     (cm_incomplete_reason r)))"

section \<open>Version 1\<close>

definition common_of_v1 :: "receipt_v1 \<Rightarrow> receipt_common" where
  "common_of_v1 r =
     \<lparr>cm_expected_schema_version = RECEIPT_SCHEMA_VERSION, cm_schema_version = r1_schema_version r,
      cm_producer = r1_producer r, cm_repository = r1_repository r, cm_run = r1_run r,
      cm_platform = r1_platform r, cm_configuration_digest = r1_configuration_digest r,
      cm_checks = r1_checks r, cm_overall_status = r1_overall_status r,
      cm_incomplete_reason = r1_incomplete_reason r,
      cm_redaction_policy_version = r1_redaction_policy_version r\<rparr>"

definition receipt_v1_validate :: "receipt_v1 \<Rightarrow> (receipt_error, unit) result" where
  "receipt_v1_validate r = common_validate (common_of_v1 r)"

section \<open>Version 2\<close>

definition common_of_v2 :: "receipt_v2 \<Rightarrow> receipt_common" where
  "common_of_v2 r =
     \<lparr>cm_expected_schema_version = RECEIPT_V2_SCHEMA_VERSION, cm_schema_version = r2_schema_version r,
      cm_producer = r2_producer r, cm_repository = r2_repository r, cm_run = r2_run r,
      cm_platform = r2_platform r, cm_configuration_digest = r2_configuration_digest r,
      cm_checks = r2_checks r, cm_overall_status = r2_overall_status r,
      cm_incomplete_reason = r2_incomplete_reason r,
      cm_redaction_policy_version = r2_redaction_policy_version r\<rparr>"

definition validate_runtime_capability_evidence :: "receipt_v2 \<Rightarrow> (receipt_error, unit) result" where
  "validate_runtime_capability_evidence r =
     (let plan = r2_execution_plan r
      in if pl_schema_version plan = ''1.3'' then
           if nr_pull_policy (pl_runtime plan) \<noteq> Some PullNever \<or> nr_swap_mode (pl_runtime plan) \<noteq> Some SwapDisabled
           then Err RcpRuntimeCapabilityEvidenceMismatch
           else
             and_then (ok_or RcpMissingRuntimeCapabilityEvidence (r2_runtime_capability_evidence r)) (\<lambda>evidence.
             if rce_schema_version evidence \<noteq> ''1.0'' \<or> \<not> rce_memory_limit_supported evidence \<or>
                \<not> rce_swap_limit_supported evidence
             then Err (RcpInvalidRuntimeCapabilityEvidence ''schema_version or capability booleans'')
             else
               and_then (map_err (\<lambda>_. RcpInvalidRuntimeCapabilityEvidence ''context_digest'')
                 (validate_sha256 ''runtime_capability.context_digest'' (rce_context_digest evidence))) (\<lambda>_.
               and_then (map_err (\<lambda>_. RcpInvalidRuntimeCapabilityEvidence ''resolved_image_id'')
                 (validate_sha256 ''runtime_capability.resolved_image_id'' (rce_resolved_image_id evidence))) (\<lambda>_.
               and_then (require_text ''runtime_capability.resolved_image_reference''
                   (rce_resolved_image_reference evidence)) (\<lambda>_.
                 if rce_resolved_image_reference evidence \<noteq> nr_image (pl_runtime plan)
                 then Err RcpRuntimeCapabilityEvidenceMismatch else Ok ()))))
         else if r2_runtime_capability_evidence r \<noteq> None then Err RcpUnexpectedRuntimeCapabilityEvidence
         else Ok ())"

definition expected_artifacts :: "execution_plan_v1 \<Rightarrow> (string, normalized_artifact_contract) btree_map" where
  "expected_artifacts plan =
     fold (\<lambda>check expected. fold (\<lambda>a. bt_insert (na_path a) a) (nk_artifact_contracts check) expected)
       (pl_checks plan) []"

definition artifact_step ::
  "(string, normalized_artifact_contract) btree_map \<Rightarrow> string btree_set \<Rightarrow> artifact_evidence
     \<Rightarrow> (receipt_error, string btree_set) result" where
  "artifact_step expected observed artifact =
     (if ae_path artifact \<in> set observed then Err (RcpDuplicateArtifactEvidence (ae_path artifact))
      else
        and_then (ok_or (RcpArtifactManifestMismatch (ae_path artifact)) (bt_get expected (ae_path artifact))) (\<lambda>planned.
          if ae_kind artifact \<noteq> na_kind planned \<or> ae_producer_check artifact \<noteq> na_producer_check planned \<or>
             (ae_kind artifact = RegularFile \<and> ae_entry_count artifact \<noteq> 1) \<or>
             na_max_entries planned < ae_entry_count artifact \<or> na_max_bytes planned < ae_total_bytes artifact
          then Err (RcpArtifactManifestMismatch (ae_path artifact))
          else and_then (validate_sha256 ''artifact.manifest_digest'' (ae_manifest_digest artifact)) (\<lambda>_.
            Ok (bs_insert (ae_path artifact) observed))))"

definition validate_artifact_manifest :: "receipt_v2 \<Rightarrow> (receipt_error, unit) result" where
  "validate_artifact_manifest r =
     (let expected = expected_artifacts (r2_execution_plan r)
      in and_then (try_fold (artifact_step expected) [] (r2_artifact_manifest r)) (\<lambda>observed.
           if length observed \<noteq> length expected \<or> list_ex (\<lambda>path. path \<notin> set observed) (bt_keys expected)
           then Err (RcpArtifactManifestMismatch ''artifact set'') else Ok ()))"

definition planned_check_validate :: "check_evidence list \<Rightarrow> normalized_check \<Rightarrow> (receipt_error, unit) result" where
  "planned_check_validate checks planned =
     and_then (ok_or (RcpExecutionPlanCheckMismatch (nk_id planned))
       (find (\<lambda>evidence. ce_id evidence = nk_id planned) checks)) (\<lambda>evidence.
       if ce_required evidence \<noteq> nk_required planned \<or> ce_argv evidence \<noteq> nk_argv planned \<or>
          ce_working_directory evidence \<noteq> nk_working_directory planned
       then Err (RcpExecutionPlanCheckMismatch (nk_id planned)) else Ok ())"

definition receipt_v2_validate :: "codec \<Rightarrow> receipt_v2 \<Rightarrow> (receipt_error, unit) result" where
  "receipt_v2_validate cx r =
     and_then (common_validate (common_of_v2 r)) (\<lambda>_.
     and_then (source_snapshot_validate (r2_source_snapshot r)) (\<lambda>_.
     and_then (canonical_digest cx (plan_to_value (r2_execution_plan r))) (\<lambda>expected_plan_digest.
     if r2_configuration_digest r \<noteq> expected_plan_digest
     then Err (RcpExecutionPlanDigestMismatch expected_plan_digest (r2_configuration_digest r))
     else
     and_then (validate_runtime_capability_evidence r) (\<lambda>_.
     if length (pl_checks (r2_execution_plan r)) \<noteq> length (r2_checks r)
     then Err (RcpExecutionPlanCheckMismatch ''check set'')
     else
     and_then (try_each (planned_check_validate (r2_checks r)) (pl_checks (r2_execution_plan r))) (\<lambda>_.
       validate_artifact_manifest r)))))"

section \<open>Envelopes\<close>

definition seal_v1 :: "codec \<Rightarrow> receipt_v1 \<Rightarrow> (receipt_error, receipt_envelope_v1) result" where
  "seal_v1 cx r =
     and_then (receipt_v1_validate r) (\<lambda>_.
     and_then (canonical_digest cx (receipt_v1_to_value r)) (\<lambda>receipt_id.
       Ok \<lparr>e1_receipt_id = receipt_id, e1_receipt = r\<rparr>))"

definition verify_v1 :: "codec \<Rightarrow> receipt_envelope_v1 \<Rightarrow> (receipt_error, unit) result" where
  "verify_v1 cx e =
     and_then (receipt_v1_validate (e1_receipt e)) (\<lambda>_.
     and_then (canonical_digest cx (receipt_v1_to_value (e1_receipt e))) (\<lambda>expected.
       if e1_receipt_id e \<noteq> expected then Err (RcpDigestMismatch expected (e1_receipt_id e)) else Ok ()))"

definition canonical_bytes_v1 :: "codec \<Rightarrow> receipt_envelope_v1 \<Rightarrow> (receipt_error, string) result" where
  "canonical_bytes_v1 cx e =
     and_then (verify_v1 cx e) (\<lambda>_. canonical_json cx (receipt_envelope_v1_to_value e))"

definition seal_v2 :: "codec \<Rightarrow> receipt_v2 \<Rightarrow> (receipt_error, receipt_envelope_v2) result" where
  "seal_v2 cx r =
     and_then (receipt_v2_validate cx r) (\<lambda>_.
     and_then (canonical_digest cx (receipt_v2_to_value r)) (\<lambda>receipt_id.
       Ok \<lparr>e2_receipt_id = receipt_id, e2_receipt = r\<rparr>))"

definition verify_v2 :: "codec \<Rightarrow> receipt_envelope_v2 \<Rightarrow> (receipt_error, unit) result" where
  "verify_v2 cx e =
     and_then (receipt_v2_validate cx (e2_receipt e)) (\<lambda>_.
     and_then (canonical_digest cx (receipt_v2_to_value (e2_receipt e))) (\<lambda>expected.
       if e2_receipt_id e \<noteq> expected then Err (RcpDigestMismatch expected (e2_receipt_id e)) else Ok ()))"

definition canonical_bytes_v2 :: "codec \<Rightarrow> receipt_envelope_v2 \<Rightarrow> (receipt_error, string) result" where
  "canonical_bytes_v2 cx e =
     and_then (verify_v2 cx e) (\<lambda>_. canonical_json cx (receipt_envelope_v2_to_value e))"

end
