(* ===== verification/Calendar.thy ===== *)
theory Calendar
  imports Receipt
begin

text \<open>
  Strict UTC timestamps (\<^verbatim>\<open>src/src/verify.rs\<close>: \<open>parse_utc_seconds\<close>, \<open>format_unix_utc\<close>,
  \<open>civil_from_days\<close>). A value of type \<^verbatim>\<open>i64\<close> is an integer; \<^verbatim>\<open>/\<close> and \<^verbatim>\<open>%\<close> truncate, which is \<open>sdiv\<close> and
  \<open>smod\<close>; the checked operations return \<open>None\<close> outside the range of the type. The unchecked ones
  of the source act on numbers of at most four digits and on the position within a 400-year era.
\<close>

section \<open>Definitions\<close>

definition checked_i64 :: "int \<Rightarrow> int option" where
  "checked_i64 x = (if - (2 ^ 63) \<le> x \<and> x < 2 ^ 63 then Some x else None)"

definition is_leap :: "int \<Rightarrow> bool" where
  "is_leap year \<longleftrightarrow> year smod 4 = 0 \<and> (year smod 100 \<noteq> 0 \<or> year smod 400 = 0)"

definition days_from_civil :: "int \<Rightarrow> int \<Rightarrow> int \<Rightarrow> int" where
  "days_from_civil year month day =
     (let adjusted_year = year - (if month \<le> 2 then 1 else 0);
          era = adjusted_year div 400;
          year_of_era = adjusted_year - era * 400;
          shifted_month = month + (if month > 2 then -3 else 9);
          day_of_year = (153 * shifted_month + 2) sdiv 5 + day - 1;
          day_of_era = year_of_era * 365 + year_of_era sdiv 4 - year_of_era sdiv 100 + day_of_year
      in era * 146097 + day_of_era - 719468)"

definition utc_seconds :: "int \<Rightarrow> int \<Rightarrow> int \<Rightarrow> int \<Rightarrow> int \<Rightarrow> int \<Rightarrow> int option" where
  "utc_seconds year month day hour minute second =
     (if year = 0 \<or> \<not> (1 \<le> day \<and> day \<le> int (days_in_month (is_leap year) (nat month))) \<or>
         hour > 23 \<or> minute > 59 \<or> second > 59
      then None
      else Option.bind (checked_i64 (days_from_civil year month day * 86400)) (\<lambda>s.
             checked_i64 (s + (hour * 3600 + minute * 60 + second))))"

definition parse_utc_seconds :: "string \<Rightarrow> int option" where
  "parse_utc_seconds v =
     (let decimal = (\<lambda>a b. map_option (\<lambda>w. int (unat w)) (parse_decimal (slice a b v)))
      in if \<not> timestamp_layout v then None
         else
           Option.bind (decimal 0 4) (\<lambda>year.
           Option.bind (decimal 5 7) (\<lambda>month.
           Option.bind (decimal 8 10) (\<lambda>day.
           Option.bind (decimal 11 13) (\<lambda>hour.
           Option.bind (decimal 14 16) (\<lambda>minute.
           Option.bind (decimal 17 19) (\<lambda>second.
             utc_seconds year month day hour minute second)))))))"

definition civil_from_days :: "int \<Rightarrow> (int \<times> int \<times> int) option" where
  "civil_from_days days_since_epoch =
     Option.bind (checked_i64 (days_since_epoch + 719468)) (\<lambda>shifted.
     Option.bind (if shifted \<ge> 0 then Some shifted else checked_i64 (shifted - 146096)) (\<lambda>numerator.
     let era = numerator sdiv 146097
     in Option.bind (checked_i64 (era * 146097)) (\<lambda>era_days.
        Option.bind (checked_i64 (shifted - era_days)) (\<lambda>day_of_era.
        let year_of_era =
              (day_of_era - day_of_era sdiv 1460 + day_of_era sdiv 36524 - day_of_era sdiv 146096) sdiv 365
        in Option.bind (checked_i64 (era * 400)) (\<lambda>era_years.
           Option.bind (checked_i64 (year_of_era + era_years)) (\<lambda>year.
           Option.bind (checked_i64 (day_of_era -
               (365 * year_of_era + year_of_era sdiv 4 - year_of_era sdiv 100))) (\<lambda>day_of_year.
           let month_prime = (5 * day_of_year + 2) sdiv 153;
               day = day_of_year - (153 * month_prime + 2) sdiv 5 + 1;
               month = month_prime + (if month_prime < 10 then 3 else -9)
           in if 0 \<le> month \<and> 0 \<le> day then Some (year + (if month \<le> 2 then 1 else 0), month, day)
              else None)))))))"

definition format_unix_utc :: "u64 \<Rightarrow> string option" where
  "format_unix_utc seconds =
     Option.bind (checked_i64 (int (unat (seconds div 86400)))) (\<lambda>days.
     let seconds_of_day = unat (seconds mod 86400)
     in Option.bind (civil_from_days days) (\<lambda>(year, month, day).
        if \<not> (1 \<le> year \<and> year \<le> 9999) then None
        else
          let hour = seconds_of_day div 3600;
              minute = seconds_of_day mod 3600 div 60;
              second = seconds_of_day mod 60
          in Some (show_pad 4 (nat year) @ ''-'' @ show_pad 2 (nat month) @ ''-'' @ show_pad 2 (nat day) @
               ''T'' @ show_pad 2 hour @ '':'' @ show_pad 2 minute @ '':'' @ show_pad 2 second @ ''Z'')))"

section \<open>Positions within an era\<close>

lemma sdiv_nonneg [simp]: "0 \<le> a \<Longrightarrow> 0 < b \<Longrightarrow> a sdiv b = a div b" for a b :: int
  by (auto simp: signed_divide_int_def sgn_if)

lemma smod_nonneg [simp]: "0 \<le> a \<Longrightarrow> 0 < b \<Longrightarrow> a smod b = a mod b" for a b :: int
  by (auto simp: signed_modulo_int_def sgn_if)

text \<open>A day of an era lies in a century \<open>c\<close>, a four-year cycle \<open>f\<close> and a rest \<open>r\<close>.\<close>

lemma era_decomposition:
  fixes doe :: int
  assumes "0 \<le> doe" "doe \<le> 146096"
  obtains c f r where "doe = 36524 * c + 1461 * f + r" "0 \<le> c" "c \<le> 3" "0 \<le> f" "f \<le> 24" "0 \<le> r" "r \<le> 1460"
    "c < 3 \<Longrightarrow> f = 24 \<Longrightarrow> r \<le> 1459"
proof -
  define c where "c = (if doe = 146096 then 3 else doe div 36524)"
  define s where "s = doe - 36524 * c"
  define f where "f = s div 1461"
  have c: "0 \<le> c" "c \<le> 3" using assms by (auto simp: c_def)
  have s: "0 \<le> s" "s \<le> 36524" "c < 3 \<Longrightarrow> s < 36524" using assms by (auto simp: s_def c_def)
  have f: "0 \<le> f" "f \<le> 24" using s by (auto simp: f_def)
  have r: "0 \<le> s - 1461 * f" "s - 1461 * f \<le> 1460" by (auto simp: f_def)
  show thesis by (rule that [of c f "s - 1461 * f"]) (use c f r s in \<open>auto simp: s_def\<close>)
qed

lemma year_of_era_eq:
  fixes c f r :: int
  assumes d: "doe = 36524 * c + 1461 * f + r" and b: "0 \<le> c" "c \<le> 3" "0 \<le> f" "f \<le> 24" "0 \<le> r" "r \<le> 1460"
    and last: "c < 3 \<Longrightarrow> f = 24 \<Longrightarrow> r \<le> 1459"
  shows "(doe - doe div 1460 + doe div 36524 - doe div 146096) div 365 = 100 * c + 4 * f + min 3 (r div 365)"
proof -
  define k where "k = (if 1460 \<le> 24 * c + f + r then 1 else 0 :: int)"
  have div1: "doe div 1460 = 25 * c + f + k"
    by (rule int_div_pos_eq [of _ _ _ "24 * c + f + r - 1460 * k"]) (use d b in \<open>auto simp: k_def\<close>)
  have "\<exists>e. doe div 36524 = c + e \<and> doe div 146096 = e \<and> 0 \<le> e \<and> e \<le> 1 \<and> (e = 1 \<longrightarrow> r = 1460)"
  proof (cases "c = 3 \<and> f = 24 \<and> r = 1460")
    case True
    with d show ?thesis by simp
  next
    case False
    with b last have lt: "1461 * f + r < 36524"
      by (cases "f = 24") auto
    have "doe div 36524 = c" by (rule int_div_pos_eq [of _ _ _ "1461 * f + r"]) (use d b lt in auto)
    moreover have "doe div 146096 = 0" using d b lt by (intro div_pos_pos_trivial) auto
    ultimately show ?thesis by auto
  qed
  then obtain e where e: "doe div 36524 = c + e" "doe div 146096 = e" "0 \<le> e" "e \<le> 1" "e = 1 \<Longrightarrow> r = 1460" by blast
  have "(doe - doe div 1460 + doe div 36524 - doe div 146096) = 365 * (100 * c + 4 * f) + (r - k)"
    unfolding div1 e(1,2) by (simp add: d)
  then have "(doe - doe div 1460 + doe div 36524 - doe div 146096) div 365 = 100 * c + 4 * f + (r - k) div 365"
    by simp
  moreover have "(r - k) div 365 = min 3 (r div 365)"
  proof (cases "k = 0")
    case True
    then have "r < 1460" using b by (auto simp: k_def split: if_splits)
    with True show ?thesis by auto
  next
    case False
    then have "1364 \<le> r" "k = 1" using b by (auto simp: k_def split: if_splits)
    with b have "(r - k) div 365 = 3" "3 \<le> r div 365" by auto
    then show ?thesis by simp
  qed
  ultimately show ?thesis by simp
qed

text \<open>The day of the year that starts in March, and its month.\<close>

lemma month_of_day:
  fixes doy :: int
  assumes "0 \<le> doy" "doy \<le> 365"
  defines "mp \<equiv> (5 * doy + 2) div 153"
  shows "0 \<le> mp \<and> mp \<le> 11 \<and> (153 * mp + 2) div 5 \<le> doy \<and>
    doy - (153 * mp + 2) div 5 + 1 \<le>
      (if mp \<in> {1, 3, 6, 8} then 30 else if mp = 11 then (if doy = 365 then 29 else 28) else 31)"
proof -
  have r: "0 \<le> mp" "mp \<le> 11" using assms by auto
  have b: "153 * mp \<le> 5 * doy + 2" "5 * doy + 2 < 153 * mp + 153"
    using assms by (auto simp: mp_def) 
  from r have "mp = 0 \<or> mp = 1 \<or> mp = 2 \<or> mp = 3 \<or> mp = 4 \<or> mp = 5 \<or> mp = 6 \<or> mp = 7 \<or> mp = 8 \<or>
      mp = 9 \<or> mp = 10 \<or> mp = 11" by presburger
  then show ?thesis using b assms(2) by (elim disjE) (simp_all add: r)
qed

section \<open>From days to dates and back\<close>

text \<open>The year of an era with its leap day: day 365 exists only when February is long.\<close>

lemma day_of_era_year:
  fixes doe :: int
  assumes "0 \<le> doe" "doe \<le> 146096"
  defines "yoe \<equiv> (doe - doe div 1460 + doe div 36524 - doe div 146096) div 365"
  defines "doy \<equiv> doe - (365 * yoe + yoe div 4 - yoe div 100)"
  shows "0 \<le> yoe \<and> yoe \<le> 399 \<and> 0 \<le> doy \<and> doy \<le> 365 \<and>
    (doy = 365 \<longrightarrow> (yoe + 1) mod 4 = 0 \<and> ((yoe + 1) mod 100 \<noteq> 0 \<or> (yoe + 1) mod 400 = 0))"
proof -
  from era_decomposition [OF assms(1,2)] obtain c f r where
    d: "doe = 36524 * c + 1461 * f + r" and b: "0 \<le> c" "c \<le> 3" "0 \<le> f" "f \<le> 24" "0 \<le> r" "r \<le> 1460"
    and last: "c < 3 \<Longrightarrow> f = 24 \<Longrightarrow> r \<le> 1459" by blast
  define z where "z = min 3 (r div 365)"
  have yoe: "yoe = 100 * c + 4 * f + z" unfolding yoe_def z_def by (rule year_of_era_eq [OF d b last])
  have z: "0 \<le> z" "z \<le> 3" "365 * z \<le> r" "r \<le> 365 * z + 365" "r = 365 * z + 365 \<Longrightarrow> z = 3 \<and> r = 1460"
    using b by (cases "3 \<le> r div 365"; auto simp: z_def min_def)+
  have "yoe div 4 = 25 * c + f" by (rule int_div_pos_eq [of _ _ _ z]) (use yoe z in auto)
  moreover have "yoe div 100 = c" by (rule int_div_pos_eq [of _ _ _ "4 * f + z"]) (use yoe z b in auto)
  ultimately have doy: "doy = r - 365 * z" by (simp add: doy_def d yoe)
  have "(yoe + 1) mod 4 = 0 \<and> ((yoe + 1) mod 100 \<noteq> 0 \<or> (yoe + 1) mod 400 = 0)" if "doy = 365"
  proof -
    from that doy z(5) have zr: "z = 3" "r = 1460" by auto
    then have y1: "yoe + 1 = 100 * c + 4 * (f + 1)" using yoe by simp
    show ?thesis
    proof (cases "f = 24")
      case True
      with last zr b have "c = 3" by fastforce
      with True y1 show ?thesis by simp
    next
      case False
      then have "(yoe + 1) mod 100 = 4 * (f + 1)" 
        by (intro int_mod_pos_eq [of _ _ c]) (use y1 b in auto)
      moreover have "(yoe + 1) mod 4 = 0" using y1 by presburger
      ultimately show ?thesis using b by simp
    qed
  qed
  moreover have "0 \<le> yoe" "yoe \<le> 399" using yoe b z by auto
  moreover have "0 \<le> doy" "doy \<le> 365" using doy z by auto
  ultimately show ?thesis by blast
qed

lemma is_leap_nonneg: "0 \<le> y \<Longrightarrow> is_leap y \<longleftrightarrow> y mod 4 = 0 \<and> (y mod 100 \<noteq> 0 \<or> y mod 400 = 0)"
  by (simp add: is_leap_def)

lemma leap_shift:
  fixes era yoe :: int
  shows "(era * 400 + yoe) mod 4 = yoe mod 4" "(era * 400 + yoe) mod 100 = yoe mod 100"
    "(era * 400 + yoe) mod 400 = yoe mod 400"
proof -
  have "era * 400 = (era * 100) * 4" "era * 400 = (era * 4) * 100" by simp_all
  then show "(era * 400 + yoe) mod 4 = yoe mod 4" "(era * 400 + yoe) mod 100 = yoe mod 100"
    "(era * 400 + yoe) mod 400 = yoe mod 400" by (metis add.commute mod_mult_self1)+
qed

text \<open>The date read off a day number that is not before the epoch, with no overflow check failing.\<close>

definition era_date :: "int \<Rightarrow> int \<Rightarrow> int \<times> int \<times> int" where
  "era_date era doe =
     (let yoe = (doe - doe div 1460 + doe div 36524 - doe div 146096) div 365;
          doy = doe - (365 * yoe + yoe div 4 - yoe div 100);
          mp = (5 * doy + 2) div 153;
          day = doy - (153 * mp + 2) div 5 + 1;
          month = mp + (if mp < 10 then 3 else -9)
      in (era * 400 + yoe + (if month \<le> 2 then 1 else 0), month, day))"

lemma era_date_correct:
  assumes doe: "0 \<le> doe" "doe \<le> 146096" and era: "0 \<le> era" and date: "era_date era doe = (y, m, d)"
  shows "days_from_civil y m d = era * 146097 + doe - 719468" "1 \<le> m" "m \<le> 12" "1 \<le> d"
    "d \<le> int (days_in_month (is_leap y) (nat m))" "era * 400 \<le> y" "y \<le> era * 400 + 400"
proof -
  define yoe where "yoe = (doe - doe div 1460 + doe div 36524 - doe div 146096) div 365"
  define doy where "doy = doe - (365 * yoe + yoe div 4 - yoe div 100)"
  define mp where "mp = (5 * doy + 2) div 153"
  note Y = day_of_era_year [OF doe, folded yoe_def, folded doy_def]
  then have yoe: "0 \<le> yoe" "yoe \<le> 399" and doy: "0 \<le> doy" "doy \<le> 365" by blast+
  note M = month_of_day [OF doy, folded mp_def]
  have m: "m = mp + (if mp < 10 then 3 else -9)" and d: "d = doy - (153 * mp + 2) div 5 + 1"
    and y: "y = era * 400 + yoe + (if m \<le> 2 then 1 else 0)"
    using date [unfolded era_date_def Let_def, folded yoe_def, folded doy_def, folded mp_def]
    by (metis prod.inject)+
  have mp: "0 \<le> mp" "mp \<le> 11" using M by blast+
  have sm: "m + (if m > 2 then -3 else 9) = mp" and le2: "m \<le> 2 \<longleftrightarrow> 10 \<le> mp"
    using m mp by (auto split: if_splits)
  have adj: "y - (if m \<le> 2 then 1 else 0) = era * 400 + yoe" using y by simp
  have e: "(era * 400 + yoe) div 400 = era" using yoe by simp
  show "days_from_civil y m d = era * 146097 + doe - 719468"
    using yoe mp d doy_def by (simp add: days_from_civil_def Let_def sm adj e)
  show "1 \<le> m" "m \<le> 12" using m mp by auto
  show "1 \<le> d" using M d by auto
  show "era * 400 \<le> y" "y \<le> era * 400 + 400" using y yoe by (auto split: if_splits)
  have leap: "is_leap y" if "doy = 365" "mp = 11"
  proof -
    have "y = era * 400 + (yoe + 1)" using y le2 that by simp
    with Y that era yoe show ?thesis by (simp add: is_leap_nonneg leap_shift)
  qed
  have len: "d \<le> (if mp \<in> {1, 3, 6, 8} then 30 else if mp = 11 then (if doy = 365 then 29 else 28) else 31)"
    using M d by blast
  from mp have "mp = 0 \<or> mp = 1 \<or> mp = 2 \<or> mp = 3 \<or> mp = 4 \<or> mp = 5 \<or> mp = 6 \<or> mp = 7 \<or> mp = 8 \<or>
      mp = 9 \<or> mp = 10 \<or> mp = 11" by presburger
  then show "d \<le> int (days_in_month (is_leap y) (nat m))"
    using len leap unfolding m by (elim disjE) (auto simp: days_in_month_def split: if_splits)
qed

lemma checked_i64_small: "- (2 ^ 62) \<le> x \<Longrightarrow> x \<le> 2 ^ 62 \<Longrightarrow> checked_i64 x = Some x"
  by (simp add: checked_i64_def)

lemma civil_from_days_eq:
  assumes "0 \<le> n" "n \<le> 2 ^ 60"
  shows "civil_from_days n = Some (era_date ((n + 719468) div 146097) ((n + 719468) mod 146097))"
proof -
  define sh where "sh = n + 719468"
  define era where "era = sh div 146097"
  define doe where "doe = sh mod 146097"
  define yoe where "yoe = (doe - doe div 1460 + doe div 36524 - doe div 146096) div 365"
  define doy where "doy = doe - (365 * yoe + yoe div 4 - yoe div 100)"
  have sh: "0 \<le> sh" "sh \<le> 2 ^ 61" using assms by (auto simp: sh_def)
  have doe: "0 \<le> doe" "doe \<le> 146096" by (auto simp: doe_def)
  have era: "0 \<le> era" "era * 146097 \<le> 2 ^ 61" "sh - era * 146097 = doe"
    using sh by (auto simp: era_def doe_def minus_div_mult_eq_mod pos_imp_zdiv_nonneg_iff
        intro: order_trans [OF div_times_less_eq_dividend])
  have Y: "0 \<le> yoe" "yoe \<le> 399" "0 \<le> doy" "doy \<le> 365"
    using day_of_era_year [OF doe, folded yoe_def, folded doy_def] by blast+
  note M = month_of_day [OF Y(3,4)]
  have era400: "era * 400 \<le> 2 ^ 61" using era by linarith
  have divs: "doe sdiv 1460 = doe div 1460" "doe sdiv 36524 = doe div 36524" "doe sdiv 146096 = doe div 146096"
    "yoe sdiv 4 = yoe div 4" "yoe sdiv 100 = yoe div 100" "sh sdiv 146097 = era"
    using doe Y sh by (simp_all add: era_def)
  have nonneg: "0 \<le> doe - doe div 1460 + doe div 36524 - doe div 146096"
    using Y(1) by (simp add: yoe_def pos_imp_zdiv_nonneg_iff)
  have yoe': "(doe - doe div 1460 + doe div 36524 - doe div 146096) sdiv 365 = yoe"
    using nonneg by (simp add: yoe_def)
  have chk: "checked_i64 sh = Some sh" "checked_i64 (era * 146097) = Some (era * 146097)" "checked_i64 doe = Some doe"
    "checked_i64 (era * 400) = Some (era * 400)" "checked_i64 (yoe + era * 400) = Some (yoe + era * 400)"
    "checked_i64 doy = Some doy"
    using sh doe era era400 Y by (auto intro!: checked_i64_small)
  define mp where "mp = (5 * doy + 2) div 153"
  have mp: "0 \<le> mp" "mp \<le> 11" "(153 * mp + 2) div 5 \<le> doy" using M by (simp_all add: mp_def)
  have mdivs: "(5 * doy + 2) sdiv 153 = mp" "(153 * mp + 2) sdiv 5 = (153 * mp + 2) div 5"
    using Y mp by (simp_all add: mp_def)
  have pos: "0 \<le> mp + (if mp < 10 then 3 else - 9) \<and> 0 \<le> doy - (153 * mp + 2) div 5 + 1" using mp by auto
  have date: "era_date era doe = (era * 400 + yoe + (if mp + (if mp < 10 then 3 else - 9) \<le> 2 then 1 else 0),
      mp + (if mp < 10 then 3 else - 9), doy - (153 * mp + 2) div 5 + 1)"
    by (simp only: era_date_def Let_def yoe_def [symmetric] doy_def [symmetric] mp_def [symmetric])
  have "civil_from_days n = Some (yoe + era * 400 + (if mp + (if mp < 10 then 3 else - 9) \<le> 2 then 1 else 0),
      mp + (if mp < 10 then 3 else - 9), doy - (153 * mp + 2) div 5 + 1)"
    unfolding civil_from_days_def sh_def [symmetric]
    by (simp only: chk Option.bind.simps sh(1) if_True Let_def divs era(3) yoe' doy_def [symmetric] mdivs pos
        simp_thms)
  then show ?thesis
    by (simp only: sh_def [symmetric] era_def [symmetric] doe_def [symmetric] date add.commute)
qed

section \<open>Dates are ordered as their day numbers\<close>

definition valid_date :: "int \<Rightarrow> int \<Rightarrow> int \<Rightarrow> bool" where
  "valid_date y m d \<longleftrightarrow> 1 \<le> y \<and> 1 \<le> d \<and> d \<le> int (days_in_month (is_leap y) (nat m))"

lemma valid_date_month: "valid_date y m d \<Longrightarrow> 1 \<le> m \<and> m \<le> 12"
  by (auto simp: valid_date_def days_in_month_def split: if_splits)

text \<open>Days before the first of March of a year, and before a month of that year.\<close>

definition year_start :: "int \<Rightarrow> int" where
  "year_start y = 365 * y + y div 4 - y div 100 + y div 400"

definition month_start :: "int \<Rightarrow> int" where
  "month_start m = (153 * m + 2) div 5"

lemma days_from_civil_eq:
  assumes "1 \<le> m" "m \<le> 12"
  shows "days_from_civil y m d =
    year_start (y - (if m \<le> 2 then 1 else 0)) + month_start (m + (if m > 2 then -3 else 9)) + d - 1 - 719468"
proof -
  define a where "a = y - (if m \<le> 2 then 1 else 0)"
  define era where "era = a div 400"
  define yoe where "yoe = a - era * 400"
  define sm where "sm = m + (if m > 2 then -3 else 9)"
  have sm: "0 \<le> sm" using assms by (simp add: sm_def)
  have yoe: "0 \<le> yoe" "yoe < 400" by (simp_all add: yoe_def era_def minus_div_mult_eq_mod)
  have a: "a = era * 400 + yoe" by (simp add: yoe_def)
  have "a div 4 = era * 100 + yoe div 4" "a div 100 = era * 4 + yoe div 100"
    using a div_mult_self2 [of 4 yoe "era * 100"] div_mult_self2 [of 100 yoe "era * 4"] by (simp_all add: algebra_simps)
  then have "year_start a = era * 146097 + (yoe * 365 + yoe div 4 - yoe div 100)"
    unfolding year_start_def era_def [symmetric] by (simp add: a)
  then show ?thesis
    unfolding days_from_civil_def Let_def a_def [symmetric] era_def [symmetric] yoe_def [symmetric] sm_def [symmetric]
    using yoe sm by (simp add: month_start_def)
qed

lemma div_step: "0 < n \<Longrightarrow> (y + 1) div n = y div n + (if (y + 1) mod n = 0 then 1 else 0)" for y n :: int
proof -
  assume n: "0 < n"
  have y: "y = n * (y div n) + y mod n" and r: "0 \<le> y mod n" "y mod n < n" using n by simp_all
  show ?thesis
  proof (cases "y mod n + 1 < n")
    case True
    then have "(y + 1) div n = y div n" "(y + 1) mod n = y mod n + 1"
      using y r by (intro int_div_pos_eq [of _ _ _ "y mod n + 1"] int_mod_pos_eq [of _ _ "y div n"]; simp)+
    with r show ?thesis by simp
  next
    case False
    with r have "y mod n = n - 1" by simp
    with y have e: "y + 1 = n * (y div n + 1)" by (simp add: algebra_simps)
    with n have "(y + 1) div n = y div n + 1" "(y + 1) mod n = 0" by (metis mod_mult_self1_is_0 nonzero_mult_div_cancel_left less_irrefl)+
    then show ?thesis by simp
  qed
qed

lemma year_start_step:
  assumes "0 \<le> y"
  shows "year_start (y + 1) = year_start y + 365 + (if is_leap (y + 1) then 1 else 0)"
proof -
  define a b c where "a = ((y + 1) mod 4 = 0)" and "b = ((y + 1) mod 100 = 0)" and "c = ((y + 1) mod 400 = 0)"
  have imp: "b \<Longrightarrow> a" "c \<Longrightarrow> b" unfolding a_def b_def c_def by presburger+
  have steps: "(y + 1) div 4 = y div 4 + (if a then 1 else 0)" "(y + 1) div 100 = y div 100 + (if b then 1 else 0)"
    "(y + 1) div 400 = y div 400 + (if c then 1 else 0)"
    unfolding a_def b_def c_def by (rule div_step, simp)+
  have leap: "is_leap (y + 1) \<longleftrightarrow> a \<and> (\<not> b \<or> c)"
    unfolding a_def b_def c_def using assms by (intro is_leap_nonneg) simp
  show ?thesis
    unfolding year_start_def steps leap using imp by (cases a; cases b; cases c) simp_all
qed

lemma year_start_mono: "x \<le> y \<Longrightarrow> year_start x + 364 * (y - x) \<le> year_start y"
proof -
  assume le: "x \<le> y"
  then have "x div 4 \<le> y div 4" "x div 400 \<le> y div 400" by (simp_all add: zdiv_mono1)
  moreover have "y div 100 - x div 100 \<le> y - x"
  proof -
    have "y div 100 \<le> (x + (y - x) * 100) div 100" using le by (intro zdiv_mono1) auto
    then show ?thesis by simp
  qed
  moreover have "365 * x + a - b + c + 364 * (y - x) \<le> 365 * y + a' - b' + c'"
    if "a \<le> a'" "c \<le> c'" "b' - b \<le> y - x" for a b c a' b' c' :: int
    using that by (simp add: algebra_simps)
  ultimately show ?thesis unfolding year_start_def by blast
qed

definition month_length :: "bool \<Rightarrow> int \<Rightarrow> int" where
  "month_length leap m =
     (if m \<in> {1, 3, 6, 8} then 30 else if m = 11 then (if leap then 29 else 28) else 31)"

lemma month_start_step:
  "0 \<le> m \<Longrightarrow> m \<le> 10 \<Longrightarrow> month_start m + month_length leap m \<le> month_start (m + 1)"
proof -
  assume "0 \<le> m" "m \<le> 10"
  then have "m = 0 \<or> m = 1 \<or> m = 2 \<or> m = 3 \<or> m = 4 \<or> m = 5 \<or> m = 6 \<or> m = 7 \<or> m = 8 \<or> m = 9 \<or> m = 10"
    by presburger
  then show ?thesis by (elim disjE) (simp_all add: month_start_def month_length_def)
qed

lemma month_start_mono: "m \<le> n \<Longrightarrow> month_start m \<le> month_start n"
  unfolding month_start_def by (intro zdiv_mono1) auto

lemma month_end:
  assumes "0 \<le> m" "m \<le> 11"
  shows "month_start m + month_length leap m \<le> 365 + (if leap then 1 else 0)"
proof (cases "m = 11")
  case True
  then show ?thesis by (simp add: month_start_def month_length_def)
next
  case False
  with assms have "month_start m + month_length leap m \<le> month_start (m + 1)" by (intro month_start_step) auto
  also have "\<dots> \<le> month_start 11" using assms False by (intro month_start_mono) auto
  also have "month_start 11 = 337" by (simp add: month_start_def)
  finally show ?thesis by (cases leap) simp_all
qed

text \<open>A valid date in the year that starts in March.\<close>

lemma march_date:
  assumes v: "valid_date y m d"
  defines "Y \<equiv> y - (if m \<le> 2 then 1 else 0)" and "M \<equiv> m + (if m > 2 then -3 else 9)"
  shows "days_from_civil y m d = year_start Y + month_start M + d - 1 - 719468"
    "0 \<le> Y" "0 \<le> M" "M \<le> 11" "1 \<le> d" "d \<le> month_length (is_leap (Y + 1)) M" "12 * Y + M = 12 * y + m - 3"
proof -
  note m = valid_date_month [OF v]
  show "days_from_civil y m d = year_start Y + month_start M + d - 1 - 719468"
    unfolding Y_def M_def using m by (intro days_from_civil_eq) auto
  show "0 \<le> Y" "0 \<le> M" "M \<le> 11" "1 \<le> d" "12 * Y + M = 12 * y + m - 3"
    using m v by (auto simp: Y_def M_def valid_date_def)
  from m have "m = 1 \<or> m = 2 \<or> m = 3 \<or> m = 4 \<or> m = 5 \<or> m = 6 \<or> m = 7 \<or> m = 8 \<or> m = 9 \<or> m = 10 \<or>
      m = 11 \<or> m = 12" by presburger
  then show "d \<le> month_length (is_leap (Y + 1)) M"
    using v by (elim disjE) (simp_all add: Y_def M_def valid_date_def days_in_month_def month_length_def
        split: if_splits)
qed

lemma days_strict_mono:
  assumes v: "valid_date y m d" and v': "valid_date y' m' d'"
    and lt: "y < y' \<or> y = y' \<and> (m < m' \<or> m = m' \<and> d < d')"
  shows "days_from_civil y m d < days_from_civil y' m' d'"
proof -
  note D = march_date [OF v] and D' = march_date [OF v']
  define Y M where "Y = y - (if m \<le> 2 then 1 else 0)" and "M = m + (if m > 2 then -3 else 9)"
  define Y' M' where "Y' = y' - (if m' \<le> 2 then 1 else 0)" and "M' = m' + (if m' > 2 then -3 else 9)"
  note D = D [folded Y_def M_def] and D' = D' [folded Y'_def M'_def]
  consider "y = y'" "m = m'" "d < d'" | "12 * y + m < 12 * y' + m'"
    using lt valid_date_month [OF v] valid_date_month [OF v'] by linarith
  then show ?thesis
  proof cases
    case 1
    then show ?thesis unfolding D(1) D'(1) by (simp add: Y_def M_def Y'_def M'_def)
  next
    case 2
    with D(7) D'(7) have "12 * Y + M < 12 * Y' + M'" by simp
    then consider "Y = Y'" "M < M'" | "Y < Y'" using D(3,4) D'(3,4) by linarith
    then show ?thesis
    proof cases
      case 1
      with D'(4) have "month_start M + month_length (is_leap (Y + 1)) M \<le> month_start (M + 1)"
        by (intro month_start_step [OF D(3)]) auto
      also have "\<dots> \<le> month_start M'" using 1 by (intro month_start_mono) auto
      finally show ?thesis unfolding D(1) D'(1) using 1 D(6) D'(5) by simp
    next
      case 2
      have "year_start (Y + 1) \<le> year_start Y'" using year_start_mono [of "Y + 1" Y'] 2 by simp
      moreover have "0 \<le> month_start M'" using month_start_mono [OF D'(3)] by (simp add: month_start_def)
      ultimately show ?thesis unfolding D(1) D'(1)
        using month_end [OF D(3,4), of "is_leap (Y + 1)"] D(6) D'(5) year_start_step [OF D(2)] by simp
    qed
  qed
qed

lemma days_inj:
  assumes "valid_date y m d" "valid_date y' m' d'" "days_from_civil y m d = days_from_civil y' m' d'"
  shows "(y, m, d) = (y', m', d')"
proof (rule ccontr)
  assume "(y, m, d) \<noteq> (y', m', d')"
  then consider "y < y' \<or> y = y' \<and> (m < m' \<or> m = m' \<and> d < d')" | "y' < y \<or> y' = y \<and> (m' < m \<or> m' = m \<and> d' < d)"
    by fastforce
  then show False
    using days_strict_mono [OF assms(1,2)] days_strict_mono [OF assms(2,1)] assms(3) by cases auto
qed

lemma days_less_iff:
  assumes "valid_date y m d" "valid_date y' m' d'"
  shows "days_from_civil y m d < days_from_civil y' m' d' \<longleftrightarrow> y < y' \<or> y = y' \<and> (m < m' \<or> m = m' \<and> d < d')"
    (is "?L \<longleftrightarrow> ?R")
proof
  assume ?L
  show ?R
  proof (rule ccontr)
    assume "\<not> ?R"
    then consider "(y, m, d) = (y', m', d')" | "y' < y \<or> y' = y \<and> (m' < m \<or> m' = m \<and> d' < d)" by fastforce
    then show False using days_strict_mono [OF assms(2,1)] \<open>?L\<close> by cases auto
  qed
qed (rule days_strict_mono [OF assms])

lemma civil_from_days_correct:
  assumes n: "0 \<le> n" "n \<le> 2 ^ 60"
  obtains y m d where "civil_from_days n = Some (y, m, d)" "valid_date y m d" "days_from_civil y m d = n"
proof -
  let ?e = "(n + 719468) div 146097" and ?o = "(n + 719468) mod 146097"
  obtain y m d where date: "era_date ?e ?o = (y, m, d)" by (cases "era_date ?e ?o") auto
  have o: "0 \<le> ?o" "?o \<le> 146096" by auto
  have e: "4 \<le> ?e" using n by auto
  note C = era_date_correct [OF o _ date]
  have "days_from_civil y m d = ?e * 146097 + ?o - 719468" using C(1) e by simp
  then have days: "days_from_civil y m d = n" by simp
  have "valid_date y m d" unfolding valid_date_def using C(4,5,6) e by simp
  with days civil_from_days_eq [OF n] date that show thesis by simp
qed

lemma civil_from_days_inverse:
  assumes v: "valid_date y m d" and n: "0 \<le> days_from_civil y m d" "days_from_civil y m d \<le> 2 ^ 60"
  shows "civil_from_days (days_from_civil y m d) = Some (y, m, d)"
proof -
  from civil_from_days_correct [OF n] obtain y' m' d' where
    c: "civil_from_days (days_from_civil y m d) = Some (y', m', d')" and v': "valid_date y' m' d'"
    and eq: "days_from_civil y' m' d' = days_from_civil y m d" by blast
  from days_inj [OF v' v eq] c show ?thesis by simp
qed

end
