(* ===== verification/Timestamp.thy ===== *)
theory Timestamp
  imports Calendar
begin

text \<open>
  The text side of timestamps: the two validators of the crate (\<open>require_timestamp\<close> of
  \<^verbatim>\<open>src/src/receipt.rs\<close> and \<open>parse_utc_seconds\<close> of \<^verbatim>\<open>src/src/verify.rs\<close>) accept the same texts, text order
  is time order, and printing and parsing are inverse to each other.
\<close>

section \<open>Digit strings\<close>

lemma decimal_fold:
  "try_fold_option decimal_step v ds = Some w \<longleftrightarrow> digits ds \<and> w = v * 10 ^ length ds + of_nat (dec_value ds)"
proof (induction ds arbitrary: v)
  case (Cons c cs)
  have "try_fold_option decimal_step v (c # cs) = Some w \<longleftrightarrow>
      is_ascii_digit (byte_val c) \<and> try_fold_option decimal_step (v * 10 + of_nat (byte_val c - 48)) cs = Some w"
    by (simp add: decimal_step_def)
  moreover have "(v * 10 + of_nat x) * 10 ^ n + of_nat t = v * 10 ^ Suc n + of_nat (x * 10 ^ n + t)" for x n t
    by (simp add: distrib_right mult.assoc)
  ultimately show ?case by (auto simp: Cons.IH)
qed auto

lemma parse_decimal_iff: "parse_decimal ds = Some w \<longleftrightarrow> digits ds \<and> w = of_nat (dec_value ds)"
  by (simp add: parse_decimal_def decimal_fold)

lemma unat_dec_value:
  assumes "digits ds" "length ds \<le> 9"
  shows "unat (of_nat (dec_value ds) :: u32) = dec_value ds"
proof -
  have "dec_value ds < 10 ^ length ds" using assms(1) by (rule dec_value_less)
  also have "\<dots> \<le> 10 ^ 9" using assms(2) by (intro power_increasing) auto
  finally show ?thesis by (simp add: unat_of_nat)
qed

lemma parse_decimal_value:
  "length ds \<le> 9 \<Longrightarrow>
     map_option unat (parse_decimal ds) = (if digits ds then Some (dec_value ds) else None)"
  using parse_decimal_iff [of ds "of_nat (dec_value ds)"] unat_dec_value [of ds]
    parse_decimal_iff [THEN iffD1, of ds] by (cases "parse_decimal ds") auto

lemma digits_less_iff:
  assumes "length as = length bs" "digits as" "digits bs"
  shows "as < bs \<longleftrightarrow> dec_value as < dec_value bs"
  using assms
proof (induction as bs rule: list_induct2)
  case (Cons a as b bs)
  define x y where "x = byte_val a - 48" and "y = byte_val b - 48"
  have ab: "a < b \<longleftrightarrow> x < y" "a = b \<longleftrightarrow> x = y"
    using Cons.prems of_char_eq_iff [of a b, where 'a = nat]
    by (auto simp: x_def y_def is_ascii_digit_def less_char_def simp del: of_char_eq_iff)
  let ?p = "10 ^ length bs :: nat"
  have l: "dec_value as < ?p" "dec_value bs < ?p"
    using Cons.prems Cons.hyps dec_value_less [of as] dec_value_less [of bs] by auto
  have lt: "u * ?p + dec_value cs < v * ?p + dec_value ds" if "u < v" "dec_value cs < ?p" for u v cs ds
  proof -
    from that have "u * ?p + dec_value cs < (u + 1) * ?p" by simp
    also have "\<dots> \<le> v * ?p" using that by (intro mult_right_mono) auto
    finally show ?thesis by simp
  qed
  have "x * ?p + dec_value as < y * ?p + dec_value bs \<longleftrightarrow> x < y \<or> x = y \<and> dec_value as < dec_value bs"
    using lt [of x y as bs] lt [of y x bs as] l by (cases x y rule: linorder_cases) auto
  then show ?case using Cons ab by (simp add: x_def y_def)
qed simp

lemma digits_inj:
  assumes "length as = length bs" "digits as" "digits bs" "dec_value as = dec_value bs"
  shows "as = bs"
  using digits_less_iff [OF assms(1-3)] digits_less_iff [OF assms(1)[symmetric] assms(3,2)] assms(4)
  by (metis less_irrefl linorder_cases)

lemma digits_show_pad: "digits (show_pad w n)"
  using parse_decimal_show_pad [of w n] by (simp add: parse_decimal_iff)

lemma dec_value_show_pad:
  assumes "n < 10 ^ w" "0 < w" "w \<le> 9"
  shows "dec_value (show_pad w n) = n"
proof -
  have "n < 10 ^ 9" using assms power_increasing [of w 9 "10 :: nat"] by auto
  then have "unat (of_nat n :: u32) = n" by (simp add: unat_of_nat)
  moreover have "(of_nat n :: u32) = of_nat (dec_value (show_pad w n))"
    using parse_decimal_show_pad [of w n] by (simp add: parse_decimal_iff)
  ultimately show ?thesis
    using unat_dec_value [OF digits_show_pad, of w n] length_show_pad [OF assms(2,1)] assms(3) by metis
qed

lemma show_pad_dec_value:
  assumes "digits ds" "length ds = w" "0 < w" "w \<le> 9"
  shows "show_pad w (dec_value ds) = ds"
proof (rule digits_inj)
  have l: "dec_value ds < 10 ^ w" using dec_value_less assms by blast
  show "length (show_pad w (dec_value ds)) = length ds" using l assms by (simp add: length_show_pad)
  show "dec_value (show_pad w (dec_value ds)) = dec_value ds" using l assms by (simp add: dec_value_show_pad)
qed (use assms digits_show_pad in auto)

lemma append_less_append:
  fixes as bs xs ys :: "'a::linorder list"
  assumes "length as = length bs"
  shows "as @ xs < bs @ ys \<longleftrightarrow> as < bs \<or> as = bs \<and> xs < ys"
  using assms by (induction as bs rule: list_induct2) auto

section \<open>The fields of a timestamp\<close>

definition stamp :: "string \<Rightarrow> string \<Rightarrow> string \<Rightarrow> string \<Rightarrow> string \<Rightarrow> string \<Rightarrow> string" where
  "stamp y m d h i s = y @ ''-'' @ m @ ''-'' @ d @ ''T'' @ h @ '':'' @ i @ '':'' @ s @ ''Z''"

definition stamp_fields :: "string \<Rightarrow> string \<Rightarrow> string \<Rightarrow> string \<Rightarrow> string \<Rightarrow> string \<Rightarrow> bool" where
  "stamp_fields y m d h i s \<longleftrightarrow>
     length y = 4 \<and> length m = 2 \<and> length d = 2 \<and> length h = 2 \<and> length i = 2 \<and> length s = 2"

lemma length_2: "length xs = 2 \<longleftrightarrow> (\<exists>a b. xs = [a, b])"
  by (auto simp: numeral_2_eq_2 length_Suc_conv)

lemma length_4: "length xs = 4 \<longleftrightarrow> (\<exists>a b c d. xs = [a, b, c, d])"
  by (auto simp: eval_nat_numeral length_Suc_conv)

lemma stamp_slices:
  assumes "stamp_fields y m d h i s"
  shows "timestamp_layout (stamp y m d h i s)"
    "slice 0 4 (stamp y m d h i s) = y" "slice 5 7 (stamp y m d h i s) = m" "slice 8 10 (stamp y m d h i s) = d"
    "slice 11 13 (stamp y m d h i s) = h" "slice 14 16 (stamp y m d h i s) = i"
    "slice 17 19 (stamp y m d h i s) = s"
  using assms
  by (auto simp: stamp_fields_def length_2 length_4 stamp_def timestamp_layout_def slice_def)

lemma layout_stamp:
  assumes "timestamp_layout v"
  obtains y m d h i s where "v = stamp y m d h i s" "stamp_fields y m d h i s"
proof -
  have v: "v = take 4 v @ [v ! 4] @ take 2 (drop 5 v) @ [v ! 7] @ take 2 (drop 8 v) @ [v ! 10] @
      take 2 (drop 11 v) @ [v ! 13] @ take 2 (drop 14 v) @ [v ! 16] @ take 2 (drop 17 v) @ [v ! 19]"
    using assms unfolding timestamp_layout_def
    by (auto simp: eval_nat_numeral length_Suc_conv)
  show thesis
    by (rule that [of "take 4 v" "take 2 (drop 5 v)" "take 2 (drop 8 v)" "take 2 (drop 11 v)"
          "take 2 (drop 14 v)" "take 2 (drop 17 v)"])
      (use assms v in \<open>auto simp: stamp_def timestamp_layout_def stamp_fields_def\<close>)
qed

section \<open>Parsing\<close>

lemma decimal_int:
  "length ds \<le> 9 \<Longrightarrow>
     map_option (\<lambda>w. int (unat w)) (parse_decimal ds) = (if digits ds then Some (int (dec_value ds)) else None)"
  using parse_decimal_value [of ds] by (cases "parse_decimal ds") (auto split: if_splits simp del: of_nat_unat)

lemma parse_stamp:
  assumes "stamp_fields y m d h i s"
  shows "parse_utc_seconds (stamp y m d h i s) =
    (if digits (y @ m @ d @ h @ i @ s)
     then utc_seconds (int (dec_value y)) (int (dec_value m)) (int (dec_value d))
            (int (dec_value h)) (int (dec_value i)) (int (dec_value s))
     else None)"
proof -
  have l: "length y \<le> 9" "length m \<le> 9" "length d \<le> 9" "length h \<le> 9" "length i \<le> 9" "length s \<le> 9"
    using assms by (simp_all add: stamp_fields_def)
  show ?thesis
    unfolding parse_utc_seconds_def Let_def stamp_slices [OF assms] l [THEN decimal_int]
    by (simp add: stamp_slices [OF assms])
qed

lemma days_bound:
  assumes v: "valid_date y m d" and "y \<le> 9999"
  shows "- 719468 \<le> days_from_civil y m d" "days_from_civil y m d \<le> 4000000"
proof -
  define Y M where "Y = y - (if m \<le> 2 then 1 else 0)" and "M = m + (if m > 2 then -3 else 9)"
  note D = march_date [OF v, folded Y_def M_def]
  have "Y \<le> 9999" using assms by (auto simp: Y_def)
  then have "year_start 0 + 364 * Y \<le> year_start Y" "year_start Y + 364 * (9999 - Y) \<le> year_start 9999"
    using year_start_mono [OF D(2)] year_start_mono [of Y 9999] by simp_all
  moreover have "month_start 0 \<le> month_start M" "month_start M \<le> month_start 11"
    using D(3,4) by (simp_all add: month_start_mono)
  moreover have "month_length (is_leap (Y + 1)) M \<le> 31" by (simp add: month_length_def)
  ultimately show "- 719468 \<le> days_from_civil y m d" "days_from_civil y m d \<le> 4000000"
    using D(2,5,6) \<open>Y \<le> 9999\<close> unfolding D(1) by (simp_all add: year_start_def month_start_def)
qed

lemma utc_seconds_iff:
  assumes "0 \<le> y" "y \<le> 9999" "0 \<le> h" "0 \<le> i" "0 \<le> s"
  shows "utc_seconds y m d h i s = Some n \<longleftrightarrow>
    valid_date y m d \<and> h \<le> 23 \<and> i \<le> 59 \<and> s \<le> 59 \<and>
    n = days_from_civil y m d * 86400 + (h * 3600 + i * 60 + s)"
proof (cases "valid_date y m d \<and> h \<le> 23 \<and> i \<le> 59 \<and> s \<le> 59")
  case True
  then have b: "- 719468 \<le> days_from_civil y m d" "days_from_civil y m d \<le> 4000000"
    using days_bound assms by auto
  with True assms have "checked_i64 (days_from_civil y m d * 86400) = Some (days_from_civil y m d * 86400)"
    "checked_i64 (days_from_civil y m d * 86400 + (h * 3600 + i * 60 + s)) =
      Some (days_from_civil y m d * 86400 + (h * 3600 + i * 60 + s))"
    by (auto intro!: checked_i64_small)
  with True assms show ?thesis by (auto simp: utc_seconds_def valid_date_def)
next
  case False
  with assms show ?thesis by (auto simp: utc_seconds_def valid_date_def)
qed

section \<open>The two validators agree\<close>

lemma divisible_by_iff: "divisible_by w d \<longleftrightarrow> unat w mod unat d = 0"
proof -
  have "w div d * d = w \<longleftrightarrow> w mod d = 0"
    by (metis add.right_neutral add_left_cancel div_mult_mod_eq)
  also have "\<dots> \<longleftrightarrow> unat w mod unat d = 0" by (metis unat_eq_zero unat_mod)
  finally show ?thesis by (simp add: divisible_by_def)
qed

lemma leap_u32:
  "divisible_by w 4 \<and> (\<not> divisible_by w 100 \<or> divisible_by w 400) \<longleftrightarrow> is_leap (int (unat w))"
proof -
  have "int (unat w) mod 4 = 0 \<longleftrightarrow> unat w mod 4 = 0" "int (unat w) mod 100 = 0 \<longleftrightarrow> unat w mod 100 = 0"
    "int (unat w) mod 400 = 0 \<longleftrightarrow> unat w mod 400 = 0" by presburger+
  then show ?thesis by (simp add: divisible_by_iff is_leap_nonneg)
qed

lemma require_text_plain:
  assumes "v \<noteq> []" and "list_all (\<lambda>c. 33 \<le> byte_val c \<and> byte_val c < 127) v"
  shows "require_text field v = Ok ()"
proof -
  have chars: "chars v = map byte_val v" using assms(2) by (intro chars_ascii) (auto simp: list_all_iff)
  have "\<not> is_whitespace n" "\<not> is_control n" if "33 \<le> n" "n < 127" for n
    using that by (auto simp: is_whitespace_def is_control_def)
  with assms(2) have ws: "list_all (\<lambda>n. \<not> is_whitespace n \<and> \<not> is_control n) (map byte_val v)"
    by (auto simp: list_all_iff)
  then have "dropWhile is_whitespace (map byte_val v) = map byte_val v"
    "dropWhile is_whitespace (rev (map byte_val v)) = rev (map byte_val v)"
    using assms(1) by (simp_all add: dropWhile_eq_self_iff list_all_iff last_map hd_map hd_rev)
  with assms(1) have "str_trim v \<noteq> []" by (simp add: str_trim_def chars)
  moreover have "\<not> any_control v" using ws by (auto simp: any_control_def chars list_all_iff list_ex_iff)
  ultimately show ?thesis by (simp add: require_text_def)
qed

lemma require_stamp:
  assumes f: "stamp_fields y m d h i s"
  shows "require_timestamp field (stamp y m d h i s) = Ok u \<longleftrightarrow> parse_utc_seconds (stamp y m d h i s) \<noteq> None"
proof (cases "digits (y @ m @ d @ h @ i @ s)")
  case False
  have "ok_or e (parse_decimal ds) = Ok w \<Longrightarrow> digits ds" for e :: receipt_error and ds w
    by (cases "parse_decimal ds") (auto simp: parse_decimal_iff)
  with False show ?thesis
    by (auto simp: require_timestamp_def result_simps Let_def stamp_slices [OF f] parse_stamp [OF f] split: if_splits)
next
  case True
  have plain: "require_text field (stamp y m d h i s) = Ok ()"
  proof (rule require_text_plain)
    have "list_all (\<lambda>c. 33 \<le> byte_val c \<and> byte_val c < 127) ds" if "digits ds" for ds
      using that by (rule list.pred_mono_strong) (auto simp: is_ascii_digit_def)
    with True show "list_all (\<lambda>c. 33 \<le> byte_val c \<and> byte_val c < 127) (stamp y m d h i s)"
      by (simp add: stamp_def)
  qed (simp add: stamp_def)
  have pd: "parse_decimal ds = Some (of_nat (dec_value ds))" "unat (of_nat (dec_value ds) :: u32) = dec_value ds"
    if "ds \<in> {y, m, d, h, i, s}" for ds
    using that True f by (auto simp: parse_decimal_iff intro!: unat_dec_value simp: stamp_fields_def)
  have le: "(of_nat (dec_value ds) :: u32) \<le> w \<longleftrightarrow> dec_value ds \<le> unat w" if "ds \<in> {h, i, s}" for ds w
    using pd(2) [of ds] that by (auto simp: word_le_nat_alt)
  have y0: "0 < (of_nat (dec_value y) :: u32) \<longleftrightarrow> 0 < dec_value y"
    using pd(2) [of y] by (auto simp: word_less_nat_alt)
  have leap: "divisible_by (of_nat (dec_value y)) 4 \<and>
      (divisible_by (of_nat (dec_value y)) 100 \<longrightarrow> divisible_by (of_nat (dec_value y)) 400) \<longleftrightarrow>
      is_leap (int (dec_value y))"
    using leap_u32 [of "of_nat (dec_value y)"] pd(2) [of y] by simp
  have yb: "dec_value y < 10 ^ 4" using dec_value_less [of y] True f by (simp add: stamp_fields_def)
  have "require_timestamp field (stamp y m d h i s) = Ok u \<longleftrightarrow>
      0 < dec_value y \<and> 1 \<le> dec_value d \<and>
      dec_value d \<le> days_in_month (is_leap (int (dec_value y))) (dec_value m) \<and>
      dec_value h \<le> 23 \<and> dec_value i \<le> 59 \<and> dec_value s \<le> 59"
    by (simp add: require_timestamp_def plain Let_def stamp_slices [OF f] pd leap le y0)
  also have "\<dots> \<longleftrightarrow> parse_utc_seconds (stamp y m d h i s) \<noteq> None"
    using True yb utc_seconds_iff [of "int (dec_value y)" "int (dec_value h)" "int (dec_value i)" "int (dec_value s)"
        "int (dec_value m)" "int (dec_value d)"]
    by (auto simp: parse_stamp [OF f] valid_date_def)
  finally show ?thesis .
qed

lemma require_timestamp_iff: "require_timestamp field v = Ok u \<longleftrightarrow> parse_utc_seconds v \<noteq> None"
proof (cases "timestamp_layout v")
  case True
  from layout_stamp [OF this] show ?thesis using require_stamp by metis
next
  case False
  then show ?thesis by (simp add: require_timestamp_def parse_utc_seconds_def result_simps Let_def)
qed

section \<open>Text order is time order\<close>

text \<open>What a successful parse reveals.\<close>

lemma parse_utc_seconds_Some:
  assumes "parse_utc_seconds v = Some n"
  obtains y m d h i s where "v = stamp y m d h i s" "stamp_fields y m d h i s" "digits (y @ m @ d @ h @ i @ s)"
    "valid_date (int (dec_value y)) (int (dec_value m)) (int (dec_value d))"
    "dec_value h \<le> 23" "dec_value i \<le> 59" "dec_value s \<le> 59" "dec_value y \<le> 9999"
    "n = days_from_civil (int (dec_value y)) (int (dec_value m)) (int (dec_value d)) * 86400 +
      (int (dec_value h) * 3600 + int (dec_value i) * 60 + int (dec_value s))"
proof -
  have "timestamp_layout v" using assms by (auto simp: parse_utc_seconds_def Let_def split: if_splits)
  from layout_stamp [OF this] obtain y m d h i s where v: "v = stamp y m d h i s" and f: "stamp_fields y m d h i s" .
  from assms have dg: "digits (y @ m @ d @ h @ i @ s)" by (auto simp: v parse_stamp [OF f] split: if_splits)
  then have yb: "dec_value y \<le> 9999" using dec_value_less [of y] f by (auto simp: stamp_fields_def)
  have "utc_seconds (int (dec_value y)) (int (dec_value m)) (int (dec_value d)) (int (dec_value h))
      (int (dec_value i)) (int (dec_value s)) = Some n"
    using assms dg by (simp add: v parse_stamp [OF f])
  with yb utc_seconds_iff have "valid_date (int (dec_value y)) (int (dec_value m)) (int (dec_value d)) \<and>
      int (dec_value h) \<le> 23 \<and> int (dec_value i) \<le> 59 \<and> int (dec_value s) \<le> 59 \<and>
      n = days_from_civil (int (dec_value y)) (int (dec_value m)) (int (dec_value d)) * 86400 +
      (int (dec_value h) * 3600 + int (dec_value i) * 60 + int (dec_value s))" by auto
  with that [OF v f dg] yb show thesis by simp
qed

lemma stamp_less:
  assumes "stamp_fields y m d h i s" "stamp_fields y' m' d' h' i' s'"
  shows "stamp y m d h i s < stamp y' m' d' h' i' s' \<longleftrightarrow>
    y < y' \<or> y = y' \<and> (m < m' \<or> m = m' \<and> (d < d' \<or> d = d' \<and> (h < h' \<or> h = h' \<and>
      (i < i' \<or> i = i' \<and> s < s'))))"
  using assms by (simp add: stamp_def stamp_fields_def append_less_append)

lemma clock_less:
  fixes D D' h h' i i' s s' :: int
  assumes "0 \<le> h" "h \<le> 23" "0 \<le> i" "i \<le> 59" "0 \<le> s" "s \<le> 59"
    "0 \<le> h'" "h' \<le> 23" "0 \<le> i'" "i' \<le> 59" "0 \<le> s'" "s' \<le> 59"
  shows "D * 86400 + (h * 3600 + i * 60 + s) < D' * 86400 + (h' * 3600 + i' * 60 + s') \<longleftrightarrow>
    D < D' \<or> D = D' \<and> (h < h' \<or> h = h' \<and> (i < i' \<or> i = i' \<and> s < s'))"
  using assms by linarith

lemma timestamp_less_iff:
  assumes "parse_utc_seconds v = Some n" "parse_utc_seconds v' = Some n'"
  shows "v < v' \<longleftrightarrow> n < n'"
proof -
  from parse_utc_seconds_Some [OF assms(1)] obtain y m d h i s where
    V: "v = stamp y m d h i s" "stamp_fields y m d h i s" "digits (y @ m @ d @ h @ i @ s)"
    "valid_date (int (dec_value y)) (int (dec_value m)) (int (dec_value d))"
    "dec_value h \<le> 23" "dec_value i \<le> 59" "dec_value s \<le> 59"
    "n = days_from_civil (int (dec_value y)) (int (dec_value m)) (int (dec_value d)) * 86400 +
      (int (dec_value h) * 3600 + int (dec_value i) * 60 + int (dec_value s))" by metis
  from parse_utc_seconds_Some [OF assms(2)] obtain y' m' d' h' i' s' where
    V': "v' = stamp y' m' d' h' i' s'" "stamp_fields y' m' d' h' i' s'" "digits (y' @ m' @ d' @ h' @ i' @ s')"
    "valid_date (int (dec_value y')) (int (dec_value m')) (int (dec_value d'))"
    "dec_value h' \<le> 23" "dec_value i' \<le> 59" "dec_value s' \<le> 59"
    "n' = days_from_civil (int (dec_value y')) (int (dec_value m')) (int (dec_value d')) * 86400 +
      (int (dec_value h') * 3600 + int (dec_value i') * 60 + int (dec_value s'))" by metis
  have field: "a < b \<longleftrightarrow> dec_value a < dec_value b" "a = b \<longleftrightarrow> dec_value a = dec_value b"
    if "(a, b) \<in> {(y, y'), (m, m'), (d, d'), (h, h'), (i, i'), (s, s')}" for a b
    using that V(2,3) V'(2,3) digits_less_iff [of a b] digits_inj [of a b] by (auto simp: stamp_fields_def)
  let ?D = "days_from_civil (int (dec_value y)) (int (dec_value m)) (int (dec_value d))"
  let ?D' = "days_from_civil (int (dec_value y')) (int (dec_value m')) (int (dec_value d'))"
  have F: "y < y' \<longleftrightarrow> dec_value y < dec_value y'" "m < m' \<longleftrightarrow> dec_value m < dec_value m'"
    "d < d' \<longleftrightarrow> dec_value d < dec_value d'" "h < h' \<longleftrightarrow> dec_value h < dec_value h'"
    "i < i' \<longleftrightarrow> dec_value i < dec_value i'" "s < s' \<longleftrightarrow> dec_value s < dec_value s'"
    "y = y' \<longleftrightarrow> dec_value y = dec_value y'" "m = m' \<longleftrightarrow> dec_value m = dec_value m'"
    "d = d' \<longleftrightarrow> dec_value d = dec_value d'" "h = h' \<longleftrightarrow> dec_value h = dec_value h'"
    "i = i' \<longleftrightarrow> dec_value i = dec_value i'"
    by (rule field; simp)+
  have lt: "?D < ?D' \<longleftrightarrow> y < y' \<or> y = y' \<and> (m < m' \<or> m = m' \<and> d < d')"
    unfolding days_less_iff [OF V(4) V'(4)] F by simp
  have eq: "?D = ?D' \<longleftrightarrow> y = y' \<and> m = m' \<and> d = d'"
    using days_inj [OF V(4) V'(4)] unfolding F by auto
  have "n < n' \<longleftrightarrow> ?D < ?D' \<or> ?D = ?D' \<and> (h < h' \<or> h = h' \<and> (i < i' \<or> i = i' \<and> s < s'))"
    unfolding V(8) V'(8) F using V(5-7) V'(5-7) by (subst clock_less) simp_all
  then show ?thesis unfolding lt eq V(1) V'(1) stamp_less [OF V(2) V'(2)] by blast
qed

section \<open>Printing and parsing\<close>

lemma format_unix_utc_eq:
  obtains y m d where "valid_date y m d" "days_from_civil y m d = int (unat s div 86400)"
    "format_unix_utc s =
      (if y \<le> 9999
       then Some (stamp (show_pad 4 (nat y)) (show_pad 2 (nat m)) (show_pad 2 (nat d))
              (show_pad 2 (unat s mod 86400 div 3600)) (show_pad 2 (unat s mod 86400 mod 3600 div 60))
              (show_pad 2 (unat s mod 86400 mod 60)))
       else None)"
proof -
  have words: "unat (s div 86400) = unat s div 86400" "unat (s mod 86400) = unat s mod 86400"
    by (simp_all add: unat_div unat_mod)
  have "unat s < 2 ^ 64" using unsigned_less [of s, where 'a = nat] by simp
  then have b: "0 \<le> int (unat s div 86400)" "int (unat s div 86400) \<le> 2 ^ 60" by simp_all
  then have chk: "checked_i64 (int (unat s div 86400)) = Some (int (unat s div 86400))"
    by (intro checked_i64_small) simp_all
  from civil_from_days_correct [OF b] obtain y m d where
    c: "civil_from_days (int (unat s div 86400)) = Some (y, m, d)" and v: "valid_date y m d"
    and days: "days_from_civil y m d = int (unat s div 86400)" .
  from v have "1 \<le> y" by (simp add: valid_date_def)
  then have "format_unix_utc s =
      (if y \<le> 9999
       then Some (stamp (show_pad 4 (nat y)) (show_pad 2 (nat m)) (show_pad 2 (nat d))
              (show_pad 2 (unat s mod 86400 div 3600)) (show_pad 2 (unat s mod 86400 mod 3600 div 60))
              (show_pad 2 (unat s mod 86400 mod 60)))
       else None)"
    unfolding format_unix_utc_def words chk Option.bind.simps Let_def c prod.case stamp_def by simp
  with that [OF v days] show thesis .
qed

lemma year_9999_iff:
  assumes "valid_date y m d"
  shows "y \<le> 9999 \<longleftrightarrow> days_from_civil y m d < 2932897"
proof -
  have v: "valid_date 10000 1 1" by (simp add: valid_date_def days_in_month_def)
  have "days_from_civil 10000 1 1 = 2932897" by (simp add: days_from_civil_def)
  moreover have "days_from_civil y m d < days_from_civil 10000 1 1 \<longleftrightarrow> y \<le> 9999"
    unfolding days_less_iff [OF assms v] using assms valid_date_month [OF assms] by (auto simp: valid_date_def)
  ultimately show ?thesis by simp
qed

lemma format_unix_utc_total: "format_unix_utc s = None \<longleftrightarrow> 253402300800 \<le> unat s"
proof -
  obtain y m d where v: "valid_date y m d" and days: "days_from_civil y m d = int (unat s div 86400)"
    and f: "(format_unix_utc s = None) = (\<not> y \<le> 9999)"
    by (rule format_unix_utc_eq [of s]) (auto split: if_splits)
  have "\<not> y \<le> 9999 \<longleftrightarrow> 2932897 \<le> unat s div 86400"
    unfolding year_9999_iff [OF v] days by linarith
  also have "\<dots> \<longleftrightarrow> 253402300800 \<le> unat s" by linarith
  finally show ?thesis using f by simp
qed

lemma day_small: "valid_date y m d \<Longrightarrow> d \<le> 31"
  by (auto simp: valid_date_def days_in_month_def split: if_splits)

lemma parse_padded:
  assumes v: "valid_date y m d" "y \<le> 9999" and b: "h \<le> 23" "i \<le> 59" "s \<le> 59"
  shows "parse_utc_seconds (stamp (show_pad 4 (nat y)) (show_pad 2 (nat m)) (show_pad 2 (nat d))
      (show_pad 2 h) (show_pad 2 i) (show_pad 2 s)) =
    Some (days_from_civil y m d * 86400 + (int h * 3600 + int i * 60 + int s))"
proof -
  have m: "1 \<le> m" "m \<le> 12" and d: "1 \<le> d" "d \<le> 31" and y: "1 \<le> y"
    using valid_date_month [OF v(1)] day_small [OF v(1)] v(1) by (auto simp: valid_date_def)
  have f: "stamp_fields (show_pad 4 (nat y)) (show_pad 2 (nat m)) (show_pad 2 (nat d))
      (show_pad 2 h) (show_pad 2 i) (show_pad 2 s)"
    unfolding stamp_fields_def using m d y v b by (simp add: length_show_pad)
  have vals: "dec_value (show_pad 4 (nat y)) = nat y" "dec_value (show_pad 2 (nat m)) = nat m"
    "dec_value (show_pad 2 (nat d)) = nat d" "dec_value (show_pad 2 h) = h" "dec_value (show_pad 2 i) = i"
    "dec_value (show_pad 2 s) = s"
    using m d y v b by (simp_all add: dec_value_show_pad)
  show ?thesis
    using utc_seconds_iff [of y "int h" "int i" "int s" m d] m d y v b
    by (simp add: parse_stamp [OF f] digits_show_pad vals)
qed

lemma format_then_parse:
  assumes "format_unix_utc s = Some t"
  shows "parse_utc_seconds t = Some (int (unat s))"
proof -
  obtain y m d where v: "valid_date y m d" and days: "days_from_civil y m d = int (unat s div 86400)"
    and f: "format_unix_utc s =
      (if y \<le> 9999
       then Some (stamp (show_pad 4 (nat y)) (show_pad 2 (nat m)) (show_pad 2 (nat d))
              (show_pad 2 (unat s mod 86400 div 3600)) (show_pad 2 (unat s mod 86400 mod 3600 div 60))
              (show_pad 2 (unat s mod 86400 mod 60)))
       else None)" by (rule format_unix_utc_eq)
  define r where "r = unat s mod 86400"
  have r: "r < 86400" by (simp add: r_def)
  have h: "r div 3600 \<le> 23" "r mod 3600 div 60 \<le> 59" "r mod 60 \<le> 59" using r by linarith+
  from f assms have y: "y \<le> 9999" by (simp split: if_splits)
  have "r mod 60 = r mod 3600 mod 60" by (simp add: mod_mod_cancel)
  then have "r div 3600 * 3600 + r mod 3600 div 60 * 60 + r mod 60 = r"
    by (metis add.assoc div_mult_mod_eq)
  from arg_cong [OF this, of int]
  have "int (r div 3600) * 3600 + int (r mod 3600 div 60) * 60 + int (r mod 60) = int r"
    by (simp only: of_nat_add of_nat_mult of_nat_numeral)
  then have "parse_utc_seconds t = Some (int (unat s div 86400) * 86400 + int r)"
    using f assms y parse_padded [OF v y h] by (simp add: days r_def)
  moreover have "int (unat s div 86400) * 86400 + int r = int (unat s)"
    using arg_cong [OF div_mult_mod_eq [of "unat s" 86400], of int]
    by (simp only: r_def of_nat_add of_nat_mult of_nat_numeral)
  ultimately show ?thesis by simp
qed

lemma parse_then_format:
  assumes p: "parse_utc_seconds t = Some n" and n: "0 \<le> n"
  shows "format_unix_utc (word_of_int n) = Some t"
proof -
  from parse_utc_seconds_Some [OF p] obtain y m d h i s where
    V: "valid_date (int (dec_value y)) (int (dec_value m)) (int (dec_value d))" "dec_value y \<le> 9999"
    "dec_value h \<le> 23" "dec_value i \<le> 59" "dec_value s \<le> 59"
    "n = days_from_civil (int (dec_value y)) (int (dec_value m)) (int (dec_value d)) * 86400 +
      (int (dec_value h) * 3600 + int (dec_value i) * 60 + int (dec_value s))" by metis
  have "days_from_civil (int (dec_value y)) (int (dec_value m)) (int (dec_value d)) < 2932897"
    using year_9999_iff [OF V(1)] V(2) by simp
  with V(3-6) have lt: "n < 253402300800" by linarith
  then have u: "unat (word_of_int n :: u64) = nat n" using n by (simp add: unsigned_of_int take_bit_int_eq_self)
  with lt n format_unix_utc_total [of "word_of_int n"] obtain t' where t': "format_unix_utc (word_of_int n) = Some t'"
    by (cases "format_unix_utc (word_of_int n)") auto
  from format_then_parse [OF this] u n have "parse_utc_seconds t' = Some n" by simp
  with timestamp_less_iff [OF p this] timestamp_less_iff [OF this p] have "t = t'"
    by (metis less_irrefl linorder_cases)
  with t' show ?thesis by simp
qed

end
