(* ===== verification/Verify.thy ===== *)
theory Verify
  imports Timestamp "HOL-Library.Product_Lexorder"
begin

text \<open>
  Receipt verification against a repository policy (\<^verbatim>\<open>src/src/verify.rs\<close>): the policies and their
  validation, the policy evaluation of a receipt, the verification report, and the strict policy
  that compares the receipt with a plan rebuilt from the trusted checkout. The JSON and TOML
  parsers are outside the repository: the JSON ones are the fields of the \<open>parsers\<close> argument.
\<close>

section \<open>Constants\<close>

definition POLICY_SCHEMA_VERSION :: string where
  "POLICY_SCHEMA_VERSION = ''1.0''"

definition TRUSTED_PLAN_POLICY_SCHEMA_VERSION :: string where
  "TRUSTED_PLAN_POLICY_SCHEMA_VERSION = ''1.1''"

definition VERIFICATION_REPORT_SCHEMA_VERSION :: string where
  "VERIFICATION_REPORT_SCHEMA_VERSION = ''1.0''"

definition MAX_POLICY_BYTES :: nat where
  "MAX_POLICY_BYTES = 1024 * 1024"

definition MAX_RECEIPT_BYTES :: nat where
  "MAX_RECEIPT_BYTES = 4 * 1024 * 1024"

definition MAX_REQUIRED_CHECKS :: nat where
  "MAX_REQUIRED_CHECKS = 128"

definition MAX_PLATFORMS :: nat where
  "MAX_PLATFORMS = 32"

definition MAX_FRESHNESS_SECONDS :: u64 where
  "MAX_FRESHNESS_SECONDS = 31536000"

definition MAX_PLAN_FINDINGS :: nat where
  "MAX_PLAN_FINDINGS = 128"

section \<open>Data\<close>

record accepted_platform_v1 =
  ap_host_os :: string
  ap_host_arch :: string
  ap_runtime_kind :: string

record verification_policy_v1 =
  vp_schema_version :: string
  vp_project :: string
  vp_configuration_digest :: string
  vp_required_checks :: "string list"
  vp_image_reference :: string
  vp_max_age_seconds :: u64
  vp_platforms :: "accepted_platform_v1 list"

record producer_contract_v1_1 =
  pc_name :: string
  pc_version :: string

record verification_policy_v1_1 =
  vt_schema_version :: string
  vt_project :: string
  vt_configuration_digest :: string
  vt_required_checks :: "string list"
  vt_image_reference :: string
  vt_max_age_seconds :: u64
  vt_platforms :: "accepted_platform_v1 list"
  vt_trusted_config :: string
  vt_source_snapshot_strategy :: source_snapshot_strategy
  vt_supported_producers :: "producer_contract_v1_1 list"
  vt_revoked_producers :: "producer_contract_v1_1 list"

datatype verification_status = StatusPass | StatusFail | StatusNotRun

datatype verification_decision = DecisionPass | DecisionFail

record verification_finding_v1 =
  vf_code :: string
  vf_field :: string
  vf_message :: string

record verification_report_v1 =
  vr_schema_version :: string
  vr_assurance_scope :: string
  vr_evaluated_at_utc :: string
  vr_expected_commit :: string
  vr_receipt_id :: "string option"
  vr_integrity_status :: verification_status
  vr_policy_status :: verification_status
  vr_decision :: verification_decision
  vr_findings :: "verification_finding_v1 list"

datatype policy_error =
    PolIo string
  | PolTooLarge
  | PolInvalidUtf8
  | PolParse string
  | PolUnsupportedSchemaVersion
  | PolInvalidField string
  | PolDuplicateValue string

datatype trusted_plan_error =
    TrpPolicyPath
  | TrpIo string
  | TrpUnsafeConfigurationPath
  | TrpConfig config_error

datatype verification_error =
    VerPolicy policy_error
  | VerPolicyDocument string
  | VerTrustedPlan trusted_plan_error
  | VerTrustedPolicyPathRequired
  | VerInvalidExpectedCommit
  | VerInvalidEvaluationTime
  | VerReceipt receipt_error
  | VerMatrix string

section \<open>Policy validation\<close>

definition valid_name :: "string \<Rightarrow> bool" where
  "valid_name v \<longleftrightarrow> v \<noteq> [] \<and> list_all (\<lambda>b. is_name_char (byte_val b)) v"

definition validate_name :: "string \<Rightarrow> string \<Rightarrow> (policy_error, unit) result" where
  "validate_name field v = (if 128 < length v \<or> \<not> valid_name v then Err (PolInvalidField field) else Ok ())"

definition validate_project :: "string \<Rightarrow> (policy_error, unit) result" where
  "validate_project v =
     (if 255 < length v \<or> any_control v then Err (PolInvalidField ''project'')
      else
        let parts = split_on (CHR ''/'') v;
            owner = (case parts of [] \<Rightarrow> [] | s # _ \<Rightarrow> s);
            repository = (case parts of _ # s # _ \<Rightarrow> s | _ \<Rightarrow> [])
        in if owner = [] \<or> repository = [] \<or> 2 < length parts \<or> \<not> valid_name owner \<or> \<not> valid_name repository
           then Err (PolInvalidField ''project'') else Ok ())"

definition validate_digest :: "string \<Rightarrow> (policy_error, unit) result" where
  "validate_digest v =
     (case strip_prefix ''sha256:'' v of
        None \<Rightarrow> Err (PolInvalidField ''configuration_digest'')
      | Some hex \<Rightarrow>
          if length hex \<noteq> 64 \<or> \<not> list_all is_lower_hex hex
          then Err (PolInvalidField ''configuration_digest'') else Ok ())"

definition policy_image_reference :: "string \<Rightarrow> (policy_error, unit) result" where
  "policy_image_reference v =
     (case rsplit_once (CHR ''@'') v of
        None \<Rightarrow> Err (PolInvalidField ''image_reference'')
      | Some (name, digest) \<Rightarrow>
          if name = [] \<or> CHR ''@'' \<in> set name \<or> any_control name
          then Err (PolInvalidField ''image_reference'')
          else map_err (\<lambda>_. PolInvalidField ''image_reference'') (validate_digest digest))"

definition validate_trusted_config_path :: "string \<Rightarrow> (policy_error, unit) result" where
  "validate_trusted_config_path v =
     (if v = [] \<or> 255 < length v \<or> starts_with ''/'' v \<or> starts_with ''~'' v \<or> CHR 0x5C \<in> set v \<or>
         CHR '':'' \<in> set v \<or>
         list_ex (\<lambda>seg. seg = [] \<or> seg = ''.'' \<or> seg = ''..'') (split_on (CHR ''/'') v)
      then Err (PolInvalidField ''trusted_config'') else Ok ())"

definition validate_producer_contract :: "producer_contract_v1_1 \<Rightarrow> (policy_error, unit) result" where
  "validate_producer_contract p =
     and_then (validate_name ''producers.name'' (pc_name p)) (\<lambda>_.
       if pc_version p = [] \<or> 128 < length (pc_version p) \<or> any_control (pc_version p)
       then Err (PolInvalidField ''producers.version'') else Ok ())"

definition required_check_step :: "string btree_set \<Rightarrow> string \<Rightarrow> (policy_error, string btree_set) result" where
  "required_check_step checks check =
     and_then (validate_name ''required_checks'' check) (\<lambda>_.
       if check \<in> set checks then Err (PolDuplicateValue ''required_checks'') else Ok (bs_insert check checks))"

definition platform_key :: "accepted_platform_v1 \<Rightarrow> string \<times> string \<times> string" where
  "platform_key p = (ap_host_os p, ap_host_arch p, ap_runtime_kind p)"

definition platform_step ::
  "(string \<times> string \<times> string) btree_set \<Rightarrow> accepted_platform_v1
     \<Rightarrow> (policy_error, (string \<times> string \<times> string) btree_set) result" where
  "platform_step platforms p =
     and_then (validate_name ''platforms.host_os'' (ap_host_os p)) (\<lambda>_.
     and_then (validate_name ''platforms.host_arch'' (ap_host_arch p)) (\<lambda>_.
     and_then (validate_name ''platforms.runtime_kind'' (ap_runtime_kind p)) (\<lambda>_.
       if platform_key p \<in> set platforms then Err (PolDuplicateValue ''platforms'')
       else Ok (bs_insert (platform_key p) platforms))))"

definition policy_v1_validate :: "verification_policy_v1 \<Rightarrow> (policy_error, unit) result" where
  "policy_v1_validate p =
     (if vp_schema_version p \<noteq> POLICY_SCHEMA_VERSION then Err PolUnsupportedSchemaVersion
      else
        and_then (validate_project (vp_project p)) (\<lambda>_.
        and_then (validate_digest (vp_configuration_digest p)) (\<lambda>_.
        and_then (policy_image_reference (vp_image_reference p)) (\<lambda>_.
        if \<not> (1 \<le> vp_max_age_seconds p \<and> vp_max_age_seconds p \<le> MAX_FRESHNESS_SECONDS)
        then Err (PolInvalidField ''max_age_seconds'')
        else if vp_required_checks p = [] \<or> MAX_REQUIRED_CHECKS < length (vp_required_checks p)
        then Err (PolInvalidField ''required_checks'')
        else
        and_then (try_fold required_check_step [] (vp_required_checks p)) (\<lambda>_.
        if vp_platforms p = [] \<or> MAX_PLATFORMS < length (vp_platforms p)
        then Err (PolInvalidField ''platforms'')
        else and_then (try_fold platform_step [] (vp_platforms p)) (\<lambda>_. Ok ()))))))"

definition producer_key :: "producer_contract_v1_1 \<Rightarrow> string \<times> string" where
  "producer_key p = (pc_name p, pc_version p)"

definition supported_step ::
  "(string \<times> string) btree_set \<Rightarrow> producer_contract_v1_1 \<Rightarrow> (policy_error, (string \<times> string) btree_set) result" where
  "supported_step supported p =
     and_then (validate_producer_contract p) (\<lambda>_.
       if producer_key p \<in> set supported then Err (PolDuplicateValue ''supported_producers'')
       else Ok (bs_insert (producer_key p) supported))"

definition revoked_step ::
  "(string \<times> string) btree_set \<Rightarrow> (string \<times> string) btree_set \<Rightarrow> producer_contract_v1_1
     \<Rightarrow> (policy_error, (string \<times> string) btree_set) result" where
  "revoked_step supported revoked p =
     and_then (validate_producer_contract p) (\<lambda>_.
       if producer_key p \<in> set revoked then Err (PolDuplicateValue ''revoked_producers'')
       else if producer_key p \<in> set supported then Err (PolDuplicateValue ''producer_contracts'')
       else Ok (bs_insert (producer_key p) revoked))"

definition baseline :: "verification_policy_v1_1 \<Rightarrow> verification_policy_v1" where
  "baseline p =
     \<lparr>vp_schema_version = POLICY_SCHEMA_VERSION, vp_project = vt_project p,
      vp_configuration_digest = vt_configuration_digest p, vp_required_checks = vt_required_checks p,
      vp_image_reference = vt_image_reference p, vp_max_age_seconds = vt_max_age_seconds p,
      vp_platforms = vt_platforms p\<rparr>"

definition policy_v1_1_validate :: "verification_policy_v1_1 \<Rightarrow> (policy_error, unit) result" where
  "policy_v1_1_validate p =
     (if vt_schema_version p \<noteq> TRUSTED_PLAN_POLICY_SCHEMA_VERSION then Err PolUnsupportedSchemaVersion
      else
        and_then (policy_v1_validate (baseline p)) (\<lambda>_.
        and_then (validate_trusted_config_path (vt_trusted_config p)) (\<lambda>_.
        if vt_supported_producers p = [] then Err (PolInvalidField ''supported_producers'')
        else
        and_then (try_fold supported_step [] (vt_supported_producers p)) (\<lambda>supported.
        and_then (try_fold (revoked_step supported) [] (vt_revoked_producers p)) (\<lambda>_. Ok ())))))"

text \<open>\<open>parse\<close> of both versions: the TOML deserializer is the argument \<open>from_str\<close>.\<close>

definition policy_v1_parse ::
  "(string \<Rightarrow> (string, verification_policy_v1) result) \<Rightarrow> string
     \<Rightarrow> (policy_error, verification_policy_v1) result" where
  "policy_v1_parse from_str bytes =
     (if MAX_POLICY_BYTES < length bytes then Err PolTooLarge
      else if \<not> utf8_valid bytes then Err PolInvalidUtf8
      else and_then (map_err PolParse (from_str bytes)) (\<lambda>policy.
           and_then (policy_v1_validate policy) (\<lambda>_. Ok policy)))"

definition policy_v1_1_parse ::
  "(string \<Rightarrow> (string, verification_policy_v1_1) result) \<Rightarrow> string
     \<Rightarrow> (policy_error, verification_policy_v1_1) result" where
  "policy_v1_1_parse from_str bytes =
     (if MAX_POLICY_BYTES < length bytes then Err PolTooLarge
      else if \<not> utf8_valid bytes then Err PolInvalidUtf8
      else and_then (map_err PolParse (from_str bytes)) (\<lambda>policy.
           and_then (policy_v1_1_validate policy) (\<lambda>_. Ok policy)))"

section \<open>Policy evaluation\<close>

definition finding :: "string \<Rightarrow> string \<Rightarrow> string \<Rightarrow> verification_finding_v1" where
  "finding code field message = \<lparr>vf_code = code, vf_field = field, vf_message = message\<rparr>"

record receipt_policy_view =
  pv_repository :: repository_evidence
  pv_run :: run_evidence
  pv_platform :: platform_evidence
  pv_configuration_digest :: string
  pv_checks :: "check_evidence list"
  pv_overall_status :: evidence_status

definition check_equal ::
  "string \<Rightarrow> string \<Rightarrow> string \<Rightarrow> string \<Rightarrow> string \<Rightarrow> verification_finding_v1 list \<Rightarrow> verification_finding_v1 list" where
  "check_equal actual expected code field message findings =
     (if actual \<noteq> expected then findings @ [finding code field message] else findings)"

definition push_if :: "bool \<Rightarrow> verification_finding_v1 \<Rightarrow> verification_finding_v1 list \<Rightarrow> verification_finding_v1 list" where
  "push_if c f findings = (if c then findings @ [f] else findings)"

definition freshness_findings ::
  "string \<Rightarrow> int \<Rightarrow> u64 \<Rightarrow> verification_finding_v1 list \<Rightarrow> verification_finding_v1 list" where
  "freshness_findings finished_at_utc evaluated_at max_age_seconds findings =
     (case parse_utc_seconds finished_at_utc of
        Some finished_at \<Rightarrow>
          if finished_at > evaluated_at
          then findings @ [finding ''policy.future_receipt'' ''run.finished_at_utc''
                 ''receipt completion time is later than verification time'']
          else if evaluated_at - finished_at > sint max_age_seconds
          then findings @ [finding ''policy.stale_receipt'' ''run.finished_at_utc''
                 ''receipt exceeds repository freshness policy'']
          else findings
      | None \<Rightarrow> findings @ [finding ''policy.invalid_time'' ''run.finished_at_utc''
                 ''receipt completion time cannot be evaluated''])"

definition evaluate_policy ::
  "receipt_policy_view \<Rightarrow> verification_policy_v1 \<Rightarrow> string \<Rightarrow> int \<Rightarrow> verification_finding_v1 list
     \<Rightarrow> verification_finding_v1 list" where
  "evaluate_policy receipt policy expected_commit evaluated_at fs0 =
     (let fs1 = check_equal (re_repository (pv_repository receipt)) (vp_project policy) ''policy.repository''
                  ''repository.repository'' ''receipt project does not match repository policy'' fs0;
          fs2 = check_equal (re_commit_sha (pv_repository receipt)) expected_commit ''policy.commit''
                  ''repository.commit_sha'' ''receipt commit does not match the externally supplied commit'' fs1;
          fs3 = push_if (re_dirty (pv_repository receipt))
                  (finding ''policy.dirty'' ''repository.dirty'' ''repository policy requires a clean checkout'') fs2;
          fs4 = check_equal (pv_configuration_digest receipt) (vp_configuration_digest policy)
                  ''policy.configuration'' ''configuration_digest''
                  ''receipt configuration digest does not match repository policy'' fs3;
          fs5 = check_equal (pf_image_reference (pv_platform receipt)) (vp_image_reference policy) ''policy.image''
                  ''platform.image_reference'' ''receipt image does not match repository policy'' fs4;
          fs6 = push_if (\<not> list_ex (\<lambda>accepted.
                    ap_host_os accepted = pf_host_os (pv_platform receipt) \<and>
                    ap_host_arch accepted = pf_host_arch (pv_platform receipt) \<and>
                    ap_runtime_kind accepted = pf_runtime_kind (pv_platform receipt)) (vp_platforms policy))
                  (finding ''policy.platform'' ''platform''
                    ''receipt platform tuple is not accepted by repository policy'') fs5;
          fs7 = push_if (pv_overall_status receipt \<noteq> Pass)
                  (finding ''policy.overall_status'' ''overall_status''
                    ''repository policy requires an overall PASS receipt'') fs6;
          actual_required = bs_collect (map ce_id (filter ce_required (pv_checks receipt)));
          expected_required = bs_collect (vp_required_checks policy);
          fs8 = push_if (actual_required \<noteq> expected_required)
                  (finding ''policy.required_check_set'' ''checks''
                    ''required check set does not exactly match repository policy'') fs7;
          fs9 = push_if (list_ex (\<lambda>check. ce_id check \<in> set expected_required \<and> ce_status check \<noteq> Pass)
                    (pv_checks receipt))
                  (finding ''policy.required_check_result'' ''checks.status''
                    ''one or more policy-required checks did not PASS'') fs8
      in freshness_findings (ru_finished_at_utc (pv_run receipt)) evaluated_at (vp_max_age_seconds policy) fs9)"

section \<open>Verification\<close>

record parsers =
  value_from_slice :: "string \<Rightarrow> (string, json) result"
  v1_from_slice :: "string \<Rightarrow> (string, receipt_envelope_v1) result"
  v2_from_slice :: "string \<Rightarrow> (string, receipt_envelope_v2) result"

datatype verified_receipt = VerifiedV1 receipt_envelope_v1 | VerifiedV2 receipt_envelope_v2

primrec verified_verify :: "codec \<Rightarrow> verified_receipt \<Rightarrow> (receipt_error, unit) result" where
  "verified_verify cx (VerifiedV1 e) = verify_v1 cx e"
| "verified_verify cx (VerifiedV2 e) = verify_v2 cx e"

primrec verified_receipt_id :: "verified_receipt \<Rightarrow> string" where
  "verified_receipt_id (VerifiedV1 e) = e1_receipt_id e"
| "verified_receipt_id (VerifiedV2 e) = e2_receipt_id e"

primrec verified_view :: "verified_receipt \<Rightarrow> receipt_policy_view" where
  "verified_view (VerifiedV1 e) =
     (let r = e1_receipt e
      in \<lparr>pv_repository = r1_repository r, pv_run = r1_run r, pv_platform = r1_platform r,
          pv_configuration_digest = r1_configuration_digest r, pv_checks = r1_checks r,
          pv_overall_status = r1_overall_status r\<rparr>)"
| "verified_view (VerifiedV2 e) =
     (let r = e2_receipt e
      in \<lparr>pv_repository = r2_repository r, pv_run = r2_run r, pv_platform = r2_platform r,
          pv_configuration_digest = r2_configuration_digest r, pv_checks = r2_checks r,
          pv_overall_status = r2_overall_status r\<rparr>)"

definition validate_commit :: "string \<Rightarrow> (verification_error, unit) result" where
  "validate_commit v =
     (if \<not> (length v = 40 \<or> length v = 64) \<or> \<not> list_all is_lower_hex v
      then Err VerInvalidExpectedCommit else Ok ())"

text \<open>The report before any evidence is read, and the finding of a failed integrity check.\<close>

definition initial_report :: "string \<Rightarrow> string \<Rightarrow> verification_report_v1" where
  "initial_report expected_commit evaluated_at_utc =
     \<lparr>vr_schema_version = VERIFICATION_REPORT_SCHEMA_VERSION,
      vr_assurance_scope = ''integrity_and_repository_policy_only'',
      vr_evaluated_at_utc = evaluated_at_utc, vr_expected_commit = expected_commit, vr_receipt_id = None,
      vr_integrity_status = StatusFail, vr_policy_status = StatusNotRun, vr_decision = DecisionFail,
      vr_findings = []\<rparr>"

definition push_finding :: "verification_report_v1 \<Rightarrow> verification_finding_v1 \<Rightarrow> verification_report_v1" where
  "push_finding r f = r\<lparr>vr_findings := vr_findings r @ [f]\<rparr>"

definition receipt_error_finding :: "receipt_error \<Rightarrow> verification_finding_v1" where
  "receipt_error_finding e =
     (case e of
        RcpUnsupportedSchemaVersion _ \<Rightarrow>
          finding ''receipt.unsupported_schema'' ''receipt'' ''receipt schema version is unsupported''
      | RcpDigestMismatch _ _ \<Rightarrow>
          finding ''receipt.digest_mismatch'' ''receipt'' ''receipt payload does not match its integrity identifier''
      | _ \<Rightarrow> finding ''receipt.semantic_invalid'' ''receipt'' ''receipt violates schema semantic invariants'')"

text \<open>Reading the document: a finding when the bytes hold no receipt of a supported version.\<close>

definition read_receipt :: "parsers \<Rightarrow> string \<Rightarrow> (verification_finding_v1, verified_receipt) result" where
  "read_receipt ps bytes =
     (let shape = finding ''receipt.parse_or_shape'' ''receipt'' ''receipt is not valid strict schema v1 or v2 JSON''
      in if MAX_RECEIPT_BYTES < length bytes
         then Err (finding ''receipt.too_large'' ''receipt'' ''receipt exceeds the bounded verification input size'')
         else
           and_then (map_err (\<lambda>_. shape) (value_from_slice ps bytes)) (\<lambda>document.
           case Option.bind (Option.bind (json_get document ''receipt'') (\<lambda>r. json_get r ''schema_version'')) as_str of
             None \<Rightarrow> Err (finding ''receipt.parse_or_shape'' ''receipt.schema_version''
                            ''receipt schema version is missing or invalid'')
           | Some schema_version \<Rightarrow>
               if schema_version = ''1.0''
               then map_err (\<lambda>_. shape) (map_result VerifiedV1 (v1_from_slice ps bytes))
               else if schema_version = ''2.0''
               then map_err (\<lambda>_. shape) (map_result VerifiedV2 (v2_from_slice ps bytes))
               else Err (finding ''receipt.unsupported_schema'' ''receipt.schema_version''
                      ''receipt schema version is unsupported'')))"

definition decide :: "verification_report_v1 \<Rightarrow> verification_report_v1" where
  "decide r =
     (let r' = (if vr_findings r \<noteq> [] then r\<lparr>vr_policy_status := StatusFail\<rparr> else r)
      in r'\<lparr>vr_decision :=
              (if vr_integrity_status r' = StatusPass \<and> vr_policy_status r' = StatusPass
               then DecisionPass else DecisionFail)\<rparr>)"

definition verify_receipt_document ::
  "codec \<Rightarrow> parsers \<Rightarrow> string \<Rightarrow> verification_policy_v1 \<Rightarrow> string \<Rightarrow> string
     \<Rightarrow> (verification_error, verification_report_v1) result" where
  "verify_receipt_document cx ps bytes policy expected_commit evaluated_at_utc =
     and_then (map_err VerPolicy (policy_v1_validate policy)) (\<lambda>_.
     and_then (validate_commit expected_commit) (\<lambda>_.
     and_then (ok_or VerInvalidEvaluationTime (parse_utc_seconds evaluated_at_utc)) (\<lambda>evaluated_at.
       let report = initial_report expected_commit evaluated_at_utc
       in case read_receipt ps bytes of
            Inl f \<Rightarrow> Ok (push_finding report f)
          | Inr envelope \<Rightarrow>
              (case verified_verify cx envelope of
                 Inl error \<Rightarrow> Ok (push_finding report (receipt_error_finding error))
               | Inr _ \<Rightarrow>
                   let report = report\<lparr>vr_receipt_id := Some (verified_receipt_id envelope),
                                       vr_integrity_status := StatusPass, vr_policy_status := StatusPass,
                                       vr_findings := evaluate_policy (verified_view envelope) policy
                                         expected_commit evaluated_at (vr_findings report)\<rparr>
                   in Ok (decide report)))))"

definition receipt_input_failure_report ::
  "string \<Rightarrow> string \<Rightarrow> (verification_error, verification_report_v1) result" where
  "receipt_input_failure_report expected_commit evaluated_at_utc =
     and_then (validate_commit expected_commit) (\<lambda>_.
     and_then (ok_or VerInvalidEvaluationTime (parse_utc_seconds evaluated_at_utc)) (\<lambda>_.
       Ok (push_finding (initial_report expected_commit evaluated_at_utc)
             (finding ''receipt.read_failed'' ''receipt''
               ''receipt could not be read from the caller-supplied path''))))"

definition report_exit_code :: "verification_report_v1 \<Rightarrow> int" where
  "report_exit_code r = (case vr_decision r of DecisionPass \<Rightarrow> 0 | DecisionFail \<Rightarrow> 3)"

section \<open>Trusted plans\<close>

definition escape_json_pointer :: "string \<Rightarrow> string" where
  "escape_json_pointer v =
     concat (map (\<lambda>c. if c = CHR ''/'' then ''~1'' else [c])
       (concat (map (\<lambda>c. if c = CHR ''~'' then ''~0'' else [c]) v)))"

definition push_plan_finding :: "string \<Rightarrow> verification_finding_v1 list \<Rightarrow> verification_finding_v1 list" where
  "push_plan_finding path findings =
     (if length findings < MAX_PLAN_FINDINGS
      then findings @ [finding ''policy.execution_plan.field_mismatch'' (''execution_plan'' @ path)
             ''receipt execution-plan field does not match trusted configuration'']
      else findings)"

text \<open>A loop over a list that stops once the state satisfies a condition.\<close>

primrec break_fold :: "('s \<Rightarrow> bool) \<Rightarrow> ('a \<Rightarrow> 's \<Rightarrow> 's) \<Rightarrow> 'a list \<Rightarrow> 's \<Rightarrow> 's" where
  "break_fold stop f [] s = s"
| "break_fold stop f (x # xs) s = (let s' = f x s in if stop s' then s' else break_fold stop f xs s')"

lemma break_fold_cong [fundef_cong]:
  assumes "stop = stop'" "xs = ys" "s = t" "\<And>x s. x \<in> set ys \<Longrightarrow> f x s = g x s"
  shows "break_fold stop f xs s = break_fold stop' g ys t"
  unfolding assms(1-3) using assms(4) by (induction ys arbitrary: t) (simp_all add: Let_def)

definition nth_option :: "'a list \<Rightarrow> nat \<Rightarrow> 'a option" where
  "nth_option xs i = (if i < length xs then Some (xs ! i) else None)"

lemma json_child_size:
  "bt_get kvs k = Some v \<Longrightarrow> size v < size (JObject kvs)"
  "nth_option xs i = Some v \<Longrightarrow> size v < size (JArray xs)"
  using size_entry [of k v kvs] size_list_elem [of v xs size]
  by (auto simp: nth_option_def less_Suc_eq_le dest!: map_of_SomeD split: if_splits)

function compare_plan_value ::
  "json \<Rightarrow> json \<Rightarrow> string \<Rightarrow> verification_finding_v1 list \<Rightarrow> verification_finding_v1 list" where
  "compare_plan_value trusted receipt path findings =
     (if MAX_PLAN_FINDINGS \<le> length findings \<or> trusted = receipt then findings
      else case (trusted, receipt) of
        (JObject ts, JObject rs) \<Rightarrow>
          break_fold (\<lambda>fs. MAX_PLAN_FINDINGS \<le> length fs)
            (\<lambda>key fs.
               let child_path = path @ ''/'' @ escape_json_pointer key
               in case bt_get ts key of
                    Some t \<Rightarrow>
                      (case bt_get rs key of
                         Some r \<Rightarrow> compare_plan_value t r child_path fs
                       | None \<Rightarrow> push_plan_finding child_path fs)
                  | None \<Rightarrow> push_plan_finding child_path fs)
            (bs_collect (bt_keys ts @ bt_keys rs)) findings
      | (JArray ts, JArray rs) \<Rightarrow>
          break_fold (\<lambda>fs. MAX_PLAN_FINDINGS \<le> length fs)
            (\<lambda>index fs.
               let child_path = path @ ''/'' @ show_nat index
               in case nth_option ts index of
                    Some t \<Rightarrow>
                      (case nth_option rs index of
                         Some r \<Rightarrow> compare_plan_value t r child_path fs
                       | None \<Rightarrow> push_plan_finding child_path fs)
                  | None \<Rightarrow> push_plan_finding child_path fs)
            [0..<max (length ts) (length rs)] findings
      | _ \<Rightarrow> push_plan_finding path findings)"
  by pat_completeness auto
termination
  by (relation "measure (\<lambda>(t, r, p, f). size t)") (auto dest: json_child_size simp del: json.size bt_get_map_of)

declare compare_plan_value.simps [simp del]

definition compare_execution_plan ::
  "execution_plan_v1 \<Rightarrow> execution_plan_v1 \<Rightarrow> verification_finding_v1 list \<Rightarrow> verification_finding_v1 list" where
  "compare_execution_plan trusted receipt findings =
     compare_plan_value (plan_to_value trusted) (plan_to_value receipt) [] findings"

definition producer_findings ::
  "verification_policy_v1_1 \<Rightarrow> producer_evidence \<Rightarrow> verification_finding_v1 list \<Rightarrow> verification_finding_v1 list" where
  "producer_findings policy producer findings =
     (if list_ex (\<lambda>c. producer_key c = (pr_name producer, pr_version producer)) (vt_revoked_producers policy)
      then findings @ [finding ''policy.producer_revoked'' ''producer''
             ''receipt producer is explicitly revoked by trusted policy'']
      else if \<not> list_ex (\<lambda>c. producer_key c = (pr_name producer, pr_version producer)) (vt_supported_producers policy)
      then findings @ [finding ''policy.producer_unsupported'' ''producer''
             ''receipt producer is not supported by trusted policy'']
      else findings)"

definition verify_trusted_plan_receipt_document ::
  "codec \<Rightarrow> parsers \<Rightarrow> string \<Rightarrow> verification_policy_v1_1 \<Rightarrow> execution_plan_envelope_v1 \<Rightarrow> string \<Rightarrow> string
     \<Rightarrow> (verification_error, verification_report_v1) result" where
  "verify_trusted_plan_receipt_document cx ps bytes policy trusted_plan expected_commit evaluated_at_utc =
     and_then (verify_receipt_document cx ps bytes (baseline policy) expected_commit evaluated_at_utc) (\<lambda>report0.
       let report = report0\<lparr>vr_assurance_scope := ''integrity_and_trusted_plan_policy''\<rparr>
       in if vr_integrity_status report \<noteq> StatusPass then Ok report
          else
            let report =
                  (if pe_plan_digest trusted_plan \<noteq> vt_configuration_digest policy
                   then push_finding report (finding ''policy.trusted_config_digest'' ''trusted_config''
                          ''trusted configuration does not reconstruct the policy execution-plan digest'')
                   else report)
            in case v2_from_slice ps bytes of
                 Inl _ \<Rightarrow>
                   Ok (decide (push_finding report (finding ''policy.receipt_schema'' ''receipt.schema_version''
                        ''trusted-plan policy requires a strict receipt v2'')))
               | Inr receipt \<Rightarrow>
                   let fs1 = compare_execution_plan (pe_plan trusted_plan) (r2_execution_plan (e2_receipt receipt))
                               (vr_findings report);
                       fs2 = push_if (ss_strategy (r2_source_snapshot (e2_receipt receipt))
                                        \<noteq> vt_source_snapshot_strategy policy)
                               (finding ''policy.source_snapshot_strategy'' ''source_snapshot.strategy''
                                 ''receipt source snapshot strategy is not accepted by trusted policy'') fs1;
                       fs3 = producer_findings policy (r2_producer (e2_receipt receipt)) fs2
                   in Ok (decide (report\<lparr>vr_findings := fs3\<rparr>)))"

end
