(* ===== verification/Samples_Receipt.thy ===== *)
theory Samples_Receipt
  imports Samples Verify
begin

text \<open>
  Concrete receipts and policies: a plan with one check and one artifact, the green receipts of
  both versions for it, a repository policy that accepts them, and parsers that know two documents.
\<close>

definition tiny_plan :: execution_plan_v1 where
  "tiny_plan =
     \<lparr>pl_schema_version = ''1.2'', pl_project = ''acme/demo'',
      pl_runtime = \<lparr>nr_kind = DockerCompatible, nr_image = sample_image, nr_cpu_count = 1, nr_memory_mib = 256,
        nr_pids_limit = 64, nr_network = False, nr_pull_policy = None, nr_swap_mode = None\<rparr>,
      pl_receipt = \<lparr>nrc_output = ''out.json'', nrc_freshness_seconds = 60\<rparr>,
      pl_environment = \<lparr>ne_inherit = [], ne_fixed = [], ne_runtime_internal = [], ne_remote_secret_only = []\<rparr>,
      pl_caches = [], pl_storage = None,
      pl_checks = [\<lparr>nk_id = ''t'', nk_required = True, nk_argv = [''make''], nk_working_directory = ''.'',
        nk_timeout_seconds = 60, nk_depends_on = [], nk_artifacts = [''app''],
        nk_artifact_contracts = [\<lparr>na_path = ''app'', na_kind = RegularFile, na_max_bytes = 9, na_max_entries = 1,
          na_producer_check = ''t''\<rparr>]\<rparr>]\<rparr>"

definition zero_digest :: string where
  "zero_digest = ''sha256:'' @ replicate 64 (CHR ''0'')"

definition sample_commit :: string where
  "sample_commit = replicate 40 (CHR ''a'')"

definition tiny_digest :: "codec \<Rightarrow> string" where
  "tiny_digest cx = projr (canonical_digest cx (plan_to_value tiny_plan))"

definition sample_evidence :: check_evidence where
  "sample_evidence =
     \<lparr>ce_id = ''t'', ce_required = True, ce_argv = [''make''], ce_working_directory = ''.'', ce_status = Pass,
      ce_exit_code = Some 0, ce_duration_ms = 5, ce_timed_out = False, ce_cancelled = False,
      ce_output_digest = None, ce_incomplete_reason = None\<rparr>"

definition sample_receipt :: "codec \<Rightarrow> receipt_v2" where
  "sample_receipt cx =
     \<lparr>r2_schema_version = ''2.0'', r2_producer = \<lparr>pr_name = ''ccp'', pr_version = ''1''\<rparr>,
      r2_repository = \<lparr>re_repository = ''acme/demo'', re_commit_sha = sample_commit, re_dirty = False\<rparr>,
      r2_run = \<lparr>ru_run_id = ''r'', ru_generation = 1, ru_started_at_utc = ''2026-08-01T00:00:00Z'',
        ru_finished_at_utc = ''2026-08-01T00:00:09Z''\<rparr>,
      r2_source_snapshot = \<lparr>ss_schema_version = ''1.0'', ss_strategy = GitObject, ss_manifest_digest = zero_digest,
        ss_entry_count = 3\<rparr>,
      r2_platform = \<lparr>pf_host_os = ''linux'', pf_host_arch = ''x86'', pf_runtime_kind = ''docker'',
        pf_runtime_version = ''1'', pf_image_reference = sample_image,
        pf_image_digest = ''sha256:'' @ replicate 64 (CHR ''a'')\<rparr>,
      r2_configuration_digest = tiny_digest cx, r2_execution_plan = tiny_plan,
      r2_runtime_capability_evidence = None,
      r2_artifact_manifest = [\<lparr>ae_path = ''app'', ae_kind = RegularFile, ae_producer_check = ''t'',
        ae_entry_count = 1, ae_total_bytes = 4, ae_manifest_digest = zero_digest\<rparr>],
      r2_checks = [sample_evidence], r2_overall_status = Pass, r2_incomplete_reason = None,
      r2_redaction_policy_version = ''1''\<rparr>"

lemma sample_receipt_valid: "receipt_v2_validate sample_codec (sample_receipt sample_codec) = Ok ()"
  by code_simp

lemma writing_receipt_valid: "receipt_v2_validate writing_codec (sample_receipt writing_codec) = Ok ()"
  by code_simp

definition sample_envelope :: "codec \<Rightarrow> receipt_envelope_v2" where
  "sample_envelope cx =
     \<lparr>e2_receipt_id = projr (canonical_digest cx (receipt_v2_to_value (sample_receipt cx))),
      e2_receipt = sample_receipt cx\<rparr>"

lemma sample_digest_Ok:
  "canonical_digest sample_codec v = Ok (projr (canonical_digest sample_codec v))"
  "canonical_digest writing_codec v = Ok (projr (canonical_digest writing_codec v))"
  by (simp_all add: canonical_digest_def canonical_json_def writing_codec_def sample_codec_def)

lemma sample_seal: "seal_v2 sample_codec (sample_receipt sample_codec) = Ok (sample_envelope sample_codec)"
  unfolding seal_v2_def sample_receipt_valid sample_envelope_def
  by (subst sample_digest_Ok(1)) simp

lemma writing_seal: "seal_v2 writing_codec (sample_receipt writing_codec) = Ok (sample_envelope writing_codec)"
  unfolding seal_v2_def writing_receipt_valid sample_envelope_def
  by (subst sample_digest_Ok(2)) simp

definition sample_parsers :: parsers where
  "sample_parsers =
     \<lparr>value_from_slice = \<lambda>b. Ok (JObject [(''receipt'', JObject [(''schema_version'', JString ''2.0'')])]),
      v1_from_slice = \<lambda>b. Err ''missing field'',
      v2_from_slice = \<lambda>b. if b = ''doc'' then Ok (sample_envelope sample_codec) else Err ''expected value''\<rparr>"

definition sample_policy :: verification_policy_v1_1 where
  "sample_policy =
     \<lparr>vt_schema_version = ''1.1'', vt_project = ''acme/demo'', vt_configuration_digest = tiny_digest sample_codec,
      vt_required_checks = [''t''], vt_image_reference = sample_image, vt_max_age_seconds = 60,
      vt_platforms = [\<lparr>ap_host_os = ''linux'', ap_host_arch = ''x86'', ap_runtime_kind = ''docker''\<rparr>],
      vt_trusted_config = ''ccp.toml'', vt_source_snapshot_strategy = GitObject,
      vt_supported_producers = [\<lparr>pc_name = ''ccp'', pc_version = ''1''\<rparr>], vt_revoked_producers = []\<rparr>"

definition sample_trusted :: execution_plan_envelope_v1 where
  "sample_trusted =
     \<lparr>pe_plan_digest = tiny_digest sample_codec, pe_plan = tiny_plan, pe_fixed_environment = []\<rparr>"

definition sample_now :: string where
  "sample_now = ''2026-08-01T00:00:40Z''"

definition sample_report :: verification_report_v1 where
  "sample_report = projr (verify_receipt_document sample_codec sample_parsers ''doc'' (baseline sample_policy)
     sample_commit sample_now)"

definition sample_trusted_report :: verification_report_v1 where
  "sample_trusted_report = projr (verify_trusted_plan_receipt_document sample_codec sample_parsers ''doc''
     sample_policy sample_trusted sample_commit sample_now)"

lemma sample_verification:
  "case verify_trusted_plan_receipt_document sample_codec sample_parsers ''doc'' sample_policy sample_trusted
     sample_commit sample_now of Inl _ \<Rightarrow> False | Inr r \<Rightarrow> vr_decision r = DecisionPass"
  by code_simp

lemma sample_trusted_report_ok:
  "verify_trusted_plan_receipt_document sample_codec sample_parsers ''doc'' sample_policy sample_trusted
     sample_commit sample_now = Ok sample_trusted_report"
  and sample_trusted_report_pass: "vr_decision sample_trusted_report = DecisionPass"
  using sample_verification by (auto simp: sample_trusted_report_def split: sum.splits)

lemma sample_read: "read_receipt sample_parsers ''doc'' = Ok (VerifiedV2 (sample_envelope sample_codec))"
  by (simp add: read_receipt_def sample_parsers_def MAX_RECEIPT_BYTES_def json_get_def as_str_def Let_def)

end
