(* ===== verification/Receipt_Correct.thy ===== *)
theory Receipt_Correct
  imports Receipt "HOL-Library.Multiset"
begin

text \<open>
  What receipt validation and sealing guarantee: exact acceptance conditions of the loops, the
  meaning of the overall status, the match between evidence and execution plan, and the contract
  of a sealed envelope as a locale that both receipt versions satisfy.
\<close>

section \<open>Validators\<close>

lemma validate_sha256_iff: "validate_sha256 field v = Ok u \<longleftrightarrow> sha256_text v"
  by (auto simp: validate_sha256_def sha256_text_def split: option.splits)

lemma validate_incomplete_reason_iff:
  "validate_incomplete_reason field s reason = Ok u \<longleftrightarrow>
     (incomplete s \<longleftrightarrow> (\<exists>t. reason = Some t \<and> str_trim t \<noteq> []))"
  by (auto simp: validate_incomplete_reason_def split: bool.splits option.splits list.splits)

lemma derive_overall_status_Pass: "derive_overall_status ss = Pass \<longleftrightarrow> (\<forall>s\<in>set ss. s = Pass)"
proof
  assume "derive_overall_status ss = Pass"
  then have "Fail \<notin> set ss" "\<not> list_ex incomplete ss"
    by (auto simp: derive_overall_status_def split: if_splits)
  then show "\<forall>s\<in>set ss. s = Pass"
    by (metis incomplete_def evidence_status.exhaust evidence_status.simps(15,16) list_ex_iff)
next
  assume "\<forall>s\<in>set ss. s = Pass"
  then show "derive_overall_status ss = Pass"
    by (auto simp: derive_overall_status_def list_ex_iff incomplete_def)
qed

lemma derive_overall_status_Fail: "derive_overall_status ss = Fail \<longleftrightarrow> Fail \<in> set ss"
  by (simp add: derive_overall_status_def)

section \<open>The loop over the checks\<close>

lemma common_check_fold:
  "try_fold common_check_step (ids, sts) cs = Ok (ids', sts') \<longleftrightarrow>
     list_all (\<lambda>c. check_evidence_validate c = Ok ()) cs \<and> distinct (map ce_id cs) \<and>
     set ids \<inter> ce_id ` set cs = {} \<and> ids' = fold bs_insert (map ce_id cs) ids \<and>
     sts' = sts @ map ce_status (filter ce_required cs)"
proof (induction cs arbitrary: ids sts)
  case (Cons c cs)
  have "common_check_step (ids, sts) c = Ok t \<longleftrightarrow> check_evidence_validate c = Ok () \<and> ce_id c \<notin> set ids \<and>
      t = (bs_insert (ce_id c) ids, if ce_required c then sts @ [ce_status c] else sts)" for t
    by (auto simp: common_check_step_def result_simps)
  then have "try_fold common_check_step (ids, sts) (c # cs) = Ok (ids', sts') \<longleftrightarrow>
      check_evidence_validate c = Ok () \<and> ce_id c \<notin> set ids \<and>
      try_fold common_check_step
        (bs_insert (ce_id c) ids, if ce_required c then sts @ [ce_status c] else sts) cs = Ok (ids', sts')"
    by (simp add: result_simps)
  then show ?case by (auto simp: Cons.IH)
qed auto

lemma common_validate_iff:
  "common_validate r = Ok u \<longleftrightarrow>
     common_header_validate r = Ok () \<and> cm_checks r \<noteq> [] \<and>
     list_all (\<lambda>c. check_evidence_validate c = Ok ()) (cm_checks r) \<and> distinct (map ce_id (cm_checks r)) \<and>
     (\<exists>c\<in>set (cm_checks r). ce_required c) \<and>
     cm_overall_status r = derive_overall_status (map ce_status (filter ce_required (cm_checks r))) \<and>
     validate_incomplete_reason ''receipt.incomplete_reason'' (cm_overall_status r) (cm_incomplete_reason r) = Ok ()"
proof -
  have "(filter ce_required cs = []) = (\<not> (\<exists>c\<in>set cs. ce_required c))" for cs
    by (simp add: filter_empty_conv)
  then show ?thesis
    by (auto simp: common_validate_def result_simps common_check_fold Let_def split: if_splits)
qed

lemma check_evidence_validate_consistent:
  "check_evidence_validate c = Ok () \<Longrightarrow> consistent_result c"
  by (auto simp: check_evidence_validate_def result_simps split: if_splits)

text \<open>An accepted receipt is green exactly when every required check ran to exit code zero.\<close>

lemma common_validate_pass:
  assumes "common_validate r = Ok u"
  shows "cm_overall_status r = Pass \<longleftrightarrow>
    (\<forall>c\<in>set (cm_checks r). ce_required c \<longrightarrow>
       ce_status c = Pass \<and> ce_exit_code c = Some 0 \<and> \<not> ce_timed_out c \<and> \<not> ce_cancelled c)"
proof -
  have st: "cm_overall_status r = derive_overall_status (map ce_status (filter ce_required (cm_checks r)))"
    and valid: "\<forall>c\<in>set (cm_checks r). consistent_result c"
    using assms check_evidence_validate_consistent by (auto simp: common_validate_iff list_all_iff)
  have "cm_overall_status r = Pass \<longleftrightarrow> (\<forall>c\<in>set (cm_checks r). ce_required c \<longrightarrow> ce_status c = Pass)"
    unfolding st derive_overall_status_Pass by auto
  with valid show ?thesis by (auto simp: consistent_result_def)
qed

section \<open>Artifacts\<close>

definition acceptable_artifact ::
  "(string, normalized_artifact_contract) btree_map \<Rightarrow> artifact_evidence \<Rightarrow> bool" where
  "acceptable_artifact expected a \<longleftrightarrow>
     (case bt_get expected (ae_path a) of
        None \<Rightarrow> False
      | Some p \<Rightarrow>
          ae_kind a = na_kind p \<and> ae_producer_check a = na_producer_check p \<and>
          (ae_kind a = RegularFile \<longrightarrow> ae_entry_count a = 1) \<and>
          ae_entry_count a \<le> na_max_entries p \<and> ae_total_bytes a \<le> na_max_bytes p \<and>
          sha256_text (ae_manifest_digest a))"

interpretation manifest: unique_scan "artifact_step expected" ae_path "acceptable_artifact expected" for expected
  by unfold_locales
    (auto simp: artifact_step_def acceptable_artifact_def result_simps validate_sha256_iff
      not_less split: option.splits if_splits)

lemma expected_artifacts_eq:
  "expected_artifacts plan =
     bt_collect (map (\<lambda>a. (na_path a, a)) (concat (map nk_artifact_contracts (pl_checks plan))))"
proof -
  have inner: "fold (\<lambda>a. bt_insert (na_path a) a) as m =
      fold (\<lambda>(k, v). bt_insert k v) (map (\<lambda>a. (na_path a, a)) as) m" for as m
    by (simp add: fold_map o_def)
  have "fold (\<lambda>check expected. fold (\<lambda>a. bt_insert (na_path a) a) (nk_artifact_contracts check) expected) cs m =
      fold (\<lambda>(k, v). bt_insert k v) (map (\<lambda>a. (na_path a, a)) (concat (map nk_artifact_contracts cs))) m" for cs m
    by (induction cs arbitrary: m) (simp_all add: inner)
  then show ?thesis by (simp add: expected_artifacts_def bt_collect_def case_prod_unfold)
qed

lemma validate_artifact_manifest_iff:
  "validate_artifact_manifest r = Ok u \<longleftrightarrow>
     distinct (map ae_path (r2_artifact_manifest r)) \<and>
     list_all (acceptable_artifact (expected_artifacts (r2_execution_plan r))) (r2_artifact_manifest r) \<and>
     ae_path ` set (r2_artifact_manifest r) = fst ` set (expected_artifacts (r2_execution_plan r))"
  (is "?L \<longleftrightarrow> ?D \<and> ?A \<and> ?S")
proof -
  let ?e = "expected_artifacts (r2_execution_plan r)" and ?ps = "ae_path ` set (r2_artifact_manifest r)"
  have inv: "bt_inv ?e" by (simp add: expected_artifacts_eq)
  have len: "length ?e = card (fst ` set ?e)" using bt.length_entries [OF inv] bt.dom_get [OF inv] by simp
  have card_iff: "card A = card B \<and> (\<forall>p\<in>B. p \<in> A) \<longleftrightarrow> A = B" if "finite A" for A B :: "string set"
    using that card_subset_eq [of A B] subsetI [of B A] by auto
  have "card ?ps = length ?e \<and> (\<forall>p\<in>fst ` set ?e. p \<in> ?ps) \<longleftrightarrow> ?ps = fst ` set ?e"
    unfolding len by (rule card_iff) simp
  then show ?thesis
    by (auto simp: validate_artifact_manifest_def Let_def result_simps manifest.scan_empty list_ex_iff bt_keys_def)
qed

lemma expected_artifacts_paths:
  "fst ` set (expected_artifacts plan) = na_path ` set (concat (map nk_artifact_contracts (pl_checks plan)))"
proof -
  have "fst ` set (bt_collect (map (\<lambda>a. (na_path a, a)) as)) = na_path ` set as" for as
  proof -
    have "dom (map_of (bt_collect (map (\<lambda>a. (na_path a, a)) as))) = na_path ` set as"
      by (simp add: map_of_bt_collect dom_map_of_conv_image_fst image_image)
    then show ?thesis by (simp add: dom_map_of_conv_image_fst)
  qed
  then show ?thesis by (simp only: expected_artifacts_eq)
qed

lemma acceptable_artifact_planned:
  assumes "acceptable_artifact (expected_artifacts plan) a"
  shows "\<exists>p\<in>set (concat (map nk_artifact_contracts (pl_checks plan))).
    ae_path a = na_path p \<and> ae_kind a = na_kind p \<and> ae_producer_check a = na_producer_check p \<and>
    ae_entry_count a \<le> na_max_entries p \<and> ae_total_bytes a \<le> na_max_bytes p"
proof -
  from assms obtain p where p: "map_of (expected_artifacts plan) (ae_path a) = Some p"
    "ae_kind a = na_kind p" "ae_producer_check a = na_producer_check p"
    "ae_entry_count a \<le> na_max_entries p" "ae_total_bytes a \<le> na_max_bytes p"
    by (auto simp: acceptable_artifact_def split: option.splits)
  from map_of_SomeD [OF p(1)] have "(ae_path a, p) \<in> set (map (\<lambda>a. (na_path a, a))
      (concat (map nk_artifact_contracts (pl_checks plan))))"
    unfolding expected_artifacts_eq by (rule set_bt_collect)
  then have "p \<in> set (concat (map nk_artifact_contracts (pl_checks plan)))" "ae_path a = na_path p" by auto
  with p show ?thesis by blast
qed

section \<open>Evidence and plan\<close>

lemma planned_check_validate_iff:
  "planned_check_validate cs p = Ok u \<longleftrightarrow>
     (\<exists>c. find (\<lambda>c. ce_id c = nk_id p) cs = Some c \<and> ce_required c = nk_required p \<and>
        ce_argv c = nk_argv p \<and> ce_working_directory c = nk_working_directory p)"
  by (auto simp: planned_check_validate_def result_simps)

lemma receipt_v2_validate_iff:
  "receipt_v2_validate cx r = Ok u \<longleftrightarrow>
     common_validate (common_of_v2 r) = Ok () \<and> source_snapshot_validate (r2_source_snapshot r) = Ok () \<and>
     canonical_digest cx (plan_to_value (r2_execution_plan r)) = Ok (r2_configuration_digest r) \<and>
     validate_runtime_capability_evidence r = Ok () \<and>
     length (pl_checks (r2_execution_plan r)) = length (r2_checks r) \<and>
     (\<forall>p\<in>set (pl_checks (r2_execution_plan r)). planned_check_validate (r2_checks r) p = Ok ()) \<and>
     validate_artifact_manifest r = Ok ()"
  by (auto simp: receipt_v2_validate_def result_simps split: if_splits)

lemma distinct_subset_mset:
  assumes d: "distinct xs" and len: "length xs = length ys" and sub: "set xs \<subseteq> set ys"
  shows "mset ys = mset xs"
proof -
  have "card (set ys) \<le> card (set xs)" using card_length [of ys] len distinct_card [OF d] by simp
  with sub have eq: "set xs = set ys" by (simp add: card_seteq)
  with len distinct_card [OF d] have "distinct ys" by (simp add: card_distinct)
  with d eq show ?thesis by (simp add: set_eq_iff_mset_eq_distinct)
qed

text \<open>With distinct planned ids, the evidence is the plan's checks in some order, nothing more.\<close>

lemma evidence_matches_plan:
  assumes len: "length ps = length cs" and d: "distinct (map nk_id ps)"
    and ok: "\<forall>p\<in>set ps. planned_check_validate cs p = Ok ()"
  shows "mset (map (\<lambda>c. (ce_id c, ce_required c, ce_argv c, ce_working_directory c)) cs) =
    mset (map (\<lambda>p. (nk_id p, nk_required p, nk_argv p, nk_working_directory p)) ps)"
    (is "mset (map ?c cs) = mset (map ?p ps)")
proof -
  have sub: "?p ` set ps \<subseteq> ?c ` set cs"
  proof
    fix x assume "x \<in> ?p ` set ps"
    then obtain p where p: "p \<in> set ps" "x = ?p p" by blast
    with ok obtain c where c: "find (\<lambda>c. ce_id c = nk_id p) cs = Some c" "ce_required c = nk_required p"
      "ce_argv c = nk_argv p" "ce_working_directory c = nk_working_directory p"
      by (auto simp: planned_check_validate_iff)
    from c(1) have "c \<in> set cs" "ce_id c = nk_id p" by (auto simp: find_Some_iff)
    with c p(2) show "x \<in> ?c ` set cs" by (intro image_eqI [of _ _ c]) auto
  qed
  have dp: "distinct (map ?p ps)" using d by (auto simp: distinct_map inj_on_def)
  show ?thesis by (rule distinct_subset_mset [OF dp]) (use len sub in auto)
qed

section \<open>Sealed envelopes\<close>

text \<open>
  The interface of a sealed document: a payload with a validator and an injective JSON value in
  normal form, an envelope that pairs it with its digest, and the laws of \<open>seal\<close> and \<open>verify\<close>.
\<close>

locale sealed_envelope =
  fixes validate :: "codec \<Rightarrow> 'r \<Rightarrow> (receipt_error, unit) result"
    and to_value :: "'r \<Rightarrow> json"
    and pack :: "string \<Rightarrow> 'r \<Rightarrow> 'e"
    and ident :: "'e \<Rightarrow> string"
    and payload :: "'e \<Rightarrow> 'r"
    and seal :: "codec \<Rightarrow> 'r \<Rightarrow> (receipt_error, 'e) result"
    and verify :: "codec \<Rightarrow> 'e \<Rightarrow> (receipt_error, unit) result"
  assumes seal_law: "seal cx r = Ok e \<longleftrightarrow>
      validate cx r = Ok () \<and> (\<exists>d. canonical_digest cx (to_value r) = Ok d \<and> e = pack d r)"
    and verify_law: "verify cx e = Ok () \<longleftrightarrow>
      validate cx (payload e) = Ok () \<and> canonical_digest cx (to_value (payload e)) = Ok (ident e)"
    and pack_laws: "ident (pack d r) = d" "payload (pack d r) = r" "pack (ident e) (payload e) = e"
    and value_inj: "to_value r = to_value s \<longleftrightarrow> r = s"
    and value_wf: "json_wf (to_value r)"
begin

lemma verify_iff_seal: "verify cx e = Ok () \<longleftrightarrow> seal cx (payload e) = Ok e"
  unfolding verify_law seal_law by (metis pack_laws)

lemma seal_payload: "seal cx r = Ok e \<Longrightarrow> payload e = r"
  by (auto simp: seal_law pack_laws)

lemma seal_verifies: "seal cx r = Ok e \<Longrightarrow> verify cx e = Ok ()"
  using seal_payload verify_iff_seal by metis

lemma same_ident_same_payload:
  assumes "verify cx e = Ok ()" and "verify cx f = Ok ()" and "ident e = ident f" and "injective_writer cx"
  shows "e = f \<or> digest_collision cx (to_value (payload e)) (to_value (payload f))"
proof -
  from assms(1-3) have "canonical_digest cx (to_value (payload e)) = Ok (ident f)"
    "canonical_digest cx (to_value (payload f)) = Ok (ident f)" by (simp_all add: verify_law)
  from canonical_digest_binding [OF this assms(4)]
  have "payload e = payload f \<or> digest_collision cx (to_value (payload e)) (to_value (payload f))"
    by (simp add: normalize_json_id value_wf value_inj)
  with assms(3) show ?thesis by (metis pack_laws(3))
qed

end

interpretation v1: sealed_envelope "\<lambda>_. receipt_v1_validate" receipt_v1_to_value
  "\<lambda>d r. \<lparr>e1_receipt_id = d, e1_receipt = r\<rparr>" e1_receipt_id e1_receipt seal_v1 verify_v1
  by unfold_locales
    (auto simp: seal_v1_def verify_v1_def result_simps receipt_v1_to_value_eq receipt_v1_to_value_wf)

interpretation v2: sealed_envelope receipt_v2_validate receipt_v2_to_value
  "\<lambda>d r. \<lparr>e2_receipt_id = d, e2_receipt = r\<rparr>" e2_receipt_id e2_receipt seal_v2 verify_v2
  by unfold_locales
    (auto simp: seal_v2_def verify_v2_def result_simps receipt_v2_to_value_eq receipt_v2_to_value_wf)

end
