(* ===== verification/Verify_Correct.thy ===== *)
theory Verify_Correct
  imports Verify Receipt_Correct
begin

text \<open>
  What a verification verdict means: the exact acceptance condition of a policy, the soundness of
  the recursive plan comparison, and the conditions under which a report says PASS.
\<close>

section \<open>Policies\<close>

lemma validate_name_iff: "validate_name field v = Ok u \<longleftrightarrow> length v \<le> 128 \<and> valid_name v"
  by (auto simp: validate_name_def)

interpretation required_checks: unique_scan required_check_step "\<lambda>c. c" "\<lambda>c. length c \<le> 128 \<and> valid_name c"
  by unfold_locales (auto simp: required_check_step_def result_simps validate_name_iff)

interpretation platforms: unique_scan platform_step platform_key
  "\<lambda>p. \<forall>s\<in>{ap_host_os p, ap_host_arch p, ap_runtime_kind p}. length s \<le> 128 \<and> valid_name s"
  by unfold_locales (auto simp: platform_step_def result_simps validate_name_iff)

interpretation supported: unique_scan supported_step producer_key "\<lambda>p. validate_producer_contract p = Ok ()"
  by unfold_locales (auto simp: supported_step_def result_simps)

interpretation revoked: unique_scan "revoked_step s" producer_key
  "\<lambda>p. validate_producer_contract p = Ok () \<and> producer_key p \<notin> set s" for s
  by unfold_locales (auto simp: revoked_step_def result_simps)

text \<open>A valid policy bounds the age, so the signed reading of the limit is the limit.\<close>

lemma policy_v1_validate_facts:
  assumes "policy_v1_validate p = Ok u"
  shows "vp_required_checks p \<noteq> []" "distinct (vp_required_checks p)" "distinct (map platform_key (vp_platforms p))"
    "sint (vp_max_age_seconds p) = int (unat (vp_max_age_seconds p))"
    "1 \<le> unat (vp_max_age_seconds p)" "unat (vp_max_age_seconds p) \<le> 31536000"
proof -
  from assms have r: "1 \<le> vp_max_age_seconds p" "vp_max_age_seconds p \<le> MAX_FRESHNESS_SECONDS"
    "vp_required_checks p \<noteq> []" "is_ok (try_fold required_check_step [] (vp_required_checks p))"
    "is_ok (try_fold platform_step [] (vp_platforms p))"
    by (auto simp: policy_v1_validate_def result_simps)
  from r(4,5) show "distinct (vp_required_checks p)" "distinct (map platform_key (vp_platforms p))"
    by (auto simp: is_ok_iff required_checks.scan_empty platforms.scan_empty)
  show "vp_required_checks p \<noteq> []" by (fact r(3))
  show ge: "1 \<le> unat (vp_max_age_seconds p)" and le: "unat (vp_max_age_seconds p) \<le> 31536000"
    using r(1,2) by (simp_all add: word_le_nat_alt MAX_FRESHNESS_SECONDS_def)
  from le have "int (unat (vp_max_age_seconds p)) \<le> 31536000" by linarith
  then have "uint (vp_max_age_seconds p) < 2 ^ 63" by simp
  moreover have "- (2 ^ 63) \<le> uint (vp_max_age_seconds p)"
    using unsigned_greater_eq [of "vp_max_age_seconds p", where 'a = int] by (rule order_trans [rotated]) simp
  ultimately have "sint (vp_max_age_seconds p) = uint (vp_max_age_seconds p)"
    by (simp add: sint_uint signed_take_bit_int_eq_self)
  then show "sint (vp_max_age_seconds p) = int (unat (vp_max_age_seconds p))" by simp
qed

text \<open>Supported and revoked producers are disjoint.\<close>

lemma policy_v1_1_validate_producers:
  assumes "policy_v1_1_validate p = Ok u"
  shows "producer_key ` set (vt_supported_producers p) \<inter> producer_key ` set (vt_revoked_producers p) = {}"
proof -
  from assms obtain s t where s: "try_fold supported_step [] (vt_supported_producers p) = Ok s"
    and t: "try_fold (revoked_step s) [] (vt_revoked_producers p) = Ok t"
    by (auto simp: policy_v1_1_validate_def result_simps)
  from s have "set s = producer_key ` set (vt_supported_producers p)" by (simp add: supported.scan_empty)
  with t show ?thesis by (auto simp: revoked.scan_empty list_all_iff)
qed

section \<open>Policy evaluation\<close>

definition policy_satisfied ::
  "receipt_policy_view \<Rightarrow> verification_policy_v1 \<Rightarrow> string \<Rightarrow> int \<Rightarrow> bool" where
  "policy_satisfied v p commit now \<longleftrightarrow>
     re_repository (pv_repository v) = vp_project p \<and>
     re_commit_sha (pv_repository v) = commit \<and>
     \<not> re_dirty (pv_repository v) \<and>
     pv_configuration_digest v = vp_configuration_digest p \<and>
     pf_image_reference (pv_platform v) = vp_image_reference p \<and>
     (pf_host_os (pv_platform v), pf_host_arch (pv_platform v), pf_runtime_kind (pv_platform v))
       \<in> platform_key ` set (vp_platforms p) \<and>
     pv_overall_status v = Pass \<and>
     ce_id ` set (filter ce_required (pv_checks v)) = set (vp_required_checks p) \<and>
     (\<forall>c\<in>set (pv_checks v). ce_id c \<in> set (vp_required_checks p) \<longrightarrow> ce_status c = Pass) \<and>
     (\<exists>finished. parse_utc_seconds (ru_finished_at_utc (pv_run v)) = Some finished \<and>
        finished \<le> now \<and> now - finished \<le> sint (vp_max_age_seconds p))"

lemma findings_Nil_iff:
  "check_equal a e code field msg fs = [] \<longleftrightarrow> a = e \<and> fs = []"
  "push_if c f fs = [] \<longleftrightarrow> \<not> c \<and> fs = []"
  "freshness_findings t now age fs = [] \<longleftrightarrow>
     (\<exists>finished. parse_utc_seconds t = Some finished \<and> finished \<le> now \<and> now - finished \<le> sint age) \<and> fs = []"
  by (auto simp: check_equal_def push_if_def freshness_findings_def split: option.splits)

lemma bs_collect_eq_iff: "bs_collect xs = bs_collect ys \<longleftrightarrow> set xs = set ys"
  by (metis bs_collect_eq set_bs_collect)

lemma evaluate_policy_Nil_iff:
  "evaluate_policy v p commit now [] = [] \<longleftrightarrow> policy_satisfied v p commit now"
proof -
  have platform: "list_ex (\<lambda>a. ap_host_os a = x \<and> ap_host_arch a = y \<and> ap_runtime_kind a = z) ps \<longleftrightarrow>
      (x, y, z) \<in> platform_key ` set ps" for x y z ps
    by (auto simp: list_ex_iff platform_key_def image_iff)
  show ?thesis
    unfolding evaluate_policy_def Let_def findings_Nil_iff policy_satisfied_def platform bs_collect_eq_iff
    by (auto simp: list_ex_iff)
qed

section \<open>Reports\<close>

lemma decide_pass_iff:
  "vr_decision (decide r) = DecisionPass \<longleftrightarrow>
     vr_findings r = [] \<and> vr_integrity_status r = StatusPass \<and> vr_policy_status r = StatusPass"
  by (auto simp: decide_def Let_def)

lemma decide_keeps:
  "vr_findings (decide r) = vr_findings r" "vr_integrity_status (decide r) = vr_integrity_status r"
  "vr_receipt_id (decide r) = vr_receipt_id r"
  by (auto simp: decide_def Let_def)

text \<open>All outcomes of verification on a valid policy and valid arguments.\<close>

lemma verify_receipt_document_cases:
  assumes "verify_receipt_document cx ps bytes policy commit now_utc = Ok r"
  obtains (rejected) f where "r = push_finding (initial_report commit now_utc) f"
    "\<And>envelope. read_receipt ps bytes = Ok envelope \<Longrightarrow> verified_verify cx envelope \<noteq> Ok ()"
  | (evaluated) envelope now where "read_receipt ps bytes = Ok envelope" "verified_verify cx envelope = Ok ()"
    "parse_utc_seconds now_utc = Some now" "policy_v1_validate policy = Ok ()" "validate_commit commit = Ok ()"
    "r = decide ((initial_report commit now_utc)\<lparr>vr_receipt_id := Some (verified_receipt_id envelope),
       vr_integrity_status := StatusPass, vr_policy_status := StatusPass,
       vr_findings := evaluate_policy (verified_view envelope) policy commit now []\<rparr>)"
proof -
  from assms obtain now where p: "policy_v1_validate policy = Ok ()" "validate_commit commit = Ok ()"
    "parse_utc_seconds now_utc = Some now"
    by (auto simp: verify_receipt_document_def result_simps)
  show thesis
  proof (cases "read_receipt ps bytes")
    case (Inl f)
    with assms p show thesis
      by (intro rejected [of f]) (simp_all add: verify_receipt_document_def Let_def)
  next
    case (Inr envelope)
    show thesis
    proof (cases "verified_verify cx envelope")
      case (Inl e)
      with assms p Inr show thesis
        by (intro rejected [of "receipt_error_finding e"]) (simp_all add: verify_receipt_document_def Let_def)
    next
      case v: (Inr u)
      with assms p Inr show thesis
        by (intro evaluated [of envelope now])
          (simp_all add: verify_receipt_document_def Let_def initial_report_def)
    qed
  qed
qed

lemma verify_receipt_document_pass_iff:
  assumes r: "verify_receipt_document cx ps bytes policy commit now_utc = Ok r"
  shows "vr_decision r = DecisionPass \<longleftrightarrow>
    (\<exists>envelope now. read_receipt ps bytes = Ok envelope \<and> verified_verify cx envelope = Ok () \<and>
       parse_utc_seconds now_utc = Some now \<and> policy_satisfied (verified_view envelope) policy commit now)"
  using r
proof (cases rule: verify_receipt_document_cases)
  case (rejected f)
  have "vr_decision r \<noteq> DecisionPass" by (simp add: rejected(1) push_finding_def initial_report_def)
  with rejected(2) show ?thesis by blast
next
  case (evaluated envelope now)
  then show ?thesis by (auto simp: decide_pass_iff evaluate_policy_Nil_iff)
qed

section \<open>Plan comparison\<close>

text \<open>A loop whose body only appends, and one item of which is known to append.\<close>

lemma break_fold_extends:
  assumes "\<And>x s. x \<in> set xs \<Longrightarrow> \<exists>ys. f x s = s @ ys"
  shows "\<exists>ys. break_fold stop f xs s = s @ ys"
  using assms
proof (induction xs arbitrary: s)
  case (Cons x xs)
  obtain ys where ys: "f x s = s @ ys" using Cons.prems by fastforce
  obtain zs where "break_fold stop f xs (s @ ys) = (s @ ys) @ zs" using Cons by fastforce
  with ys show ?case by (auto simp: Let_def)
qed simp

lemma break_fold_grows:
  assumes ext: "\<And>x s. x \<in> set xs \<Longrightarrow> \<exists>ys. f x s = s @ ys"
    and x: "x \<in> set xs" and grow: "\<And>s. length s < n \<Longrightarrow> length s < length (f x s)" and s: "length s < n"
  shows "length s < length (break_fold (\<lambda>s. n \<le> length s) f xs s)"
  using ext x s
proof (induction xs arbitrary: s)
  case (Cons z zs)
  obtain ys where ys: "f z s = s @ ys" using Cons.prems(1) by fastforce
  have ext': "\<exists>ys. break_fold (\<lambda>s. n \<le> length s) f zs s' = s' @ ys" for s'
    using Cons.prems(1) by (intro break_fold_extends) auto
  show ?case
  proof (cases "n \<le> length (s @ ys)")
    case True
    with ys Cons.prems(3) show ?thesis by (auto simp: Let_def)
  next
    case False
    show ?thesis
    proof (cases "z = x")
      case True
      with grow [OF Cons.prems(3)] ys False ext' [of "s @ ys"] show ?thesis by (auto simp: Let_def)
    next
      case zx: False
      with Cons.prems False have "length (s @ ys) < length (break_fold (\<lambda>s. n \<le> length s) f zs (s @ ys))"
        by (intro Cons.IH) auto
      with ys False show ?thesis by (simp add: Let_def)
    qed
  qed
qed simp

lemma push_plan_finding_extends: "\<exists>ys. push_plan_finding path fs = fs @ ys"
  by (simp add: push_plan_finding_def)

lemma push_plan_finding_grows:
  "length fs < MAX_PLAN_FINDINGS \<Longrightarrow> length fs < length (push_plan_finding path fs)"
  by (simp add: push_plan_finding_def)

definition child_step ::
  "json option \<Rightarrow> json option \<Rightarrow> string \<Rightarrow> verification_finding_v1 list \<Rightarrow> verification_finding_v1 list" where
  "child_step t r path fs =
     (case t of
        Some t \<Rightarrow> (case r of Some r \<Rightarrow> compare_plan_value t r path fs | None \<Rightarrow> push_plan_finding path fs)
      | None \<Rightarrow> push_plan_finding path fs)"

lemma compare_plan_value_eq:
  "compare_plan_value trusted receipt path findings =
     (if MAX_PLAN_FINDINGS \<le> length findings \<or> trusted = receipt then findings
      else case (trusted, receipt) of
        (JObject ts, JObject rs) \<Rightarrow>
          break_fold (\<lambda>fs. MAX_PLAN_FINDINGS \<le> length fs)
            (\<lambda>key. child_step (bt_get ts key) (bt_get rs key) (path @ ''/'' @ escape_json_pointer key))
            (bs_collect (bt_keys ts @ bt_keys rs)) findings
      | (JArray ts, JArray rs) \<Rightarrow>
          break_fold (\<lambda>fs. MAX_PLAN_FINDINGS \<le> length fs)
            (\<lambda>index. child_step (nth_option ts index) (nth_option rs index) (path @ ''/'' @ show_nat index))
            [0..<max (length ts) (length rs)] findings
      | _ \<Rightarrow> push_plan_finding path findings)"
  unfolding child_step_def Let_def compare_plan_value.simps [of trusted receipt path findings] by (rule refl)

lemma compare_extends: "\<exists>ys. compare_plan_value t r path fs = fs @ ys"
proof (induction t arbitrary: r path fs rule: measure_induct_rule [of size])
  case (less t)
  have step: "\<exists>ys. child_step t' r' p s = s @ ys" if "\<And>v. t' = Some v \<Longrightarrow> size v < size t" for t' r' p s
    using less.IH that push_plan_finding_extends by (auto simp: child_step_def split: option.splits)
  show ?case
    unfolding compare_plan_value_eq [of t]
    by (auto split: json.splits simp del: bt_get_map_of json.size
        intro!: push_plan_finding_extends break_fold_extends step dest: json_child_size)
qed

text \<open>Two different ordered objects differ at a key, two different arrays at an index.\<close>

lemma object_difference:
  assumes "json_wf (JObject ts)" "json_wf (JObject rs)" "ts \<noteq> rs"
  obtains k where "k \<in> set (bs_collect (bt_keys ts @ bt_keys rs))" "bt_get ts k \<noteq> bt_get rs k"
proof -
  have inv: "bt_inv ts" "bt_inv rs" using assms by simp_all
  with assms(3) bt.entries_unique [of ts rs] obtain k where k: "bt_get ts k \<noteq> bt_get rs k" by auto
  have "fst ` set ts = dom (bt_get ts)" "fst ` set rs = dom (bt_get rs)"
    by (simp_all add: dom_map_of_conv_image_fst)
  with k have "k \<in> fst ` set ts \<union> fst ` set rs" by (auto simp: domIff)
  with that k show thesis by (simp add: bt_keys_def)
qed

lemma array_difference:
  assumes "ts \<noteq> rs"
  obtains i where "i < max (length ts) (length rs)" "nth_option ts i \<noteq> nth_option rs i"
proof (cases "length ts = length rs")
  case True
  with assms obtain i where "i < length ts" "ts ! i \<noteq> rs ! i" by (auto simp: list_eq_iff_nth_eq)
  with True that [of i] show thesis by (simp add: nth_option_def)
next
  case False
  with that [of "min (length ts) (length rs)"] show thesis by (auto simp: nth_option_def min_def max_def)
qed

lemma json_wf_child:
  "json_wf (JObject kvs) \<Longrightarrow> bt_get kvs k = Some v \<Longrightarrow> json_wf v"
  "json_wf (JArray xs) \<Longrightarrow> nth_option xs i = Some v \<Longrightarrow> json_wf v"
  by (auto simp: list_all_iff nth_option_def dest!: map_of_SomeD split: if_splits)

lemma compare_detects:
  assumes "json_wf t" "json_wf r" "t \<noteq> r" "length fs < MAX_PLAN_FINDINGS"
  shows "length fs < length (compare_plan_value t r path fs)"
  using assms
proof (induction t arbitrary: r path fs rule: measure_induct_rule [of size])
  case (less t)
  have step: "length s < length (child_step t' r' p s)"
    if "t' \<noteq> r'" "length s < MAX_PLAN_FINDINGS" "\<And>v. t' = Some v \<Longrightarrow> size v < size t \<and> json_wf v"
      "\<And>v. r' = Some v \<Longrightarrow> json_wf v" for t' r' p s
  proof (cases "\<exists>a b. t' = Some a \<and> r' = Some b")
    case True
    then obtain a b where ab: "t' = Some a" "r' = Some b" by blast
    with that have "length s < length (compare_plan_value a b p s)" by (intro less.IH) auto
    with ab show ?thesis by (simp add: child_step_def)
  next
    case False
    with that(2) push_plan_finding_grows show ?thesis by (auto simp: child_step_def split: option.splits)
  qed
  have ext: "\<exists>ys. child_step t' r' p s = s @ ys" for t' r' p s
    using compare_extends push_plan_finding_extends by (auto simp: child_step_def split: option.splits)
  consider (object) ts rs where "t = JObject ts" "r = JObject rs" | (array) ts rs where "t = JArray ts" "r = JArray rs"
    | (other) "compare_plan_value t r path fs = push_plan_finding path fs"
    using less.prems(3,4) by (cases t; cases r) (auto simp: compare_plan_value_eq)
  then show ?case
  proof cases
    case object
    with less.prems object_difference [of ts rs] obtain k where
      k: "k \<in> set (bs_collect (bt_keys ts @ bt_keys rs))" "bt_get ts k \<noteq> bt_get rs k" by blast
    have "length fs < length (break_fold (\<lambda>fs. MAX_PLAN_FINDINGS \<le> length fs)
        (\<lambda>key. child_step (bt_get ts key) (bt_get rs key) (path @ ''/'' @ escape_json_pointer key))
        (bs_collect (bt_keys ts @ bt_keys rs)) fs)"
    proof (rule break_fold_grows [OF _ k(1) _ less.prems(4)])
      fix s :: "verification_finding_v1 list" assume "length s < MAX_PLAN_FINDINGS"
      then show "length s < length (child_step (bt_get ts k) (bt_get rs k) (path @ ''/'' @ escape_json_pointer k) s)"
        using object less.prems json_wf_child(1) json_child_size(1) by (intro step [OF k(2)]) blast+
    qed (rule ext)
    then show ?thesis using object less.prems by (simp add: compare_plan_value_eq)
  next
    case array
    with less.prems array_difference [of ts rs] obtain i where
      i: "i < max (length ts) (length rs)" "nth_option ts i \<noteq> nth_option rs i" by blast
    then have mem: "i \<in> set [0..<max (length ts) (length rs)]" by simp
    have "length fs < length (break_fold (\<lambda>fs. MAX_PLAN_FINDINGS \<le> length fs)
        (\<lambda>index. child_step (nth_option ts index) (nth_option rs index) (path @ ''/'' @ show_nat index))
        [0..<max (length ts) (length rs)] fs)"
    proof (rule break_fold_grows [OF _ mem _ less.prems(4)])
      fix s :: "verification_finding_v1 list" assume "length s < MAX_PLAN_FINDINGS"
      then show "length s < length (child_step (nth_option ts i) (nth_option rs i) (path @ ''/'' @ show_nat i) s)"
        using array less.prems json_wf_child(2) json_child_size(2) by (intro step [OF i(2)]) blast+
    qed (rule ext)
    then show ?thesis using array less.prems by (simp add: compare_plan_value_eq)
  next
    case other
    with less.prems push_plan_finding_grows show ?thesis by simp
  qed
qed

text \<open>The report stays within its bound.\<close>

lemma break_fold_bounded:
  assumes "\<And>x s. x \<in> set xs \<Longrightarrow> length s \<le> n \<Longrightarrow> length (f x s) \<le> n" and "length s \<le> n"
  shows "length (break_fold stop f xs s) \<le> n"
  using assms by (induction xs arbitrary: s) (auto simp: Let_def)

lemma compare_bounded:
  "length fs \<le> MAX_PLAN_FINDINGS \<Longrightarrow> length (compare_plan_value t r path fs) \<le> MAX_PLAN_FINDINGS"
proof (induction t arbitrary: r path fs rule: measure_induct_rule [of size])
  case (less t)
  have push: "length (push_plan_finding p s) \<le> MAX_PLAN_FINDINGS" if "length s \<le> MAX_PLAN_FINDINGS" for p s
    using that by (simp add: push_plan_finding_def)
  have step: "length (child_step t' r' p s) \<le> MAX_PLAN_FINDINGS"
    if "\<And>v. t' = Some v \<Longrightarrow> size v < size t" "length s \<le> MAX_PLAN_FINDINGS" for t' r' p s
    using less.IH that push by (auto simp: child_step_def split: option.splits)
  show ?case
    unfolding compare_plan_value_eq [of t] using less.prems
    by (auto split: json.splits simp del: bt_get_map_of json.size
        intro!: push break_fold_bounded step dest: json_child_size)
qed

lemma compare_execution_plan_Nil_iff:
  "compare_execution_plan trusted receipt fs = [] \<longleftrightarrow> fs = [] \<and> trusted = receipt"
proof
  assume nil: "compare_execution_plan trusted receipt fs = []"
  then have "fs = []"
    using compare_extends [of "plan_to_value trusted" "plan_to_value receipt" "[]" fs]
    by (auto simp: compare_execution_plan_def)
  moreover have "plan_to_value trusted = plan_to_value receipt"
  proof (rule ccontr)
    assume "plan_to_value trusted \<noteq> plan_to_value receipt"
    from compare_detects [OF plan_to_value_wf plan_to_value_wf this, of "[]" "[]"] nil \<open>fs = []\<close> show False
      by (simp add: compare_execution_plan_def MAX_PLAN_FINDINGS_def)
  qed
  ultimately show "fs = [] \<and> trusted = receipt" by (simp add: plan_to_value_eq)
next
  assume "fs = [] \<and> trusted = receipt"
  then show "compare_execution_plan trusted receipt fs = []"
    by (simp add: compare_execution_plan_def compare_plan_value_eq)
qed

section \<open>Trusted plans\<close>

lemma producer_findings_Nil_iff:
  "producer_findings policy producer fs = [] \<longleftrightarrow> fs = [] \<and>
     (pr_name producer, pr_version producer) \<in> producer_key ` set (vt_supported_producers policy) \<and>
     (pr_name producer, pr_version producer) \<notin> producer_key ` set (vt_revoked_producers policy)"
proof -
  have "list_ex (\<lambda>c. producer_key c = k) cs \<longleftrightarrow> k \<in> producer_key ` set cs" for k cs
    by (auto simp: list_ex_iff)
  then show ?thesis by (simp add: producer_findings_def)
qed

lemma push_finding_findings [simp]:
  "vr_findings (push_finding r f) = vr_findings r @ [f]"
  "vr_integrity_status (push_finding r f) = vr_integrity_status r"
  "vr_policy_status (push_finding r f) = vr_policy_status r"
  by (simp_all add: push_finding_def)

lemma verify_trusted_pass:
  assumes r: "verify_trusted_plan_receipt_document cx ps bytes policy trusted commit now_utc = Ok r"
    and pass: "vr_decision r = DecisionPass"
  obtains receipt r0 where "v2_from_slice ps bytes = Ok receipt"
    "verify_receipt_document cx ps bytes (baseline policy) commit now_utc = Ok r0" "vr_decision r0 = DecisionPass"
    "pe_plan_digest trusted = vt_configuration_digest policy"
    "r2_execution_plan (e2_receipt receipt) = pe_plan trusted"
    "ss_strategy (r2_source_snapshot (e2_receipt receipt)) = vt_source_snapshot_strategy policy"
    "(pr_name (r2_producer (e2_receipt receipt)), pr_version (r2_producer (e2_receipt receipt)))
       \<in> producer_key ` set (vt_supported_producers policy) - producer_key ` set (vt_revoked_producers policy)"
proof -
  from r obtain r0 where r0: "verify_receipt_document cx ps bytes (baseline policy) commit now_utc = Ok r0"
    by (auto simp: verify_trusted_plan_receipt_document_def result_simps)
  have integrity: "vr_integrity_status r0 = StatusPass"
  proof (rule ccontr)
    assume n: "vr_integrity_status r0 \<noteq> StatusPass"
    with r r0 have "vr_decision r = vr_decision r0"
      by (auto simp: verify_trusted_plan_receipt_document_def Let_def)
    with n r0 pass show False
      by (cases rule: verify_receipt_document_cases [OF r0])
        (auto simp: push_finding_def initial_report_def decide_keeps)
  qed
  obtain receipt where receipt: "v2_from_slice ps bytes = Ok receipt"
    using r r0 integrity pass
    by (cases "v2_from_slice ps bytes")
      (auto simp: verify_trusted_plan_receipt_document_def Let_def decide_pass_iff)
  have f: "vr_findings r0 = [] \<and> vr_policy_status r0 = StatusPass \<and>
      pe_plan_digest trusted = vt_configuration_digest policy \<and>
      r2_execution_plan (e2_receipt receipt) = pe_plan trusted \<and>
      ss_strategy (r2_source_snapshot (e2_receipt receipt)) = vt_source_snapshot_strategy policy \<and>
      (pr_name (r2_producer (e2_receipt receipt)), pr_version (r2_producer (e2_receipt receipt)))
       \<in> producer_key ` set (vt_supported_producers policy) - producer_key ` set (vt_revoked_producers policy)"
    using r r0 integrity pass receipt
    by (auto simp: verify_trusted_plan_receipt_document_def Let_def decide_pass_iff producer_findings_Nil_iff
        findings_Nil_iff compare_execution_plan_Nil_iff split: if_splits)
  have "vr_decision r0 = DecisionPass"
    using f integrity by (cases rule: verify_receipt_document_cases [OF r0])
      (auto simp: push_finding_def initial_report_def decide_keeps decide_pass_iff)
  with that receipt r0 f show thesis by blast
qed

end
