(* ===== verification/Receipt_Props.thy ===== *)
theory Receipt_Props
  imports Samples_Receipt Verify_Correct
begin

text \<open>
  The correctness properties of receipts, timestamps and verification (\<^verbatim>\<open>src/src/receipt.rs\<close>,
  \<^verbatim>\<open>src/src/verify.rs\<close>).
\<close>

lemma sample_report_ok:
  "verify_receipt_document sample_codec sample_parsers ''doc'' (baseline sample_policy) sample_commit sample_now =
     Ok sample_report"
  and sample_report_pass: "vr_decision sample_report = DecisionPass"
  by (rule verify_trusted_pass [OF sample_trusted_report_ok sample_trusted_report_pass];
      simp add: sample_report_def)+

section \<open>Sealing\<close>

text \<open>
  C12. Sealing and verification are inverse to each other for both receipt versions: an envelope
  verifies exactly when it is what sealing its own payload produces.
\<close>

theorem receipt_verify_iff_seal:
  "(verify_v1 cx e = Ok () \<longleftrightarrow> seal_v1 cx (e1_receipt e) = Ok e) \<and>
   (verify_v2 cx f = Ok () \<longleftrightarrow> seal_v2 cx (e2_receipt f) = Ok f)"
  using v1.verify_iff_seal v2.verify_iff_seal by blast

text \<open>
  C13. A receipt identifier binds the whole receipt: two version 2 envelopes that both verify and
  carry the same identifier are equal, or their canonical texts are an explicit SHA-256 collision.
\<close>

theorem receipt_id_binds:
  assumes "verify_v2 cx e = Ok ()" and "verify_v2 cx f = Ok ()" and "e2_receipt_id e = e2_receipt_id f"
    and "injective_writer cx"
  shows "e = f \<or> digest_collision cx (receipt_v2_to_value (e2_receipt e)) (receipt_v2_to_value (e2_receipt f))"
  using assms by (rule v2.same_ident_same_payload)

theorem receipt_id_binds_witness:
  "verify_v2 writing_codec (sample_envelope writing_codec) = Ok () \<and> injective_writer writing_codec \<and>
   (sample_envelope writing_codec = sample_envelope writing_codec \<or>
    digest_collision writing_codec (receipt_v2_to_value (e2_receipt (sample_envelope writing_codec)))
      (receipt_v2_to_value (e2_receipt (sample_envelope writing_codec))))"
  using receipt_id_binds [OF v2.seal_verifies [OF writing_seal] v2.seal_verifies [OF writing_seal] refl
      writing_codec_injective] v2.seal_verifies [OF writing_seal] writing_codec_injective by blast

section \<open>What an accepted receipt states\<close>

text \<open>
  C14. A valid version 2 receipt is green exactly when every required check ran to completion with
  exit code zero, neither timed out nor cancelled; its run window is not reversed in time; and its
  configuration digest is the digest of the execution plan it embeds.
\<close>

theorem receipt_v2_meaning:
  assumes "receipt_v2_validate cx r = Ok ()"
  shows "(r2_overall_status r = Pass \<longleftrightarrow>
      (\<forall>c\<in>set (r2_checks r). ce_required c \<longrightarrow>
         ce_status c = Pass \<and> ce_exit_code c = Some 0 \<and> \<not> ce_timed_out c \<and> \<not> ce_cancelled c)) \<and>
    (\<exists>started finished. parse_utc_seconds (ru_started_at_utc (r2_run r)) = Some started \<and>
       parse_utc_seconds (ru_finished_at_utc (r2_run r)) = Some finished \<and> started \<le> finished) \<and>
    canonical_digest cx (plan_to_value (r2_execution_plan r)) = Ok (r2_configuration_digest r)"
proof -
  from assms have c: "common_validate (common_of_v2 r) = Ok ()"
    and d: "canonical_digest cx (plan_to_value (r2_execution_plan r)) = Ok (r2_configuration_digest r)"
    by (simp_all add: receipt_v2_validate_iff)
  from c have "common_header_validate (common_of_v2 r) = Ok ()" by (simp add: common_validate_iff)
  then have "require_timestamp ''run.started_at_utc'' (ru_started_at_utc (r2_run r)) = Ok ()"
    "require_timestamp ''run.finished_at_utc'' (ru_finished_at_utc (r2_run r)) = Ok ()"
    "\<not> ru_finished_at_utc (r2_run r) < ru_started_at_utc (r2_run r)"
    by (auto simp: common_header_validate_def common_of_v2_def result_simps)
  then obtain a b where ab: "parse_utc_seconds (ru_started_at_utc (r2_run r)) = Some a"
    "parse_utc_seconds (ru_finished_at_utc (r2_run r)) = Some b" "\<not> b < a"
    using timestamp_less_iff by (auto simp: require_timestamp_iff)
  then have "a \<le> b" by simp
  moreover note common_validate_pass [OF c]
  ultimately show ?thesis using ab d by (simp add: common_of_v2_def)
qed

theorem receipt_v2_meaning_witness:
  "receipt_v2_validate sample_codec (sample_receipt sample_codec) = Ok () \<and>
   canonical_digest sample_codec (plan_to_value tiny_plan) = Ok (r2_configuration_digest (sample_receipt sample_codec))"
  using receipt_v2_meaning [OF sample_receipt_valid] sample_receipt_valid by (simp add: sample_receipt_def)

text \<open>
  C15. Evidence and plan agree: when the embedded plan names its checks uniquely, the evidence of a
  valid version 2 receipt consists of exactly the planned checks, with the planned arguments,
  working directory and required flag; and the artifact manifest covers exactly the planned
  artifacts, each within its declared bounds.
\<close>

theorem receipt_v2_matches_plan:
  assumes "receipt_v2_validate cx r = Ok ()" and "distinct (map nk_id (pl_checks (r2_execution_plan r)))"
  shows "mset (map (\<lambda>c. (ce_id c, ce_required c, ce_argv c, ce_working_directory c)) (r2_checks r)) =
      mset (map (\<lambda>p. (nk_id p, nk_required p, nk_argv p, nk_working_directory p)) (pl_checks (r2_execution_plan r))) \<and>
    distinct (map ae_path (r2_artifact_manifest r)) \<and>
    ae_path ` set (r2_artifact_manifest r) =
      na_path ` set (concat (map nk_artifact_contracts (pl_checks (r2_execution_plan r)))) \<and>
    (\<forall>a\<in>set (r2_artifact_manifest r).
       \<exists>p\<in>set (concat (map nk_artifact_contracts (pl_checks (r2_execution_plan r)))).
         ae_path a = na_path p \<and> ae_kind a = na_kind p \<and> ae_producer_check a = na_producer_check p \<and>
         ae_entry_count a \<le> na_max_entries p \<and> ae_total_bytes a \<le> na_max_bytes p)"
proof -
  from assms(1) have len: "length (pl_checks (r2_execution_plan r)) = length (r2_checks r)"
    and ok: "\<forall>p\<in>set (pl_checks (r2_execution_plan r)). planned_check_validate (r2_checks r) p = Ok ()"
    and man: "validate_artifact_manifest r = Ok ()"
    by (simp_all add: receipt_v2_validate_iff)
  note M = man [unfolded validate_artifact_manifest_iff]
  have "\<exists>p\<in>set (concat (map nk_artifact_contracts (pl_checks (r2_execution_plan r)))).
         ae_path a = na_path p \<and> ae_kind a = na_kind p \<and> ae_producer_check a = na_producer_check p \<and>
         ae_entry_count a \<le> na_max_entries p \<and> ae_total_bytes a \<le> na_max_bytes p"
    if "a \<in> set (r2_artifact_manifest r)" for a
    using M that by (intro acceptable_artifact_planned) (auto simp: list_all_iff)
  with evidence_matches_plan [OF len assms(2) ok] M show ?thesis
    by (simp add: expected_artifacts_paths)
qed

theorem receipt_v2_matches_plan_witness:
  "map (\<lambda>c. (ce_id c, ce_required c, ce_argv c, ce_working_directory c)) (r2_checks (sample_receipt sample_codec)) =
     [(''t'', True, [''make''], ''.'')] \<and>
   ae_path ` set (r2_artifact_manifest (sample_receipt sample_codec)) = {''app''}"
proof -
  have "distinct (map nk_id (pl_checks (r2_execution_plan (sample_receipt sample_codec))))"
    by (simp add: sample_receipt_def tiny_plan_def)
  from receipt_v2_matches_plan [OF sample_receipt_valid this] show ?thesis
    by (simp add: sample_receipt_def tiny_plan_def sample_evidence_def)
qed

section \<open>Timestamps\<close>

text \<open>
  Comparing two valid timestamps as texts, as the run window check does, compares the instants
  they denote.
\<close>

theorem timestamp_text_order:
  assumes "parse_utc_seconds v = Some m" and "parse_utc_seconds w = Some n"
  shows "v < w \<longleftrightarrow> m < n"
  using assms by (rule timestamp_less_iff)

theorem timestamp_text_order_witness:
  "(''2000-02-29T12:34:56Z'' < ''2026-08-01T00:00:00Z'') = ((951827696 :: int) < 1785542400)"
proof (rule timestamp_text_order)
  show "parse_utc_seconds ''2000-02-29T12:34:56Z'' = Some 951827696" by code_simp
  show "parse_utc_seconds ''2026-08-01T00:00:00Z'' = Some 1785542400" by code_simp
qed

text \<open>
  Printing and parsing of UTC timestamps are inverse to each other: every second since the
  epoch that can be printed parses back to itself, every timestamp not before the epoch is printed
  back letter by letter, and printing fails exactly from the year 10000 on.
\<close>

theorem timestamp_round_trip:
  "(format_unix_utc s = Some t \<longrightarrow> parse_utc_seconds t = Some (int (unat s))) \<and>
   (parse_utc_seconds v = Some n \<and> 0 \<le> n \<longrightarrow> format_unix_utc (word_of_int n) = Some v) \<and>
   (format_unix_utc s = None \<longleftrightarrow> 253402300800 \<le> unat s)"
  using format_then_parse parse_then_format format_unix_utc_total by blast

theorem timestamp_round_trip_witness:
  "format_unix_utc (word_of_int 951827696) = Some ''2000-02-29T12:34:56Z''"
proof -
  have "parse_utc_seconds ''2000-02-29T12:34:56Z'' = Some 951827696" by code_simp
  with timestamp_round_trip [of 0 "[]" "''2000-02-29T12:34:56Z''" 951827696] show ?thesis by simp
qed

section \<open>Verification\<close>

text \<open>
  C16. A verification report says PASS exactly when the document is a receipt that verifies and the
  receipt satisfies every clause of the policy for the expected commit at the evaluation time.
\<close>

theorem verification_pass_iff:
  assumes "verify_receipt_document cx ps bytes policy commit now_utc = Ok r"
  shows "vr_decision r = DecisionPass \<longleftrightarrow>
    (\<exists>envelope now. read_receipt ps bytes = Ok envelope \<and> verified_verify cx envelope = Ok () \<and>
       parse_utc_seconds now_utc = Some now \<and> policy_satisfied (verified_view envelope) policy commit now)"
  using assms by (rule verify_receipt_document_pass_iff)

theorem verification_pass_iff_witness:
  "verify_receipt_document sample_codec sample_parsers ''doc'' (baseline sample_policy) sample_commit sample_now =
     Ok sample_report \<and>
   (\<exists>envelope now. read_receipt sample_parsers ''doc'' = Ok envelope \<and> verified_verify sample_codec envelope = Ok () \<and>
       parse_utc_seconds sample_now = Some now \<and>
       policy_satisfied (verified_view envelope) (baseline sample_policy) sample_commit now)"
  using verification_pass_iff [OF sample_report_ok] sample_report_ok sample_report_pass by blast

text \<open>
  C17. A PASS for a version 2 receipt means: the identifier is the digest of the payload, the commit
  is the expected one and the checkout was clean, every check the policy requires is present with
  exit code zero, and the run finished no later than, and at most the policy's age before, the
  evaluation time.
\<close>

theorem verification_pass_guarantees:
  assumes "verify_receipt_document cx ps bytes policy commit now_utc = Ok r"
    and "vr_decision r = DecisionPass" and "read_receipt ps bytes = Ok (VerifiedV2 e)"
  shows "canonical_digest cx (receipt_v2_to_value (e2_receipt e)) = Ok (e2_receipt_id e) \<and>
    re_commit_sha (r2_repository (e2_receipt e)) = commit \<and> \<not> re_dirty (r2_repository (e2_receipt e)) \<and>
    (\<forall>i\<in>set (vp_required_checks policy). \<exists>c\<in>set (r2_checks (e2_receipt e)).
       ce_id c = i \<and> ce_required c \<and> ce_status c = Pass \<and> ce_exit_code c = Some 0) \<and>
    (\<exists>finished now. parse_utc_seconds (ru_finished_at_utc (r2_run (e2_receipt e))) = Some finished \<and>
       parse_utc_seconds now_utc = Some now \<and> finished \<le> now \<and>
       now - finished \<le> int (unat (vp_max_age_seconds policy)))"
proof -
  from assms verify_receipt_document_pass_iff [OF assms(1)] obtain now where
    v: "verify_v2 cx e = Ok ()" and now: "parse_utc_seconds now_utc = Some now"
    and s: "policy_satisfied (verified_view (VerifiedV2 e)) policy commit now" by auto
  from assms(1) have "policy_v1_validate policy = Ok ()"
    by (auto simp: verify_receipt_document_def result_simps)
  note age = policy_v1_validate_facts(4) [OF this]
  from v have val: "receipt_v2_validate cx (e2_receipt e) = Ok ()"
    and d: "canonical_digest cx (receipt_v2_to_value (e2_receipt e)) = Ok (e2_receipt_id e)"
    by (simp_all add: v2.verify_law)
  from val have "common_validate (common_of_v2 (e2_receipt e)) = Ok ()" by (simp add: receipt_v2_validate_iff)
  note pass = common_validate_pass [OF this]
  from s have green: "r2_overall_status (e2_receipt e) = Pass"
    and req: "ce_id ` set (filter ce_required (r2_checks (e2_receipt e))) = set (vp_required_checks policy)"
    by (simp_all add: policy_satisfied_def Let_def)
  with pass have "\<forall>c\<in>set (r2_checks (e2_receipt e)). ce_required c \<longrightarrow> ce_status c = Pass \<and> ce_exit_code c = Some 0"
    by (simp add: common_of_v2_def)
  with req have "\<forall>i\<in>set (vp_required_checks policy). \<exists>c\<in>set (r2_checks (e2_receipt e)).
       ce_id c = i \<and> ce_required c \<and> ce_status c = Pass \<and> ce_exit_code c = Some 0" by force
  with d s now age show ?thesis by (auto simp: policy_satisfied_def Let_def)
qed

theorem verification_pass_guarantees_witness:
  "re_commit_sha (r2_repository (e2_receipt (sample_envelope sample_codec))) = sample_commit \<and>
   canonical_digest sample_codec (receipt_v2_to_value (sample_receipt sample_codec)) =
     Ok (e2_receipt_id (sample_envelope sample_codec))"
  using verification_pass_guarantees [OF sample_report_ok sample_report_pass sample_read]
  by (simp add: sample_envelope_def)

text \<open>
  C18. A PASS under the trusted-plan policy means that the receipt's execution plan is equal, field
  by field, to the plan rebuilt from the trusted checkout, that this plan has the digest the policy
  names, and that the producer is supported and not revoked.
\<close>

theorem trusted_plan_pass:
  assumes "verify_trusted_plan_receipt_document cx ps bytes policy trusted commit now_utc = Ok r"
    and "vr_decision r = DecisionPass"
  shows "\<exists>receipt. v2_from_slice ps bytes = Ok receipt \<and>
    r2_execution_plan (e2_receipt receipt) = pe_plan trusted \<and>
    pe_plan_digest trusted = vt_configuration_digest policy \<and>
    ss_strategy (r2_source_snapshot (e2_receipt receipt)) = vt_source_snapshot_strategy policy \<and>
    (pr_name (r2_producer (e2_receipt receipt)), pr_version (r2_producer (e2_receipt receipt)))
       \<in> producer_key ` set (vt_supported_producers policy) - producer_key ` set (vt_revoked_producers policy)"
  by (rule verify_trusted_pass [OF assms]) blast

theorem trusted_plan_pass_witness:
  "vr_decision sample_trusted_report = DecisionPass \<and>
   (\<exists>receipt. v2_from_slice sample_parsers ''doc'' = Ok receipt \<and>
      r2_execution_plan (e2_receipt receipt) = tiny_plan)"
proof -
  have "pe_plan sample_trusted = tiny_plan" by (simp add: sample_trusted_def)
  with trusted_plan_pass [OF sample_trusted_report_ok sample_trusted_report_pass] sample_trusted_report_pass
  show ?thesis by auto
qed

text \<open>
  The recursive plan comparison is exact and bounded: it adds no finding exactly when the two
  documents are equal, and it never reports more than 128 findings, however different they are.
\<close>

theorem plan_comparison_exact:
  assumes "json_wf trusted" and "json_wf receipt"
  shows "(compare_plan_value trusted receipt path [] = [] \<longleftrightarrow> trusted = receipt) \<and>
    length (compare_plan_value trusted receipt path []) \<le> 128"
proof -
  have "compare_plan_value trusted receipt path [] = [] \<longleftrightarrow> trusted = receipt"
    using compare_detects [OF assms, of "[]" path]
    by (cases "trusted = receipt") (auto simp: compare_plan_value_eq MAX_PLAN_FINDINGS_def)
  with compare_bounded [of "[]" trusted receipt path] show ?thesis by (simp add: MAX_PLAN_FINDINGS_def)
qed

theorem plan_comparison_exact_witness:
  "compare_plan_value (JObject [(''a/b'', JNull)]) (JObject [(''a/b'', JBool True)]) [] [] \<noteq> []"
  using plan_comparison_exact [of "JObject [(''a/b'', JNull)]" "JObject [(''a/b'', JBool True)]" "[]"]
  by (simp add: bt_inv_def)

end
