(* ===== verification/Text_Scan.thy ===== *)
theory Text_Scan
  imports Rust_Str
begin

text \<open>
  What the probe parsers use of the standard library beyond \<open>Rust_Str\<close>: \<^verbatim>\<open>str::lines\<close>,
  \<^verbatim>\<open>strip_suffix\<close>, \<^verbatim>\<open>split_once\<close>, \<^verbatim>\<open>trim\<close> and \<^verbatim>\<open>split_whitespace\<close> as texts, \<^verbatim>\<open>split_at\<close> with the panic
  it has inside a character, and \<^verbatim>\<open>parse\<close> of the unsigned integers.
\<close>

section \<open>Characters of a text\<close>

definition char_width :: "char \<Rightarrow> nat" where
  "char_width a =
     (if byte_val a < 128 then 1 else if byte_val a < 224 then 2 else if byte_val a < 240 then 3 else 4)"

text \<open>The bytes of each character in turn.\<close>

function char_chunks :: "string \<Rightarrow> string list" where
  "char_chunks [] = []"
| "char_chunks (a # r) =
     (a # take (char_width a - 1) r) # char_chunks (drop (char_width a - 1) r)"
  by pat_completeness auto
termination by (relation "measure length") auto

definition is_space :: "string \<Rightarrow> bool" where
  "is_space c \<longleftrightarrow> list_all is_whitespace (chars c)"

definition trim :: "string \<Rightarrow> string" where
  "trim s = concat (rev (dropWhile is_space (rev (dropWhile is_space (char_chunks s)))))"

primrec words_of :: "string list \<Rightarrow> string \<Rightarrow> string list" where
  "words_of [] w = (if w = [] then [] else [w])"
| "words_of (c # cs) w =
     (if is_space c then (if w = [] then words_of cs [] else w # words_of cs [])
      else words_of cs (w @ c))"

definition split_whitespace :: "string \<Rightarrow> string list" where
  "split_whitespace s = words_of (char_chunks s) []"

section \<open>Lines and suffixes\<close>

definition strip_suffix :: "string \<Rightarrow> string \<Rightarrow> string option" where
  "strip_suffix p s = map_option rev (strip_prefix (rev p) (rev s))"

definition strip_cr :: "string \<Rightarrow> string" where
  "strip_cr s = (case strip_suffix [CHR 0x0D] s of None \<Rightarrow> s | Some r \<Rightarrow> r)"

text \<open>Only a line that ends in a newline loses its carriage return; no empty line follows the last newline.\<close>

definition str_lines :: "string \<Rightarrow> string list" where
  "str_lines s =
     (let parts = split_on (CHR 0x0A) s
      in map strip_cr (butlast parts) @ (if last parts = [] then [] else [last parts]))"

primrec split_once :: "char \<Rightarrow> string \<Rightarrow> (string \<times> string) option" where
  "split_once c [] = None"
| "split_once c (x # xs) =
     (if x = c then Some ([], xs) else map_option (\<lambda>(l, r). (x # l, r)) (split_once c xs))"

text \<open>\<^verbatim>\<open>split_at(mid)\<close> panics when \<open>mid\<close> is past the end or inside a character.\<close>

definition is_char_boundary :: "string \<Rightarrow> nat \<Rightarrow> bool" where
  "is_char_boundary s n \<longleftrightarrow> n = 0 \<or> n = length s \<or> n < length s \<and> \<not> is_cont 128 191 (s ! n)"

definition split_at :: "nat \<Rightarrow> string \<Rightarrow> (string \<times> string) option" where
  "split_at n s = (if is_char_boundary s n then Some (take n s, drop n s) else None)"

section \<open>Unsigned integers\<close>

text \<open>\<^verbatim>\<open>str::parse\<close>: an optional plus sign, at least one digit, and the value must fit.\<close>

definition parse_uint :: "string \<Rightarrow> 'a::len word option" where
  "parse_uint s =
     (let ds = (case s of c # r \<Rightarrow> if c = CHR ''+'' \<and> r \<noteq> [] then r else s | [] \<Rightarrow> s)
      in if ds \<noteq> [] \<and> digits ds \<and> dec_value ds < 2 ^ LENGTH('a) then Some (of_nat (dec_value ds))
         else None)"

section \<open>Facts\<close>

lemma strip_suffix_eq_Some_iff [simp]: "strip_suffix p s = Some r \<longleftrightarrow> s = r @ p"
proof -
  have "strip_suffix p s = Some r \<longleftrightarrow> rev s = rev p @ rev r"
    by (auto simp: strip_suffix_def)
  also have "\<dots> \<longleftrightarrow> s = r @ p" by (metis rev_append rev_rev_ident)
  finally show ?thesis .
qed

lemma concat_char_chunks [simp]: "concat (char_chunks s) = s"
  by (induction s rule: char_chunks.induct) auto

lemma split_once_eq_Some_iff: "split_once c s = Some (l, r) \<longleftrightarrow> s = l @ c # r \<and> c \<notin> set l"
proof (induction s arbitrary: l)
  case (Cons x xs)
  show ?case using Cons.IH [of "tl l"] by (cases l) auto
qed simp

lemma split_at_eq_Some: "split_at n s = Some (l, r) \<Longrightarrow> s = l @ r"
  by (auto simp: split_at_def split: if_splits)

lemma parse_uint_digits:
  fixes w :: "'a::len word"
  assumes "digits s"
  shows "parse_uint s = Some w \<longleftrightarrow> s \<noteq> [] \<and> unat w = dec_value s"
proof -
  have "s \<noteq> [] \<Longrightarrow> hd s \<noteq> CHR ''+''" using assms by (cases s) (auto simp: is_ascii_digit_def)
  then have "parse_uint s = (if s \<noteq> [] \<and> dec_value s < 2 ^ LENGTH('a) then Some (of_nat (dec_value s) :: 'a word) else None)"
    using assms by (cases s) (auto simp: parse_uint_def)
  moreover have "dec_value s < 2 ^ LENGTH('a)" if "unat w = dec_value s"
    using that unsigned_less [of w] by metis
  moreover have "w = of_nat (dec_value s) \<longleftrightarrow> unat w = dec_value s" if "dec_value s < 2 ^ LENGTH('a)"
    using that by (auto simp: unat_of_nat word_unat_eq_iff)
  ultimately show ?thesis by (cases "dec_value s < 2 ^ LENGTH('a)") auto
qed

end
