(* ===== verification/Rust_Io.thy ===== *)
theory Rust_Io
  imports Rust_Str
begin

text \<open>
  What the components use of \<^verbatim>\<open>std::io::Error\<close>, \<^verbatim>\<open>std::time::Duration\<close> and \<^verbatim>\<open>std::path::Path\<close>: an error is
  its kind with its message, a duration its length in nanoseconds (subtraction saturates at zero as
  \<^verbatim>\<open>saturating_sub\<close> does), a path its bytes.
\<close>

datatype io_kind = NotFound | AlreadyExists | TimedOutKind | Interrupted | StorageFull | InvalidData | OtherKind

datatype io_error = IoError (io_kind_of: io_kind) (io_message: string)

type_synonym duration = nat

abbreviation millis :: "nat \<Rightarrow> duration" where
  "millis n \<equiv> n * 1000000"

abbreviation secs :: "nat \<Rightarrow> duration" where
  "secs n \<equiv> n * 1000000000"

text \<open>\<^verbatim>\<open>Path::is_absolute\<close> on Unix.\<close>

definition path_is_absolute :: "string \<Rightarrow> bool" where
  "path_is_absolute p \<longleftrightarrow> starts_with ''/'' p"

end
