(* ===== verification/Process.thy ===== *)
theory Process
  imports Rust_Io Canonical
begin

text \<open>
  The data of \<^verbatim>\<open>src/src/process.rs\<close>: run identities and the generation guard, the cancellation token
  (one atomic byte that is written once), process requests with their validation, and process
  results.
\<close>

section \<open>Run identity and generation\<close>

record run_identity =
  ri_project :: string
  ri_commit :: "string option"
  ri_config_digest :: string
  ri_generation :: string

text \<open>The variants of \<^verbatim>\<open>ProcessError\<close> in order.\<close>

datatype process_error =
    PrcInvalidRequest string
  | PrcSpawn io_error
  | PrcMonitor io_error
  | PrcOutput io_error
  | PrcUnsupportedOutputMode
  | PrcCleanupUncertain string io_error
  | PrcStaleGeneration
  | PrcInvariant string

text \<open>A mutex is its content and whether a panicking holder has poisoned it.\<close>

record generation_guard =
  gg_active :: run_identity
  gg_poisoned :: bool

definition generation_guard_new :: "run_identity \<Rightarrow> generation_guard" where
  "generation_guard_new i = \<lparr>gg_active = i, gg_poisoned = False\<rparr>"

definition generation_replace ::
    "generation_guard \<Rightarrow> run_identity \<Rightarrow> (process_error, generation_guard) result" where
  "generation_replace g i =
     (if gg_poisoned g then Err (PrcInvariant ''generation guard lock is poisoned'')
      else Ok (g\<lparr>gg_active := i\<rparr>))"

definition ensure_current :: "generation_guard \<Rightarrow> run_identity \<Rightarrow> (process_error, unit) result" where
  "ensure_current g candidate =
     (if gg_poisoned g then Err (PrcInvariant ''generation guard lock is poisoned'')
      else if gg_active g = candidate then Ok () else Err PrcStaleGeneration)"

section \<open>Cancellation\<close>

datatype cancellation_reason = User | ResourcePressure

type_synonym cancellation_token = u8

definition reason_code :: "cancellation_reason \<Rightarrow> u8" where
  "reason_code r = (case r of User \<Rightarrow> 1 | ResourcePressure \<Rightarrow> 2)"

text \<open>\<^verbatim>\<open>compare_exchange(0, reason)\<close>: the first reason stays.\<close>

definition set_reason :: "cancellation_token \<Rightarrow> cancellation_reason \<Rightarrow> cancellation_token" where
  "set_reason t r = (if t = 0 then reason_code r else t)"

definition cancel :: "cancellation_token \<Rightarrow> cancellation_token" where
  "cancel t = set_reason t User"

definition cancel_resource_pressure :: "cancellation_token \<Rightarrow> cancellation_token" where
  "cancel_resource_pressure t = set_reason t ResourcePressure"

definition is_cancelled :: "cancellation_token \<Rightarrow> bool" where
  "is_cancelled t \<longleftrightarrow> t \<noteq> 0"

definition token_reason :: "cancellation_token \<Rightarrow> cancellation_reason option" where
  "token_reason t = (if t = 1 then Some User else if t = 2 then Some ResourcePressure else None)"

section \<open>Requests\<close>

record process_request =
  rq_identity :: run_identity
  rq_program :: string
  rq_argv :: "string list"
  rq_current_dir :: string
  rq_environment :: "(string \<times> string) list"
  rq_timeout :: duration
  rq_max_capture_bytes :: nat

datatype output_mode = Capture | Tee

definition MAX_CAPTURE_BYTES :: nat where
  "MAX_CAPTURE_BYTES = 1048576"

definition MAX_SOURCE_BLOB_CAPTURE_BYTES :: nat where
  "MAX_SOURCE_BLOB_CAPTURE_BYTES = 64 * 1048576"

definition validate_with_capture_ceiling :: "process_request \<Rightarrow> nat \<Rightarrow> (process_error, unit) result" where
  "validate_with_capture_ceiling rq ceiling =
     (if rq_program rq = [] then Err (PrcInvalidRequest ''program must not be empty'')
      else if rq_timeout rq = 0 then Err (PrcInvalidRequest ''timeout must be greater than zero'')
      else if rq_max_capture_bytes rq = 0 \<or> rq_max_capture_bytes rq > ceiling then
        Err (PrcInvalidRequest ''max_capture_bytes must be between 1 and 1048576'')
      else if \<not> path_is_absolute (rq_current_dir rq) then
        Err (PrcInvalidRequest ''current_dir must be an already-resolved absolute path'')
      else Ok ())"

definition request_validate :: "process_request \<Rightarrow> (process_error, unit) result" where
  "request_validate rq = validate_with_capture_ceiling rq MAX_CAPTURE_BYTES"

section \<open>Results\<close>

datatype process_termination = Completed | Cancelled | TimedOut

datatype cleanup_status = NotRequired | Verified

record exit_outcome =
  eo_success :: bool
  eo_code :: "i32 option"

record captured_stream =
  cs_bytes :: string
  cs_byte_count :: u64
  cs_full_digest :: string
  cs_truncated :: bool

record process_result =
  ps_identity :: run_identity
  ps_termination :: process_termination
  ps_cleanup :: cleanup_status
  ps_exit :: "exit_outcome option"
  ps_stdout :: captured_stream
  ps_stderr :: captured_stream
  ps_elapsed_millis :: nat

definition sha256_digest :: "'m codec_scheme \<Rightarrow> string \<Rightarrow> string" where
  "sha256_digest cx bytes = ''sha256:'' @ encode_hex (sha256 cx bytes)"

text \<open>\<^verbatim>\<open>u64::try_from(usize).unwrap_or(u64::MAX)\<close>.\<close>

definition u64_of_len :: "nat \<Rightarrow> u64" where
  "u64_of_len n = (if n < 2 ^ 64 then of_nat n else - 1)"

definition from_captured :: "'m codec_scheme \<Rightarrow> string \<Rightarrow> bool \<Rightarrow> captured_stream" where
  "from_captured cx bytes truncated =
     \<lparr>cs_bytes = bytes, cs_byte_count = u64_of_len (length bytes),
      cs_full_digest = sha256_digest cx bytes, cs_truncated = truncated\<rparr>"

section \<open>Facts\<close>

lemma token_reason_set:
  "token_reason (set_reason t r) = (if is_cancelled t then token_reason t else Some r)"
  by (cases r) (simp_all add: token_reason_def set_reason_def is_cancelled_def reason_code_def)

lemma is_cancelled_set [simp]: "is_cancelled (set_reason t r)"
  by (cases r) (simp_all add: set_reason_def is_cancelled_def reason_code_def)

lemma ensure_current_iff:
  "ensure_current g i = Ok u \<longleftrightarrow> \<not> gg_poisoned g \<and> gg_active g = i"
  by (simp add: ensure_current_def)

lemma validate_with_capture_ceiling_iff:
  "validate_with_capture_ceiling rq ceiling = Ok u \<longleftrightarrow>
     rq_program rq \<noteq> [] \<and> 0 < rq_timeout rq \<and> 0 < rq_max_capture_bytes rq \<and>
     rq_max_capture_bytes rq \<le> ceiling \<and> path_is_absolute (rq_current_dir rq)"
  by (auto simp: validate_with_capture_ceiling_def)

end
