(* ===== verification/Resource.thy ===== *)
theory Resource
  imports Text_Scan Process
begin

text \<open>
  The host resource guard of \<^verbatim>\<open>src/src/resource.rs\<close>: memory snapshots and their admission decision, the
  watchdog's state machine and its thread loop, the observation summary, and the parsers that turn
  the output of the macOS tools into a snapshot.
\<close>

section \<open>Constants\<close>

definition RESOURCE_SCHEMA_VERSION :: string where
  "RESOURCE_SCHEMA_VERSION = ''1.0''"

definition MACOS_POLICY_VERSION :: string where
  "MACOS_POLICY_VERSION = ''macos-v5''"

definition RESOURCE_COMMAND_TIMEOUT :: duration where
  "RESOURCE_COMMAND_TIMEOUT = secs 2"

definition RESOURCE_CAPTURE_BYTES :: nat where
  "RESOURCE_CAPTURE_BYTES = 65536"

definition MIN_PRESTART_AVAILABLE_PERCENT :: u8 where
  "MIN_PRESTART_AVAILABLE_PERCENT = 20"

definition MIN_PRESTART_FREE_BYTES :: u64 where
  "MIN_PRESTART_FREE_BYTES = 3 * 1024 * 1024 * 1024"

definition HARD_AVAILABLE_PERCENT :: u8 where
  "HARD_AVAILABLE_PERCENT = 3"

definition HARD_RECLAIMABLE_BYTES :: u64 where
  "HARD_RECLAIMABLE_BYTES = 512 * 1024 * 1024"

definition HARD_COMPRESSOR_PERCENT :: u8 where
  "HARD_COMPRESSOR_PERCENT = 70"

definition HARD_COMPRESSOR_COMPANION_AVAILABLE_PERCENT :: u8 where
  "HARD_COMPRESSOR_COMPANION_AVAILABLE_PERCENT = 8"

definition SOFT_AVAILABLE_PERCENT :: u8 where
  "SOFT_AVAILABLE_PERCENT = 10"

definition SOFT_RECLAIMABLE_BYTES :: u64 where
  "SOFT_RECLAIMABLE_BYTES = 1536 * 1024 * 1024"

definition SOFT_COMPRESSOR_PERCENT :: u8 where
  "SOFT_COMPRESSOR_PERCENT = 55"

definition SOFT_SWAP_BYTES :: u64 where
  "SOFT_SWAP_BYTES = 4 * 1024 * 1024 * 1024"

definition SOFT_SWAP_GROWTH_BYTES :: u64 where
  "SOFT_SWAP_GROWTH_BYTES = 1024 * 1024 * 1024"

definition SOFT_REQUIRED_SIGNALS :: u8 where
  "SOFT_REQUIRED_SIGNALS = 2"

definition SOFT_CONSECUTIVE_SAMPLES :: u8 where
  "SOFT_CONSECUTIVE_SAMPLES = 15"

definition SOFT_TREND_WINDOW_SAMPLES :: nat where
  "SOFT_TREND_WINDOW_SAMPLES = 16"

definition MAX_PERCENT :: u8 where
  "MAX_PERCENT = 100"

lemmas resource_consts = MIN_PRESTART_AVAILABLE_PERCENT_def MIN_PRESTART_FREE_BYTES_def
  HARD_AVAILABLE_PERCENT_def HARD_RECLAIMABLE_BYTES_def HARD_COMPRESSOR_PERCENT_def
  HARD_COMPRESSOR_COMPANION_AVAILABLE_PERCENT_def SOFT_AVAILABLE_PERCENT_def SOFT_RECLAIMABLE_BYTES_def
  SOFT_COMPRESSOR_PERCENT_def SOFT_SWAP_BYTES_def SOFT_SWAP_GROWTH_BYTES_def SOFT_REQUIRED_SIGNALS_def
  SOFT_CONSECUTIVE_SAMPLES_def SOFT_TREND_WINDOW_SAMPLES_def MAX_PERCENT_def

section \<open>Snapshots\<close>

text \<open>
  The variants of \<^verbatim>\<open>ResourceProbeError\<close> in order. \<open>PrbPanic\<close> is not one of them: it is the model's
  value for a panic of the standard library.
\<close>

datatype resource_probe_error =
    PrbMalformedOutput
  | PrbContradictorySnapshot
  | PrbOverflow
  | PrbCancelled
  | PrbCommandFailed
  | PrbProcess process_error
  | PrbWatchdogPanicked
  | PrbWatchdogStatePoisoned
  | PrbPanic string

record resource_snapshot =
  rs_available_percent :: u8
  rs_reclaimable_uncompressed_bytes :: u64
  rs_compressor_occupied_bytes :: u64
  rs_total_memory_bytes :: u64
  rs_swap_used_bytes :: u64
  rs_swap_total_bytes :: u64

definition snapshot_validate :: "resource_snapshot \<Rightarrow> (resource_probe_error, unit) result" where
  "snapshot_validate s =
     (if rs_available_percent s > MAX_PERCENT \<or> rs_total_memory_bytes s = 0 \<or>
         rs_reclaimable_uncompressed_bytes s > rs_total_memory_bytes s \<or>
         rs_compressor_occupied_bytes s > rs_total_memory_bytes s \<or>
         rs_swap_used_bytes s > rs_swap_total_bytes s
      then Err PrbContradictorySnapshot else Ok ())"

definition ratio_at_least :: "u64 \<Rightarrow> u64 \<Rightarrow> u8 \<Rightarrow> bool" where
  "ratio_at_least v whole percent \<longleftrightarrow> (ucast v :: u128) * 100 \<ge> ucast whole * ucast percent"

definition compressor_percent_at_least :: "resource_snapshot \<Rightarrow> u8 \<Rightarrow> bool" where
  "compressor_percent_at_least s percent =
     ratio_at_least (rs_compressor_occupied_bytes s) (rs_total_memory_bytes s) percent"

definition has_hard_compound_compression :: "resource_snapshot \<Rightarrow> bool" where
  "has_hard_compound_compression s \<longleftrightarrow>
     compressor_percent_at_least s HARD_COMPRESSOR_PERCENT \<and>
     (rs_available_percent s \<le> HARD_COMPRESSOR_COMPANION_AVAILABLE_PERCENT \<or>
      rs_reclaimable_uncompressed_bytes s < SOFT_RECLAIMABLE_BYTES \<or>
      rs_swap_used_bytes s \<ge> SOFT_SWAP_BYTES)"

datatype pre_start_decision = Admit | Deny

definition evaluate_pre_start :: "resource_snapshot \<Rightarrow> (resource_probe_error, pre_start_decision) result" where
  "evaluate_pre_start s =
     and_then (snapshot_validate s) (\<lambda>_.
       Ok (if rs_available_percent s \<ge> MIN_PRESTART_AVAILABLE_PERCENT \<and>
              rs_reclaimable_uncompressed_bytes s \<ge> MIN_PRESTART_FREE_BYTES \<and>
              \<not> has_hard_compound_compression s
           then Admit else Deny))"

section \<open>Observation summary\<close>

record resource_observation_summary =
  os_baseline :: resource_snapshot
  os_last_snapshot :: resource_snapshot
  os_sample_count :: u64
  os_minimum_available_percent :: u8
  os_minimum_reclaimable_uncompressed_bytes :: u64
  os_maximum_compressor_occupied_bytes :: u64
  os_maximum_swap_used_bytes :: u64

definition observation_new :: "resource_snapshot \<Rightarrow> resource_observation_summary" where
  "observation_new b =
     \<lparr>os_baseline = b, os_last_snapshot = b, os_sample_count = 1,
      os_minimum_available_percent = rs_available_percent b,
      os_minimum_reclaimable_uncompressed_bytes = rs_reclaimable_uncompressed_bytes b,
      os_maximum_compressor_occupied_bytes = rs_compressor_occupied_bytes b,
      os_maximum_swap_used_bytes = rs_swap_used_bytes b\<rparr>"

definition observation_record ::
    "resource_snapshot \<Rightarrow> resource_observation_summary \<Rightarrow> resource_observation_summary" where
  "observation_record s sm =
     sm\<lparr>os_sample_count := saturating_add (os_sample_count sm) 1,
       os_minimum_available_percent := min (os_minimum_available_percent sm) (rs_available_percent s),
       os_minimum_reclaimable_uncompressed_bytes :=
         min (os_minimum_reclaimable_uncompressed_bytes sm) (rs_reclaimable_uncompressed_bytes s),
       os_maximum_compressor_occupied_bytes :=
         max (os_maximum_compressor_occupied_bytes sm) (rs_compressor_occupied_bytes s),
       os_maximum_swap_used_bytes := max (os_maximum_swap_used_bytes sm) (rs_swap_used_bytes s),
       os_last_snapshot := s\<rparr>"

section \<open>Watchdog state machine\<close>

datatype watchdog_trip_reason = HardPressure | SoftPressure | ProbeFailure

datatype watchdog_decision = Continue | Tripped watchdog_trip_reason

record watchdog_state =
  ws_consecutive_soft_samples :: u8
  ws_first_trip :: "watchdog_trip_reason option"
  ws_swap_window :: "u64 list"

definition watchdog_default :: watchdog_state where
  "watchdog_default = \<lparr>ws_consecutive_soft_samples = 0, ws_first_trip = None, ws_swap_window = []\<rparr>"

definition push_window :: "u64 list \<Rightarrow> u64 \<Rightarrow> u64 list" where
  "push_window w x = (let w' = w @ [x] in if length w' > SOFT_TREND_WINDOW_SAMPLES then tl w' else w')"

definition swap_growth :: "u64 list \<Rightarrow> resource_snapshot \<Rightarrow> bool" where
  "swap_growth w s \<longleftrightarrow>
     length w = SOFT_TREND_WINDOW_SAMPLES \<and>
     saturating_sub (rs_swap_used_bytes s) (hd w) \<ge> SOFT_SWAP_GROWTH_BYTES"

definition is_hard :: "resource_snapshot \<Rightarrow> bool" where
  "is_hard s \<longleftrightarrow>
     rs_available_percent s \<le> HARD_AVAILABLE_PERCENT \<or>
     rs_reclaimable_uncompressed_bytes s < HARD_RECLAIMABLE_BYTES \<or>
     has_hard_compound_compression s"

definition soft_signals :: "resource_snapshot \<Rightarrow> bool \<Rightarrow> u8" where
  "soft_signals s growth =
     of_bool (rs_available_percent s < SOFT_AVAILABLE_PERCENT)
     + of_bool (rs_reclaimable_uncompressed_bytes s < SOFT_RECLAIMABLE_BYTES)
     + of_bool (compressor_percent_at_least s SOFT_COMPRESSOR_PERCENT)
     + of_bool (rs_swap_used_bytes s \<ge> SOFT_SWAP_BYTES)
     + of_bool growth"

definition watchdog_observe ::
    "resource_snapshot \<Rightarrow> watchdog_state \<Rightarrow> (resource_probe_error, watchdog_decision) result \<times> watchdog_state" where
  "watchdog_observe s st =
     (case snapshot_validate s of
        Inl e \<Rightarrow> (Err e, st)
      | Inr _ \<Rightarrow>
          (case ws_first_trip st of
             Some reason \<Rightarrow> (Ok (Tripped reason), st)
           | None \<Rightarrow>
               let window = push_window (ws_swap_window st) (rs_swap_used_bytes s);
                   st = st\<lparr>ws_swap_window := window\<rparr>
               in if is_hard s then (Ok (Tripped HardPressure), st\<lparr>ws_first_trip := Some HardPressure\<rparr>)
                  else if soft_signals s (swap_growth window s) \<ge> SOFT_REQUIRED_SIGNALS then
                    (let n = saturating_add (ws_consecutive_soft_samples st) 1;
                         st = st\<lparr>ws_consecutive_soft_samples := n\<rparr>
                     in if n \<ge> SOFT_CONSECUTIVE_SAMPLES
                        then (Ok (Tripped SoftPressure), st\<lparr>ws_first_trip := Some SoftPressure\<rparr>)
                        else (Ok Continue, st))
                  else (Ok Continue, st\<lparr>ws_consecutive_soft_samples := 0\<rparr>)))"

section \<open>Watchdog thread\<close>

text \<open>
  One turn of the thread's loop sees: whether the stop flag was set before and after the sleep,
  whether the user cancelled before the check or while the sample was taken, and the sample.
\<close>

record watchdog_tick =
  wt_stop_before :: bool
  wt_stop_after :: bool
  wt_cancel_before :: bool
  wt_cancel_during :: bool
  wt_sample :: "(resource_probe_error, resource_snapshot) result"

text \<open>
  The thread's own state with what it shares: the first trip, the cancellation token and the
  observation. No holder of the trip mutex can panic, so it is never poisoned. \<open>wd_panicked\<close> says that
  the thread was unwound, by the \<^verbatim>\<open>unreachable!\<close> of the loop or by a panic while the sample was taken: it ends
  without a trip and without cancelling the run, and only \<open>stop_and_join\<close> finds out.
\<close>

record watchdog =
  wd_state :: watchdog_state
  wd_trip :: "watchdog_trip_reason option"
  wd_token :: cancellation_token
  wd_observation :: "resource_observation_summary option"
  wd_done :: bool
  wd_panicked :: bool

definition watchdog_start :: "cancellation_token \<Rightarrow> resource_observation_summary option \<Rightarrow> watchdog" where
  "watchdog_start token observation =
     \<lparr>wd_state = watchdog_default, wd_trip = None, wd_token = token, wd_observation = observation,
      wd_done = False, wd_panicked = False\<rparr>"

definition user_cancels :: "bool \<Rightarrow> watchdog \<Rightarrow> watchdog" where
  "user_cancels c w = (if c then w\<lparr>wd_token := cancel (wd_token w)\<rparr> else w)"

definition watchdog_sample ::
    "(resource_probe_error, resource_snapshot) result \<Rightarrow> watchdog \<Rightarrow>
       (resource_probe_error, watchdog_decision) result \<times> watchdog" where
  "watchdog_sample sample w =
     (case sample of
        Inr s \<Rightarrow>
          let (d, st) = watchdog_observe s (wd_state w)
          in (d, w\<lparr>wd_observation := map_option (observation_record s) (wd_observation w), wd_state := st\<rparr>)
      | Inl (PrbPanic msg) \<Rightarrow> (Err (PrbPanic msg), w)
      | Inl PrbCancelled \<Rightarrow> (Ok Continue, w)
      | Inl _ \<Rightarrow> (Ok (Tripped ProbeFailure), w))"

definition watchdog_turn :: "watchdog_tick \<Rightarrow> watchdog \<Rightarrow> watchdog" where
  "watchdog_turn t w =
     (if wd_done w then w
      else if wt_stop_before t \<or> wt_stop_after t then w\<lparr>wd_done := True\<rparr>
      else
        let w = user_cancels (wt_cancel_before t) w
        in if token_reason (wd_token w) = Some User then w\<lparr>wd_done := True\<rparr>
           else
             let (d, w) = watchdog_sample (wt_sample t) w;
                 w = user_cancels (wt_cancel_during t) w
             in case d of
                  Inr Continue \<Rightarrow> w
                | Inr (Tripped reason) \<Rightarrow>
                    w\<lparr>wd_trip := (if wd_trip w = None then Some reason else wd_trip w),
                      wd_token := cancel_resource_pressure (wd_token w), wd_done := True\<rparr>
                | Inl _ \<Rightarrow> w\<lparr>wd_done := True, wd_panicked := True\<rparr>)"

definition stop_and_join :: "watchdog \<Rightarrow> (resource_probe_error, watchdog_trip_reason option) result" where
  "stop_and_join w = (if wd_panicked w then Err PrbWatchdogPanicked else Ok (wd_trip w))"

end
