(* ===== verification/Resource_Probe.thy ===== *)
theory Resource_Probe
  imports Resource
begin

text \<open>
  The probe of \<^verbatim>\<open>src/src/resource.rs\<close>: the four commands, the parsers of their output, the sample they
  make together, the runner on top of the process supervisor, and the status documents.
\<close>

section \<open>Parsers\<close>

abbreviation malformed :: "'a option \<Rightarrow> (resource_probe_error, 'a) result" where
  "malformed \<equiv> ok_or PrbMalformedOutput"

definition from_utf8 :: "string \<Rightarrow> (resource_probe_error, string) result" where
  "from_utf8 bytes = (if utf8_valid bytes then Ok bytes else Err PrbMalformedOutput)"

definition memory_pressure_step :: "u8 option \<Rightarrow> string \<Rightarrow> (resource_probe_error, u8 option) result" where
  "memory_pressure_step found line =
     (case strip_prefix ''System-wide memory free percentage:'' line of
        None \<Rightarrow> Ok found
      | Some v \<Rightarrow>
          if found \<noteq> None then Err PrbMalformedOutput
          else and_then (malformed (strip_suffix ''%'' (trim v))) (\<lambda>ds.
               and_then (malformed (parse_uint ds)) (\<lambda>percent.
               if percent > MAX_PERCENT then Err PrbMalformedOutput else Ok (Some percent))))"

definition parse_memory_pressure :: "string \<Rightarrow> (resource_probe_error, u8) result" where
  "parse_memory_pressure input =
     and_then (from_utf8 input) (\<lambda>text.
     and_then (try_fold memory_pressure_step None (str_lines text)) malformed)"

definition parse_page_count :: "string \<Rightarrow> (resource_probe_error, u64) result" where
  "parse_page_count v =
     and_then (malformed (strip_suffix ''.'' v)) (\<lambda>ds.
       if ds = [] \<or> \<not> digits ds then Err PrbMalformedOutput else malformed (parse_uint ds))"

record vm_slots =
  vm_free :: "u64 option"
  vm_speculative :: "u64 option"
  vm_inactive :: "u64 option"
  vm_compressor :: "u64 option"

definition no_slots :: vm_slots where
  "no_slots = \<lparr>vm_free = None, vm_speculative = None, vm_inactive = None, vm_compressor = None\<rparr>"

text \<open>A slot is filled once.\<close>

definition fill_slot ::
    "u64 option \<Rightarrow> string \<Rightarrow> (u64 option \<Rightarrow> vm_slots) \<Rightarrow> (resource_probe_error, vm_slots) result" where
  "fill_slot slot v put =
     (if slot \<noteq> None then Err PrbMalformedOutput
      else and_then (parse_page_count (trim v)) (\<lambda>n. Ok (put (Some n))))"

definition vm_stat_step :: "vm_slots \<Rightarrow> string \<Rightarrow> (resource_probe_error, vm_slots) result" where
  "vm_stat_step sl line =
     (case split_once (CHR '':'') line of
        None \<Rightarrow> Ok sl
      | Some (key, v) \<Rightarrow>
          if key = ''Pages free'' then fill_slot (vm_free sl) v (\<lambda>n. sl\<lparr>vm_free := n\<rparr>)
          else if key = ''Pages speculative'' then fill_slot (vm_speculative sl) v (\<lambda>n. sl\<lparr>vm_speculative := n\<rparr>)
          else if key = ''Pages inactive'' then fill_slot (vm_inactive sl) v (\<lambda>n. sl\<lparr>vm_inactive := n\<rparr>)
          else if key = ''Pages occupied by compressor'' then
            fill_slot (vm_compressor sl) v (\<lambda>n. sl\<lparr>vm_compressor := n\<rparr>)
          else Ok sl)"

definition page_size_of :: "string \<Rightarrow> string option" where
  "page_size_of header =
     Option.bind
       (case strip_prefix ''Mach Virtual Memory Statistics: (page size of '' header of
          Some r \<Rightarrow> Some r
        | None \<Rightarrow> strip_prefix ''Mach Virtual Memory Statistics: (page size: '' header)
       (strip_suffix '' bytes)'')"

definition parse_vm_stat :: "string \<Rightarrow> (resource_probe_error, u64 \<times> u64 \<times> u64 \<times> u64 \<times> u64) result" where
  "parse_vm_stat input =
     and_then (from_utf8 input) (\<lambda>text.
       case str_lines text of
         [] \<Rightarrow> Err PrbMalformedOutput
       | header # rest \<Rightarrow>
           and_then (malformed (page_size_of header)) (\<lambda>ds.
           and_then (malformed (parse_uint ds)) (\<lambda>page_size.
           if page_size = 0 then Err PrbMalformedOutput
           else
             and_then (try_fold vm_stat_step no_slots rest) (\<lambda>sl.
             and_then (malformed (vm_free sl)) (\<lambda>free.
             and_then (malformed (vm_speculative sl)) (\<lambda>speculative.
             and_then (malformed (vm_inactive sl)) (\<lambda>inactive.
             and_then (malformed (vm_compressor sl)) (\<lambda>compressor.
             Ok (page_size, free, speculative, inactive, compressor)))))))))"

definition parse_memsize :: "string \<Rightarrow> (resource_probe_error, u64) result" where
  "parse_memsize input =
     and_then (from_utf8 input) (\<lambda>text.
       let text = trim text
       in if text = [] \<or> \<not> digits text then Err PrbMalformedOutput
          else and_then (malformed (parse_uint text)) (\<lambda>v.
               if v = 0 then Err PrbMalformedOutput else Ok v))"

definition size_multiplier :: "string \<Rightarrow> u128 option" where
  "size_multiplier unit =
     (if unit = ''B'' then Some 1
      else if unit = ''K'' then Some (2 ^ 10)
      else if unit = ''M'' then Some (2 ^ 20)
      else if unit = ''G'' then Some (2 ^ 30)
      else if unit = ''T'' then Some (2 ^ 40)
      else None)"

text \<open>\<^verbatim>\<open>u64::try_from\<close> of a \<^verbatim>\<open>u128\<close>.\<close>

definition u64_try_from :: "u128 \<Rightarrow> u64 option" where
  "u64_try_from n = (if unat n < 2 ^ 64 then Some (ucast n) else None)"

definition size_numerator :: "string \<Rightarrow> string \<Rightarrow> u128 \<Rightarrow> (resource_probe_error, u128) result" where
  "size_numerator whole fraction scale =
     and_then (malformed (parse_uint whole :: u64 option)) (\<lambda>w.
     ok_or PrbOverflow
       (Option.bind (checked_mul (ucast w) scale) (\<lambda>v.
        Option.bind (parse_uint fraction :: u64 option) (\<lambda>f. checked_add v (ucast f)))))"

definition parse_size :: "string \<Rightarrow> (resource_probe_error, u64) result" where
  "parse_size v =
     (case split_at (length v - 1) v of
        None \<Rightarrow> Err (PrbPanic ''split_at inside a character'')
      | Some (number, unit) \<Rightarrow>
          and_then (malformed (size_multiplier unit)) (\<lambda>multiplier.
          and_then (malformed (split_once (CHR ''.'') number)) (\<lambda>(whole, fraction).
          if whole = [] \<or> fraction = [] \<or> length fraction > 2 \<or> \<not> digits whole \<or> \<not> digits fraction
          then Err PrbMalformedOutput
          else
            let scale = 10 ^ length fraction
            in and_then (size_numerator whole fraction scale) (\<lambda>numerator.
               and_then (ok_or PrbOverflow (checked_mul numerator multiplier)) (\<lambda>n.
               ok_or PrbOverflow (u64_try_from (n div scale)))))))"

definition is_ascii_whitespace :: "char \<Rightarrow> bool" where
  "is_ascii_whitespace c \<longleftrightarrow> byte_val c \<in> {9, 10, 12, 13, 32}"

definition swap_layout :: "string list \<Rightarrow> bool" where
  "swap_layout ts \<longleftrightarrow>
     ts ! 0 = ''total'' \<and> ts ! 1 = ''='' \<and> ts ! 3 = ''used'' \<and> ts ! 4 = ''='' \<and>
     ts ! 6 = ''free'' \<and> ts ! 7 = ''='' \<and> (length ts = 10 \<longrightarrow> ts ! 9 = ''(encrypted)'')"

definition abs_diff :: "u64 \<Rightarrow> u64 \<Rightarrow> u64" where
  "abs_diff a b = (if a < b then b - a else a - b)"

definition parse_swap_usage :: "string \<Rightarrow> (resource_probe_error, u64 \<times> u64) result" where
  "parse_swap_usage input =
     and_then (from_utf8 input) (\<lambda>text.
     case strip_prefix ''vm.swapusage:'' text of
       None \<Rightarrow> Err PrbMalformedOutput
     | Some rest \<Rightarrow>
         if rest = [] \<or> \<not> is_ascii_whitespace (hd rest) then Err PrbMalformedOutput
         else
           let ts = split_whitespace rest
           in if length ts \<noteq> 9 \<and> length ts \<noteq> 10 then Err PrbMalformedOutput
              else if \<not> swap_layout ts then Err PrbMalformedOutput
              else
                and_then (parse_size (ts ! 2)) (\<lambda>tot.
                and_then (parse_size (ts ! 5)) (\<lambda>used.
                and_then (parse_size (ts ! 8)) (\<lambda>free.
                and_then (ok_or PrbOverflow (checked_add used free)) (\<lambda>sum.
                if abs_diff sum tot > 1 then Err PrbContradictorySnapshot else Ok (tot, used))))))"

section \<open>Sampling\<close>

datatype resource_command = MemoryPressure | VmStat | MemSize | SwapUsage

definition command_program :: "resource_command \<Rightarrow> string" where
  "command_program c =
     (case c of MemoryPressure \<Rightarrow> ''/usr/bin/memory_pressure'' | VmStat \<Rightarrow> ''/usr/bin/vm_stat''
      | MemSize \<Rightarrow> ''/usr/sbin/sysctl'' | SwapUsage \<Rightarrow> ''/usr/sbin/sysctl'')"

definition command_argv :: "resource_command \<Rightarrow> string list" where
  "command_argv c =
     (case c of MemoryPressure \<Rightarrow> [''-Q''] | VmStat \<Rightarrow> [] | MemSize \<Rightarrow> [''-n'', ''hw.memsize'']
      | SwapUsage \<Rightarrow> [''vm.swapusage''])"

definition pages_to_bytes :: "u64 \<Rightarrow> u64 \<Rightarrow> (resource_probe_error, u64) result" where
  "pages_to_bytes pages page_size = ok_or PrbOverflow (checked_mul pages page_size)"

definition probe_sample ::
    "(resource_command \<Rightarrow> (resource_probe_error, string) result) \<Rightarrow> (resource_probe_error, resource_snapshot) result" where
  "probe_sample run =
     and_then (run MemoryPressure) (\<lambda>memory_pressure.
     and_then (run VmStat) (\<lambda>vm_stat.
     and_then (run MemSize) (\<lambda>memsize.
     and_then (run SwapUsage) (\<lambda>swap_usage.
     and_then (parse_memory_pressure memory_pressure) (\<lambda>available_percent.
     and_then (parse_vm_stat vm_stat) (\<lambda>(page_size, free, speculative, inactive, compressor).
     and_then (parse_memsize memsize) (\<lambda>total_memory_bytes.
     and_then (parse_swap_usage swap_usage) (\<lambda>(swap_total_bytes, swap_used_bytes).
     and_then (ok_or PrbOverflow (Option.bind (checked_add free speculative) (\<lambda>n. checked_add n inactive))) (\<lambda>pages.
     and_then (pages_to_bytes pages page_size) (\<lambda>reclaimable.
     and_then (pages_to_bytes compressor page_size) (\<lambda>compressed.
     let snapshot =
       \<lparr>rs_available_percent = available_percent, rs_reclaimable_uncompressed_bytes = reclaimable,
        rs_compressor_occupied_bytes = compressed, rs_total_memory_bytes = total_memory_bytes,
        rs_swap_used_bytes = swap_used_bytes, rs_swap_total_bytes = swap_total_bytes\<rparr>
     in and_then (snapshot_validate snapshot) (\<lambda>_. Ok snapshot))))))))))))"

section \<open>The runner on the supervisor\<close>

definition resource_identity :: run_identity where
  "resource_identity =
     \<lparr>ri_project = ''commit-ci-preflight.resource-guard'', ri_commit = None,
      ri_config_digest = ''resource-guard-v1'', ri_generation = ''resource-guard-v1''\<rparr>"

definition resource_request :: "string \<Rightarrow> resource_command \<Rightarrow> process_request" where
  "resource_request current_dir c =
     \<lparr>rq_identity = resource_identity, rq_program = command_program c, rq_argv = command_argv c,
      rq_current_dir = current_dir, rq_environment = [], rq_timeout = RESOURCE_COMMAND_TIMEOUT,
      rq_max_capture_bytes = RESOURCE_CAPTURE_BYTES\<rparr>"

text \<open>
  \<open>execute\<close> is the supervisor; it also says what the shared cancellation token holds afterwards.
\<close>

definition resource_run ::
    "(process_request \<Rightarrow> generation_guard \<Rightarrow> (process_error, process_result) result \<times> cancellation_token) \<Rightarrow>
       string \<Rightarrow> resource_command \<Rightarrow> (resource_probe_error, string) result" where
  "resource_run execute current_dir c =
     (let (r, token) = execute (resource_request current_dir c) (generation_guard_new resource_identity)
      in and_then (map_err PrbProcess r) (\<lambda>result.
         if ps_termination result = Cancelled \<and> token_reason token = Some User then Err PrbCancelled
         else if ps_termination result \<noteq> Completed then Err PrbCommandFailed
         else if ps_cleanup result \<noteq> Verified \<or> map_option eo_success (ps_exit result) \<noteq> Some True \<or>
                 cs_truncated (ps_stdout result) \<or> cs_truncated (ps_stderr result)
         then Err PrbCommandFailed
         else Ok (cs_bytes (ps_stdout result))))"

section \<open>Status\<close>

datatype resource_capability = SupportedEnforced | UnsupportedNotEnforced

datatype resource_decision = DecAdmit | DecDeny | DecClear | DecSoftPressure | DecHardPressure | DecUnknown

datatype resource_platform = MacOs | Unsupported

record resource_status_v1 =
  st_schema_version :: string
  st_policy_version :: string
  st_platform :: string
  st_capability :: resource_capability
  st_decision :: resource_decision
  st_available_percent :: "u8 option"
  st_reclaimable_uncompressed_bytes :: "u64 option"
  st_compressor_occupied_bytes :: "u64 option"
  st_total_memory_bytes :: "u64 option"
  st_swap_used_bytes :: "u64 option"
  st_swap_total_bytes :: "u64 option"
  st_consecutive_soft_samples :: u8

text \<open>The name of the target system is a parameter, as \<^verbatim>\<open>std::env::consts::OS\<close> is.\<close>

definition platform_current :: "string \<Rightarrow> resource_platform" where
  "platform_current os = (if os = ''macos'' then MacOs else Unsupported)"

definition platform_as_str :: "string \<Rightarrow> resource_platform \<Rightarrow> string" where
  "platform_as_str os p = (case p of MacOs \<Rightarrow> ''macos'' | Unsupported \<Rightarrow> os)"

definition status_with_capability :: "string \<Rightarrow> resource_capability \<Rightarrow> resource_status_v1" where
  "status_with_capability os capability =
     \<lparr>st_schema_version = RESOURCE_SCHEMA_VERSION, st_policy_version = MACOS_POLICY_VERSION,
      st_platform = platform_as_str os (platform_current os), st_capability = capability,
      st_decision = DecUnknown, st_available_percent = None, st_reclaimable_uncompressed_bytes = None,
      st_compressor_occupied_bytes = None, st_total_memory_bytes = None, st_swap_used_bytes = None,
      st_swap_total_bytes = None, st_consecutive_soft_samples = 0\<rparr>"

definition unsupported_status :: "string \<Rightarrow> resource_status_v1" where
  "unsupported_status os = status_with_capability os UnsupportedNotEnforced"

definition unknown_status :: "string \<Rightarrow> resource_status_v1" where
  "unknown_status os = status_with_capability os SupportedEnforced"

definition status_from_snapshot :: "resource_snapshot \<Rightarrow> (resource_probe_error, resource_status_v1) result" where
  "status_from_snapshot s =
     and_then (snapshot_validate s) (\<lambda>_.
     and_then (evaluate_pre_start s) (\<lambda>d.
     Ok \<lparr>st_schema_version = RESOURCE_SCHEMA_VERSION, st_policy_version = MACOS_POLICY_VERSION,
         st_platform = ''macos'', st_capability = SupportedEnforced,
         st_decision = (case d of Admit \<Rightarrow> DecAdmit | Deny \<Rightarrow> DecDeny),
         st_available_percent = Some (rs_available_percent s),
         st_reclaimable_uncompressed_bytes = Some (rs_reclaimable_uncompressed_bytes s),
         st_compressor_occupied_bytes = Some (rs_compressor_occupied_bytes s),
         st_total_memory_bytes = Some (rs_total_memory_bytes s),
         st_swap_used_bytes = Some (rs_swap_used_bytes s),
         st_swap_total_bytes = Some (rs_swap_total_bytes s), st_consecutive_soft_samples = 0\<rparr>))"

text \<open>\<^verbatim>\<open>ResourceGuardError\<close> and its exit code.\<close>

datatype resource_guard_error =
    GrdPreStartDenied
  | GrdProbe resource_probe_error
  | GrdWatchdog resource_probe_error
  | GrdWatchdogTripped watchdog_trip_reason

definition guard_exit_code :: "resource_guard_error \<Rightarrow> int" where
  "guard_exit_code e = 6"

end
