(* ===== verification/Resource_Correct.thy ===== *)
theory Resource_Correct
  imports Resource_Probe
begin

text \<open>
  Lemmas on the resource guard: exactness of the wide arithmetic, the watchdog's counter and window
  against the sample history they stand for, and what the thread loop keeps.
\<close>

section \<open>Snapshots\<close>

lemma unat_ucast_mult_u128:
  fixes v :: u64 and p :: u8
  shows "unat ((ucast v :: u128) * ucast p) = unat v * unat p"
proof -
  have v: "unat v < 2 ^ 64" using unsigned_less [of v] by simp
  have p: "unat p < 2 ^ 8" using unsigned_less [of p] by simp
  from v p have "unat v * unat p < 2 ^ 64 * 2 ^ 8" by (intro mult_strict_mono) auto
  then have "unat v * unat p < 2 ^ 128" by simp
  moreover have "unat (ucast v :: u128) = unat v" "unat (ucast p :: u128) = unat p"
    using v p by (simp_all add: unsigned_ucast_eq take_bit_nat_eq_self)
  ultimately show ?thesis by (simp add: unat_word_ariths)
qed

lemma ratio_at_least_iff: "ratio_at_least v t p \<longleftrightarrow> unat t * unat p \<le> unat v * 100"
proof -
  have "unat ((ucast v :: u128) * 100) = unat v * 100"
    using unat_ucast_mult_u128 [of v 100] by simp
  then show ?thesis by (simp add: ratio_at_least_def word_le_nat_alt unat_ucast_mult_u128)
qed

lemma snapshot_validate_iff:
  "snapshot_validate s = Ok u \<longleftrightarrow>
     rs_available_percent s \<le> 100 \<and> 0 < rs_total_memory_bytes s \<and>
     rs_reclaimable_uncompressed_bytes s \<le> rs_total_memory_bytes s \<and>
     rs_compressor_occupied_bytes s \<le> rs_total_memory_bytes s \<and>
     rs_swap_used_bytes s \<le> rs_swap_total_bytes s"
  by (auto simp: snapshot_validate_def MAX_PERCENT_def not_less word_gt_0)

lemma probe_sample_valid: "probe_sample run = Ok s \<Longrightarrow> snapshot_validate s = Ok ()"
  by (auto simp: probe_sample_def Let_def result_simps)

section \<open>The history the watchdog stands for\<close>

definition swap_grew :: "resource_snapshot list \<Rightarrow> nat \<Rightarrow> bool" where
  "swap_grew xs i \<longleftrightarrow>
     15 \<le> i \<and> unat (rs_swap_used_bytes (xs ! (i - 15))) + 1024 ^ 3 \<le> unat (rs_swap_used_bytes (xs ! i))"

definition soft_at :: "resource_snapshot list \<Rightarrow> nat \<Rightarrow> bool" where
  "soft_at xs i \<longleftrightarrow> soft_signals (xs ! i) (swap_grew xs i) \<ge> SOFT_REQUIRED_SIGNALS"

definition trips_at :: "resource_snapshot list \<Rightarrow> nat \<Rightarrow> bool" where
  "trips_at xs i \<longleftrightarrow> is_hard (xs ! i) \<or> 14 \<le> i \<and> (\<forall>k\<in>{i - 14..i}. soft_at xs k)"

text \<open>The first sample that is under hard pressure or ends fifteen soft samples in a row decides.\<close>

definition expected_trip :: "resource_snapshot list \<Rightarrow> watchdog_trip_reason option" where
  "expected_trip xs =
     map_option (\<lambda>i. if is_hard (xs ! i) then HardPressure else SoftPressure)
       (find (trips_at xs) [0..<length xs])"

definition observe_all :: "resource_snapshot list \<Rightarrow> watchdog_state \<Rightarrow> watchdog_state" where
  "observe_all xs st = fold (\<lambda>s st. snd (watchdog_observe s st)) xs st"

definition soft_run :: "resource_snapshot list \<Rightarrow> nat" where
  "soft_run xs = length (takeWhile (soft_at xs) (rev [0..<length xs]))"

lemma prefix_at:
  assumes "i < length xs"
  shows "soft_at (xs @ ys) i = soft_at xs i" and "trips_at (xs @ ys) i = trips_at xs i"
proof -
  have "swap_grew (xs @ ys) k = swap_grew xs k" if "k < length xs" for k
    using that by (auto simp: swap_grew_def nth_append)
  then have *: "soft_at (xs @ ys) k = soft_at xs k" if "k < length xs" for k
    using that by (auto simp: soft_at_def nth_append)
  with assms show "soft_at (xs @ ys) i = soft_at xs i" and "trips_at (xs @ ys) i = trips_at xs i"
    by (auto simp: trips_at_def nth_append)
qed

lemma find_append: "find P (xs @ ys) = (case find P xs of None \<Rightarrow> find P ys | Some x \<Rightarrow> Some x)"
  by (induction xs) auto

lemma expected_trip_snoc:
  "expected_trip (xs @ [x]) =
     (case expected_trip xs of
        Some r \<Rightarrow> Some r
      | None \<Rightarrow> if is_hard x then Some HardPressure
               else if trips_at (xs @ [x]) (length xs) then Some SoftPressure else None)"
proof -
  have "find (trips_at (xs @ [x])) [0..<length xs] = find (trips_at xs) [0..<length xs]"
    by (rule find_cong) (auto simp: prefix_at)
  moreover have "i < length xs" if "find (trips_at xs) [0..<length xs] = Some i" for i
    using that by (auto simp: find_Some_iff)
  ultimately show ?thesis
    by (auto simp: expected_trip_def find_append nth_append trips_at_def split: option.splits)
qed

lemma soft_run_snoc:
  "soft_run (xs @ [x]) = (if soft_at (xs @ [x]) (length xs) then Suc (soft_run xs) else 0)"
proof -
  have "takeWhile (soft_at (xs @ [x])) (rev [0..<length xs]) = takeWhile (soft_at xs) (rev [0..<length xs])"
    by (rule takeWhile_cong) (auto simp: prefix_at)
  then show ?thesis by (simp add: soft_run_def)
qed

lemma le_length_takeWhile: "n \<le> length (takeWhile P xs) \<longleftrightarrow> n \<le> length xs \<and> (\<forall>j<n. P (xs ! j))"
proof (induction xs arbitrary: n)
  case (Cons x xs)
  show ?case
  proof (cases n)
    case (Suc m)
    then show ?thesis using Cons.IH [of m] by (auto simp: less_Suc_eq_0_disj)
  qed simp
qed auto

lemma soft_run_ge: "n \<le> soft_run xs \<longleftrightarrow> n \<le> length xs \<and> (\<forall>k. length xs - n \<le> k \<and> k < length xs \<longrightarrow> soft_at xs k)"
proof -
  have "(\<forall>j<n. soft_at xs (rev [0..<length xs] ! j)) \<longleftrightarrow>
      (\<forall>k. length xs - n \<le> k \<and> k < length xs \<longrightarrow> soft_at xs k)" if n: "n \<le> length xs"
  proof
    assume L: "\<forall>j<n. soft_at xs (rev [0..<length xs] ! j)"
    show "\<forall>k. length xs - n \<le> k \<and> k < length xs \<longrightarrow> soft_at xs k"
    proof (intro allI impI)
      fix k assume k: "length xs - n \<le> k \<and> k < length xs"
      then have "length xs - Suc k < n" using n by linarith
      with L have "soft_at xs (rev [0..<length xs] ! (length xs - Suc k))" by blast
      moreover have "rev [0..<length xs] ! (length xs - Suc k) = k" using k by (subst rev_nth) auto
      ultimately show "soft_at xs k" by simp
    qed
  next
    assume R: "\<forall>k. length xs - n \<le> k \<and> k < length xs \<longrightarrow> soft_at xs k"
    show "\<forall>j<n. soft_at xs (rev [0..<length xs] ! j)"
    proof (intro allI impI)
      fix j assume "j < n"
      then have "length xs - n \<le> length xs - Suc j \<and> length xs - Suc j < length xs" using n by linarith
      with R have "soft_at xs (length xs - Suc j)" by blast
      then show "soft_at xs (rev [0..<length xs] ! j)" using \<open>j < n\<close> n by (simp add: rev_nth)
    qed
  qed
  then show ?thesis by (auto simp: soft_run_def le_length_takeWhile)
qed

lemma trips_at_last:
  assumes "\<not> is_hard x"
  shows "trips_at (xs @ [x]) (length xs) \<longleftrightarrow> 15 \<le> soft_run (xs @ [x])"
  using assms by (auto simp: trips_at_def soft_run_ge nth_append)

section \<open>The state follows the history\<close>

abbreviation swaps :: "resource_snapshot list \<Rightarrow> u64 list" where
  "swaps \<equiv> map rs_swap_used_bytes"

lemma push_window_swaps:
  "push_window (drop (length xs - 16) (swaps xs)) (rs_swap_used_bytes x) =
     drop (length xs - 15) (swaps (xs @ [x]))"
proof (cases "length xs < 16")
  case True
  then show ?thesis by (simp add: push_window_def SOFT_TREND_WINDOW_SAMPLES_def Let_def)
next
  case False
  then have "drop (length xs - 16) (swaps xs) \<noteq> []" and n: "length xs - 15 = Suc (length xs - 16)" by auto
  with False show ?thesis
    by (simp add: push_window_def SOFT_TREND_WINDOW_SAMPLES_def Let_def tl_drop drop_Suc [symmetric] n)
qed

lemma swap_growth_swaps:
  "swap_growth (drop (length xs - 15) (swaps (xs @ [x]))) x \<longleftrightarrow> swap_grew (xs @ [x]) (length xs)"
proof -
  have "hd (drop (length xs - 15) (swaps (xs @ [x]))) = rs_swap_used_bytes ((xs @ [x]) ! (length xs - 15))"
    by (simp add: hd_drop_conv_nth del: map_append)
  then show ?thesis
    by (auto simp: swap_growth_def swap_grew_def SOFT_TREND_WINDOW_SAMPLES_def SOFT_SWAP_GROWTH_BYTES_def
        word_le_nat_alt unat_saturating_sub nth_append simp del: map_append)
qed

definition watchdog_follows :: "resource_snapshot list \<Rightarrow> watchdog_state \<Rightarrow> bool" where
  "watchdog_follows xs st \<longleftrightarrow>
     ws_first_trip st = expected_trip xs \<and>
     (expected_trip xs = None \<longrightarrow>
        ws_swap_window st = drop (length xs - 16) (swaps xs) \<and>
        unat (ws_consecutive_soft_samples st) = soft_run xs \<and> soft_run xs < 15)"

lemma watchdog_follows_step:
  assumes f: "watchdog_follows xs st" and v: "snapshot_validate x = Ok ()"
  shows "watchdog_follows (xs @ [x]) (snd (watchdog_observe x st))"
proof (cases "expected_trip xs")
  case (Some r)
  with f v show ?thesis by (simp add: watchdog_follows_def watchdog_observe_def expected_trip_snoc)
next
  case None
  with f have t: "ws_first_trip st = None" and w: "ws_swap_window st = drop (length xs - 16) (swaps xs)"
    and c: "unat (ws_consecutive_soft_samples st) = soft_run xs" and l: "soft_run xs < 15"
    by (simp_all add: watchdog_follows_def)
  note win = push_window_swaps [of xs x]
  have soft: "soft_signals x (swap_growth (drop (length xs - 15) (swaps (xs @ [x]))) x)
      \<ge> SOFT_REQUIRED_SIGNALS \<longleftrightarrow> soft_at (xs @ [x]) (length xs)"
    by (simp add: swap_growth_swaps soft_at_def del: map_append)
  have next_count: "unat (saturating_add (ws_consecutive_soft_samples st) 1) = Suc (soft_run xs)"
    using c l by (simp add: unat_saturating_add)
  then have lim: "saturating_add (ws_consecutive_soft_samples st) 1 \<ge> SOFT_CONSECUTIVE_SAMPLES \<longleftrightarrow> 15 \<le> Suc (soft_run xs)"
    by (simp add: SOFT_CONSECUTIVE_SAMPLES_def word_le_nat_alt)
  show ?thesis
    using t None v next_count lim l trips_at_last [of x xs]
    by (simp add: watchdog_follows_def watchdog_observe_def Let_def soft expected_trip_snoc soft_run_snoc
        w win del: map_append)
qed

lemma watchdog_follows_history:
  assumes "\<forall>s\<in>set xs. snapshot_validate s = Ok ()"
  shows "watchdog_follows xs (observe_all xs watchdog_default)"
  using assms
proof (induction xs rule: rev_induct)
  case Nil
  then show ?case
    by (simp add: watchdog_follows_def observe_all_def watchdog_default_def expected_trip_def soft_run_def)
next
  case (snoc x xs)
  then show ?case using watchdog_follows_step [of xs "observe_all xs watchdog_default" x]
    by (simp add: observe_all_def)
qed

section \<open>The thread loop\<close>

definition turn_valid :: "watchdog_tick \<Rightarrow> bool" where
  "turn_valid t = (case wt_sample t of Inl _ \<Rightarrow> True | Inr s \<Rightarrow> snapshot_validate s = Ok ())"

text \<open>The thread after a sequence of turns, each with a valid snapshot or a failed sample.\<close>

inductive watchdog_reach :: "cancellation_token \<Rightarrow> resource_observation_summary option \<Rightarrow> watchdog_tick list \<Rightarrow> watchdog \<Rightarrow> bool"
  for token obs where
  start: "watchdog_reach token obs [] (watchdog_start token obs)"
| turn: "watchdog_reach token obs ts w \<Longrightarrow> turn_valid t \<Longrightarrow> watchdog_reach token obs (ts @ [t]) (watchdog_turn t w)"

definition sample_panicked :: "watchdog_tick \<Rightarrow> bool" where
  "sample_panicked t \<longleftrightarrow> (\<exists>msg. wt_sample t = Inl (PrbPanic msg))"

lemma watchdog_observe_Ok:
  "snapshot_validate s = Ok () \<Longrightarrow> \<exists>d. fst (watchdog_observe s st) = Ok d"
  by (auto simp: watchdog_observe_def Let_def split: option.splits)

lemma watchdog_observe_window:
  "length (ws_swap_window st) \<le> 16 \<Longrightarrow> length (ws_swap_window (snd (watchdog_observe s st))) \<le> 16"
  by (auto simp: watchdog_observe_def Let_def push_window_def SOFT_TREND_WINDOW_SAMPLES_def split: sum.splits option.splits)

lemma watchdog_sample_Ok:
  assumes "turn_valid t" and "\<not> sample_panicked t"
  obtains d w' where "watchdog_sample (wt_sample t) w = (Ok d, w')" and "wd_trip w' = wd_trip w"
    and "wd_token w' = wd_token w" and "wd_done w' = wd_done w" and "wd_panicked w' = wd_panicked w"
    and "length (ws_swap_window (wd_state w)) \<le> 16 \<longrightarrow> length (ws_swap_window (wd_state w')) \<le> 16"
proof (cases "wt_sample t")
  case (Inl e)
  then show ?thesis using that assms(2) by (cases e) (auto simp: watchdog_sample_def sample_panicked_def)
next
  case (Inr s)
  with assms have "snapshot_validate s = Ok ()" by (simp add: turn_valid_def)
  from watchdog_observe_Ok [OF this, of "wd_state w"] obtain d where
    "fst (watchdog_observe s (wd_state w)) = Ok d" by blast
  then obtain st where st: "watchdog_observe s (wd_state w) = (Ok d, st)" by (cases "watchdog_observe s (wd_state w)") auto
  then show ?thesis using that Inr watchdog_observe_window [of "wd_state w" s] by (simp add: watchdog_sample_def)
qed

lemma user_cancels_facts [simp]:
  "wd_trip (user_cancels c w) = wd_trip w" "wd_done (user_cancels c w) = wd_done w"
  "wd_panicked (user_cancels c w) = wd_panicked w" "wd_state (user_cancels c w) = wd_state w"
  "wd_token (user_cancels c w) = (if c then cancel (wd_token w) else wd_token w)"
  by (simp_all add: user_cancels_def)

definition watchdog_inv :: "watchdog \<Rightarrow> bool" where
  "watchdog_inv w \<longleftrightarrow>
     (wd_panicked w \<longrightarrow> wd_done w \<and> wd_trip w = None) \<and>
     (wd_trip w \<noteq> None \<longrightarrow> wd_done w \<and> is_cancelled (wd_token w)) \<and>
     (token_reason (wd_token w) = Some ResourcePressure \<longrightarrow> wd_trip w \<noteq> None) \<and>
     length (ws_swap_window (wd_state w)) \<le> 16"

lemma token_reason_cancel [simp]:
  "token_reason (cancel t) = Some ResourcePressure \<longleftrightarrow> token_reason t = Some ResourcePressure"
  unfolding cancel_def token_reason_set by (simp add: is_cancelled_def token_reason_def)

lemma watchdog_turn_inv:
  assumes i: "watchdog_inv w" and v: "turn_valid t"
  shows "watchdog_inv (watchdog_turn t w) \<and> (wd_panicked (watchdog_turn t w) \<longrightarrow> wd_panicked w \<or> sample_panicked t)"
proof (cases "wd_done w \<or> wt_stop_before t \<or> wt_stop_after t \<or>
    token_reason (wd_token (user_cancels (wt_cancel_before t) w)) = Some User")
  case True
  with i show ?thesis
    by (auto simp: watchdog_turn_def Let_def watchdog_inv_def cancel_def is_cancelled_set split: if_splits)
next
  case False
  let ?w = "user_cancels (wt_cancel_before t) w"
  show ?thesis
  proof (cases "sample_panicked t")
    case True
    then obtain msg where "watchdog_sample (wt_sample t) ?w = (Err (PrbPanic msg), ?w)"
      by (auto simp: sample_panicked_def watchdog_sample_def)
    with False True i show ?thesis
      by (auto simp: watchdog_turn_def Let_def watchdog_inv_def)
  next
    case calm: False
    obtain d w' where w': "watchdog_sample (wt_sample t) ?w = (Ok d, w')" "wd_trip w' = wd_trip w"
      "wd_token w' = wd_token ?w" "wd_done w' = wd_done w" "wd_panicked w' = wd_panicked w"
      "length (ws_swap_window (wd_state w)) \<le> 16 \<longrightarrow> length (ws_swap_window (wd_state w')) \<le> 16"
      using watchdog_sample_Ok [OF v calm, of ?w] by (metis user_cancels_facts(1-4))
    with False i show ?thesis
      by (cases d) (auto simp: watchdog_turn_def Let_def watchdog_inv_def cancel_resource_pressure_def split: if_splits)
  qed
qed

lemma watchdog_reach_inv:
  "watchdog_reach token obs ts w \<Longrightarrow> token_reason token \<noteq> Some ResourcePressure \<Longrightarrow>
     watchdog_inv w \<and> (wd_panicked w \<longrightarrow> (\<exists>t\<in>set ts. sample_panicked t))"
proof (induction rule: watchdog_reach.induct)
  case start
  then show ?case by (simp add: watchdog_start_def watchdog_inv_def watchdog_default_def)
next
  case (turn ts w t)
  then show ?case using watchdog_turn_inv [of w t] by auto
qed

text \<open>A turn nobody disturbs.\<close>

definition quiet_turn :: "resource_snapshot \<Rightarrow> watchdog_tick" where
  "quiet_turn s =
     \<lparr>wt_stop_before = False, wt_stop_after = False, wt_cancel_before = False, wt_cancel_during = False,
      wt_sample = Ok s\<rparr>"

definition watchdog_run :: "resource_observation_summary option \<Rightarrow> resource_snapshot list \<Rightarrow> watchdog" where
  "watchdog_run obs xs = fold watchdog_turn (map quiet_turn xs) (watchdog_start 0 obs)"

lemma watchdog_observe_decision:
  "snapshot_validate s = Ok () \<Longrightarrow>
     fst (watchdog_observe s st) =
       Ok (case ws_first_trip (snd (watchdog_observe s st)) of None \<Rightarrow> Continue | Some r \<Rightarrow> Tripped r)"
  by (auto simp: watchdog_observe_def Let_def split: option.splits)

lemma watchdog_run_state:
  assumes "\<forall>s\<in>set xs. snapshot_validate s = Ok ()"
  shows "wd_trip (watchdog_run obs xs) = expected_trip xs \<and>
    (if expected_trip xs = None
     then \<not> wd_done (watchdog_run obs xs) \<and> wd_token (watchdog_run obs xs) = 0 \<and>
       wd_state (watchdog_run obs xs) = observe_all xs watchdog_default
     else wd_done (watchdog_run obs xs) \<and> wd_token (watchdog_run obs xs) = 2)"
  using assms
proof (induction xs rule: rev_induct)
  case Nil
  then show ?case by (simp add: watchdog_run_def watchdog_start_def expected_trip_def observe_all_def)
next
  case (snoc x xs)
  let ?w = "watchdog_run obs xs" and ?st = "observe_all xs watchdog_default"
  have run: "watchdog_run obs (xs @ [x]) = watchdog_turn (quiet_turn x) ?w" by (simp add: watchdog_run_def)
  from snoc.prems have v: "snapshot_validate x = Ok ()" by simp
  show ?case
  proof (cases "expected_trip xs")
    case (Some r)
    with snoc show ?thesis by (simp add: run watchdog_turn_def expected_trip_snoc)
  next
    case None
    with snoc have w: "\<not> wd_done ?w" "wd_token ?w = 0" "wd_state ?w = ?st" "wd_trip ?w = None" by auto
    have next_st: "snd (watchdog_observe x ?st) = observe_all (xs @ [x]) watchdog_default"
      by (simp add: observe_all_def)
    have "ws_first_trip (observe_all (xs @ [x]) watchdog_default) = expected_trip (xs @ [x])"
      using watchdog_follows_history [OF snoc.prems] by (simp add: watchdog_follows_def)
    with watchdog_observe_decision [OF v, of ?st] next_st
    have "watchdog_observe x ?st =
        (Ok (case expected_trip (xs @ [x]) of None \<Rightarrow> Continue | Some r \<Rightarrow> Tripped r), observe_all (xs @ [x]) watchdog_default)"
      by (simp add: prod_eq_iff)
    with w show ?thesis
      by (simp add: run watchdog_turn_def Let_def quiet_turn_def watchdog_sample_def token_reason_def user_cancels_def
          cancel_resource_pressure_def set_reason_def reason_code_def split: option.splits)
  qed
qed

section \<open>The observation summary\<close>

lemma fold_max_min:
  fixes f :: "'b \<Rightarrow> 'a::linorder"
  shows "fold (\<lambda>x. max (f x)) xs a = Max (insert a (f ` set xs))"
    and "fold (\<lambda>x. min (f x)) xs a = Min (insert a (f ` set xs))"
proof -
  have "fold max (map f xs) a = Max (set (a # map f xs))" by (rule Max.set_eq_fold [symmetric])
  then show "fold (\<lambda>x. max (f x)) xs a = Max (insert a (f ` set xs))" by (simp add: fold_map comp_def)
  have "fold min (map f xs) a = Min (set (a # map f xs))" by (rule Min.set_eq_fold [symmetric])
  then show "fold (\<lambda>x. min (f x)) xs a = Min (insert a (f ` set xs))" by (simp add: fold_map comp_def)
qed

lemma observation_fold:
  "fold observation_record xs sm =
     sm\<lparr>os_last_snapshot := last (os_last_snapshot sm # xs),
       os_sample_count := fold (\<lambda>_ n. saturating_add n 1) xs (os_sample_count sm),
       os_minimum_available_percent := fold (\<lambda>s. min (rs_available_percent s)) xs (os_minimum_available_percent sm),
       os_minimum_reclaimable_uncompressed_bytes :=
         fold (\<lambda>s. min (rs_reclaimable_uncompressed_bytes s)) xs (os_minimum_reclaimable_uncompressed_bytes sm),
       os_maximum_compressor_occupied_bytes :=
         fold (\<lambda>s. max (rs_compressor_occupied_bytes s)) xs (os_maximum_compressor_occupied_bytes sm),
       os_maximum_swap_used_bytes := fold (\<lambda>s. max (rs_swap_used_bytes s)) xs (os_maximum_swap_used_bytes sm)\<rparr>"
  by (induction xs arbitrary: sm) (simp_all add: observation_record_def min.commute max.commute)

lemma saturating_count: "unat (fold (\<lambda>_ n. saturating_add n 1) xs (n :: u64)) = min (unat n + length xs) (2 ^ 64 - 1)"
proof (induction xs arbitrary: n)
  case Nil
  have "unat n < 2 ^ 64" using unsigned_less [of n, where ?'a = nat] by simp
  then show ?case by simp
next
  case (Cons x xs)
  then show ?case by (simp add: unat_saturating_add min_def)
qed

section \<open>Sizes\<close>

lemma size_multiplier_cases:
  "size_multiplier u = Some m \<Longrightarrow> unat m \<in> {1, 2 ^ 10, 2 ^ 20, 2 ^ 30, 2 ^ 40} \<and> length u = 1"
  by (auto simp: size_multiplier_def split: if_splits)

text \<open>The 128-bit intermediate values never overflow: 2 to the 64th times 100 times 2 to the 40th fits.\<close>

lemma size_numerator_eq:
  assumes d: "digits whole" "digits fraction" "whole \<noteq> []" "fraction \<noteq> []" "length fraction \<le> 2"
    and w: "dec_value whole < 2 ^ 64"
  obtains n where "size_numerator whole fraction (10 ^ length fraction) = Ok n"
    and "unat n = dec_value whole * 10 ^ length fraction + dec_value fraction" and "unat n < 2 ^ 72"
proof -
  let ?p = "10 ^ length fraction :: nat"
  have p: "?p \<le> 100" using d(5) power_increasing [of "length fraction" 2 "10::nat"] by simp
  have f: "dec_value fraction < ?p" using d(2) by (rule dec_value_less)
  have fu: "dec_value fraction < 2 ^ 64" using f p by simp
  define wd fd :: u64 where "wd = of_nat (dec_value whole)" and "fd = of_nat (dec_value fraction)"
  then have wd: "unat wd = dec_value whole" and fd: "unat fd = dec_value fraction"
    using w fu by (simp_all add: unat_of_nat)
  then have parse: "parse_uint whole = Some wd" "parse_uint fraction = Some fd"
    using d by (simp_all add: parse_uint_digits)
  have uw: "unat (ucast wd :: u128) = dec_value whole" "unat (ucast fd :: u128) = dec_value fraction"
    using wd fd w fu by (simp_all add: unsigned_ucast_eq take_bit_nat_eq_self)
  have "(10 ^ length fraction :: u128) = of_nat ?p" by simp
  then have up: "unat (10 ^ length fraction :: u128) = ?p" using p by (simp only: unat_of_nat) simp
  have b: "dec_value whole * ?p < 2 ^ 64 * 100"
    using w p by (meson le_less_trans mult_le_mono2 mult_less_cancel2 zero_less_numeral)
  define m :: u128 where "m = of_nat (dec_value whole * ?p)"
  define n :: u128 where "n = of_nat (dec_value whole * ?p + dec_value fraction)"
  have "unat m = dec_value whole * ?p" "unat n = dec_value whole * ?p + dec_value fraction"
    using b f p by (simp_all add: m_def n_def unat_of_nat del: of_nat_add of_nat_mult)
  moreover from this have "checked_mul (ucast wd) (10 ^ length fraction) = Some m" "checked_add m (ucast fd) = Some n"
    by (simp_all add: checked_mul_eq_Some_iff checked_add_eq_Some_iff uw up)
  ultimately show ?thesis
    using that [of n] b f p parse by (simp add: size_numerator_def)
qed

lemma parse_size_exact:
  assumes "parse_size v = Ok n"
  obtains whole fraction unit m where "v = whole @ ''.'' @ fraction @ unit" "size_multiplier unit = Some m"
    "digits whole" "digits fraction" "whole \<noteq> []" "fraction \<noteq> []" "length fraction \<le> 2"
    "unat n = (dec_value whole * 10 ^ length fraction + dec_value fraction) * unat m div 10 ^ length fraction"
proof -
  from assms obtain number unit m whole fraction where sp: "split_at (length v - 1) v = Some (number, unit)"
    and m: "size_multiplier unit = Some m" and dot: "split_once (CHR ''.'') number = Some (whole, fraction)"
    and d: "digits whole" "digits fraction" "whole \<noteq> []" "fraction \<noteq> []" "length fraction \<le> 2"
    and num: "and_then (size_numerator whole fraction (10 ^ length fraction)) (\<lambda>numerator.
         and_then (ok_or PrbOverflow (checked_mul numerator m)) (\<lambda>n.
         ok_or PrbOverflow (u64_try_from (n div 10 ^ length fraction)))) = Ok n"
    by (auto simp: parse_size_def Let_def result_simps split: option.splits)
  have v: "v = whole @ ''.'' @ fraction @ unit"
    using split_at_eq_Some [OF sp] dot by (simp add: split_once_eq_Some_iff)
  have "dec_value whole < 2 ^ 64"
  proof -
    from num obtain w :: u64 where "parse_uint whole = Some w" by (auto simp: size_numerator_def result_simps)
    with d have "unat w = dec_value whole" by (simp add: parse_uint_digits)
    then show ?thesis using unsigned_less [of w, where ?'a = nat] by simp
  qed
  from size_numerator_eq [OF d this] obtain k where k: "size_numerator whole fraction (10 ^ length fraction) = Ok k"
    "unat k = dec_value whole * 10 ^ length fraction + dec_value fraction" .
  with num obtain b where b: "unat b = unat k * unat m" "u64_try_from (b div 10 ^ length fraction) = Some n"
    by (auto simp: result_simps checked_mul_eq_Some_iff)
  have "(10 ^ length fraction :: u128) = of_nat (10 ^ length fraction)" by simp
  moreover have "(10::nat) ^ length fraction \<le> 100" using d(5) power_increasing [of "length fraction" 2 "10::nat"] by simp
  ultimately have "unat (10 ^ length fraction :: u128) = 10 ^ length fraction" by (simp only: unat_of_nat) simp
  with b have "unat n = unat k * unat m div 10 ^ length fraction"
    by (auto simp: u64_try_from_def unat_div unsigned_ucast_eq take_bit_nat_eq_self split: if_splits)
  with that v m d k(2) show ?thesis by simp
qed

text \<open>\<^verbatim>\<open>split_at\<close> stops the program on a last byte inside a multi-byte character.\<close>

lemma parse_size_panics:
  "(\<exists>msg. parse_size v = Err (PrbPanic msg)) \<longleftrightarrow> 1 < length v \<and> is_cont 128 191 (last v)"
proof -
  have numerator: "size_numerator a b c \<noteq> Err (PrbPanic msg)" for a b c msg
    by (auto simp: size_numerator_def and_then_eq_Inl_iff ok_or_def split: option.splits)
  have "split_at (length v - 1) v = None \<longleftrightarrow> 1 < length v \<and> is_cont 128 191 (last v)"
    by (cases v rule: rev_cases) (auto simp: split_at_def is_char_boundary_def)
  moreover have "parse_size v \<noteq> Err (PrbPanic msg)" if "split_at (length v - 1) v = Some p" for p msg
    using that numerator by (auto simp: parse_size_def Let_def and_then_eq_Inl_iff ok_or_def split: option.splits prod.splits if_splits)
  moreover have "parse_size v = Err (PrbPanic ''split_at inside a character'')" if "split_at (length v - 1) v = None"
    using that by (simp add: parse_size_def)
  ultimately show ?thesis by (metis option.exhaust)
qed

section \<open>Admission and the watchdog\<close>

lemma evaluate_pre_start_Admit_iff:
  "evaluate_pre_start s = Ok Admit \<longleftrightarrow>
     snapshot_validate s = Ok () \<and> 20 \<le> rs_available_percent s \<and>
     3221225472 \<le> rs_reclaimable_uncompressed_bytes s \<and> \<not> has_hard_compound_compression s"
  by (auto simp: evaluate_pre_start_def result_simps MIN_PRESTART_AVAILABLE_PERCENT_def MIN_PRESTART_FREE_BYTES_def)

lemma admitted_not_hard:
  assumes "evaluate_pre_start s = Ok Admit"
  shows "\<not> is_hard s"
  using assms by (auto simp: evaluate_pre_start_Admit_iff is_hard_def resource_consts word_le_nat_alt word_less_nat_alt)

end
