(* ===== verification/Resource_Props.thy ===== *)
theory Resource_Props
  imports Resource_Correct "HOL-Library.Code_Target_Numeral"
begin

text \<open>
  The properties of the host resource guard (\<^verbatim>\<open>src/src/resource.rs\<close>).
\<close>

section \<open>Samples\<close>

definition calm :: resource_snapshot where
  "calm = \<lparr>rs_available_percent = 40, rs_reclaimable_uncompressed_bytes = 8589934592,
     rs_compressor_occupied_bytes = 1073741824, rs_total_memory_bytes = 17179869184,
     rs_swap_used_bytes = 0, rs_swap_total_bytes = 1073741824\<rparr>"

text \<open>Nine percent available and little reclaimable memory: two soft signals, no hard one.\<close>

definition tight :: resource_snapshot where
  "tight = calm\<lparr>rs_available_percent := 9, rs_reclaimable_uncompressed_bytes := 1073741824\<rparr>"

definition exhausted :: resource_snapshot where
  "exhausted = calm\<lparr>rs_available_percent := 2\<rparr>"

lemma sample_valid:
  "snapshot_validate calm = Ok ()" "snapshot_validate tight = Ok ()" "snapshot_validate exhausted = Ok ()"
  by (simp_all add: snapshot_validate_def calm_def tight_def exhausted_def resource_consts)

lemma sample_hard: "\<not> is_hard calm" "is_hard exhausted"
  by (simp_all add: is_hard_def has_hard_compound_compression_def compressor_percent_at_least_def
      ratio_at_least_iff calm_def exhausted_def resource_consts)

section \<open>Watchdog\<close>

text \<open>
  C19. The watchdog implements its policy: on any sequence of valid samples the thread reports the
  trip that the sample history prescribes, namely the first sample that is under hard pressure or
  completes fifteen consecutive soft samples (swap growth being measured against the sample fifteen
  turns earlier), and it cancels the run exactly when it trips. The counter and the sliding window
  it keeps are enough to decide this.
\<close>

theorem watchdog_implements_policy:
  assumes "\<forall>s\<in>set xs. snapshot_validate s = Ok ()"
  shows "stop_and_join (watchdog_run obs xs) = Ok (expected_trip xs) \<and>
    token_reason (wd_token (watchdog_run obs xs)) =
      (if expected_trip xs = None then None else Some ResourcePressure)"
proof -
  have "watchdog_reach 0 obs (map quiet_turn ys) (fold watchdog_turn (map quiet_turn ys) (watchdog_start 0 obs))"
    if "set ys \<subseteq> set xs" for ys
    using that
  proof (induction ys rule: rev_induct)
    case (snoc y ys)
    with assms have "turn_valid (quiet_turn y)" by (simp add: turn_valid_def quiet_turn_def)
    with snoc show ?case by (simp add: watchdog_reach.turn)
  qed (simp add: watchdog_reach.start)
  from watchdog_reach_inv [OF this [of xs]] have "\<not> wd_panicked (watchdog_run obs xs)"
    by (auto simp: watchdog_run_def token_reason_def sample_panicked_def quiet_turn_def)
  with watchdog_run_state [OF assms, of obs] show ?thesis
    by (auto simp: stop_and_join_def token_reason_def split: if_splits)
qed

theorem watchdog_implements_policy_witness:
  "expected_trip [calm, exhausted, calm] = Some HardPressure \<and>
   stop_and_join (watchdog_run None [calm, exhausted, calm]) = Ok (Some HardPressure)"
proof -
  have e: "expected_trip [calm, exhausted, calm] = Some HardPressure"
    using sample_hard by (simp add: expected_trip_def trips_at_def upt_rec)
  have "\<forall>s\<in>set [calm, exhausted, calm]. snapshot_validate s = Ok ()" using sample_valid by simp
  from watchdog_implements_policy [OF this, of None] e show ?thesis by simp
qed

text \<open>
  C20. Whatever the interleaving of stop requests, user cancellation and samples: the window of swap samples never
  holds more than sixteen; a reported trip always comes with a cancelled run, and a run cancelled for resource
  pressure always has its trip on record. The thread ends in a panic only when taking a sample panicked; then no
  trip is on record and the run is not cancelled for resource pressure, and joining the thread reports the panic.
\<close>

theorem watchdog_reachable_safe:
  assumes "watchdog_reach token obs ts w" and "token_reason token \<noteq> Some ResourcePressure"
  shows "length (ws_swap_window (wd_state w)) \<le> 16 \<and>
    (wd_trip w \<noteq> None \<longrightarrow> is_cancelled (wd_token w)) \<and>
    (token_reason (wd_token w) = Some ResourcePressure \<longrightarrow> wd_trip w \<noteq> None) \<and>
    (stop_and_join w = Ok (wd_trip w) \<or>
     stop_and_join w = Err PrbWatchdogPanicked \<and> (\<exists>t\<in>set ts. \<exists>msg. wt_sample t = Inl (PrbPanic msg)) \<and>
     wd_trip w = None \<and> token_reason (wd_token w) \<noteq> Some ResourcePressure)"
  using watchdog_reach_inv [OF assms] by (auto simp: watchdog_inv_def stop_and_join_def sample_panicked_def)

text \<open>A thread that takes one sample and loses the second to a panic.\<close>

definition panic_turn :: watchdog_tick where
  "panic_turn = (quiet_turn calm)\<lparr>wt_sample := Inl (PrbPanic ''split_at inside a character'')\<rparr>"

abbreviation unwound :: watchdog where
  "unwound \<equiv> watchdog_turn panic_turn (watchdog_turn (quiet_turn calm) (watchdog_start 0 None))"

theorem watchdog_reachable_safe_witness:
  "stop_and_join unwound = Err PrbWatchdogPanicked \<and> wd_trip unwound = None \<and>
   token_reason (wd_token unwound) \<noteq> Some ResourcePressure \<and> length (ws_swap_window (wd_state unwound)) \<le> 16"
proof -
  have "watchdog_reach 0 None ([] @ [quiet_turn calm] @ [panic_turn]) unwound"
    unfolding append_assoc [symmetric]
    using sample_valid by (intro watchdog_reach.intros) (simp_all add: turn_valid_def quiet_turn_def panic_turn_def)
  moreover have panics: "wd_panicked (watchdog_turn panic_turn w)" if "\<not> wd_done w" "wd_token w = 0" for w
    using that by (simp add: watchdog_turn_def panic_turn_def quiet_turn_def Let_def watchdog_sample_def user_cancels_def token_reason_def)
  have "\<not> wd_done (watchdog_run None [calm])" "wd_token (watchdog_run None [calm]) = 0"
    using watchdog_run_state [of "[calm]" None] sample_valid sample_hard by (simp_all add: expected_trip_def trips_at_def)
  then have "wd_panicked unwound" using panics by (simp add: watchdog_run_def)
  ultimately show ?thesis
    using watchdog_reachable_safe [of 0 None "[] @ [quiet_turn calm] @ [panic_turn]" unwound]
    by (auto simp: stop_and_join_def token_reason_def)
qed

text \<open>
  C21. Sustained pressure is always acted on: once fifteen samples in a row show two soft signals each,
  the run is cancelled for resource pressure, whatever came before.
\<close>

theorem watchdog_sustained_pressure_cancels:
  assumes "\<forall>s\<in>set (xs @ ys). snapshot_validate s = Ok ()" and "15 \<le> length ys"
    and "\<forall>s\<in>set ys. 2 \<le> soft_signals s False"
  shows "token_reason (wd_token (watchdog_run obs (xs @ ys))) = Some ResourcePressure"
proof -
  have mono: "2 \<le> soft_signals s g" if "2 \<le> soft_signals s False" for s g
    using that by (cases g; cases "compressor_percent_at_least s SOFT_COMPRESSOR_PERCENT";
        cases "rs_swap_used_bytes s \<ge> SOFT_SWAP_BYTES"; cases "rs_available_percent s < SOFT_AVAILABLE_PERCENT";
        cases "rs_reclaimable_uncompressed_bytes s < SOFT_RECLAIMABLE_BYTES") (simp_all add: soft_signals_def)
  let ?i = "length xs + length ys - 1"
  have "soft_at (xs @ ys) k" if "?i - 14 \<le> k" "k \<le> ?i" for k
  proof -
    have "length xs \<le> k" "k - length xs < length ys" using that assms(2) by linarith+
    then have "(xs @ ys) ! k \<in> set ys" by (simp add: nth_append)
    with assms(3) mono show ?thesis by (simp add: soft_at_def SOFT_REQUIRED_SIGNALS_def)
  qed
  then have "trips_at (xs @ ys) ?i" using assms(2) by (auto simp: trips_at_def)
  moreover have "?i \<in> set [0..<length (xs @ ys)]" using assms(2) by auto
  ultimately have "find (trips_at (xs @ ys)) [0..<length (xs @ ys)] \<noteq> None" by (auto simp: find_None_iff)
  then have "expected_trip (xs @ ys) \<noteq> None" by (auto simp: expected_trip_def)
  with watchdog_run_state [OF assms(1), of obs] show ?thesis by (auto simp: token_reason_def)
qed

theorem watchdog_sustained_pressure_cancels_witness:
  "token_reason (wd_token (watchdog_run None ([calm, calm] @ replicate 15 tight))) = Some ResourcePressure"
proof (rule watchdog_sustained_pressure_cancels)
  show "\<forall>s\<in>set ([calm, calm] @ replicate 15 tight). snapshot_validate s = Ok ()" using sample_valid by simp
  have "2 \<le> soft_signals tight False"
    by (simp add: soft_signals_def compressor_percent_at_least_def ratio_at_least_iff calm_def tight_def resource_consts)
  then show "\<forall>s\<in>set (replicate 15 tight). 2 \<le> soft_signals s False" by simp
qed simp

text \<open>
  C22. Admission and watchdog agree: a run is admitted exactly on a valid snapshot with at least 20
  percent and 3 GiB available and without heavy compression (70 percent of the memory compressed
  together with another sign of pressure), and the watchdog never trips on the snapshot that
  admitted the run.
\<close>

theorem pre_start_admission:
  "(evaluate_pre_start s = Ok Admit \<longleftrightarrow>
     snapshot_validate s = Ok () \<and> 20 \<le> unat (rs_available_percent s) \<and>
     3 * 1024 ^ 3 \<le> unat (rs_reclaimable_uncompressed_bytes s) \<and>
     \<not> (unat (rs_total_memory_bytes s) * 70 \<le> unat (rs_compressor_occupied_bytes s) * 100 \<and>
        4 * 1024 ^ 3 \<le> unat (rs_swap_used_bytes s))) \<and>
   (evaluate_pre_start s = Ok Admit \<longrightarrow> stop_and_join (watchdog_run obs [s]) = Ok None)"
proof -
  have "evaluate_pre_start s = Ok Admit \<longleftrightarrow>
     snapshot_validate s = Ok () \<and> 20 \<le> unat (rs_available_percent s) \<and>
     3 * 1024 ^ 3 \<le> unat (rs_reclaimable_uncompressed_bytes s) \<and>
     \<not> (unat (rs_total_memory_bytes s) * 70 \<le> unat (rs_compressor_occupied_bytes s) * 100 \<and>
        4 * 1024 ^ 3 \<le> unat (rs_swap_used_bytes s))"
    by (auto simp: evaluate_pre_start_Admit_iff has_hard_compound_compression_def compressor_percent_at_least_def
        ratio_at_least_iff resource_consts word_le_nat_alt word_less_nat_alt)
  moreover have "stop_and_join (watchdog_run obs [s]) = Ok None" if a: "evaluate_pre_start s = Ok Admit"
  proof -
    from a have v: "snapshot_validate s = Ok ()" by (simp add: evaluate_pre_start_Admit_iff)
    from admitted_not_hard [OF a] have e: "expected_trip [s] = None" by (simp add: expected_trip_def trips_at_def)
    have "watchdog_reach 0 obs ([] @ [quiet_turn s]) (watchdog_turn (quiet_turn s) (watchdog_start 0 obs))"
      using v by (intro watchdog_reach.intros) (simp add: turn_valid_def quiet_turn_def)
    from watchdog_reach_inv [OF this] have "\<not> wd_panicked (watchdog_run obs [s])"
      by (simp add: watchdog_run_def token_reason_def sample_panicked_def quiet_turn_def)
    with watchdog_run_state [of "[s]" obs] v e show ?thesis by (simp add: stop_and_join_def)
  qed
  ultimately show ?thesis by blast
qed

theorem pre_start_admission_witness:
  "evaluate_pre_start calm = Ok Admit \<and> stop_and_join (watchdog_run None [calm]) = Ok None"
proof -
  have "evaluate_pre_start calm = Ok Admit"
    using sample_valid sample_hard by (simp add: evaluate_pre_start_Admit_iff is_hard_def calm_def)
  with pre_start_admission [of calm None] show ?thesis by blast
qed

text \<open>
  The observation summary of a run is exact: after any samples it holds the last one, the least
  available percentage and reclaimable memory, the greatest compressor and swap use over baseline
  and samples, and their number (saturating at the top of 64 bits).
\<close>

theorem observation_summary_exact:
  "let sm = fold observation_record xs (observation_new b)
   in os_baseline sm = b \<and> os_last_snapshot sm = last (b # xs) \<and>
      unat (os_sample_count sm) = min (Suc (length xs)) (2 ^ 64 - 1) \<and>
      os_minimum_available_percent sm = Min (rs_available_percent ` set (b # xs)) \<and>
      os_minimum_reclaimable_uncompressed_bytes sm = Min (rs_reclaimable_uncompressed_bytes ` set (b # xs)) \<and>
      os_maximum_compressor_occupied_bytes sm = Max (rs_compressor_occupied_bytes ` set (b # xs)) \<and>
      os_maximum_swap_used_bytes sm = Max (rs_swap_used_bytes ` set (b # xs))"
  by (simp add: observation_fold observation_new_def fold_max_min saturating_count)

section \<open>Parsers\<close>

text \<open>
  A size that parses is read exactly: the text is a decimal number with one or two decimals and a
  binary unit, and the result is the number of bytes rounded down, with no overflow of the wide
  intermediate values.
\<close>

theorem parse_size_reads_exactly:
  assumes "parse_size v = Ok n"
  shows "\<exists>whole fraction unit m. v = whole @ ''.'' @ fraction @ unit \<and> size_multiplier unit = Some m \<and>
    digits whole \<and> digits fraction \<and> length fraction \<in> {1, 2} \<and>
    unat n = (dec_value whole * 10 ^ length fraction + dec_value fraction) * unat m div 10 ^ length fraction"
proof -
  from parse_size_exact [OF assms] obtain whole fraction unit m where
    *: "v = whole @ ''.'' @ fraction @ unit" "size_multiplier unit = Some m" "digits whole" "digits fraction"
      "fraction \<noteq> []" "length fraction \<le> 2"
      "unat n = (dec_value whole * 10 ^ length fraction + dec_value fraction) * unat m div 10 ^ length fraction" .
  from *(5) have "0 < length fraction" by simp
  with *(6) have "length fraction = 1 \<or> length fraction = 2" by linarith
  then have "length fraction \<in> {1, 2}" by simp
  with * show ?thesis by blast
qed

theorem parse_size_reads_exactly_witness:
  "parse_size ''1536.25M'' = Ok 1610874880 \<and>
   (\<exists>whole fraction unit m. ''1536.25M'' = whole @ ''.'' @ fraction @ unit \<and> size_multiplier unit = Some m \<and>
    digits whole \<and> digits fraction \<and> length fraction \<in> {1, 2} \<and>
    unat (1610874880 :: u64) =
      (dec_value whole * 10 ^ length fraction + dec_value fraction) * unat m div 10 ^ length fraction)"
proof -
  have "parse_size ''1536.25M'' = Ok 1610874880"
    by (simp add: parse_size_def split_at_def is_char_boundary_def is_cont_def size_multiplier_def
        size_numerator_def parse_uint_def is_ascii_digit_def checked_mul_def checked_add_def u64_try_from_def)
  with parse_size_reads_exactly [OF this] show ?thesis by blast
qed

end
