(* ===== verification/Action.thy ===== *)
theory Action
  imports Prelude "HOL-Library.State_Monad" "HOL-Library.Monad_Syntax"
begin

text \<open>
  Fallible actions on a state (the state monad over results), for the components that work on an
  outside world, and the weakest-precondition calculus their proofs use.
\<close>

section \<open>Actions\<close>

type_synonym ('w, 'e, 'a) action = "('w, ('e, 'a) result) state"

definition attempt :: "('w, 'e, 'a) action \<Rightarrow> ('a \<Rightarrow> ('w, 'e, 'b) action) \<Rightarrow> ('w, 'e, 'b) action" where
  "attempt m k = do { r \<leftarrow> m; case r of Inl e \<Rightarrow> State_Monad.return (Inl e) | Inr x \<Rightarrow> k x }"

definition on_err :: "('e \<Rightarrow> 'f) \<Rightarrow> ('w, 'e, 'a) action \<Rightarrow> ('w, 'f, 'a) action" where
  "on_err f m = do { r \<leftarrow> m; State_Monad.return (map_err f r) }"

section \<open>Weakest preconditions\<close>

named_theorems wp_simps \<open>weakest preconditions of the combinators\<close>

definition wp :: "('w, 'a) state \<Rightarrow> ('a \<Rightarrow> 'w \<Rightarrow> bool) \<Rightarrow> 'w \<Rightarrow> bool" where
  "wp m Q w = (case run_state m w of (x, w') \<Rightarrow> Q x w')"

lemma wp_return [wp_simps]: "wp (State_Monad.return x) Q = Q x"
  by (simp add: wp_def State_Monad.return_def fun_eq_iff)

lemma wp_bind [wp_simps]: "wp (State_Monad.bind m k) Q = wp m (\<lambda>x. wp (k x) Q)"
  by (simp add: wp_def State_Monad.bind_def fun_eq_iff split: prod.splits)

lemma wp_if [wp_simps]: "wp (if c then m else n) Q = (if c then wp m Q else wp n Q)"
  by simp

lemma wp_case_sum [wp_simps]:
  "wp (case r of Inl e \<Rightarrow> m e | Inr x \<Rightarrow> n x) Q = (case r of Inl e \<Rightarrow> wp (m e) Q | Inr x \<Rightarrow> wp (n x) Q)"
  by (cases r) simp_all

lemma wp_case_option [wp_simps]:
  "wp (case r of None \<Rightarrow> m | Some x \<Rightarrow> n x) Q = (case r of None \<Rightarrow> wp m Q | Some x \<Rightarrow> wp (n x) Q)"
  by (cases r) simp_all

lemma wp_attempt [wp_simps]:
  "wp (attempt m k) Q = wp m (\<lambda>r. case r of Inl e \<Rightarrow> Q (Inl e) | Inr x \<Rightarrow> wp (k x) Q)"
  by (simp add: attempt_def wp_simps cong: sum.case_cong)

lemma wp_on_err [wp_simps]: "wp (on_err f m) Q = wp m (\<lambda>r. Q (map_err f r))"
  by (simp add: on_err_def wp_simps)

lemma wp_mono: "wp m Q w \<Longrightarrow> (\<And>x w'. Q x w' \<Longrightarrow> R x w') \<Longrightarrow> wp m R w"
  by (auto simp: wp_def split: prod.splits)

lemma wp_any: "(\<And>x w'. Q x w') \<Longrightarrow> wp m Q w"
  by (simp add: wp_def split: prod.splits)

lemma wp_conj: "wp m (\<lambda>x w'. Q x w' \<and> R x w') w \<longleftrightarrow> wp m Q w \<and> wp m R w"
  by (auto simp: wp_def split: prod.splits)

lemma wp_True [simp]: "wp m (\<lambda>_ _. True) = (\<lambda>_. True)"
  by (simp add: wp_def fun_eq_iff split: prod.splits)

lemma case_const [simp]: "case_sum (\<lambda>_. c) (\<lambda>_. c) = (\<lambda>_. c)" "case_option c (\<lambda>_. c) = (\<lambda>_. c)"
  by (auto simp: fun_eq_iff split: sum.splits option.splits)

end
