(* ===== verification/Supervisor.thy ===== *)
theory Supervisor
  imports Process Action
begin

text \<open>
  The process supervisor of \<^verbatim>\<open>src/src/process.rs\<close>: the monitoring loop, stopping a child gracefully or by
  force, sealing its descendants, and reading its output with a bounded capture. Everything outside
  the crate (clock, sleeping, spawning, signals, waiting) is an operation of the host on a world of
  any type, threaded through with the state monad. The two polling loops take fuel; \<open>None\<close> means
  that it ran out.
\<close>

datatype graceful_stop = Requested | AlreadyStopped | UnsupportedStop

text \<open>The host and the traits \<^verbatim>\<open>ProcessSpawner\<close> and \<^verbatim>\<open>ManagedProcess\<close>.\<close>

record 'w process_host =
  ph_now :: "('w, duration) state"
  ph_sleep :: "duration \<Rightarrow> ('w, unit) state"
  ph_token :: "('w, cancellation_token) state"
  ph_generation :: "('w, generation_guard) state"
  ph_spawn :: "process_request \<Rightarrow> output_mode \<Rightarrow> ('w, process_error, unit) action"
  ph_try_wait :: "('w, io_error, exit_outcome option) action"
  ph_request_graceful_stop :: "('w, io_error, graceful_stop) action"
  ph_force_stop_and_wait :: "duration \<Rightarrow> ('w, io_error, exit_outcome option) action"
  ph_seal_descendants :: "duration \<Rightarrow> ('w, io_error, unit) action"
  ph_collect_output :: "duration \<Rightarrow> ('w, io_error, captured_stream \<times> captured_stream) action"

section \<open>Deadlines\<close>

record process_deadline =
  dl_started :: duration
  dl_total :: duration
  dl_execution_budget :: duration
  dl_cleanup_budget :: duration

definition deadline_new :: "duration \<Rightarrow> duration \<Rightarrow> duration \<Rightarrow> process_deadline" where
  "deadline_new started tot cleanup_cap =
     (let cleanup_budget = min cleanup_cap (tot div 2)
      in \<lparr>dl_started = started, dl_total = tot, dl_execution_budget = tot - cleanup_budget,
          dl_cleanup_budget = cleanup_budget\<rparr>)"

definition execution_expired :: "('w, 'm) process_host_scheme \<Rightarrow> process_deadline \<Rightarrow> ('w, bool) state" where
  "execution_expired h dl = do {
     now \<leftarrow> ph_now h;
     State_Monad.return (now - dl_started dl \<ge> dl_execution_budget dl) }"

definition cleanup_remaining :: "('w, 'm) process_host_scheme \<Rightarrow> process_deadline \<Rightarrow> ('w, duration) state" where
  "cleanup_remaining h dl = do {
     now \<leftarrow> ph_now h;
     State_Monad.return (min (dl_cleanup_budget dl) (dl_total dl - (now - dl_started dl))) }"

section \<open>Results\<close>

definition elapsed_millis :: "('w, 'm) process_host_scheme \<Rightarrow> duration \<Rightarrow> ('w, nat) state" where
  "elapsed_millis h started = do {
     now \<leftarrow> ph_now h;
     State_Monad.return ((now - started) div 1000000) }"

definition empty_result ::
    "codec \<Rightarrow> ('w, 'm) process_host_scheme \<Rightarrow> process_request \<Rightarrow> process_termination \<Rightarrow> cleanup_status \<Rightarrow>
       duration \<Rightarrow> ('w, process_result) state" where
  "empty_result cx h rq termination cleanup started = do {
     ms \<leftarrow> elapsed_millis h started;
     State_Monad.return
       \<lparr>ps_identity = rq_identity rq, ps_termination = termination, ps_cleanup = cleanup, ps_exit = None,
        ps_stdout = from_captured cx [] False, ps_stderr = from_captured cx [] False, ps_elapsed_millis = ms\<rparr> }"

text \<open>The common end of every path that had a child: the output is collected and the result built.\<close>

definition sealed_result ::
    "('w, 'm) process_host_scheme \<Rightarrow> process_request \<Rightarrow> process_termination \<Rightarrow> exit_outcome option \<Rightarrow>
       duration \<Rightarrow> captured_stream \<times> captured_stream \<Rightarrow> ('w, process_error, process_result) action" where
  "sealed_result h rq termination exit started out = do {
     ms \<leftarrow> elapsed_millis h started;
     State_Monad.return (Ok
       \<lparr>ps_identity = rq_identity rq, ps_termination = termination, ps_cleanup = Verified, ps_exit = exit,
        ps_stdout = fst out, ps_stderr = snd out, ps_elapsed_millis = ms\<rparr>) }"

definition seal ::
    "('w, 'm) process_host_scheme \<Rightarrow> string \<Rightarrow> process_deadline \<Rightarrow> ('w, process_error, unit) action" where
  "seal h stage dl = do {
     d \<leftarrow> cleanup_remaining h dl;
     on_err (PrcCleanupUncertain stage) (ph_seal_descendants h d) }"

definition collect ::
    "('w, 'm) process_host_scheme \<Rightarrow> process_deadline \<Rightarrow>
       ('w, process_error, captured_stream \<times> captured_stream) action" where
  "collect h dl = do { d \<leftarrow> cleanup_remaining h dl; on_err PrcOutput (ph_collect_output h d) }"

section \<open>Stopping a child\<close>

text \<open>
  The wait after a graceful stop request: \<open>Ok None\<close> when the grace time is over, \<open>Ok (Some exit)\<close>
  when the child is gone.
\<close>

primrec grace_loop ::
    "nat \<Rightarrow> ('w, 'm) process_host_scheme \<Rightarrow> duration \<Rightarrow> duration \<Rightarrow> process_deadline \<Rightarrow>
       ('w, (process_error, exit_outcome option) result option) state" where
  "grace_loop 0 h poll grace_started dl = State_Monad.return None"
| "grace_loop (Suc n) h poll grace_started dl = do {
     now \<leftarrow> ph_now h;
     remaining \<leftarrow> cleanup_remaining h dl;
     if now - grace_started < remaining then do {
       r \<leftarrow> ph_try_wait h;
       case r of
         Inl e \<Rightarrow> State_Monad.return (Some (Err (PrcCleanupUncertain ''graceful stop monitoring'' e)))
       | Inr (Some exit) \<Rightarrow> State_Monad.return (Some (Ok (Some exit)))
       | Inr None \<Rightarrow> do { ph_sleep h poll; grace_loop n h poll grace_started dl } }
     else State_Monad.return (Some (Ok None)) }"

definition force_stop ::
    "('w, 'm) process_host_scheme \<Rightarrow> process_request \<Rightarrow> process_termination \<Rightarrow> duration \<Rightarrow> process_deadline \<Rightarrow>
       ('w, process_error, process_result) action" where
  "force_stop h rq termination started dl = do {
     d \<leftarrow> cleanup_remaining h dl;
     r \<leftarrow> ph_force_stop_and_wait h d;
     case r of
       Inl e \<Rightarrow>
         attempt (seal h ''forced descendant seal after force-stop failure'' dl) (\<lambda>_.
           State_Monad.return (Err (PrcCleanupUncertain ''force stop'' e)))
     | Inr exit \<Rightarrow>
         attempt (seal h ''forced descendant seal'' dl) (\<lambda>_.
         attempt (collect h dl) (\<lambda>out.
           sealed_result h rq termination exit started out)) }"

definition stop_and_collect ::
    "nat \<Rightarrow> ('w, 'm) process_host_scheme \<Rightarrow> duration \<Rightarrow> process_request \<Rightarrow> process_termination \<Rightarrow> duration \<Rightarrow>
       process_deadline \<Rightarrow> ('w, (process_error, process_result) result option) state" where
  "stop_and_collect n h poll rq termination started dl = do {
     graceful \<leftarrow> ph_request_graceful_stop h;
     waited \<leftarrow>
       (if graceful = Ok Requested then do { grace_started \<leftarrow> ph_now h; grace_loop n h poll grace_started dl }
        else State_Monad.return (Some (Ok None)));
     case waited of
       None \<Rightarrow> State_Monad.return None
     | Some (Inl e) \<Rightarrow> State_Monad.return (Some (Err e))
     | Some (Inr (Some exit)) \<Rightarrow> do {
         r \<leftarrow> attempt (seal h ''graceful descendant seal'' dl) (\<lambda>_.
              attempt (collect h dl) (\<lambda>out.
                sealed_result h rq termination (Some exit) started out));
         State_Monad.return (Some r) }
     | Some (Inr None) \<Rightarrow> do {
         r \<leftarrow> force_stop h rq termination started dl;
         State_Monad.return (Some r) } }"

section \<open>The monitoring loop\<close>

definition complete ::
    "('w, 'm) process_host_scheme \<Rightarrow> process_request \<Rightarrow> exit_outcome \<Rightarrow> duration \<Rightarrow> process_deadline \<Rightarrow>
       ('w, process_error, process_result) action" where
  "complete h rq exit started dl =
     attempt (seal h ''completed descendant seal'' dl) (\<lambda>_.
     attempt (collect h dl) (\<lambda>out. do {
       g \<leftarrow> ph_generation h;
       case ensure_current g (rq_identity rq) of
         Inl e \<Rightarrow> State_Monad.return (Err e)
       | Inr _ \<Rightarrow> sealed_result h rq Completed (Some exit) started out }))"

text \<open>A cleanup whose own result does not matter: its error wins, else \<open>e\<close> is reported.\<close>

definition after_cleanup ::
    "process_error \<Rightarrow> (process_error, process_result) result option \<Rightarrow> (process_error, process_result) result option" where
  "after_cleanup e r = (case r of None \<Rightarrow> None | Some (Inl c) \<Rightarrow> Some (Err c) | Some (Inr _) \<Rightarrow> Some (Err e))"

primrec monitor_loop ::
    "nat \<Rightarrow> ('w, 'm) process_host_scheme \<Rightarrow> duration \<Rightarrow> process_request \<Rightarrow> duration \<Rightarrow> process_deadline \<Rightarrow>
       ('w, (process_error, process_result) result option) state" where
  "monitor_loop 0 h poll rq started dl = State_Monad.return None"
| "monitor_loop (Suc n) h poll rq started dl = do {
     g \<leftarrow> ph_generation h;
     if \<not> is_ok (ensure_current g (rq_identity rq)) then do {
       r \<leftarrow> stop_and_collect n h poll rq Cancelled started dl;
       State_Monad.return (after_cleanup PrcStaleGeneration r) }
     else do {
       token \<leftarrow> ph_token h;
       if is_cancelled token then stop_and_collect n h poll rq Cancelled started dl
       else do {
         expired \<leftarrow> execution_expired h dl;
         if expired then stop_and_collect n h poll rq TimedOut started dl
         else do {
           observed \<leftarrow> ph_try_wait h;
           case observed of
             Inl e \<Rightarrow> do {
               r \<leftarrow> stop_and_collect n h poll rq Cancelled started dl;
               State_Monad.return (after_cleanup (PrcMonitor e) r) }
           | Inr (Some exit) \<Rightarrow> do {
               r \<leftarrow> complete h rq exit started dl;
               State_Monad.return (Some r) }
           | Inr None \<Rightarrow> do { ph_sleep h poll; monitor_loop n h poll rq started dl } } } } }"

definition DEFAULT_POLL_INTERVAL :: duration where
  "DEFAULT_POLL_INTERVAL = millis 10"

definition DEFAULT_GRACE_PERIOD :: duration where
  "DEFAULT_GRACE_PERIOD = millis 500"

definition execute_with_output_and_capture_ceiling ::
    "nat \<Rightarrow> codec \<Rightarrow> ('w, 'm) process_host_scheme \<Rightarrow> process_request \<Rightarrow> output_mode \<Rightarrow> nat \<Rightarrow>
       ('w, (process_error, process_result) result option) state" where
  "execute_with_output_and_capture_ceiling n cx h rq mode ceiling =
     (case validate_with_capture_ceiling rq ceiling of
        Inl e \<Rightarrow> State_Monad.return (Some (Err e))
      | Inr _ \<Rightarrow> do {
          g \<leftarrow> ph_generation h;
          case ensure_current g (rq_identity rq) of
            Inl e \<Rightarrow> State_Monad.return (Some (Err e))
          | Inr _ \<Rightarrow> do {
              started \<leftarrow> ph_now h;
              let dl = deadline_new started (rq_timeout rq) DEFAULT_GRACE_PERIOD;
              token \<leftarrow> ph_token h;
              if is_cancelled token then do {
                r \<leftarrow> empty_result cx h rq Cancelled NotRequired started;
                State_Monad.return (Some (Ok r)) }
              else do {
                spawned \<leftarrow> ph_spawn h rq mode;
                case spawned of
                  Inl e \<Rightarrow> State_Monad.return (Some (Err e))
                | Inr _ \<Rightarrow> monitor_loop n h DEFAULT_POLL_INTERVAL rq started dl } } })"

definition execute_with_output ::
    "nat \<Rightarrow> codec \<Rightarrow> ('w, 'm) process_host_scheme \<Rightarrow> process_request \<Rightarrow> output_mode \<Rightarrow>
       ('w, (process_error, process_result) result option) state" where
  "execute_with_output n cx h rq mode = execute_with_output_and_capture_ceiling n cx h rq mode MAX_CAPTURE_BYTES"

definition execute ::
    "nat \<Rightarrow> codec \<Rightarrow> ('w, 'm) process_host_scheme \<Rightarrow> process_request \<Rightarrow>
       ('w, (process_error, process_result) result option) state" where
  "execute n cx h rq = execute_with_output n cx h rq Capture"

definition execute_source_blob ::
    "nat \<Rightarrow> codec \<Rightarrow> ('w, 'm) process_host_scheme \<Rightarrow> process_request \<Rightarrow>
       ('w, (process_error, process_result) result option) state" where
  "execute_source_blob n cx h rq =
     execute_with_output_and_capture_ceiling n cx h rq Capture MAX_SOURCE_BLOB_CAPTURE_BYTES"

end
