(* ===== verification/Supervisor_Correct.thy ===== *)
theory Supervisor_Correct
  imports Supervisor
begin

text \<open>
  The two guarantees of the supervisor: it always comes to an end, and a result for a started child is
  only returned after its process group was sealed.
\<close>

section \<open>The clock\<close>

text \<open>
  What the loops rely on: there is a time that no operation turns back (\<^verbatim>\<open>Instant\<close> is monotonic), a
  reading of the clock lies between the times before and after it, and a sleep lasts at least as
  long as asked (\<^verbatim>\<open>thread::sleep\<close>).
\<close>

abbreviation no_earlier :: "('w \<Rightarrow> duration) \<Rightarrow> ('w, 'a) state \<Rightarrow> bool" where
  "no_earlier time m \<equiv> \<forall>w. wp m (\<lambda>_ w'. time w \<le> time w') w"

definition clock_runs :: "'w process_host \<Rightarrow> ('w \<Rightarrow> duration) \<Rightarrow> bool" where
  "clock_runs h time \<longleftrightarrow>
     (\<forall>w. wp (ph_now h) (\<lambda>n w'. time w \<le> n \<and> n \<le> time w') w) \<and>
     (\<forall>d w. wp (ph_sleep h d) (\<lambda>_ w'. time w + d \<le> time w') w) \<and>
     no_earlier time (ph_token h) \<and> no_earlier time (ph_generation h) \<and>
     (\<forall>rq mode. no_earlier time (ph_spawn h rq mode)) \<and>
     no_earlier time (ph_try_wait h) \<and> no_earlier time (ph_request_graceful_stop h)"

lemma clock_runsD:
  assumes "clock_runs h time"
  shows "wp (ph_now h) (\<lambda>n w'. time w \<le> n \<and> n \<le> time w') w"
    and "wp (ph_sleep h d) (\<lambda>_ w'. time w + d \<le> time w') w"
    and "wp (ph_token h) (\<lambda>_ w'. time w \<le> time w') w"
    and "wp (ph_generation h) (\<lambda>_ w'. time w \<le> time w') w"
    and "wp (ph_spawn h rq mode) (\<lambda>_ w'. time w \<le> time w') w"
    and "wp (ph_try_wait h) (\<lambda>_ w'. time w \<le> time w') w"
    and "wp (ph_request_graceful_stop h) (\<lambda>_ w'. time w \<le> time w') w"
  using assms by (simp_all add: clock_runs_def)

lemma grace_loop_ends:
  assumes h: "clock_runs h time" and p: "0 < poll"
    and "gs \<le> time w" "0 < n" "dl_cleanup_budget dl \<le> (time w - gs) + (n - 1) * poll"
  shows "wp (grace_loop n h poll gs dl) (\<lambda>r _. r \<noteq> None) w"
  using assms(3-)
proof (induction n arbitrary: w)
  case (Suc m)
  have step: "wp (grace_loop m h poll gs dl) (\<lambda>r _. r \<noteq> None) w'"
    if "time w \<le> now" "now - gs < dl_cleanup_budget dl" "time w + poll \<le> time w'" for now w'
  proof -
    from that(1,2) have "time w - gs < dl_cleanup_budget dl" by linarith
    with Suc.prems(3) have m: "0 < m" by (cases m) auto
    then have "m * poll = (m - 1) * poll + poll" by (cases m) auto
    with Suc.prems that(3) have "dl_cleanup_budget dl \<le> (time w' - gs) + (m - 1) * poll" by simp
    with m Suc.prems(1) that(3) show ?thesis by (intro Suc.IH) auto
  qed
  show ?case
    apply (simp only: grace_loop.simps cleanup_remaining_def wp_simps cong: sum.case_cong option.case_cong)
    apply (rule wp_mono [OF clock_runsD(1) [OF h]])
    apply (rule wp_mono [OF clock_runsD(1) [OF h]])
    apply (clarsimp simp del: not_None_eq)
    apply (rule wp_mono [OF clock_runsD(6) [OF h]])
    subgoal for now w1 now' w2 r w3
      apply (clarsimp simp del: not_None_eq split: sum.split option.split)
      apply (rule wp_mono [OF clock_runsD(2) [OF h]])
      apply (rule step [of now])
        apply simp_all
      done
    done
qed simp

lemma stop_and_collect_ends:
  assumes h: "clock_runs h time" and p: "0 < poll" and n: "0 < n" "dl_cleanup_budget dl \<le> (n - 1) * poll"
  shows "wp (stop_and_collect n h poll rq termination started dl) (\<lambda>r _. r \<noteq> None) w"
proof -
  have grace: "wp (grace_loop n h poll gs dl) (\<lambda>waited. case waited of
        None \<Rightarrow> \<lambda>_. False | Some (Inl e) \<Rightarrow> \<lambda>_. True | Some (Inr None) \<Rightarrow> \<lambda>_. True | Some (Inr (Some x)) \<Rightarrow> \<lambda>_. True) w'"
    if "gs \<le> time w'" for gs w'
  proof (rule wp_mono)
    show "wp (grace_loop n h poll gs dl) (\<lambda>r _. r \<noteq> None) w'"
      using that n by (intro grace_loop_ends [OF h p]) auto
  qed (auto split: option.splits sum.splits)
  show ?thesis
    apply (simp add: stop_and_collect_def wp_simps cong: sum.case_cong option.case_cong)
    apply (rule wp_mono [OF clock_runsD(7) [OF h]])
    apply (clarsimp simp: wp_simps)
    apply (rule wp_mono [OF clock_runsD(1) [OF h]])
    subgoal for w1 now w2 by (rule wp_mono [OF grace [of now]]) (auto split: option.splits sum.splits)
    done
qed

lemma monitor_loop_ends:
  assumes h: "clock_runs h time" and p: "0 < poll"
    and "started \<le> time w" "0 < k" "dl_cleanup_budget dl \<le> (k - 1) * poll" "dl_started dl = started"
    and "k < n" "dl_execution_budget dl \<le> (time w - started) + (n - Suc k) * poll"
  shows "wp (monitor_loop n h poll rq started dl) (\<lambda>r _. r \<noteq> None) w"
  using assms(3-)
proof (induction n arbitrary: w)
  case (Suc m)
  have stop: "wp (stop_and_collect m h poll rq t started dl) (\<lambda>r _. r \<noteq> None) w'" for t w'
  proof (rule stop_and_collect_ends [OF h p])
    show "0 < m" using Suc.prems by simp
    have "(k - 1) * poll \<le> (m - 1) * poll" using Suc.prems(2,5) by (intro mult_right_mono) auto
    with Suc.prems(3) show "dl_cleanup_budget dl \<le> (m - 1) * poll" by (rule order_trans)
  qed
  have after: "wp (stop_and_collect m h poll rq t started dl) (\<lambda>r _. after_cleanup e r \<noteq> None) w'" for t w' e
    by (rule wp_mono [OF stop]) (auto simp: after_cleanup_def split: sum.splits)
  have step: "wp (monitor_loop m h poll rq started dl) (\<lambda>r _. r \<noteq> None) w'"
    if "time w \<le> now" "now - started < dl_execution_budget dl" "time w + poll \<le> time w'" for now w'
  proof -
    from that(1,2) have "time w - started < dl_execution_budget dl" by linarith
    moreover from Suc.prems(6) have "dl_execution_budget dl \<le> (time w - started) + (m - k) * poll" by simp
    ultimately have "(m - k) * poll \<noteq> 0" by linarith
    then have m: "k < m" by simp
    then have "m - k = Suc (m - Suc k)" by simp
    then have "(m - k) * poll = (m - Suc k) * poll + poll" by simp
    with Suc.prems that(3) have "dl_execution_budget dl \<le> (time w' - started) + (m - Suc k) * poll" by simp
    with m Suc.prems that(3) show ?thesis by (intro Suc.IH) auto
  qed
  show ?case
    apply (simp only: monitor_loop.simps execution_expired_def wp_simps cong: sum.case_cong option.case_cong)
    apply (rule wp_mono [OF clock_runsD(4) [OF h]])
    apply (clarsimp simp: after stop simp del: not_None_eq)
    apply (rule wp_mono [OF clock_runsD(3) [OF h]])
    apply (clarsimp simp: after stop simp del: not_None_eq)
    apply (rule wp_mono [OF clock_runsD(1) [OF h]])
    apply (clarsimp simp: after stop simp del: not_None_eq)
    apply (rule wp_mono [OF clock_runsD(6) [OF h]])
    apply (clarsimp simp: after stop simp del: not_None_eq split: sum.split option.split)
    apply (rule wp_mono [OF clock_runsD(2) [OF h]])
    subgoal for g w1 token w2 now w3 w4 u w5 using Suc.prems(4) by (intro step [of now]) auto
    done
qed simp

lemma div_add_le: "(a::nat) div p + b div p \<le> (a + b) div p"
  by (metis div_add1_eq le_add1)

text \<open>The timeout in polling steps, and four more, is fuel enough for both loops together.\<close>

lemma execute_ends:
  assumes h: "clock_runs h time" and n: "rq_timeout rq div DEFAULT_POLL_INTERVAL + 4 \<le> n"
  shows "wp (execute_with_output_and_capture_ceiling n cx h rq mode ceiling) (\<lambda>r _. r \<noteq> None) w"
proof -
  have p: "0 < DEFAULT_POLL_INTERVAL" by (simp add: DEFAULT_POLL_INTERVAL_def)
  have loop: "wp (monitor_loop n h DEFAULT_POLL_INTERVAL rq started (deadline_new started (rq_timeout rq) DEFAULT_GRACE_PERIOD))
      (\<lambda>r _. r \<noteq> None) w'" if "started \<le> time w'" for started w'
  proof -
    let ?p = DEFAULT_POLL_INTERVAL
    let ?dl = "deadline_new started (rq_timeout rq) DEFAULT_GRACE_PERIOD"
    define e c where "e = dl_execution_budget ?dl" and "c = dl_cleanup_budget ?dl"
    have "e + c = rq_timeout rq" by (simp add: e_def c_def deadline_new_def Let_def min_def)
    with n div_add_le [of e ?p c] have n': "e div ?p + c div ?p + 4 \<le> n" by simp
    have up: "x \<le> Suc (x div ?p) * ?p" for x
      using p dividend_less_div_times [of ?p x] by (simp add: mult.commute)
    have "Suc (e div ?p) * ?p \<le> (n - Suc (c div ?p + 2)) * ?p" using n' by (intro mult_right_mono) auto
    moreover have "dl_started ?dl = started" by (simp add: deadline_new_def Let_def)
    ultimately show ?thesis
      using up [of e] up [of c] that n'
      by (intro monitor_loop_ends [OF h p, where k = "c div ?p + 2"])
        (auto simp: e_def [symmetric] c_def [symmetric])
  qed
  show ?thesis
    apply (simp add: execute_with_output_and_capture_ceiling_def wp_simps Let_def
        cong: sum.case_cong split: sum.split)
    apply (intro allI impI)
    apply (rule wp_mono [OF clock_runsD(4) [OF h]])
    apply (clarsimp split: sum.split)
    apply (rule wp_mono [OF clock_runsD(1) [OF h]])
    apply clarsimp
    apply (rule wp_mono [OF clock_runsD(3) [OF h]])
    apply (clarsimp simp: wp_simps)
    apply (rule wp_mono [OF clock_runsD(5) [OF h]])
    subgoal for g w1 now w2 token w3 r w4
      using loop [of now w4] by (auto simp: wp_simps split: sum.split)
    done
qed

section \<open>Sealing\<close>

text \<open>
  What sealing promises: when it succeeds no process of the group is left, and neither reading the
  clock or the generation nor collecting the output brings one back.
\<close>

definition seals :: "'w process_host \<Rightarrow> ('w \<Rightarrow> bool) \<Rightarrow> bool" where
  "seals h gone \<longleftrightarrow>
     (\<forall>d w. wp (ph_seal_descendants h d) (\<lambda>r w'. r = Ok () \<longrightarrow> gone w') w) \<and>
     (\<forall>w. gone w \<longrightarrow> wp (ph_now h) (\<lambda>_. gone) w) \<and>
     (\<forall>w. gone w \<longrightarrow> wp (ph_generation h) (\<lambda>_. gone) w) \<and>
     (\<forall>d w. gone w \<longrightarrow> wp (ph_collect_output h d) (\<lambda>_. gone) w)"

lemma sealsD:
  assumes "seals h gone"
  shows "wp (ph_seal_descendants h d) (\<lambda>r w'. r = Ok () \<longrightarrow> gone w') w"
    and "gone w \<Longrightarrow> wp (ph_now h) (\<lambda>_. gone) w"
    and "gone w \<Longrightarrow> wp (ph_generation h) (\<lambda>_. gone) w"
    and "gone w \<Longrightarrow> wp (ph_collect_output h d) (\<lambda>_. gone) w"
  using assms by (simp_all add: seals_def)

text \<open>A returned result belongs to the request and to a sealed process group.\<close>

definition good :: "('w \<Rightarrow> bool) \<Rightarrow> process_request \<Rightarrow> process_result \<Rightarrow> 'w \<Rightarrow> bool" where
  "good gone rq res w \<longleftrightarrow>
     ps_identity res = rq_identity rq \<and> ps_cleanup res = Verified \<and>
     (ps_termination res = Completed \<longrightarrow> ps_exit res \<noteq> None) \<and> gone w"

lemma seal_gone: "seals h gone \<Longrightarrow> wp (seal h stage dl) (\<lambda>r w'. r = Ok () \<longrightarrow> gone w') w"
  apply (simp add: seal_def cleanup_remaining_def wp_simps)
  apply (rule wp_any)
  apply (rule wp_mono [OF sealsD(1)], assumption)
  apply (auto simp: result_simps)
  done

lemma collect_gone: "seals h gone \<Longrightarrow> gone w \<Longrightarrow> wp (collect h dl) (\<lambda>_. gone) w"
  apply (simp add: collect_def cleanup_remaining_def wp_simps)
  apply (rule wp_mono [OF sealsD(2)], assumption, assumption)
  apply (rule wp_mono [OF sealsD(4)], assumption, assumption)
  apply assumption
  done

lemma sealed_result_good:
  "seals h gone \<Longrightarrow> gone w \<Longrightarrow> (t = Completed \<longrightarrow> exit \<noteq> None) \<Longrightarrow>
     wp (sealed_result h rq t exit started out) (\<lambda>r w'. \<forall>res. r = Ok res \<longrightarrow> good gone rq res w') w"
  apply (simp add: sealed_result_def elapsed_millis_def wp_simps)
  apply (rule wp_mono [OF sealsD(2)], assumption, assumption)
  apply (auto simp: good_def)
  done

lemma seal_collect_good:
  assumes h: "seals h gone" and t: "t = Completed \<longrightarrow> exit \<noteq> None"
  shows "wp (attempt (seal h stage dl) (\<lambda>_. attempt (collect h dl) (\<lambda>out. sealed_result h rq t exit started out)))
    (\<lambda>r w'. \<forall>res. r = Ok res \<longrightarrow> good gone rq res w') w"
  apply (simp add: wp_simps)
  apply (rule wp_mono [OF seal_gone [OF h]])
  apply (clarsimp simp: wp_simps split: sum.split)
  apply (rule wp_mono [OF collect_gone [OF h]], assumption)
  apply (clarsimp split: sum.split)
  apply (erule sealed_result_good [OF h _ t])
  done

lemma force_stop_good:
  assumes h: "seals h gone" and t: "t \<noteq> Completed"
  shows "wp (force_stop h rq t started dl) (\<lambda>r w'. \<forall>res. r = Ok res \<longrightarrow> good gone rq res w') w"
proof -
  have *: "wp (case r of Inl e \<Rightarrow> attempt (seal h ''forced descendant seal after force-stop failure'' dl)
        (\<lambda>_. State_Monad.return (Err (PrcCleanupUncertain ''force stop'' e)))
      | Inr exit \<Rightarrow> attempt (seal h ''forced descendant seal'' dl)
        (\<lambda>_. attempt (collect h dl) (\<lambda>out. sealed_result h rq t exit started out)))
      (\<lambda>r w'. \<forall>res. r = Ok res \<longrightarrow> good gone rq res w') w'" for r w'
  proof (cases r)
    case (Inr exit)
    with seal_collect_good [OF h, of t exit] t show ?thesis by simp
  next
    case (Inl e)
    then show ?thesis by (auto simp: wp_simps split: sum.split intro!: wp_any)
  qed
  show ?thesis
    unfolding force_stop_def wp_bind by (rule wp_any, rule wp_any, rule *)
qed

abbreviation answer_good :: "('w \<Rightarrow> bool) \<Rightarrow> process_request \<Rightarrow> (process_error, process_result) result option \<Rightarrow> 'w \<Rightarrow> bool" where
  "answer_good gone rq r w \<equiv> \<forall>res. r = Some (Ok res) \<longrightarrow> good gone rq res w"

lemma stop_and_collect_good:
  assumes h: "seals h gone" and t: "t \<noteq> Completed"
  shows "wp (stop_and_collect n h poll rq t started dl) (answer_good gone rq) w"
proof -
  have *: "wp (case waited of
       None \<Rightarrow> State_Monad.return None
     | Some (Inl e) \<Rightarrow> State_Monad.return (Some (Err e))
     | Some (Inr (Some exit)) \<Rightarrow>
         State_Monad.bind (attempt (seal h ''graceful descendant seal'' dl) (\<lambda>_.
              attempt (collect h dl) (\<lambda>out. sealed_result h rq t (Some exit) started out)))
           (\<lambda>r. State_Monad.return (Some r))
     | Some (Inr None) \<Rightarrow>
         State_Monad.bind (force_stop h rq t started dl) (\<lambda>r. State_Monad.return (Some r)))
      (answer_good gone rq) w'" for waited w'
    using seal_collect_good [OF h] force_stop_good [OF h t]
    by (simp add: wp_simps t split: option.split sum.split)
  show ?thesis
    unfolding stop_and_collect_def wp_bind [of "ph_request_graceful_stop h"]
    by (rule wp_any, subst wp_bind, rule wp_any, rule *)
qed

lemma complete_good:
  assumes h: "seals h gone"
  shows "wp (complete h rq exit started dl) (\<lambda>r w'. \<forall>res. r = Ok res \<longrightarrow> good gone rq res w') w"
  apply (simp add: complete_def wp_simps)
  apply (rule wp_mono [OF seal_gone [OF h]])
  apply (clarsimp simp: wp_simps split: sum.split)
  apply (rule wp_mono [OF collect_gone [OF h]], assumption)
  apply (clarsimp simp: wp_simps split: sum.split)
  apply (rule wp_mono [OF sealsD(3) [OF h]], assumption)
  apply (clarsimp simp: wp_simps split: sum.split)
  apply (rule sealed_result_good [OF h])
   apply simp_all
  done

lemma monitor_loop_good:
  assumes h: "seals h gone"
  shows "wp (monitor_loop n h poll rq started dl) (answer_good gone rq) w"
proof (induction n arbitrary: w)
  case (Suc m)
  have after: "wp (stop_and_collect m h poll rq t started dl) (\<lambda>r. answer_good gone rq (after_cleanup e r)) w'" for t e w'
    by (rule wp_any) (auto simp: after_cleanup_def split: option.splits sum.splits)
  have compl: "wp (complete h rq exit started dl) (\<lambda>r. answer_good gone rq (Some r)) w'" for exit w'
    using complete_good [OF h] by simp
  note stop = stop_and_collect_good [OF h]
  show ?case
    apply (simp only: monitor_loop.simps wp_simps cong: sum.case_cong option.case_cong)
    apply (rule wp_any)
    apply (simp only: after split: if_split, intro conjI impI TrueI)
    apply (rule wp_any)
    apply (simp only: stop process_termination.distinct if_True not_False_eq_True split: if_split, intro conjI impI TrueI)
    apply (rule wp_any)
    apply (simp only: stop process_termination.distinct not_False_eq_True split: if_split, intro conjI impI TrueI)
    apply (rule wp_any)
    subgoal for g w1 token w2 expired w3 observed w4
      using after compl Suc.IH by (auto split: sum.split option.split intro: wp_any)
    done
qed (simp add: wp_simps)

lemma execute_good:
  assumes "seals h gone"
  shows "wp (execute_with_output_and_capture_ceiling n cx h rq mode ceiling)
    (\<lambda>r w'. \<forall>res. r = Some (Ok res) \<longrightarrow> good gone rq res w' \<or>
       ps_identity res = rq_identity rq \<and> ps_cleanup res = NotRequired \<and> ps_termination res = Cancelled \<and>
       ps_exit res = None) w"
proof -
  have empty: "wp (empty_result cx h rq Cancelled NotRequired started)
      (\<lambda>res _. ps_identity res = rq_identity rq \<and> ps_cleanup res = NotRequired \<and> ps_termination res = Cancelled \<and>
         ps_exit res = None) w'" for started w'
    unfolding empty_result_def wp_bind wp_return by (rule wp_any) simp
  have loop: "wp (monitor_loop n h poll rq started dl)
    (\<lambda>r w'. \<forall>res. r = Some (Ok res) \<longrightarrow> good gone rq res w' \<or>
       ps_identity res = rq_identity rq \<and> ps_cleanup res = NotRequired \<and> ps_termination res = Cancelled \<and>
       ps_exit res = None) w'" for poll started dl w'
    by (rule wp_mono [OF monitor_loop_good [OF assms]]) blast
  show ?thesis
    apply (simp add: execute_with_output_and_capture_ceiling_def wp_simps Let_def
        cong: sum.case_cong split: sum.split)
    apply (intro impI wp_any)
    apply (clarsimp split: sum.split)
    apply (intro wp_any)
    apply (clarsimp simp: wp_simps)
    apply (intro conjI impI)
     apply (rule wp_mono [OF empty], simp)
    apply (rule wp_any)
    using loop apply (simp add: wp_return split: sum.split)
    done
qed

end
