(* ===== verification/Std_Process.thy ===== *)
theory Std_Process
  imports Supervisor_Correct
begin

text \<open>
  The Unix implementation of a managed process in \<^verbatim>\<open>src/src/process.rs\<close>: the cached exit status, the
  signals to the process group, the loop that waits until the group is gone, and the reader that
  keeps a bounded prefix of an output stream while it counts and hashes all of it.
\<close>

section \<open>Signals\<close>

datatype errno = ESRCH | EPERM | OtherErrno io_error

datatype signal = SIGTERM | SIGKILL

definition errno_error :: "errno \<Rightarrow> io_error" where
  "errno_error e =
     (case e of ESRCH \<Rightarrow> IoError OtherKind ''ESRCH'' | EPERM \<Rightarrow> IoError OtherKind ''EPERM'' | OtherErrno i \<Rightarrow> i)"

text \<open>The operating system: signals to a group (no signal only probes it), and the child itself.\<close>

record 'w os =
  os_now :: "('w, duration) state"
  os_sleep :: "duration \<Rightarrow> ('w, unit) state"
  os_killpg :: "i32 \<Rightarrow> signal option \<Rightarrow> ('w, errno, unit) action"
  os_child_try_wait :: "('w, io_error, exit_outcome option) action"
  os_start_kill :: "('w, io_error, unit) action"

definition GROUP_EXIT_POLL :: duration where
  "GROUP_EXIT_POLL = millis 5"

definition pid_as_i32 :: "u32 \<Rightarrow> (io_error, i32) result" where
  "pid_as_i32 pid =
     (if unat pid < 2 ^ 31 then Ok pid
      else Err (IoError OtherKind ''out of range integral type conversion attempted''))"

section \<open>Waiting for the group to disappear\<close>

primrec group_exit_loop ::
    "nat \<Rightarrow> 'w os \<Rightarrow> i32 \<Rightarrow> duration \<Rightarrow> duration \<Rightarrow> ('w, (io_error, unit) result option) state" where
  "group_exit_loop 0 os pgid started deadline = State_Monad.return None"
| "group_exit_loop (Suc n) os pgid started deadline = do {
     r \<leftarrow> os_killpg os pgid None;
     if r = Err ESRCH then State_Monad.return (Some (Ok ()))
     else if r = Ok () \<or> r = Err EPERM then do {
       now \<leftarrow> os_now os;
       if now - started < deadline then do {
         os_sleep os GROUP_EXIT_POLL;
         group_exit_loop n os pgid started deadline }
       else State_Monad.return (Some (Err (IoError TimedOutKind ''process group still exists after force stop''))) }
     else State_Monad.return (Some (case r of Inl e \<Rightarrow> Err (errno_error e) | Inr u \<Rightarrow> Ok u)) }"

definition seal_unix_process_group ::
    "nat \<Rightarrow> 'w os \<Rightarrow> u32 \<Rightarrow> duration \<Rightarrow> ('w, (io_error, unit) result option) state" where
  "seal_unix_process_group n os pid deadline =
     (case pid_as_i32 pid of
        Inl e \<Rightarrow> State_Monad.return (Some (Err e))
      | Inr pgid \<Rightarrow> do {
          r \<leftarrow> os_killpg os pgid (Some SIGKILL);
          if r = Ok () \<or> r = Err ESRCH then do {
            started \<leftarrow> os_now os;
            group_exit_loop n os pgid started deadline }
          else State_Monad.return (Some (case r of Inl e \<Rightarrow> Err (errno_error e) | Inr u \<Rightarrow> Ok u)) })"

section \<open>The managed process\<close>

text \<open>The exit status is cached in the process, here beside the world.\<close>

definition on_world :: "('w, 'a) state \<Rightarrow> ('w \<times> 'c, 'a) state" where
  "on_world m = State (\<lambda>(w, c). case run_state m w of (x, w') \<Rightarrow> (x, (w', c)))"

definition last_exit :: "('w \<times> exit_outcome option, exit_outcome option) state" where
  "last_exit = State (\<lambda>(w, c). (c, (w, c)))"

definition set_last_exit :: "exit_outcome \<Rightarrow> ('w \<times> exit_outcome option, unit) state" where
  "set_last_exit e = State (\<lambda>(w, c). ((), (w, Some e)))"

definition std_try_wait :: "'w os \<Rightarrow> ('w \<times> exit_outcome option, io_error, exit_outcome option) action" where
  "std_try_wait os = do {
     cached \<leftarrow> last_exit;
     case cached of
       Some exit \<Rightarrow> State_Monad.return (Ok (Some exit))
     | None \<Rightarrow>
         attempt (on_world (os_child_try_wait os)) (\<lambda>exit.
           case exit of
             None \<Rightarrow> State_Monad.return (Ok None)
           | Some e \<Rightarrow> do { set_last_exit e; State_Monad.return (Ok (Some e)) }) }"

definition std_request_graceful_stop ::
    "'w os \<Rightarrow> u32 \<Rightarrow> ('w \<times> exit_outcome option, io_error, graceful_stop) action" where
  "std_request_graceful_stop os pid =
     (case pid_as_i32 pid of
        Inl e \<Rightarrow> State_Monad.return (Err e)
      | Inr pgid \<Rightarrow> do {
          r \<leftarrow> on_world (os_killpg os pgid (Some SIGTERM));
          State_Monad.return
            (case r of
               Inr _ \<Rightarrow> Ok Requested
             | Inl e \<Rightarrow> if e = ESRCH then Ok AlreadyStopped else Err (errno_error e)) })"

primrec force_loop ::
    "nat \<Rightarrow> 'w os \<Rightarrow> duration \<Rightarrow> duration \<Rightarrow>
       ('w \<times> exit_outcome option, (io_error, exit_outcome option) result option) state" where
  "force_loop 0 os started deadline = State_Monad.return None"
| "force_loop (Suc n) os started deadline = do {
     r \<leftarrow> std_try_wait os;
     case r of
       Inl e \<Rightarrow> State_Monad.return (Some (Err e))
     | Inr (Some exit) \<Rightarrow> State_Monad.return (Some (Ok (Some exit)))
     | Inr None \<Rightarrow> do {
         now \<leftarrow> on_world (os_now os);
         if now - started \<ge> deadline
         then State_Monad.return
           (Some (Err (IoError TimedOutKind ''child did not exit within the force-stop deadline'')))
         else do { on_world (os_sleep os GROUP_EXIT_POLL); force_loop n os started deadline } } }"

definition std_force_stop_and_wait ::
    "nat \<Rightarrow> 'w os \<Rightarrow> duration \<Rightarrow>
       ('w \<times> exit_outcome option, (io_error, exit_outcome option) result option) state" where
  "std_force_stop_and_wait n os deadline = do {
     killed \<leftarrow> on_world (os_start_kill os);
     proceed \<leftarrow>
       (case killed of
          Inr _ \<Rightarrow> State_Monad.return (Ok ())
        | Inl e \<Rightarrow> attempt (std_try_wait os) (\<lambda>exit. State_Monad.return (if exit \<noteq> None then Ok () else Err e)));
     case proceed of
       Inl e \<Rightarrow> State_Monad.return (Some (Err e))
     | Inr _ \<Rightarrow> do {
         started \<leftarrow> on_world (os_now os);
         force_loop n os started deadline } }"

section \<open>Reading an output stream\<close>

text \<open>
  One turn of the reader: whether cancellation was requested, what the read returned (nothing at the
  end of the stream), and the error of echoing it, if any.
\<close>

record read_turn =
  rt_cancelled :: bool
  rt_read :: "(io_error, string) result"
  rt_write :: "io_error option"

record read_state =
  rd_captured :: string
  rd_byte_count :: u64
  rd_hashed :: string
  rd_truncated :: bool
  rd_write_error :: "io_error option"

definition read_step :: "nat \<Rightarrow> bool \<Rightarrow> read_turn \<Rightarrow> string \<Rightarrow> read_state \<Rightarrow> read_state" where
  "read_step limit tee t bytes st =
     (let kept = min (limit - length (rd_captured st)) (length bytes)
      in \<lparr>rd_captured = rd_captured st @ take kept bytes,
          rd_byte_count = saturating_add (rd_byte_count st) (u64_of_len (length bytes)),
          rd_hashed = rd_hashed st @ bytes,
          rd_truncated = (rd_truncated st \<or> kept < length bytes),
          rd_write_error = (if tee \<and> rd_write_error st = None then rt_write t else rd_write_error st)\<rparr>)"

definition read_finish :: "codec \<Rightarrow> read_state \<Rightarrow> (io_error, captured_stream) result" where
  "read_finish cx st =
     (case rd_write_error st of
        Some e \<Rightarrow> Err e
      | None \<Rightarrow> Ok \<lparr>cs_bytes = rd_captured st, cs_byte_count = rd_byte_count st,
                   cs_full_digest = sha256_digest cx (rd_hashed st), cs_truncated = rd_truncated st\<rparr>)"

text \<open>The turns seen so far decide; \<open>None\<close> while the stream is still open.\<close>

primrec read_loop ::
    "codec \<Rightarrow> nat \<Rightarrow> bool \<Rightarrow> read_state \<Rightarrow> read_turn list \<Rightarrow> (io_error, captured_stream) result option" where
  "read_loop cx limit tee st [] = None"
| "read_loop cx limit tee st (t # ts) =
     (if rt_cancelled t then Some (Err (IoError Interrupted ''output reader cancellation requested''))
      else case rt_read t of
             Inl e \<Rightarrow> Some (Err e)
           | Inr bytes \<Rightarrow>
               if bytes = [] then Some (read_finish cx st)
               else read_loop cx limit tee (read_step limit tee t bytes st) ts)"

definition read_stream ::
    "codec \<Rightarrow> nat \<Rightarrow> bool \<Rightarrow> read_turn list \<Rightarrow> (io_error, captured_stream) result option" where
  "read_stream cx limit tee ts =
     read_loop cx limit tee
       \<lparr>rd_captured = [], rd_byte_count = 0, rd_hashed = [], rd_truncated = False, rd_write_error = None\<rparr> ts"

section \<open>Facts\<close>

text \<open>A successful seal ends with a probe that finds no process of the group.\<close>

lemma group_exit_loop_gone:
  assumes "\<And>w. wp (os_killpg os pgid None) (\<lambda>r w'. r = Err ESRCH \<longrightarrow> gone w') w"
  shows "wp (group_exit_loop n os pgid started deadline) (\<lambda>r w'. r = Some (Ok ()) \<longrightarrow> gone w') w"
proof (induction n arbitrary: w)
  case (Suc n)
  show ?case
    apply (simp only: group_exit_loop.simps wp_simps)
    apply (rule wp_mono [OF assms])
    apply (clarsimp simp: wp_simps split: sum.split)
    apply (intro conjI impI)
     apply (rule wp_any, simp add: wp_simps, intro impI, rule wp_any, rule Suc.IH)+
    done
qed (simp add: wp_simps)

lemma seal_unix_process_group_gone:
  assumes "\<And>pgid w. wp (os_killpg os pgid None) (\<lambda>r w'. r = Err ESRCH \<longrightarrow> gone w') w"
  shows "wp (seal_unix_process_group n os pid deadline) (\<lambda>r w'. r = Some (Ok ()) \<longrightarrow> gone w') w"
proof -
  have *: "wp (group_exit_loop n os pgid started deadline) (\<lambda>r w'. r = Some (Ok ()) \<longrightarrow> gone w') w'" for pgid started w'
    by (rule group_exit_loop_gone) (rule assms)
  show ?thesis
    apply (clarsimp simp: seal_unix_process_group_def wp_simps split: sum.split)
    apply (rule wp_any)
    apply (clarsimp simp: wp_simps split: sum.split)
    apply (intro conjI impI; rule wp_any, rule *)
    done
qed

lemma group_exit_loop_ends:
  assumes now: "\<And>w. wp (os_now os) (\<lambda>n w'. time w \<le> n \<and> n \<le> time w') w"
    and sleep: "\<And>d w. wp (os_sleep os d) (\<lambda>_ w'. time w + d \<le> time w') w"
    and kill: "\<And>g s w. wp (os_killpg os g s) (\<lambda>_ w'. time w \<le> time w') w"
    and "started \<le> time w" "0 < n" "deadline \<le> (time w - started) + (n - 1) * GROUP_EXIT_POLL"
  shows "wp (group_exit_loop n os pgid started deadline) (\<lambda>r _. r \<noteq> None) w"
  using assms(4-)
proof (induction n arbitrary: w)
  case (Suc m)
  have step: "wp (group_exit_loop m os pgid started deadline) (\<lambda>r _. r \<noteq> None) w'"
    if "now - started < deadline" "time w \<le> now" "time w + GROUP_EXIT_POLL \<le> time w'" for now w'
  proof -
    from that(1,2) have "time w - started < deadline" by linarith
    with Suc.prems(3) have m: "0 < m" by (cases m) auto
    then have "m * GROUP_EXIT_POLL = (m - 1) * GROUP_EXIT_POLL + GROUP_EXIT_POLL" by (cases m) auto
    with Suc.prems that(3) have "deadline \<le> (time w' - started) + (m - 1) * GROUP_EXIT_POLL" by simp
    with m Suc.prems(1) that(3) show ?thesis by (intro Suc.IH) auto
  qed
  show ?case
    apply (simp only: group_exit_loop.simps wp_simps)
    apply (rule wp_mono [OF kill])
    apply (clarsimp simp del: not_None_eq)
    apply (intro conjI impI;
        rule wp_mono [OF now], clarsimp simp del: not_None_eq, rule wp_mono [OF sleep], rule step,
        assumption, linarith, linarith)
    done
qed simp

lemma read_loop_data:
  assumes "\<forall>t\<in>set ts. \<not> rt_cancelled t \<and> (\<exists>b. rt_read t = Ok b \<and> b \<noteq> []) \<and> rt_write t = None"
  shows "read_loop cx limit tee st (ts @ rest) =
    read_loop cx limit tee (fold (\<lambda>t. read_step limit tee t (projr (rt_read t))) ts st) rest"
  using assms by (induction ts arbitrary: st) auto

text \<open>What the state holds after some chunks: a bounded prefix, and count and hash input of everything.\<close>

definition read_follows :: "nat \<Rightarrow> string \<Rightarrow> read_state \<Rightarrow> bool" where
  "read_follows limit s st \<longleftrightarrow>
     rd_captured st = take limit s \<and> rd_hashed st = s \<and> unat (rd_byte_count st) = min (length s) (2 ^ 64 - 1) \<and>
     (rd_truncated st \<longleftrightarrow> limit < length s) \<and> rd_write_error st = None"

lemma unat_u64_of_len: "unat (u64_of_len n) = min n (2 ^ 64 - 1)"
proof -
  have "unat (- 1 :: u64) = 2 ^ 64 - 1" by (simp add: unsigned_minus_1_eq_mask mask_eq_exp_minus_1)
  then show ?thesis by (auto simp: u64_of_len_def unat_of_nat)
qed

lemma read_step_follows:
  assumes "read_follows limit s st" and "rt_write t = None"
  shows "read_follows limit (s @ b) (read_step limit tee t b st)"
proof -
  have "take limit s @ take (min (limit - length (take limit s)) (length b)) b = take limit (s @ b)"
    by (cases "length s \<le> limit") (auto simp: min_def)
  moreover have "limit < length s \<or> min (limit - length (take limit s)) (length b) < length b \<longleftrightarrow> limit < length (s @ b)"
    by auto
  ultimately show ?thesis
    using assms by (auto simp: read_follows_def read_step_def Let_def unat_saturating_add unat_u64_of_len min_def)
qed

lemma read_fold_follows:
  assumes "read_follows limit s st" and "\<forall>t\<in>set ts. rt_write t = None"
  shows "read_follows limit (s @ concat (map (\<lambda>t. projr (rt_read t)) ts))
    (fold (\<lambda>t. read_step limit tee t (projr (rt_read t))) ts st)"
  using assms
proof (induction ts arbitrary: s st)
  case (Cons t ts)
  have "read_follows limit (s @ projr (rt_read t)) (read_step limit tee t (projr (rt_read t)) st)"
    using Cons.prems by (intro read_step_follows) auto
  from Cons.IH [OF this] Cons.prems(2) show ?case by simp
qed simp

end
