(* ===== verification/Process_Props.thy ===== *)
theory Process_Props
  imports Std_Process "HOL-Library.Code_Target_Numeral"
begin

text \<open>
  The properties of the process supervisor (\<^verbatim>\<open>src/src/process.rs\<close>), with a small host to apply them to.
\<close>

section \<open>A host\<close>

text \<open>A world with a clock and one child that has exited from the start; sealing removes its group.\<close>

definition demo_identity :: run_identity where
  "demo_identity = \<lparr>ri_project = ''demo'', ri_commit = None, ri_config_digest = ''d'', ri_generation = ''g''\<rparr>"

definition demo_request :: process_request where
  "demo_request = \<lparr>rq_identity = demo_identity, rq_program = ''/bin/true'', rq_argv = [], rq_current_dir = ''/'',
     rq_environment = [], rq_timeout = secs 1, rq_max_capture_bytes = 16\<rparr>"

definition demo_stream :: captured_stream where
  "demo_stream = \<lparr>cs_bytes = [], cs_byte_count = 0, cs_full_digest = [], cs_truncated = False\<rparr>"

definition demo_host :: "(duration \<times> bool) process_host" where
  "demo_host =
     \<lparr>ph_now = State (\<lambda>w. (fst w, w)), ph_sleep = (\<lambda>d. State (\<lambda>w. ((), (fst w + d, snd w)))),
      ph_token = State_Monad.return 0, ph_generation = State_Monad.return (generation_guard_new demo_identity),
      ph_spawn = (\<lambda>_ _. State (\<lambda>w. (Ok (), (fst w, True)))),
      ph_try_wait = State_Monad.return (Ok (Some \<lparr>eo_success = True, eo_code = Some 0\<rparr>)),
      ph_request_graceful_stop = State_Monad.return (Ok Requested),
      ph_force_stop_and_wait = (\<lambda>_. State_Monad.return (Ok None)),
      ph_seal_descendants = (\<lambda>_. State (\<lambda>w. (Ok (), (fst w, False)))),
      ph_collect_output = (\<lambda>_. State_Monad.return (Ok (demo_stream, demo_stream)))\<rparr>"

lemma demo_clock: "clock_runs demo_host fst"
  by (simp add: clock_runs_def demo_host_def wp_simps) (simp add: wp_def)

lemma demo_seals: "seals demo_host (\<lambda>w. \<not> snd w)"
  by (simp add: seals_def demo_host_def wp_simps) (simp add: wp_def)

definition demo_codec :: codec where
  "demo_codec = \<lparr>to_vec = (\<lambda>_. Ok []), sha256 = (\<lambda>_. replicate 32 CHR ''x'')\<rparr>"

definition demo_result :: process_result where
  "demo_result = \<lparr>ps_identity = demo_identity, ps_termination = Completed, ps_cleanup = Verified,
     ps_exit = Some \<lparr>eo_success = True, eo_code = Some 0\<rparr>, ps_stdout = demo_stream, ps_stderr = demo_stream,
     ps_elapsed_millis = 0\<rparr>"

section \<open>Supervision\<close>

text \<open>
  C23. The supervisor always answers: whatever the child, the signals and the shared state do, on a
  host whose clock never runs backwards and whose sleeps last as long as asked, the monitoring loop
  and the loop that waits for a graceful stop end within the request's timeout divided by the
  polling interval, plus four, iterations.
\<close>

theorem supervisor_always_answers:
  assumes "clock_runs h time" and "rq_timeout rq div DEFAULT_POLL_INTERVAL + 4 \<le> n"
  shows "fst (run_state (execute n cx h rq) w) \<noteq> None \<and>
    fst (run_state (execute_source_blob n cx h rq) w) \<noteq> None"
  using execute_ends [OF assms, of cx Capture MAX_CAPTURE_BYTES w]
    execute_ends [OF assms, of cx Capture MAX_SOURCE_BLOB_CAPTURE_BYTES w]
  by (auto simp: execute_def execute_with_output_def execute_source_blob_def wp_def split: prod.splits)

theorem supervisor_always_answers_witness:
  "fst (run_state (execute 104 demo_codec demo_host demo_request) (0, False)) \<noteq> None"
proof -
  have "rq_timeout demo_request div DEFAULT_POLL_INTERVAL + 4 \<le> 104"
    by (simp add: demo_request_def DEFAULT_POLL_INTERVAL_def)
  from supervisor_always_answers [OF demo_clock this] show ?thesis by blast
qed

text \<open>
  C24. No process outlives its result: every result the supervisor returns belongs to the request; if a
  child was started, its process group has been sealed and is gone, and a completed result carries
  an exit status; otherwise the run was cancelled before the start.
\<close>

theorem supervisor_seals_before_answering:
  assumes "seals h gone" and "run_state (execute n cx h rq) w = (Some (Ok res), w')"
  shows "ps_identity res = rq_identity rq \<and>
    (ps_cleanup res = Verified \<longrightarrow> gone w' \<and> (ps_termination res = Completed \<longrightarrow> ps_exit res \<noteq> None)) \<and>
    (ps_cleanup res = NotRequired \<longrightarrow> ps_termination res = Cancelled \<and> ps_exit res = None)"
proof -
  have "good gone rq res w' \<or> ps_identity res = rq_identity rq \<and> ps_cleanup res = NotRequired \<and>
      ps_termination res = Cancelled \<and> ps_exit res = None"
    using execute_good [OF assms(1), of n cx rq Capture MAX_CAPTURE_BYTES w] assms(2)
    by (simp add: execute_def execute_with_output_def wp_def)
  then show ?thesis by (auto simp: good_def)
qed

theorem supervisor_seals_before_answering_witness:
  "run_state (execute 2 demo_codec demo_host demo_request) (0, False) = (Some (Ok demo_result), (0, False)) \<and>
   \<not> snd (0 :: duration, False)"
proof -
  have "run_state (execute 2 demo_codec demo_host demo_request) (0, False) = (Some (Ok demo_result), (0, False))"
    by code_simp
  from supervisor_seals_before_answering [OF demo_seals this] this show ?thesis
    by (simp add: demo_result_def)
qed

text \<open>
  C25. Sealing a Unix process group is decisive and bounded: success means that a probe found no process
  of the group any more, and the wait ends within the deadline divided by the polling interval,
  plus two, probes.
\<close>

theorem seal_unix_group_decisive:
  assumes "\<And>g w. wp (os_killpg os g None) (\<lambda>r w'. r = Err ESRCH \<longrightarrow> gone w') w"
    and "\<And>w. wp (os_now os) (\<lambda>n w'. time w \<le> n \<and> n \<le> time w') w"
    and "\<And>d w. wp (os_sleep os d) (\<lambda>_ w'. time w + d \<le> time w') w"
    and "\<And>g s w. wp (os_killpg os g s) (\<lambda>_ w'. time w \<le> time w') w"
    and "deadline div GROUP_EXIT_POLL + 2 \<le> n"
    and "run_state (seal_unix_process_group n os pid deadline) w = (r, w')"
  shows "r \<noteq> None \<and> (r = Some (Ok ()) \<longrightarrow> gone w')"
proof -
  have "deadline \<le> Suc (deadline div GROUP_EXIT_POLL) * GROUP_EXIT_POLL"
    using dividend_less_div_times [of GROUP_EXIT_POLL deadline] by (simp add: GROUP_EXIT_POLL_def mult.commute)
  also have "\<dots> \<le> (n - 1) * GROUP_EXIT_POLL" using assms(5) by (intro mult_right_mono) auto
  finally have budget: "deadline \<le> (n - 1) * GROUP_EXIT_POLL" .
  have loop: "wp (group_exit_loop n os g started deadline) (\<lambda>r _. r \<noteq> None) w1" if "started \<le> time w1" for g started w1
    using that budget assms(5) by (intro group_exit_loop_ends [where time = time] assms(2-4)) auto
  have "wp (seal_unix_process_group n os pid deadline) (\<lambda>r _. r \<noteq> None) w"
    apply (clarsimp simp: seal_unix_process_group_def wp_simps simp del: not_None_eq split: sum.split)
    apply (rule wp_mono [OF assms(4)])
    apply (clarsimp simp: wp_simps simp del: not_None_eq)
    apply (intro conjI impI; rule wp_mono [OF assms(2)], rule loop, simp)
    done
  moreover have "wp (seal_unix_process_group n os pid deadline) (\<lambda>r w'. r = Some (Ok ()) \<longrightarrow> gone w') w"
    by (rule seal_unix_process_group_gone) (rule assms(1))
  ultimately show ?thesis using assms(6) by (simp add: wp_def)
qed

text \<open>A group whose last process goes 30 milliseconds after the start, on a clock that only sleeping moves.\<close>

definition demo_os :: "duration os" where
  "demo_os = \<lparr>os_now = State (\<lambda>w. (w, w)), os_sleep = (\<lambda>d. State (\<lambda>w. ((), w + d))),
     os_killpg = (\<lambda>_ signal. State (\<lambda>w. (if signal = None \<and> millis 30 \<le> w then Err ESRCH else Ok (), w))),
     os_child_try_wait = State_Monad.return (Ok None), os_start_kill = State_Monad.return (Ok ())\<rparr>"

theorem seal_unix_group_decisive_witness:
  "\<exists>w'. run_state (seal_unix_process_group 22 demo_os 7 (millis 100)) 0 = (Some (Ok ()), w') \<and> millis 30 \<le> w'"
proof -
  obtain r w' where r: "run_state (seal_unix_process_group 22 demo_os 7 (millis 100)) 0 = (r, w')"
    by (cases "run_state (seal_unix_process_group 22 demo_os 7 (millis 100)) 0")
  have "r \<noteq> None \<and> (r = Some (Ok ()) \<longrightarrow> millis 30 \<le> w')"
    by (rule seal_unix_group_decisive [where time = id and os = demo_os and deadline = "millis 100", OF _ _ _ _ _ r])
      (simp_all add: demo_os_def wp_simps GROUP_EXIT_POLL_def, simp_all add: wp_def)
  moreover have "fst (run_state (seal_unix_process_group 22 demo_os 7 (millis 100)) 0) = Some (Ok ())" by code_simp
  ultimately show ?thesis using r by simp
qed

section \<open>Output capture\<close>

text \<open>
  Captured output is bounded and honest: from any stream that is read to its end without an error
  the reader keeps exactly the first \<open>limit\<close> bytes, says truncated exactly when there were more,
  counts all bytes (saturating) and digests all of them.
\<close>

theorem read_stream_exact:
  assumes "\<forall>t\<in>set ts. \<not> rt_cancelled t \<and> (\<exists>b. rt_read t = Ok b \<and> b \<noteq> []) \<and> rt_write t = None"
    and "\<not> rt_cancelled eof" and "rt_read eof = Ok []"
  shows "\<exists>out. read_stream cx limit tee (ts @ [eof]) = Some (Ok out) \<and>
    (let s = concat (map (\<lambda>t. projr (rt_read t)) ts)
     in cs_bytes out = take limit s \<and> (cs_truncated out \<longleftrightarrow> limit < length s) \<and>
        unat (cs_byte_count out) = min (length s) (2 ^ 64 - 1) \<and> cs_full_digest out = sha256_digest cx s)"
proof -
  let ?st = "\<lparr>rd_captured = [], rd_byte_count = 0, rd_hashed = [], rd_truncated = False, rd_write_error = None\<rparr>"
  have "read_follows limit [] ?st" by (simp add: read_follows_def)
  from read_fold_follows [OF this, of ts tee] assms(1)
  have "read_follows limit (concat (map (\<lambda>t. projr (rt_read t)) ts))
    (fold (\<lambda>t. read_step limit tee t (projr (rt_read t))) ts ?st)" by simp
  then show ?thesis
    using read_loop_data [OF assms(1), of cx limit tee ?st "[eof]"] assms(2,3)
    by (simp add: read_stream_def read_finish_def read_follows_def Let_def)
qed

definition demo_turn :: "string \<Rightarrow> read_turn" where
  "demo_turn b = \<lparr>rt_cancelled = False, rt_read = Ok b, rt_write = None\<rparr>"

theorem read_stream_exact_witness:
  "\<exists>out. read_stream demo_codec 3 False [demo_turn ''ab'', demo_turn ''cd'', demo_turn []] = Some (Ok out) \<and>
     cs_bytes out = ''abc'' \<and> cs_truncated out"
  using read_stream_exact [of "[demo_turn ''ab'', demo_turn ''cd'']" "demo_turn []" demo_codec 3 False]
  by (simp add: demo_turn_def) blast

end
