(* ===== verification/Storage.thy ===== *)
theory Storage
  imports Config_Types Rust_Io
begin

text \<open>
  The storage preflight of \<^verbatim>\<open>src/src/storage.rs\<close>: the bytes a plan's storage policy requires and their
  comparison with what the probe finds free. The probe is a parameter.
\<close>

datatype storage_error =
    StoProbe string io_error
  | StoPolicyOverflow
  | StoInsufficient u64 u64

record storage_preflight =
  sp_available_bytes :: u64
  sp_required_bytes :: u64

definition required_bytes :: "normalized_storage \<Rightarrow> (storage_error, u64) result" where
  "required_bytes policy =
     ok_or StoPolicyOverflow
       (Option.bind (checked_add (ns_min_free_bytes policy) (ns_receipt_journal_reserve_bytes policy)) (\<lambda>t.
        Option.bind (checked_add t (ns_max_cache_growth_bytes policy)) (\<lambda>t.
        checked_add t (ns_max_artifact_bytes policy))))"

definition preflight ::
    "normalized_storage \<Rightarrow> string \<Rightarrow> (string \<Rightarrow> (storage_error, u64) result) \<Rightarrow> (storage_error, storage_preflight) result" where
  "preflight policy cache_root probe =
     and_then (required_bytes policy) (\<lambda>required.
     and_then (probe cache_root) (\<lambda>available.
     if available < required then Err (StoInsufficient available required)
     else Ok \<lparr>sp_available_bytes = available, sp_required_bytes = required\<rparr>))"

abbreviation reserves :: "normalized_storage \<Rightarrow> nat" where
  "reserves n \<equiv> unat (ns_min_free_bytes n) + unat (ns_receipt_journal_reserve_bytes n) +
     unat (ns_max_cache_growth_bytes n) + unat (ns_max_artifact_bytes n)"

lemma required_bytes_iff: "required_bytes n = Ok r \<longleftrightarrow> unat r = reserves n"
proof
  assume "required_bytes n = Ok r"
  then show "unat r = reserves n" by (auto simp: required_bytes_def result_simps bind_eq_Some_conv u_simps)
next
  assume r: "unat r = reserves n"
  have lt: "reserves n < 2 ^ 64" using r unsigned_less [of r, where ?'a = nat] by simp
  have total: "\<exists>c. checked_add x y = Some c" if "unat x + unat y < 2 ^ 64" for x y :: u64
    using that by (simp add: checked_add_def)
  from total lt obtain a where a: "checked_add (ns_min_free_bytes n) (ns_receipt_journal_reserve_bytes n) = Some a"
    by (meson add_lessD1)
  then have "unat a = unat (ns_min_free_bytes n) + unat (ns_receipt_journal_reserve_bytes n)" by (simp add: u_simps)
  with total [of a "ns_max_cache_growth_bytes n"] lt obtain b where b: "checked_add a (ns_max_cache_growth_bytes n) = Some b"
    by auto
  with a r have "checked_add b (ns_max_artifact_bytes n) = Some r" by (simp add: u_simps)
  with a b show "required_bytes n = Ok r" by (simp add: required_bytes_def)
qed

end
