(* ===== verification/Durable.thy ===== *)
theory Durable
  imports Rust_Io BTree Action
begin

text \<open>
  The durable file system of \<^verbatim>\<open>src/src/durable_fs.rs\<close> on a tree of files, directories, symbolic links
  and other objects (sockets, devices). A directory lists its entries by name. A link holds its text
  and whether it leads to an existing object; no path leads through it. Paths are absolute, as lists of components.

  The disk also carries a schedule of failures: every operation that changes the disk or syncs it, each
  byte of a write on its own, takes the next element, and fails without an effect when it holds an
  error. Past the end of the schedule nothing fails. A schedule with one error is a single failed
  operation, and one whose errors go on to the end is a process that was killed or a machine that
  stopped there: whatever the program still tries, nothing changes any more. Changes are kept in
  the order in which they were made; a sync can fail but has no effect on the tree.
\<close>

section \<open>Trees\<close>

datatype node = NFile string | NDir "(string \<times> node) list" | NLink string bool | NOther

type_synonym path = "string list"

fun lookup :: "node \<Rightarrow> path \<Rightarrow> node option" where
  "lookup n [] = Some n"
| "lookup (NDir es) (x # p) = (case bt_get es x of None \<Rightarrow> None | Some m \<Rightarrow> lookup m p)"
| "lookup _ (x # p) = None"

lemma lookup_NDir_Cons [simp]: "lookup (NDir es) (x # p) = Option.bind (map_of es x) (\<lambda>m. lookup m p)"
  by (auto split: option.split)

declare lookup.simps(2) [simp del]

fun put :: "path \<Rightarrow> node \<Rightarrow> node \<Rightarrow> node" where
  "put [] v n = v"
| "put [x] v (NDir es) = NDir (bt_insert x v es)"
| "put (x # y # p) v (NDir es) =
     (case bt_get es x of None \<Rightarrow> NDir es | Some m \<Rightarrow> NDir (bt_insert x (put (y # p) v m) es))"
| "put (x # p) v n = n"

fun del :: "path \<Rightarrow> node \<Rightarrow> node" where
  "del [] n = n"
| "del [x] (NDir es) = NDir (filter (\<lambda>e. fst e \<noteq> x) es)"
| "del (x # y # p) (NDir es) =
     (case bt_get es x of None \<Rightarrow> NDir es | Some m \<Rightarrow> NDir (bt_insert x (del (y # p) m) es))"
| "del (x # p) n = n"

definition node_exists :: "node \<Rightarrow> path \<Rightarrow> bool" where
  "node_exists t p = (case lookup t p of None \<Rightarrow> False | Some (NLink _ resolves) \<Rightarrow> resolves | Some _ \<Rightarrow> True)"

section \<open>The disk\<close>

record disk =
  dk_tree :: node
  dk_faults :: "io_error option list"

datatype durable_fs_error =
    DurIo io_error
  | DurUnsafePath string
  | DurOwnershipMismatch
  | DurAtomicReplacementUnavailable

type_synonym 'a durable = "(disk, durable_fs_error, 'a) action"

definition ok :: "'a \<Rightarrow> ('w, 'e, 'a) action" where
  "ok x = State_Monad.return (Ok x)"

definition fail :: "'e \<Rightarrow> ('w, 'e, 'a) action" where
  "fail e = State_Monad.return (Err e)"

definition tree :: "(disk, node) state" where
  "tree = State (\<lambda>d. (dk_tree d, d))"

text \<open>The next operation of the schedule fails or does not.\<close>

definition device :: "unit durable" where
  "device = State (\<lambda>d.
     case dk_faults d of
       [] \<Rightarrow> (Ok (), d)
     | None # faults \<Rightarrow> (Ok (), d\<lparr>dk_faults := faults\<rparr>)
     | Some e # faults \<Rightarrow> (Err (DurIo e), d\<lparr>dk_faults := faults\<rparr>))"

definition change_disk :: "(node \<Rightarrow> node) \<Rightarrow> unit durable" where
  "change_disk f = attempt device (\<lambda>_. State (\<lambda>d. (Ok (), d\<lparr>dk_tree := f (dk_tree d)\<rparr>)))"

text \<open>Outside of tests a checkpoint does nothing.\<close>

definition checkpoint :: "unit durable" where
  "checkpoint = ok ()"

section \<open>What the operating system does\<close>

definition not_found :: io_error where
  "not_found = IoError NotFound ''No such file or directory''"

definition os_symlink_metadata :: "path \<Rightarrow> node durable" where
  "os_symlink_metadata p = do { t \<leftarrow> tree;
     case lookup t p of None \<Rightarrow> fail (DurIo not_found) | Some n \<Rightarrow> ok n }"

text \<open>Creating an entry needs a directory around it and no entry of the name, link or not.\<close>

definition os_create :: "path \<Rightarrow> node \<Rightarrow> unit durable" where
  "os_create p v = do { t \<leftarrow> tree;
     case lookup t (butlast p) of
       Some (NDir es) \<Rightarrow>
         if lookup t p \<noteq> None then fail (DurIo (IoError AlreadyExists ''File exists''))
         else change_disk (put p v)
     | _ \<Rightarrow> fail (DurIo not_found) }"

primrec os_append :: "path \<Rightarrow> string \<Rightarrow> string \<Rightarrow> unit durable" where
  "os_append p written [] = ok ()"
| "os_append p written (b # bytes) =
     attempt (change_disk (put p (NFile (written @ [b])))) (\<lambda>_. os_append p (written @ [b]) bytes)"

text \<open>Writing into the file that was just created.\<close>

definition os_write_all :: "path \<Rightarrow> string \<Rightarrow> unit durable" where
  "os_write_all p bytes = os_append p [] bytes"

definition os_sync_all :: "unit durable" where
  "os_sync_all = device"

text \<open>A directory replaces an empty directory only, another object any object but a directory.\<close>

fun rename_onto :: "node \<Rightarrow> node option \<Rightarrow> bool" where
  "rename_onto _ None \<longleftrightarrow> True"
| "rename_onto (NDir _) (Some n) \<longleftrightarrow> n = NDir []"
| "rename_onto _ (Some (NDir _)) \<longleftrightarrow> False"
| "rename_onto _ (Some _) \<longleftrightarrow> True"

definition os_rename :: "path \<Rightarrow> path \<Rightarrow> unit durable" where
  "os_rename p q = do { t \<leftarrow> tree;
     case lookup t p of
       None \<Rightarrow> fail (DurIo not_found)
     | Some n \<Rightarrow>
         if rename_onto n (lookup t q) then change_disk (\<lambda>t. put q n (del p t))
         else fail (DurIo (IoError OtherKind ''Invalid argument'')) }"

definition os_remove_file :: "path \<Rightarrow> unit durable" where
  "os_remove_file p = change_disk (del p)"

text \<open>A tree is removed entry by entry, what a directory holds before the directory itself.\<close>

fun removal_order :: "node \<Rightarrow> path list" where
  "removal_order (NDir es) = concat (map (\<lambda>e. map ((#) (fst e)) (removal_order (snd e))) es) @ [[]]"
| "removal_order _ = [[]]"

primrec os_remove_each :: "path list \<Rightarrow> unit durable" where
  "os_remove_each [] = ok ()"
| "os_remove_each (p # ps) = attempt (os_remove_file p) (\<lambda>_. os_remove_each ps)"

definition os_remove_dir_all :: "path \<Rightarrow> unit durable" where
  "os_remove_dir_all p = do { t \<leftarrow> tree;
     case lookup t p of
       None \<Rightarrow> fail (DurIo not_found)
     | Some n \<Rightarrow> os_remove_each (map ((@) p) (removal_order n)) }"

definition os_read :: "path \<Rightarrow> string durable" where
  "os_read p = do { t \<leftarrow> tree;
     case lookup t p of Some (NFile bytes) \<Rightarrow> ok bytes | _ \<Rightarrow> fail (DurIo not_found) }"

section \<open>Checks\<close>

definition checked_parent :: "path \<Rightarrow> path durable" where
  "checked_parent p = (if p = [] then fail (DurUnsafePath ''path has no parent'') else ok (butlast p))"

definition validate_plain_directory :: "path \<Rightarrow> unit durable" where
  "validate_plain_directory p =
     attempt (os_symlink_metadata p) (\<lambda>n.
       case n of NDir _ \<Rightarrow> ok () | _ \<Rightarrow> fail (DurUnsafePath ''parent must be a plain directory''))"

definition reject_symlink_or_non_file :: "path \<Rightarrow> unit durable" where
  "reject_symlink_or_non_file p = do { t \<leftarrow> tree;
     case lookup t p of
       None \<Rightarrow> ok ()
     | Some (NFile _) \<Rightarrow> ok ()
     | Some _ \<Rightarrow> fail (DurUnsafePath ''replacement target must be a plain file'') }"

definition validate_owned_tree :: "path \<Rightarrow> string \<Rightarrow> string \<Rightarrow> unit durable" where
  "validate_owned_tree p marker_name marker_bytes =
     (if marker_name = [] \<or> CHR ''/'' \<in> set marker_name \<or> CHR 0x5C \<in> set marker_name
      then fail (DurUnsafePath ''invalid owner marker name'')
      else
        attempt (validate_plain_directory p) (\<lambda>_.
        attempt (os_symlink_metadata (p @ [marker_name])) (\<lambda>n.
          case n of
            NFile bytes \<Rightarrow> if bytes \<noteq> marker_bytes then fail DurOwnershipMismatch else ok ()
          | _ \<Rightarrow> fail DurOwnershipMismatch)))"

section \<open>Operations\<close>

definition sync_directory :: "path \<Rightarrow> unit durable" where
  "sync_directory p =
     attempt (os_symlink_metadata p) (\<lambda>_. os_sync_all)"

text \<open>
  \<open>atomic_replace\<close> is the Unix branch, its temporary name (process id and sequence number) a parameter.
\<close>

definition create_new_directory :: "path \<Rightarrow> unit durable" where
  "create_new_directory p =
     attempt (checked_parent p) (\<lambda>parent.
     attempt (validate_plain_directory parent) (\<lambda>_.
     attempt checkpoint (\<lambda>_.
     attempt (os_create p (NDir [])) (\<lambda>_.
     attempt checkpoint (\<lambda>_. sync_directory parent)))))"

definition create_directory :: "path \<Rightarrow> unit durable" where
  "create_directory p =
     attempt (checked_parent p) (\<lambda>parent.
     attempt (validate_plain_directory parent) (\<lambda>_.
     attempt checkpoint (\<lambda>_. do {
       r \<leftarrow> os_create p (NDir []);
       case r of
         Inr _ \<Rightarrow> attempt checkpoint (\<lambda>_. sync_directory parent)
       | Inl (DurIo e) \<Rightarrow>
           if io_kind_of e = AlreadyExists then validate_plain_directory p else fail (DurIo e)
       | Inl e \<Rightarrow> fail e })))"

definition create_new :: "path \<Rightarrow> string \<Rightarrow> unit durable" where
  "create_new p bytes =
     attempt (checked_parent p) (\<lambda>parent.
     attempt (validate_plain_directory parent) (\<lambda>_.
     attempt checkpoint (\<lambda>_.
     attempt (os_create p (NFile [])) (\<lambda>_.
     attempt checkpoint (\<lambda>_.
     attempt (os_write_all p bytes) (\<lambda>_.
     attempt checkpoint (\<lambda>_.
     attempt os_sync_all (\<lambda>_.
     attempt checkpoint (\<lambda>_. sync_directory parent)))))))))"

text \<open>Whether the removal fails is ignored.\<close>

definition remove_if_present :: "path \<Rightarrow> (disk, unit) state" where
  "remove_if_present p = do { t \<leftarrow> tree;
     if node_exists t p then do { r \<leftarrow> os_remove_file p; State_Monad.return () } else State_Monad.return () }"

definition write_and_rename :: "path \<Rightarrow> path \<Rightarrow> path \<Rightarrow> string \<Rightarrow> unit durable" where
  "write_and_rename parent temporary p bytes =
     attempt checkpoint (\<lambda>_.
     attempt (os_create temporary (NFile [])) (\<lambda>_.
     attempt checkpoint (\<lambda>_.
     attempt (os_write_all temporary bytes) (\<lambda>_.
     attempt checkpoint (\<lambda>_.
     attempt os_sync_all (\<lambda>_.
     attempt checkpoint (\<lambda>_.
     attempt (os_rename temporary p) (\<lambda>_.
     attempt checkpoint (\<lambda>_. sync_directory parent)))))))))"

definition atomic_replace :: "string \<Rightarrow> path \<Rightarrow> string \<Rightarrow> unit durable" where
  "atomic_replace temporary_name p bytes =
     attempt (checked_parent p) (\<lambda>parent.
     attempt (validate_plain_directory parent) (\<lambda>_.
     attempt (reject_symlink_or_non_file p) (\<lambda>_. do {
       r \<leftarrow> write_and_rename parent (parent @ [temporary_name]) p bytes;
       remove_if_present (parent @ [temporary_name]);
       State_Monad.return r })))"

definition quarantine_owned_tree :: "path \<Rightarrow> path \<Rightarrow> string \<Rightarrow> string \<Rightarrow> unit durable" where
  "quarantine_owned_tree p quarantine marker_name marker_bytes =
     attempt (validate_owned_tree p marker_name marker_bytes) (\<lambda>_. do {
       t \<leftarrow> tree;
       if node_exists t quarantine then fail (DurUnsafePath ''quarantine destination already exists'')
       else
         attempt (checked_parent p) (\<lambda>parent.
         attempt (checked_parent quarantine) (\<lambda>quarantine_parent.
         if quarantine_parent \<noteq> parent
         then fail (DurUnsafePath ''quarantine must remain in the owned parent directory'')
         else
           attempt checkpoint (\<lambda>_.
           attempt (os_rename p quarantine) (\<lambda>_.
           attempt checkpoint (\<lambda>_. sync_directory parent))))) })"

definition remove_owned_tree :: "path \<Rightarrow> string \<Rightarrow> string \<Rightarrow> unit durable" where
  "remove_owned_tree p marker_name marker_bytes =
     attempt (validate_owned_tree p marker_name marker_bytes) (\<lambda>_.
     attempt (checked_parent p) (\<lambda>parent.
     attempt checkpoint (\<lambda>_.
     attempt (os_remove_dir_all p) (\<lambda>_.
     attempt checkpoint (\<lambda>_. sync_directory parent)))))"

end
