(* ===== verification/Journal.thy ===== *)
theory Journal
  imports Receipt Durable Text_Scan
begin

text \<open>
  The run journal of \<^verbatim>\<open>src/src/run_journal.rs\<close>: ownership markers, the entries of a run and their legal
  transitions, reading a journal back, recovery status and quarantine. It works on the durable file
  system; the JSON reader and writer are a parameter.
\<close>

section \<open>Names\<close>

definition RUN_JOURNAL_SCHEMA_VERSION :: string where
  "RUN_JOURNAL_SCHEMA_VERSION = ''1.0''"

definition JOURNAL_DIR :: string where "JOURNAL_DIR = ''run-journal-v1''"
definition RUNS_DIR :: string where "RUNS_DIR = ''runs''"
definition ROOT_MARKER :: string where "ROOT_MARKER = ''.ccp-run-journal-root-v1.json''"
definition RUN_MARKER :: string where "RUN_MARKER = ''.ccp-run-owner-v1.json''"
definition RESOURCES_DIR :: string where "RESOURCES_DIR = ''resources''"
definition SOURCE_BINDING :: string where "SOURCE_BINDING = ''source-snapshot-v1.json''"
definition QUARANTINE_PREFIX :: string where "QUARANTINE_PREFIX = ''quarantined-''"

section \<open>Documents\<close>

record root_owner_marker_v1 =
  rm_schema_version :: string
  rm_owner :: string
  rm_purpose :: string
  rm_root_token :: string

record run_owner_marker_v1 =
  om_schema_version :: string
  om_owner :: string
  om_purpose :: string
  om_root_token :: string
  om_run_id :: string
  om_run_token :: string

record run_journal_source_v1 =
  so_schema_version :: string
  so_commit_sha :: string
  so_manifest_digest :: string
  so_entry_count :: u64
  so_resource_id :: string

datatype run_journal_state_v1 =
  Created | Admitted | Prepared | Executing | Finalizing | CleanupPending | Failed | Sealed

datatype run_failure_kind_v1 =
    AdmissionRejected | PreparationFailed | ExecutionFailed | FinalizationFailed | CleanupFailed
  | FailedResourcePressure | StaleCommit | FailedInvariant | FailedUnknown

record run_journal_entry_v1 =
  je_schema_version :: string
  je_run_id :: string
  je_seq :: u64
  je_state :: run_journal_state_v1
  je_at_utc :: string
  je_failure_kind :: "run_failure_kind_v1 option"

datatype recovery_classification_v1 = Restartable | CleanupRequired | Terminal | Quarantined | OperatorRequired

record recovery_run_status_v1 =
  rr_run_id :: string
  rr_state :: "run_journal_state_v1 option"
  rr_classification :: recovery_classification_v1

record recovery_status_v1 =
  ry_schema_version :: string
  ry_runs :: "recovery_run_status_v1 list"

record recovery_apply_v1 =
  ra_schema_version :: string
  ra_run_id :: string
  ra_outcome :: recovery_classification_v1

datatype run_journal_error =
    JrnIo io_error
  | JrnDurable durable_fs_error
  | JrnInvalidRunId
  | JrnInvalidTimestamp
  | JrnInvalidTransition
  | JrnCorrupt
  | JrnOwnershipMismatch
  | JrnNonActionable

definition journal_exit_code :: "run_journal_error \<Rightarrow> int" where
  "journal_exit_code e =
     (case e of
        JrnInvalidRunId \<Rightarrow> 2 | JrnInvalidTimestamp \<Rightarrow> 2 | JrnInvalidTransition \<Rightarrow> 2 | JrnOwnershipMismatch \<Rightarrow> 2
      | JrnNonActionable \<Rightarrow> 5 | JrnIo _ \<Rightarrow> 70 | JrnDurable _ \<Rightarrow> 70 | JrnCorrupt \<Rightarrow> 70)"

text \<open>\<^verbatim>\<open>serde_json\<close> on the documents of the journal.\<close>

record journal_json =
  entry_to_vec :: "run_journal_entry_v1 \<Rightarrow> (string, string) result"
  entry_from_slice :: "string \<Rightarrow> (string, run_journal_entry_v1) result"
  root_marker_to_vec :: "root_owner_marker_v1 \<Rightarrow> (string, string) result"
  root_marker_from_slice :: "string \<Rightarrow> (string, root_owner_marker_v1) result"
  run_marker_to_vec :: "run_owner_marker_v1 \<Rightarrow> (string, string) result"
  run_marker_from_slice :: "string \<Rightarrow> (string, run_owner_marker_v1) result"
  source_to_vec :: "run_journal_source_v1 \<Rightarrow> (string, string) result"
  source_from_slice :: "string \<Rightarrow> (string, run_journal_source_v1) result"

record run_journal_store =
  js_root :: path
  js_root_token :: string

type_synonym 'a journal = "(disk, run_journal_error, 'a) action"

section \<open>Validators\<close>

definition validate_run_id :: "string \<Rightarrow> (run_journal_error, unit) result" where
  "validate_run_id v = (if length v = 64 \<and> list_all is_lower_hex v then Ok () else Err JrnInvalidRunId)"

definition validate_resource_id :: "string \<Rightarrow> (run_journal_error, unit) result" where
  "validate_resource_id v =
     (if v \<noteq> [] \<and> length v \<le> 64 \<and>
         list_all (\<lambda>c. 97 \<le> byte_val c \<and> byte_val c \<le> 122 \<or> is_ascii_digit (byte_val c) \<or> c = CHR ''-'') v
      then Ok () else Err JrnInvalidRunId)"

definition validate_hex_identity :: "string \<Rightarrow> (run_journal_error, unit) result" where
  "validate_hex_identity v =
     (if (length v = 40 \<or> length v = 64) \<and> list_all is_lower_hex v then Ok () else Err JrnCorrupt)"

definition journal_validate_digest :: "string \<Rightarrow> (run_journal_error, unit) result" where
  "journal_validate_digest v =
     (case strip_prefix ''sha256:'' v of
        None \<Rightarrow> Err JrnCorrupt
      | Some hex \<Rightarrow> if length hex = 64 \<and> list_all is_lower_hex hex then Ok () else Err JrnCorrupt)"

definition separator_index :: "nat \<Rightarrow> bool" where
  "separator_index i \<longleftrightarrow> i \<in> {4, 7, 10, 13, 16, 19}"

definition validate_timestamp :: "string \<Rightarrow> (run_journal_error, unit) result" where
  "validate_timestamp v =
     (let number = (\<lambda>a b. ok_or JrnInvalidTimestamp (parse_uint (slice a b v) :: u32 option))
      in if timestamp_layout v \<and>
            list_all (\<lambda>i. separator_index i \<or> is_ascii_digit (byte_val (v ! i))) [0..<length v]
         then
           and_then (number 0 4) (\<lambda>year.
           and_then (number 5 7) (\<lambda>month.
           and_then (number 8 10) (\<lambda>day.
           and_then (number 11 13) (\<lambda>hour.
           and_then (number 14 16) (\<lambda>minute.
           and_then (number 17 19) (\<lambda>second.
           let leap = (year mod 4 = 0 \<and> (year mod 100 \<noteq> 0 \<or> year mod 400 = 0));
               max_day = days_in_month leap (unat month)
           in if max_day = 0 then Err JrnInvalidTimestamp
              else if year \<noteq> 0 \<and> 1 \<le> unat day \<and> unat day \<le> max_day \<and> hour < 24 \<and> minute < 60 \<and> second < 60
              then Ok () else Err JrnInvalidTimestamp))))))
         else Err JrnInvalidTimestamp)"

section \<open>States\<close>

definition legal_transition :: "run_journal_state_v1 \<Rightarrow> run_journal_state_v1 \<Rightarrow> bool" where
  "legal_transition previous next \<longleftrightarrow>
     (case previous of
        Created \<Rightarrow> next \<in> {Admitted, Failed, CleanupPending}
      | Admitted \<Rightarrow> next \<in> {Prepared, Failed, CleanupPending}
      | Prepared \<Rightarrow> next \<in> {Executing, Failed, CleanupPending}
      | Executing \<Rightarrow> next \<in> {Finalizing, Failed, CleanupPending}
      | Finalizing \<Rightarrow> next \<in> {Sealed, Failed, CleanupPending}
      | CleanupPending \<Rightarrow> next = Failed
      | Failed \<Rightarrow> False
      | Sealed \<Rightarrow> False)"

definition classify :: "run_journal_state_v1 \<Rightarrow> recovery_classification_v1" where
  "classify s =
     (case s of
        Created \<Rightarrow> Restartable | Admitted \<Rightarrow> Restartable | Prepared \<Rightarrow> Restartable
      | Executing \<Rightarrow> CleanupRequired | Finalizing \<Rightarrow> CleanupRequired | CleanupPending \<Rightarrow> CleanupRequired
      | Failed \<Rightarrow> Terminal | Sealed \<Rightarrow> Terminal)"

definition state_name :: "run_journal_state_v1 \<Rightarrow> string" where
  "state_name s =
     (case s of
        Created \<Rightarrow> ''created'' | Admitted \<Rightarrow> ''admitted'' | Prepared \<Rightarrow> ''prepared'' | Executing \<Rightarrow> ''executing''
      | Finalizing \<Rightarrow> ''finalizing'' | CleanupPending \<Rightarrow> ''cleanup-pending'' | Failed \<Rightarrow> ''failed''
      | Sealed \<Rightarrow> ''sealed'')"

definition entry_name :: "u64 \<Rightarrow> run_journal_state_v1 \<Rightarrow> string" where
  "entry_name seq s = show_pad 20 (unat seq) @ ''-'' @ state_name s @ ''.json''"

definition validate_entry :: "run_journal_entry_v1 \<Rightarrow> string \<Rightarrow> u64 \<Rightarrow> (run_journal_error, unit) result" where
  "validate_entry e run_id seq =
     (if je_schema_version e \<noteq> RUN_JOURNAL_SCHEMA_VERSION \<or> je_run_id e \<noteq> run_id \<or> je_seq e \<noteq> seq \<or>
         \<not> is_ok (validate_timestamp (je_at_utc e)) \<or>
         (je_state e = Failed) \<noteq> (je_failure_kind e \<noteq> None) \<or>
         seq = 0 \<and> je_state e \<noteq> Created
      then Err JrnCorrupt else Ok ())"

section \<open>Ownership tokens\<close>

definition token_digest :: "codec \<Rightarrow> json \<Rightarrow> (run_journal_error, string) result" where
  "token_digest cx v =
     and_then (map_err (\<lambda>_. JrnCorrupt) (canonical_digest cx v)) (\<lambda>digest.
     ok_or JrnCorrupt (strip_prefix ''sha256:'' digest))"

definition derived_run_token :: "codec \<Rightarrow> string \<Rightarrow> string \<Rightarrow> (run_journal_error, string) result" where
  "derived_run_token cx root_token run_id =
     token_digest cx (json_object
       [(''schema_version'', JString RUN_JOURNAL_SCHEMA_VERSION), (''purpose'', JString ''run-journal-entry''),
        (''root_token'', JString root_token), (''run_id'', JString run_id)])"

text \<open>The clock, the process id and the sequence number that make a fresh root token.\<close>

record token_seed =
  tk_unix_nanos :: u64
  tk_process_id :: u32
  tk_sequence :: u64

definition new_root_token :: "codec \<Rightarrow> token_seed \<Rightarrow> (run_journal_error, string) result" where
  "new_root_token cx seed =
     token_digest cx (json_object
       [(''schema_version'', JString RUN_JOURNAL_SCHEMA_VERSION), (''purpose'', JString ''run-journal-root''),
        (''parent_token'', JNull), (''run_id'', JNull), (''unix_nanos'', json_u64 (tk_unix_nanos seed)),
        (''process_id'', json_u64 (ucast (tk_process_id seed))), (''sequence'', json_u64 (tk_sequence seed))])"

definition with_newline :: "(string, string) result \<Rightarrow> (run_journal_error, string) result" where
  "with_newline r = map_result (\<lambda>bytes. bytes @ [CHR 0x0A]) (map_err (\<lambda>_. JrnCorrupt) r)"

definition root_marker_bytes :: "journal_json \<Rightarrow> string \<Rightarrow> (run_journal_error, string) result" where
  "root_marker_bytes js root_token =
     with_newline (root_marker_to_vec js
       \<lparr>rm_schema_version = RUN_JOURNAL_SCHEMA_VERSION, rm_owner = ''commit-ci-preflight'',
        rm_purpose = ''run-journal-root'', rm_root_token = root_token\<rparr>)"

definition run_marker_bytes :: "codec \<Rightarrow> journal_json \<Rightarrow> string \<Rightarrow> string \<Rightarrow> (run_journal_error, string) result" where
  "run_marker_bytes cx js root_token run_id =
     and_then (derived_run_token cx root_token run_id) (\<lambda>run_token.
     with_newline (run_marker_to_vec js
       \<lparr>om_schema_version = RUN_JOURNAL_SCHEMA_VERSION, om_owner = ''commit-ci-preflight'',
        om_purpose = ''run-journal-entry'', om_root_token = root_token, om_run_id = run_id,
        om_run_token = run_token\<rparr>))"

section \<open>Reading the disk\<close>

definition lift :: "(run_journal_error, 'a) result \<Rightarrow> 'a journal" where
  "lift r = State_Monad.return r"

definition journal_plain_directory :: "path \<Rightarrow> unit journal" where
  "journal_plain_directory p =
     attempt (on_err (\<lambda>_. JrnOwnershipMismatch) (os_symlink_metadata p)) (\<lambda>n.
       case n of NDir _ \<Rightarrow> ok () | _ \<Rightarrow> fail JrnOwnershipMismatch)"

definition read_json_marker :: "(string \<Rightarrow> (string, 'a) result) \<Rightarrow> path \<Rightarrow> 'a journal" where
  "read_json_marker from_slice p =
     attempt (on_err (\<lambda>_. JrnOwnershipMismatch) (os_symlink_metadata p)) (\<lambda>n.
       case n of
         NFile bytes \<Rightarrow>
           if length bytes > 4096 then fail JrnOwnershipMismatch
           else lift (map_err (\<lambda>_. JrnOwnershipMismatch) (from_slice bytes))
       | _ \<Rightarrow> fail JrnOwnershipMismatch)"

definition read_root_marker :: "journal_json \<Rightarrow> path \<Rightarrow> root_owner_marker_v1 journal" where
  "read_root_marker js p =
     attempt (read_json_marker (root_marker_from_slice js) p) (\<lambda>m.
       if rm_schema_version m \<noteq> RUN_JOURNAL_SCHEMA_VERSION \<or> rm_owner m \<noteq> ''commit-ci-preflight'' \<or>
          rm_purpose m \<noteq> ''run-journal-root'' \<or> \<not> is_ok (validate_run_id (rm_root_token m))
       then fail JrnOwnershipMismatch else ok m)"

definition run_path :: "run_journal_store \<Rightarrow> string \<Rightarrow> path" where
  "run_path st run_id = js_root st @ [RUNS_DIR, run_id]"

definition validate_run_marker ::
    "codec \<Rightarrow> journal_json \<Rightarrow> run_journal_store \<Rightarrow> path \<Rightarrow> string \<Rightarrow> unit journal" where
  "validate_run_marker cx js st run run_id =
     attempt (journal_plain_directory run) (\<lambda>_.
     attempt (read_json_marker (run_marker_from_slice js) (run @ [RUN_MARKER])) (\<lambda>m.
       if om_schema_version m \<noteq> RUN_JOURNAL_SCHEMA_VERSION \<or> om_owner m \<noteq> ''commit-ci-preflight'' \<or>
          om_purpose m \<noteq> ''run-journal-entry'' \<or> om_root_token m \<noteq> js_root_token st \<or> om_run_id m \<noteq> run_id
       then fail JrnOwnershipMismatch
       else
         attempt (lift (derived_run_token cx (js_root_token st) run_id)) (\<lambda>run_token.
           if om_run_token m \<noteq> run_token then fail JrnOwnershipMismatch else ok ())))"

definition read_dir :: "path \<Rightarrow> (string \<times> node) list journal" where
  "read_dir p = do { t \<leftarrow> tree;
     case lookup t p of Some (NDir es) \<Rightarrow> ok es | _ \<Rightarrow> fail (JrnIo not_found) }"

definition source_binding_valid :: "run_journal_source_v1 \<Rightarrow> bool" where
  "source_binding_valid b \<longleftrightarrow>
     so_schema_version b = RUN_JOURNAL_SCHEMA_VERSION \<and> is_ok (validate_hex_identity (so_commit_sha b)) \<and>
     is_ok (journal_validate_digest (so_manifest_digest b)) \<and> so_entry_count b \<noteq> 0 \<and>
     so_resource_id b = ''source-snapshot-v1''"

definition reserved_name :: "string \<Rightarrow> bool" where
  "reserved_name name \<longleftrightarrow> name = RUN_MARKER \<or> name = RESOURCES_DIR \<or> name = SOURCE_BINDING"

text \<open>One turn of the loop over the entry files.\<close>

definition read_entry_step ::
    "journal_json \<Rightarrow> string \<Rightarrow> run_journal_entry_v1 list \<Rightarrow> string \<times> node \<Rightarrow>
       (run_journal_error, run_journal_entry_v1 list) result" where
  "read_entry_step js run_id entries file =
     (case snd file of
        NFile bytes \<Rightarrow>
          and_then (map_err (\<lambda>_. JrnCorrupt) (entry_from_slice js bytes)) (\<lambda>e.
          and_then (validate_entry e run_id (of_nat (length entries))) (\<lambda>_.
          if fst file \<noteq> entry_name (je_seq e) (je_state e) then Err JrnCorrupt
          else if entries \<noteq> [] \<and> \<not> legal_transition (je_state (last entries)) (je_state e) then Err JrnCorrupt
          else Ok (entries @ [e])))
      | _ \<Rightarrow> Err JrnCorrupt)"

definition read_entries ::
    "codec \<Rightarrow> journal_json \<Rightarrow> run_journal_store \<Rightarrow> string \<Rightarrow> run_journal_entry_v1 list journal" where
  "read_entries cx js st run_id =
     (let run = run_path st run_id in
      attempt (journal_plain_directory run) (\<lambda>_.
      attempt (validate_run_marker cx js st run run_id) (\<lambda>_.
      attempt (read_dir run) (\<lambda>es. do {
        t \<leftarrow> tree;
        attempt (if node_exists t (run @ [RESOURCES_DIR]) then journal_plain_directory (run @ [RESOURCES_DIR])
                 else ok ()) (\<lambda>_.
        attempt (if node_exists t (run @ [SOURCE_BINDING])
                 then attempt (read_json_marker (source_from_slice js) (run @ [SOURCE_BINDING])) (\<lambda>b.
                        if source_binding_valid b then ok () else fail JrnCorrupt)
                 else ok ()) (\<lambda>_.
        lift (try_fold (read_entry_step js run_id) [] (filter (\<lambda>e. \<not> reserved_name (fst e)) es)))) }))))"

section \<open>Writing\<close>

definition append_entry ::
    "journal_json \<Rightarrow> run_journal_store \<Rightarrow> string \<Rightarrow> u64 \<Rightarrow> run_journal_state_v1 \<Rightarrow> string \<Rightarrow>
       run_failure_kind_v1 option \<Rightarrow> run_journal_entry_v1 journal" where
  "append_entry js st run_id seq state at_utc failure_kind =
     (let e = \<lparr>je_schema_version = RUN_JOURNAL_SCHEMA_VERSION, je_run_id = run_id, je_seq = seq, je_state = state,
               je_at_utc = at_utc, je_failure_kind = failure_kind\<rparr>
      in attempt (lift (with_newline (entry_to_vec js e))) (\<lambda>bytes.
         attempt (on_err JrnDurable (create_new (run_path st run_id @ [entry_name seq state]) bytes)) (\<lambda>_.
         ok e)))"

definition create_run ::
    "codec \<Rightarrow> journal_json \<Rightarrow> run_journal_store \<Rightarrow> string \<Rightarrow> string \<Rightarrow> run_journal_entry_v1 journal" where
  "create_run cx js st run_id at_utc =
     attempt (lift (validate_run_id run_id)) (\<lambda>_.
     attempt (lift (validate_timestamp at_utc)) (\<lambda>_.
     attempt (on_err JrnDurable (create_new_directory (run_path st run_id))) (\<lambda>_.
     attempt (lift (run_marker_bytes cx js (js_root_token st) run_id)) (\<lambda>bytes.
     attempt (on_err JrnDurable (create_new (run_path st run_id @ [RUN_MARKER]) bytes)) (\<lambda>_.
     append_entry js st run_id 0 Created at_utc None)))))"

definition transition ::
    "codec \<Rightarrow> journal_json \<Rightarrow> run_journal_store \<Rightarrow> string \<Rightarrow> run_journal_state_v1 \<Rightarrow> string \<Rightarrow>
       run_failure_kind_v1 option \<Rightarrow> run_journal_entry_v1 journal" where
  "transition cx js st run_id state at_utc failure_kind =
     attempt (lift (validate_run_id run_id)) (\<lambda>_.
     attempt (lift (validate_timestamp at_utc)) (\<lambda>_.
     attempt (read_entries cx js st run_id) (\<lambda>entries.
       if entries = [] then fail JrnCorrupt
       else
         let previous = last entries
         in if \<not> legal_transition (je_state previous) state \<or> je_state previous = Created \<and> state = CleanupPending
            then fail JrnInvalidTransition
            else if (state = Failed) \<noteq> (failure_kind \<noteq> None) then fail JrnInvalidTransition
            else append_entry js st run_id (je_seq previous + 1) state at_utc failure_kind)))"

definition transition_cleanup_pending_after_admission_acquired ::
    "codec \<Rightarrow> journal_json \<Rightarrow> run_journal_store \<Rightarrow> string \<Rightarrow> string \<Rightarrow> run_journal_entry_v1 journal" where
  "transition_cleanup_pending_after_admission_acquired cx js st run_id at_utc =
     attempt (lift (validate_run_id run_id)) (\<lambda>_.
     attempt (lift (validate_timestamp at_utc)) (\<lambda>_.
     attempt (read_entries cx js st run_id) (\<lambda>entries.
       if entries = [] then fail JrnCorrupt
       else
         let previous = last entries
         in if je_state previous \<notin> {Created, Admitted, Prepared, Executing, Finalizing}
            then fail JrnInvalidTransition
            else append_entry js st run_id (je_seq previous + 1) CleanupPending at_utc None)))"

definition reserve_resource ::
    "codec \<Rightarrow> journal_json \<Rightarrow> run_journal_store \<Rightarrow> string \<Rightarrow> string \<Rightarrow> path journal" where
  "reserve_resource cx js st run_id resource_id =
     attempt (lift (validate_run_id run_id)) (\<lambda>_.
     attempt (lift (validate_resource_id resource_id)) (\<lambda>_.
     let run = run_path st run_id; resources = run @ [RESOURCES_DIR]; target = resources @ [resource_id] in
     attempt (validate_run_marker cx js st run run_id) (\<lambda>_.
     attempt (do {
       r \<leftarrow> create_new_directory resources;
       case r of
         Inr _ \<Rightarrow> ok ()
       | Inl (DurIo e) \<Rightarrow>
           if io_kind_of e = AlreadyExists then journal_plain_directory resources else fail (JrnDurable (DurIo e))
       | Inl e \<Rightarrow> fail (JrnDurable e) }) (\<lambda>_. do {
     t \<leftarrow> tree;
     if lookup t target \<noteq> None then fail JrnOwnershipMismatch else ok target }))))"

definition bind_source ::
    "codec \<Rightarrow> journal_json \<Rightarrow> run_journal_store \<Rightarrow> string \<Rightarrow> string \<Rightarrow> string \<Rightarrow> u64 \<Rightarrow> run_journal_source_v1 journal" where
  "bind_source cx js st run_id commit_sha manifest_digest entry_count =
     attempt (lift (validate_run_id run_id)) (\<lambda>_.
     attempt (lift (validate_hex_identity commit_sha)) (\<lambda>_.
     attempt (lift (journal_validate_digest manifest_digest)) (\<lambda>_.
       if entry_count = 0 then fail JrnCorrupt
       else
         let run = run_path st run_id;
             binding = \<lparr>so_schema_version = RUN_JOURNAL_SCHEMA_VERSION, so_commit_sha = commit_sha,
               so_manifest_digest = manifest_digest, so_entry_count = entry_count,
               so_resource_id = ''source-snapshot-v1''\<rparr>
         in attempt (validate_run_marker cx js st run run_id) (\<lambda>_.
            attempt (lift (with_newline (source_to_vec js binding))) (\<lambda>bytes.
            attempt (on_err JrnDurable (create_new (run @ [SOURCE_BINDING]) bytes)) (\<lambda>_.
            ok binding))))))"

section \<open>Opening a store\<close>

definition journal_initialize ::
    "codec \<Rightarrow> journal_json \<Rightarrow> token_seed \<Rightarrow> path \<Rightarrow> run_journal_store journal" where
  "journal_initialize cx js seed cache_root =
     (let root = cache_root @ [JOURNAL_DIR]; marker = root @ [ROOT_MARKER] in
      attempt (on_err JrnDurable (create_directory root)) (\<lambda>_. do {
        t \<leftarrow> tree;
        attempt
          (if node_exists t marker
           then attempt (read_root_marker js marker) (\<lambda>m. ok (rm_root_token m))
           else
             attempt (read_dir root) (\<lambda>es.
             if es \<noteq> [] then fail JrnOwnershipMismatch
             else
               attempt (lift (new_root_token cx seed)) (\<lambda>token.
               attempt (lift (root_marker_bytes js token)) (\<lambda>bytes.
               attempt (on_err JrnDurable (create_new marker bytes)) (\<lambda>_. ok token))))) (\<lambda>root_token.
        attempt (on_err JrnDurable (create_directory (root @ [RUNS_DIR]))) (\<lambda>_.
        ok \<lparr>js_root = root, js_root_token = root_token\<rparr>)) }))"

definition journal_open :: "journal_json \<Rightarrow> path \<Rightarrow> run_journal_store option journal" where
  "journal_open js cache_root =
     (let root = cache_root @ [JOURNAL_DIR] in do {
      t \<leftarrow> tree;
      case lookup t root of
        None \<Rightarrow> ok None
      | Some (NDir _) \<Rightarrow>
          attempt (read_root_marker js (root @ [ROOT_MARKER])) (\<lambda>m.
          attempt (journal_plain_directory (root @ [RUNS_DIR])) (\<lambda>_.
          ok (Some \<lparr>js_root = root, js_root_token = rm_root_token m\<rparr>)))
      | Some _ \<Rightarrow> fail JrnOwnershipMismatch })"

section \<open>Recovery\<close>

definition bounded_run_id :: "string \<Rightarrow> string" where
  "bounded_run_id v = (if is_ok (validate_run_id v) then v else ''unknown'')"

definition operator_required :: "string \<Rightarrow> recovery_run_status_v1" where
  "operator_required run_id =
     \<lparr>rr_run_id = bounded_run_id run_id, rr_state = None, rr_classification = OperatorRequired\<rparr>"

definition run_status ::
    "codec \<Rightarrow> journal_json \<Rightarrow> run_journal_store \<Rightarrow> string \<Rightarrow> (disk, recovery_run_status_v1) state" where
  "run_status cx js st name =
     (if \<not> utf8_valid name then State_Monad.return (operator_required ''unknown'')
      else case strip_prefix QUARANTINE_PREFIX name of
        Some run_id \<Rightarrow> do {
          plain \<leftarrow> journal_plain_directory (js_root st @ [RUNS_DIR, name]);
          owned \<leftarrow> validate_run_marker cx js st (js_root st @ [RUNS_DIR, name]) run_id;
          State_Monad.return
            \<lparr>rr_run_id = bounded_run_id run_id, rr_state = None,
             rr_classification =
               (if is_ok plain \<and> is_ok (validate_run_id run_id) \<and> is_ok owned then Quarantined
                else OperatorRequired)\<rparr> }
      | None \<Rightarrow>
          if \<not> is_ok (validate_run_id name) then State_Monad.return (operator_required ''unknown'')
          else do {
            r \<leftarrow> read_entries cx js st name;
            State_Monad.return
              (case r of
                 Inr journal \<Rightarrow>
                   if journal \<noteq> []
                   then \<lparr>rr_run_id = name, rr_state = Some (je_state (last journal)),
                         rr_classification = classify (je_state (last journal))\<rparr>
                   else operator_required name
               | Inl _ \<Rightarrow> operator_required name) })"

primrec each_status ::
    "codec \<Rightarrow> journal_json \<Rightarrow> run_journal_store \<Rightarrow> string list \<Rightarrow> (disk, recovery_run_status_v1 list) state" where
  "each_status cx js st [] = State_Monad.return []"
| "each_status cx js st (name # names) = do {
     s \<leftarrow> run_status cx js st name;
     ss \<leftarrow> each_status cx js st names;
     State_Monad.return (s # ss) }"

definition recover_status :: "codec \<Rightarrow> journal_json \<Rightarrow> run_journal_store \<Rightarrow> recovery_status_v1 journal" where
  "recover_status cx js st =
     attempt (read_dir (js_root st @ [RUNS_DIR])) (\<lambda>es. do {
       runs \<leftarrow> each_status cx js st (map fst es);
       ok \<lparr>ry_schema_version = RUN_JOURNAL_SCHEMA_VERSION, ry_runs = runs\<rparr> })"

definition quarantined_result :: "string \<Rightarrow> recovery_apply_v1" where
  "quarantined_result run_id =
     \<lparr>ra_schema_version = RUN_JOURNAL_SCHEMA_VERSION, ra_run_id = run_id, ra_outcome = Quarantined\<rparr>"

definition recover_apply :: "codec \<Rightarrow> journal_json \<Rightarrow> run_journal_store \<Rightarrow> string \<Rightarrow> recovery_apply_v1 journal" where
  "recover_apply cx js st run_id =
     attempt (lift (validate_run_id run_id)) (\<lambda>_.
     let source = run_path st run_id; quarantine = js_root st @ [RUNS_DIR, QUARANTINE_PREFIX @ run_id] in do {
     t \<leftarrow> tree;
     if node_exists t quarantine then
       if node_exists t source then fail JrnCorrupt
       else attempt (validate_run_marker cx js st quarantine run_id) (\<lambda>_. ok (quarantined_result run_id))
     else
       attempt (read_entries cx js st run_id) (\<lambda>entries.
       if entries = [] then fail JrnCorrupt
       else if classify (je_state (last entries)) = Terminal then fail JrnNonActionable
       else
         attempt (lift (run_marker_bytes cx js (js_root_token st) run_id)) (\<lambda>marker.
         attempt (on_err JrnDurable (quarantine_owned_tree source quarantine RUN_MARKER marker)) (\<lambda>_.
         ok (quarantined_result run_id)))) })"

end
