(* ===== verification/Durable_Correct.thy ===== *)
theory Durable_Correct
  imports Durable "HOL-Library.Sublist"
begin

text \<open>
  Lookups after the changes of a tree, the weakest preconditions of the disk operations, and the
  guarantees of the durable operations under any schedule of failures.
\<close>

section \<open>Trees\<close>

text \<open>Every directory is listed in strictly ascending order of names.\<close>

fun tree_wf :: "node \<Rightarrow> bool" where
  "tree_wf (NFile _) = True"
| "tree_wf (NLink _ _) = True"
| "tree_wf NOther = True"
| "tree_wf (NDir es) = (bt_inv es \<and> (\<forall>e\<in>set es. tree_wf (snd e)))"

lemma lookup_append: "lookup n (p @ q) = Option.bind (lookup n p) (\<lambda>m. lookup m q)"
  by (induction n p rule: lookup.induct) (auto intro!: Option.bind_cong)

lemma child_wf: "\<forall>e\<in>set es. tree_wf (snd e) \<Longrightarrow> map_of es x = Some m \<Longrightarrow> tree_wf m"
  by (auto dest!: map_of_SomeD)

lemma lookup_wf: "tree_wf n \<Longrightarrow> lookup n p = Some m \<Longrightarrow> tree_wf m"
proof (induction n p rule: lookup.induct)
  case (2 es x p)
  then show ?case by (auto simp: bind_eq_Some_conv dest: child_wf)
qed auto

lemma bt_insert_wf:
  assumes "tree_wf (NDir es)" and "tree_wf v"
  shows "tree_wf (NDir (bt_insert x v es))"
proof -
  have inv: "bt_inv (bt_insert x v es)" using assms by (simp add: bt_insert_inv)
  moreover have "tree_wf (snd e)" if "e \<in> set (bt_insert x v es)" for e
  proof -
    have "map_of (bt_insert x v es) (fst e) = Some (snd e)"
      using that bt.entries_iff [OF inv, of "fst e" "snd e"] by simp
    with assms show ?thesis
      by (auto simp: map_of_bt_insert split: if_splits dest: child_wf)
  qed
  ultimately show ?thesis by simp
qed

lemma put_wf: "tree_wf n \<Longrightarrow> tree_wf v \<Longrightarrow> tree_wf (put p v n)"
proof (induction p v n rule: put.induct)
  case (3 x y p v es)
  show ?case
  proof (cases "map_of es x")
    case (Some m)
    with 3 have "tree_wf (put (y # p) v m)" by (auto dest: child_wf)
    with Some 3(2) bt_insert_wf show ?thesis by simp
  qed (use 3 in simp)
qed (auto intro: bt_insert_wf simp del: tree_wf.simps(4))

lemma bt_remove_inv: "bt_inv es \<Longrightarrow> bt_inv (filter (\<lambda>e. fst e \<noteq> x) es)"
  by (induction es) auto

lemma map_of_remove: "map_of (filter (\<lambda>e. fst e \<noteq> x) es) = (map_of es)(x := None)"
  by (induction es) (auto simp: fun_eq_iff)

lemma del_wf: "tree_wf n \<Longrightarrow> tree_wf (del p n)"
proof (induction p n rule: del.induct)
  case (3 x y p es)
  show ?case
  proof (cases "map_of es x")
    case (Some m)
    with 3 have "tree_wf (del (y # p) m)" by (auto dest: child_wf)
    with Some 3(2) bt_insert_wf show ?thesis by simp
  qed (use 3 in simp)
qed (auto simp: bt_remove_inv)

lemma lookup_put_same:
  "tree_wf n \<Longrightarrow> p \<noteq> [] \<Longrightarrow> lookup n (butlast p) = Some (NDir es) \<Longrightarrow> lookup (put p v n) p = Some v"
proof (induction p v n rule: put.induct)
  case (3 x y p v fs)
  then show ?case by (auto simp: map_of_bt_insert bind_eq_Some_conv dest: child_wf)
qed (auto simp: map_of_bt_insert split: if_splits)

lemma lookup_put_dir:
  "tree_wf n \<Longrightarrow> lookup n d = Some (NDir es) \<Longrightarrow> lookup (put (d @ [x]) v n) d = Some (NDir (bt_insert x v es))"
proof (induction d arbitrary: n)
  case (Cons y d)
  then obtain fs m where "n = NDir fs" "map_of fs y = Some m" "lookup m d = Some (NDir es)"
    by (cases n) (auto simp: bind_eq_Some_conv)
  with Cons show ?case by (cases d) (auto simp: map_of_bt_insert dest: child_wf)
qed simp

lemma parallel_simps [simp]:
  "x # a \<parallel> y # b \<longleftrightarrow> x \<noteq> y \<or> a \<parallel> b" "\<not> [] \<parallel> b" "\<not> a \<parallel> []"
  by (auto simp: parallel_def)

lemma lookup_put_other: "tree_wf n \<Longrightarrow> p \<parallel> q \<Longrightarrow> lookup (put p v n) q = lookup n q"
proof (induction p v n arbitrary: q rule: put.induct)
  case (2 x v es)
  then show ?case by (cases q) (auto simp: map_of_bt_insert)
next
  case (3 x y p v es)
  show ?case
  proof (cases q)
    case (Cons z r)
    show ?thesis
    proof (cases "map_of es x")
      case (Some m)
      with 3 Cons show ?thesis by (cases "z = x") (auto simp: map_of_bt_insert dest: child_wf)
    qed (use Cons in simp)
  qed (use 3 in simp)
qed auto

lemma lookup_del_same: "tree_wf n \<Longrightarrow> p \<noteq> [] \<Longrightarrow> lookup (del p n) p = None"
proof (induction p n rule: del.induct)
  case (3 x y p es)
  then show ?case by (auto simp: map_of_bt_insert dest: child_wf split: option.split)
qed (auto simp: map_of_remove)

lemma lookup_del_other: "tree_wf n \<Longrightarrow> p \<parallel> q \<Longrightarrow> lookup (del p n) q = lookup n q"
proof (induction p n arbitrary: q rule: del.induct)
  case (2 x es)
  then show ?case by (cases q) (auto simp: map_of_remove)
next
  case (3 x y p es)
  show ?case
  proof (cases q)
    case (Cons z r)
    show ?thesis
    proof (cases "map_of es x")
      case (Some m)
      with 3 Cons show ?thesis by (cases "z = x") (auto simp: map_of_bt_insert dest: child_wf)
    qed (use Cons in simp)
  qed (use 3 in simp)
qed auto

lemma lookup_del_dir:
  "tree_wf n \<Longrightarrow> lookup n d = Some (NDir es) \<Longrightarrow>
     lookup (del (d @ [x]) n) d = Some (NDir (filter (\<lambda>e. fst e \<noteq> x) es))"
proof (induction d arbitrary: n)
  case (Cons y d)
  then obtain fs m where "n = NDir fs" "map_of fs y = Some m" "lookup m d = Some (NDir es)"
    by (cases n) (auto simp: bind_eq_Some_conv)
  with Cons show ?case by (cases d) (auto simp: map_of_bt_insert dest: child_wf)
qed simp

lemma bt_insert_twice: "bt_inv es \<Longrightarrow> bt_insert x v (bt_insert x u es) = bt_insert x v es"
  by (induction x u es rule: bt_insert.induct) auto

lemma put_put:
  "tree_wf n \<Longrightarrow> p \<noteq> [] \<Longrightarrow> put p v (put p u n) = put p v n"
proof (induction p v n rule: put.induct)
  case (3 x y p v es)
  show ?case
  proof (cases "map_of es x")
    case (Some m)
    with 3 have "put (y # p) v (put (y # p) u m) = put (y # p) v m" by (auto dest: child_wf)
    with Some 3(2) show ?thesis by (simp add: map_of_bt_insert bt_insert_twice)
  qed simp
qed (auto simp: bt_insert_twice)

section \<open>Disk operations\<close>

lemma wp_ok [wp_simps]: "wp (ok x) Q = Q (Ok x)"
  by (simp add: ok_def wp_simps)

lemma wp_fail [wp_simps]: "wp (fail e) Q = Q (Err e)"
  by (simp add: fail_def wp_simps)

lemma wp_tree [wp_simps]: "wp tree Q = (\<lambda>d. Q (dk_tree d) d)"
  by (simp add: tree_def wp_def fun_eq_iff)

lemma wp_checkpoint [wp_simps]: "wp checkpoint Q = Q (Ok ())"
  by (simp add: checkpoint_def wp_simps)

text \<open>The failures a disk has still in store.\<close>

definition failures :: "disk \<Rightarrow> nat" where
  "failures d = length (filter (\<lambda>f. f \<noteq> None) (dk_faults d))"

lemma failures_tree [simp]: "failures (d\<lparr>dk_tree := t\<rparr>) = failures d"
  by (simp add: failures_def)

lemma wp_device:
  assumes "\<And>d'. dk_tree d' = dk_tree d \<Longrightarrow> failures d' = failures d \<Longrightarrow> Q (Ok ()) d'"
    and "\<And>e d'. dk_tree d' = dk_tree d \<Longrightarrow> failures d = Suc (failures d') \<Longrightarrow> Q (Err (DurIo e)) d'"
  shows "wp device Q d"
  using assms by (auto simp: wp_def device_def failures_def split: list.split option.split)

lemma wp_change_disk:
  assumes "\<And>d'. dk_tree d' = f (dk_tree d) \<Longrightarrow> failures d' = failures d \<Longrightarrow> Q (Ok ()) d'"
    and "\<And>e d'. dk_tree d' = dk_tree d \<Longrightarrow> failures d = Suc (failures d') \<Longrightarrow> Q (Err (DurIo e)) d'"
  shows "wp (change_disk f) Q d"
  unfolding change_disk_def wp_attempt
  by (rule wp_device) (use assms in \<open>simp_all add: wp_def\<close>)

lemma wp_checked_parent [wp_simps]: "p \<noteq> [] \<Longrightarrow> wp (checked_parent p) Q = Q (Ok (butlast p))"
  by (simp add: checked_parent_def wp_simps)

lemma wp_os_symlink_metadata [wp_simps]:
  "wp (os_symlink_metadata p) Q =
     (\<lambda>d. case lookup (dk_tree d) p of None \<Rightarrow> Q (Err (DurIo not_found)) d | Some n \<Rightarrow> Q (Ok n) d)"
  by (auto simp: os_symlink_metadata_def wp_simps fun_eq_iff split: option.split)

lemma wp_validate_plain_directory:
  assumes "\<And>e. \<not> (\<exists>es. lookup (dk_tree d) p = Some (NDir es)) \<Longrightarrow> Q (Err e) d"
    and "\<And>es. lookup (dk_tree d) p = Some (NDir es) \<Longrightarrow> Q (Ok ()) d"
  shows "wp (validate_plain_directory p) Q d"
  using assms by (auto simp: validate_plain_directory_def wp_simps split: option.split node.split)

lemma wp_os_create:
  assumes "\<And>e. \<not> (\<exists>es. lookup (dk_tree d) (butlast p) = Some (NDir es)) \<or> lookup (dk_tree d) p \<noteq> None \<Longrightarrow> Q (Err (DurIo e)) d"
    and "\<And>e d'. dk_tree d' = dk_tree d \<Longrightarrow> failures d = Suc (failures d') \<Longrightarrow> Q (Err (DurIo e)) d'"
    and "\<And>es d'. lookup (dk_tree d) (butlast p) = Some (NDir es) \<Longrightarrow> lookup (dk_tree d) p = None \<Longrightarrow>
      dk_tree d' = put p v (dk_tree d) \<Longrightarrow> failures d' = failures d \<Longrightarrow> Q (Ok ()) d'"
  shows "wp (os_create p v) Q d"
  using assms(1) by (auto simp: os_create_def wp_simps intro!: wp_change_disk assms(2,3) split: option.split node.split)

text \<open>A write that fails leaves a prefix.\<close>

lemma wp_os_append:
  assumes wf: "tree_wf t" "p \<noteq> []" and "dk_tree d = put p (NFile written) t"
    and "\<And>d'. dk_tree d' = put p (NFile (written @ bytes)) t \<Longrightarrow> failures d' = failures d \<Longrightarrow> Q (Ok ()) d'"
    and "\<And>k e d'. k < length bytes \<Longrightarrow> dk_tree d' = put p (NFile (written @ take k bytes)) t \<Longrightarrow>
      failures d = Suc (failures d') \<Longrightarrow> Q (Err (DurIo e)) d'"
  shows "wp (os_append p written bytes) Q d"
  using assms(3-5)
proof (induction bytes arbitrary: written d)
  case Nil
  then show ?case by (simp add: wp_simps)
next
  case (Cons b bytes)
  have later: "wp (os_append p (written @ [b]) bytes) Q d'"
    if "dk_tree d' = put p (NFile (written @ [b])) t" "failures d' = failures d" for d'
    using that Cons.prems(3) [of "Suc k" for k] by (intro Cons.IH Cons.prems(2)) auto
  show ?case
    unfolding os_append.simps wp_attempt
    by (rule wp_change_disk) (use Cons.prems(1) Cons.prems(3) [of 0] later put_put [OF wf] in auto)
qed

lemma wp_sync_directory:
  assumes "\<And>d'. dk_tree d' = dk_tree d \<Longrightarrow> failures d' = failures d \<Longrightarrow> Q (Ok ()) d'"
    and "\<And>e d'. dk_tree d' = dk_tree d \<Longrightarrow> failures d = Suc (failures d') \<or> failures d = failures d' \<and> lookup (dk_tree d) p = None \<Longrightarrow>
      Q (Err (DurIo e)) d'"
  shows "wp (sync_directory p) Q d"
  using assms by (auto simp: sync_directory_def os_sync_all_def wp_simps intro!: wp_device split: option.split)

lemma wp_create_new:
  assumes wf: "tree_wf (dk_tree d)" and p: "p \<noteq> []"
    and same: "\<And>e d'. dk_tree d' = dk_tree d \<Longrightarrow> failures d = Suc (failures d') \<or>
      \<not> (\<exists>es. lookup (dk_tree d) (butlast p) = Some (NDir es)) \<or> lookup (dk_tree d) p \<noteq> None \<Longrightarrow> Q (Err e) d'"
    and part: "\<And>es k e d'. lookup (dk_tree d) (butlast p) = Some (NDir es) \<Longrightarrow> lookup (dk_tree d) p = None \<Longrightarrow>
      k \<le> length bytes \<Longrightarrow> dk_tree d' = put p (NFile (take k bytes)) (dk_tree d) \<Longrightarrow> failures d = Suc (failures d') \<Longrightarrow>
      Q (Err (DurIo e)) d'"
    and full: "\<And>es d'. lookup (dk_tree d) (butlast p) = Some (NDir es) \<Longrightarrow> lookup (dk_tree d) p = None \<Longrightarrow>
      dk_tree d' = put p (NFile bytes) (dk_tree d) \<Longrightarrow> failures d' = failures d \<Longrightarrow> Q (Ok ()) d'"
  shows "wp (create_new p bytes) Q d"
proof -
  let ?t = "dk_tree d"
  have dir: "lookup (put p (NFile b) ?t) (butlast p) \<noteq> None" if "lookup ?t (butlast p) = Some (NDir es)" for b es
    using lookup_put_dir [OF wf that, of "last p"] p by simp
  show ?thesis
    apply (simp add: create_new_def os_write_all_def wp_simps p)
    apply (rule wp_validate_plain_directory)
     apply (simp add: same)
    apply (simp add: wp_simps)
    apply (rule wp_os_create)
      apply (simp add: same)
     apply (simp add: same)
    apply (simp add: wp_simps)
    apply (rule wp_os_append [OF wf p])
      apply simp
     prefer 2 apply (simp, erule (1) part; simp)
    apply (simp add: wp_simps os_sync_all_def)
    apply (rule wp_device)
     apply (simp add: wp_simps)
     apply (rule wp_sync_directory)
      apply (simp add: full)
     apply (use dir part [of _ "length bytes"] in auto)
    done
qed

section \<open>Atomic replacement\<close>

lemma bt_insert_same: "bt_inv es \<Longrightarrow> map_of es x = Some v \<Longrightarrow> bt_insert x v es = es"
  by (induction x v es rule: bt_insert.induct) (auto split: if_splits dest!: map_of_SomeD)

lemma bt_remove_insert: "bt_inv es \<Longrightarrow> map_of es x = None \<Longrightarrow> filter (\<lambda>e. fst e \<noteq> x) (bt_insert x v es) = es"
  by (induction x v es rule: bt_insert.induct) (auto simp: filter_id_conv split: if_splits)

lemma del_put:
  "tree_wf n \<Longrightarrow> p \<noteq> [] \<Longrightarrow> lookup n (butlast p) = Some (NDir es) \<Longrightarrow> lookup n p = None \<Longrightarrow> del p (put p v n) = n"
proof (induction p v n rule: put.induct)
  case (3 x y p v fs)
  from 3(4) obtain m where m: "map_of fs x = Some m" by (auto simp: bind_eq_Some_conv)
  with 3 have "del (y # p) (put (y # p) v m) = m" by (auto dest: child_wf split: if_splits)
  with m 3(2) show ?case by (simp add: map_of_bt_insert bt_insert_twice bt_insert_same)
qed (auto simp: bt_remove_insert split: if_splits)

text \<open>The temporary file is complete before it takes the place of the target.\<close>

lemma write_and_rename_outcome:
  assumes wf: "tree_wf (dk_tree d)" and t: "tmp \<noteq> []" "p \<noteq> []" and par: "tmp \<parallel> p"
    and dir: "lookup (dk_tree d) (butlast tmp) = Some (NDir es)" "butlast tmp = parent" "butlast p = parent"
    and absent: "lookup (dk_tree d) tmp = None"
    and target: "rename_onto (NFile bytes) (lookup (dk_tree d) p)"
    and full: "\<And>r d'. dk_tree d' = put p (NFile bytes) (dk_tree d) \<Longrightarrow>
      r = Ok () \<and> failures d' = failures d \<or> r \<noteq> Ok () \<and> failures d = Suc (failures d') \<Longrightarrow> Q r d'"
    and same: "\<And>e d'. dk_tree d' = dk_tree d \<Longrightarrow> failures d = Suc (failures d') \<Longrightarrow> Q (Err e) d'"
    and part: "\<And>k e d'. k \<le> length bytes \<Longrightarrow> dk_tree d' = put tmp (NFile (take k bytes)) (dk_tree d) \<Longrightarrow>
      failures d = Suc (failures d') \<Longrightarrow> Q (Err e) d'"
  shows "wp (write_and_rename parent tmp p bytes) Q d"
proof -
  let ?t = "dk_tree d"
  have written: "lookup (put tmp (NFile bytes) ?t) tmp = Some (NFile bytes)" "del tmp (put tmp (NFile bytes) ?t) = ?t"
    "lookup (put tmp (NFile bytes) ?t) p = lookup ?t p"
    using wf t dir(1) absent par by (simp_all add: lookup_put_same del_put lookup_put_other)
  have kept: "lookup (put p (NFile bytes) ?t) parent \<noteq> None"
    using lookup_put_dir [OF wf dir(1), of "last p"] append_butlast_last_id [OF t(2)] dir(2,3) by simp
  show ?thesis
    apply (simp add: write_and_rename_def os_write_all_def wp_simps)
    apply (rule wp_os_create)
      apply (use absent dir in simp)
     apply (simp add: same)
    apply (simp add: wp_simps)
    apply (rule wp_os_append [OF wf t(1)])
      apply simp
     prefer 2 apply (simp, rule part; simp)
    apply (simp add: wp_simps os_sync_all_def)
    apply (rule wp_device)
     prefer 2 apply (simp add: part [of "length bytes"])
    apply (simp add: wp_simps os_rename_def written target)
    apply (rule wp_change_disk)
     prefer 2 apply (simp add: part [of "length bytes"])
    apply (simp add: wp_simps written)
    apply (rule wp_sync_directory)
     apply (use kept in \<open>auto intro: full\<close>)
    done
qed

lemma siblings_parallel: "p \<noteq> [] \<Longrightarrow> x \<noteq> last p \<Longrightarrow> butlast p @ [x] \<parallel> p"
  by (cases p rule: rev_cases) (auto simp: parallel_def)

text \<open>
  Whatever fails, the target holds its old content or the complete new one, and nothing else changes
  but that the temporary file, with a prefix of the new content, stays behind when its removal fails
  after another operation did. Without a failure the replacement succeeds.
\<close>

lemma atomic_replace_outcome:
  assumes wf: "tree_wf (dk_tree d)" and p: "p \<noteq> []" and tmp: "tmp \<noteq> last p"
    and absent: "lookup (dk_tree d) (butlast p @ [tmp]) = None"
  shows "wp (atomic_replace tmp p bytes) (\<lambda>r d'.
    (dk_tree d' = put p (NFile bytes) (dk_tree d) \<or>
     r \<noteq> Ok () \<and> (dk_tree d' = dk_tree d \<or>
       failures d' + 2 \<le> failures d \<and>
       (\<exists>k\<le>length bytes. dk_tree d' = put (butlast p @ [tmp]) (NFile (take k bytes)) (dk_tree d)))) \<and>
    (failures d = 0 \<and> (\<exists>es. lookup (dk_tree d) (butlast p) = Some (NDir es)) \<and>
     (\<forall>n. lookup (dk_tree d) p = Some n \<longrightarrow> (\<exists>b. n = NFile b)) \<longrightarrow> r = Ok ())) d"
    (is "wp _ ?Q d")
proof -
  define Q where "Q = ?Q"
  let ?tmp = "butlast p @ [tmp]" and ?t = "dk_tree d"
  let ?new = "put p (NFile bytes) ?t"
  have par: "?tmp \<parallel> p" by (rule siblings_parallel [OF p tmp])
  have gone: "\<not> node_exists ?t ?tmp" "\<not> node_exists ?new ?tmp"
    using absent par wf by (simp_all add: node_exists_def lookup_put_other parallel_commute)
  have body: "wp (write_and_rename (butlast p) ?tmp p bytes) (\<lambda>r. wp (remove_if_present ?tmp) (\<lambda>_. Q r)) d"
    if dir: "lookup ?t (butlast p) = Some (NDir es)" and target: "\<forall>n. lookup ?t p = Some n \<longrightarrow> (\<exists>b. n = NFile b)" for es
  proof -
    have onto: "rename_onto (NFile bytes) (lookup ?t p)" using target by (cases "lookup ?t p") auto
    have made: "node_exists (put ?tmp (NFile b) ?t) ?tmp" "del ?tmp (put ?tmp (NFile b) ?t) = ?t" for b
      using dir wf absent lookup_put_same [of ?t ?tmp es] del_put [of ?t ?tmp es] by (simp_all add: node_exists_def)
    show ?thesis
      by (rule write_and_rename_outcome [OF wf _ p par _ _ _ absent onto])
        (auto simp: remove_if_present_def wp_simps gone made dir os_remove_file_def Q_def intro!: wp_change_disk)
  qed
  have bad: "Q (Err e) d"
    if "\<not> (\<exists>es. lookup ?t (butlast p) = Some (NDir es)) \<or> (\<exists>n. lookup ?t p = Some n \<and> (\<forall>b. n \<noteq> NFile b))" for e
    using that by (auto simp: Q_def)
  show ?thesis
    unfolding Q_def [symmetric]
    apply (simp add: atomic_replace_def reject_symlink_or_non_file_def wp_simps p)
    apply (rule wp_validate_plain_directory)
     apply (simp add: bad)
    apply (auto simp: wp_simps bad intro!: body split: option.split node.split)
    done
qed

end
