(* ===== verification/Journal_Correct.thy ===== *)
theory Journal_Correct
  imports Journal Timestamp Durable_Correct
begin

text \<open>
  Lemmas on the run journal: its timestamp validator, the shape of every journal that reads back,
  reading as a function of the tree, and what an appended entry does to it.
\<close>

section \<open>The journal's timestamps\<close>

lemma parse_uint_u32:
  assumes "digits ds" "ds \<noteq> []" "length ds \<le> 9"
  shows "parse_uint ds = Some (of_nat (dec_value ds) :: u32)"
proof -
  have "unat (of_nat (dec_value ds) :: u32) = dec_value ds" using assms by (intro unat_dec_value)
  with assms show ?thesis by (simp add: parse_uint_digits)
qed

lemma upt_20: "[0..<20] = [0, 1, 2, 3, 4, 5, 6, 7, 8, 9, 10, 11, 12, 13, 14, 15, 16, 17, 18, 19 :: nat]"
  by (simp add: upt_rec)

lemma stamp_digit_places:
  assumes "stamp_fields y m d h i s"
  shows "list_all (\<lambda>k. separator_index k \<or> is_ascii_digit (byte_val (stamp y m d h i s ! k)))
      [0..<length (stamp y m d h i s)] \<longleftrightarrow> digits (y @ m @ d @ h @ i @ s)"
proof -
  have "length (stamp y m d h i s) = 20" using assms by (simp add: stamp_fields_def stamp_def)
  moreover obtain y1 y2 y3 y4 m1 m2 d1 d2 h1 h2 i1 i2 s1 s2 where
    "y = [y1, y2, y3, y4]" "m = [m1, m2]" "d = [d1, d2]" "h = [h1, h2]" "i = [i1, i2]" "s = [s1, s2]"
    using assms unfolding stamp_fields_def length_2 length_4 by blast
  ultimately show ?thesis by (simp only: upt_20) (simp add: stamp_def separator_index_def)
qed

lemma validate_stamp:
  assumes f: "stamp_fields y m d h i s"
  shows "validate_timestamp (stamp y m d h i s) = Ok u \<longleftrightarrow> parse_utc_seconds (stamp y m d h i s) \<noteq> None"
proof (cases "digits (y @ m @ d @ h @ i @ s)")
  case False
  then show ?thesis
    unfolding validate_timestamp_def stamp_digit_places [OF f] parse_stamp [OF f] Let_def
    by (simp only: simp_thms if_False) simp
next
  case True
  have pd: "parse_uint ds = Some (of_nat (dec_value ds) :: u32)" "unat (of_nat (dec_value ds) :: u32) = dec_value ds"
    if "ds \<in> {y, m, d, h, i, s}" for ds
    using that True f by (auto intro!: unat_dec_value parse_uint_u32 simp: stamp_fields_def)
  have le: "(of_nat (dec_value ds) :: u32) < w \<longleftrightarrow> dec_value ds < unat w" if "ds \<in> {h, i, s}" for ds w
    using pd(2) [of ds] that by (auto simp: word_less_nat_alt)
  have y0: "(of_nat (dec_value y) :: u32) \<noteq> 0 \<longleftrightarrow> 0 < dec_value y"
    using pd(2) [of y] by (metis gr0I insertI1 unat_eq_zero less_irrefl)
  let ?y = "of_nat (dec_value y) :: u32"
  have z: "?y mod w = 0 \<longleftrightarrow> dec_value y mod unat w = 0" for w
    using unat_eq_zero [of "?y mod w"] pd(2) [of y] by (simp add: unat_mod)
  have leap: "?y mod 4 = 0 \<and> (?y mod 100 = 0 \<longrightarrow> ?y mod 400 = 0) \<longleftrightarrow> is_leap (int (dec_value y))"
    using leap_u32 [of ?y] pd(2) [of y] unfolding divisible_by_iff z by (simp del: neq0_conv)
  have yb: "dec_value y < 10 ^ 4" using dec_value_less [of y] True f by (simp add: stamp_fields_def)
  have "validate_timestamp (stamp y m d h i s) = Ok u \<longleftrightarrow>
      0 < dec_value y \<and> 1 \<le> dec_value d \<and>
      dec_value d \<le> days_in_month (is_leap (int (dec_value y))) (dec_value m) \<and>
      dec_value h \<le> 23 \<and> dec_value i \<le> 59 \<and> dec_value s \<le> 59"
    unfolding validate_timestamp_def stamp_digit_places [OF f] stamp_slices [OF f] Let_def
    using True by (simp only: simp_thms if_True) (auto simp: stamp_slices [OF f] pd leap le y0)
  also have "\<dots> \<longleftrightarrow> parse_utc_seconds (stamp y m d h i s) \<noteq> None"
    using True yb utc_seconds_iff [of "int (dec_value y)" "int (dec_value h)" "int (dec_value i)" "int (dec_value s)"
        "int (dec_value m)" "int (dec_value d)"]
    by (auto simp: parse_stamp [OF f] valid_date_def)
  finally show ?thesis .
qed

lemma validate_timestamp_iff: "validate_timestamp v = Ok u \<longleftrightarrow> parse_utc_seconds v \<noteq> None"
proof (cases "timestamp_layout v")
  case True
  from layout_stamp [OF this] show ?thesis using validate_stamp by metis
next
  case False
  then show ?thesis by (simp add: validate_timestamp_def parse_utc_seconds_def Let_def)
qed

section \<open>The shape of a journal\<close>

inductive journal_run :: "run_journal_state_v1 list \<Rightarrow> bool" where
  start: "journal_run [Created]"
| step: "journal_run ss \<Longrightarrow> legal_transition (last ss) s \<Longrightarrow> journal_run (ss @ [s])"

inductive_cases journal_run_snocE: "journal_run (ss @ [s])"
inductive_cases journal_run_oneE: "journal_run [s]"

lemma journal_run_nonempty: "journal_run ss \<Longrightarrow> ss \<noteq> []"
  by (induction rule: journal_run.induct) auto

definition phases :: "run_journal_state_v1 list" where
  "phases = [Created, Admitted, Prepared, Executing, Finalizing]"

text \<open>Some phases from the start, then nothing, or an end of three kinds; only all phases can be sealed.\<close>

definition journal_shape :: "run_journal_state_v1 list \<Rightarrow> bool" where
  "journal_shape ss \<longleftrightarrow>
     (\<exists>n\<in>{1..5}. \<exists>fin\<in>{[], [Failed], [CleanupPending], [CleanupPending, Failed]}. ss = take n phases @ fin) \<or>
     ss = phases @ [Sealed]"

lemma journal_run_shape: "journal_run ss \<Longrightarrow> journal_shape ss"
proof (induction rule: journal_run.induct)
  case start
  have "[Created] = take 1 phases @ []" by (simp add: phases_def)
  then show ?case unfolding journal_shape_def by (intro disjI1 bexI [of _ 1] bexI [of _ "[]"]) auto
next
  case (step ss s)
  have ext: "journal_shape (take n phases @ fin)"
    if "n \<in> {1..5}" "fin \<in> {[], [Failed], [CleanupPending], [CleanupPending, Failed]}" for n fin
    using that by (auto simp: journal_shape_def)
  from step.IH consider (seal) "ss = phases @ [Sealed]"
    | (cut) n fin' where "n \<in> {1, 2, 3, 4, 5 :: nat}" "fin' \<in> {[], [Failed], [CleanupPending], [CleanupPending, Failed]}"
        "ss = take n phases @ fin'"
    by (auto simp: journal_shape_def atLeastAtMost_insertL [symmetric] eval_nat_numeral elim!: le_SucE)
  then show ?case
  proof cases
    case seal
    with step.hyps(2) show ?thesis by (simp add: legal_transition_def)
  next
    case cut
    from cut(1,2) step.hyps(2) have "s \<in> {Failed, CleanupPending} \<and> fin' = [] \<or> fin' = [CleanupPending] \<and> s = Failed \<or>
        fin' = [] \<and> n < 5 \<and> s = phases ! n \<or> fin' = [] \<and> n = 5 \<and> s = Sealed"
      unfolding cut(3) by (elim insertE emptyE) (auto simp: phases_def legal_transition_def)
    moreover have "take n phases @ [phases ! n] = take (Suc n) phases" if "n < 5"
      using that by (subst take_Suc_conv_app_nth) (auto simp: phases_def)
    ultimately show ?thesis
      using cut(1) ext [of n "[Failed]"] ext [of n "[CleanupPending]"] ext [of n "[CleanupPending, Failed]"]
        ext [of "Suc n" "[]"]
      unfolding cut(3) by (auto simp: journal_shape_def phases_def)
  qed
qed

end
