(* ===== verification/Journal_Disk.thy ===== *)
theory Journal_Disk
  imports Journal_Correct
begin

text \<open>
  The journal on disk: reading is a function of the listing of the run's directory, the entries it
  yields, and what appending an entry or quarantining the run does to the listing.
\<close>

section \<open>Reading a listing\<close>

definition owned :: "codec \<Rightarrow> journal_json \<Rightarrow> run_journal_store \<Rightarrow> string \<Rightarrow> (string \<times> node) list \<Rightarrow> bool" where
  "owned cx js st run_id files \<longleftrightarrow>
     (\<exists>bytes m. map_of files RUN_MARKER = Some (NFile bytes) \<and> length bytes \<le> 4096 \<and>
        run_marker_from_slice js bytes = Ok m \<and> om_schema_version m = RUN_JOURNAL_SCHEMA_VERSION \<and>
        om_owner m = ''commit-ci-preflight'' \<and> om_purpose m = ''run-journal-entry'' \<and>
        om_root_token m = js_root_token st \<and> om_run_id m = run_id \<and>
        derived_run_token cx (js_root_token st) run_id = Ok (om_run_token m))"

definition side_files :: "journal_json \<Rightarrow> (string \<times> node) list \<Rightarrow> bool" where
  "side_files js files \<longleftrightarrow>
     (case map_of files RESOURCES_DIR of
        None \<Rightarrow> True | Some (NDir _) \<Rightarrow> True | Some (NLink _ resolves) \<Rightarrow> \<not> resolves | Some _ \<Rightarrow> False) \<and>
     (case map_of files SOURCE_BINDING of
        None \<Rightarrow> True | Some (NLink _ resolves) \<Rightarrow> \<not> resolves
      | Some (NFile bytes) \<Rightarrow>
          length bytes \<le> 4096 \<and> (\<exists>b. source_from_slice js bytes = Ok b \<and> source_binding_valid b)
      | Some _ \<Rightarrow> False)"

abbreviation entry_files :: "(string \<times> node) list \<Rightarrow> (string \<times> node) list" where
  "entry_files files \<equiv> filter (\<lambda>e. \<not> reserved_name (fst e)) files"

definition entries_of ::
    "journal_json \<Rightarrow> string \<Rightarrow> (string \<times> node) list \<Rightarrow> (run_journal_error, run_journal_entry_v1 list) result" where
  "entries_of js run_id files = try_fold (read_entry_step js run_id) [] (entry_files files)"

lemma wp_lift [wp_simps]: "wp (lift r) Q = Q r"
  by (simp add: lift_def wp_simps)

lemma lookup_child: "lookup t p = Some (NDir files) \<Longrightarrow> lookup t (p @ [x]) = map_of files x"
  by (simp add: lookup_append)

lemma wp_journal_plain_directory [wp_simps]:
  "wp (journal_plain_directory p) Q = (\<lambda>d.
     Q (if \<exists>files. lookup (dk_tree d) p = Some (NDir files) then Ok () else Err JrnOwnershipMismatch) d)"
  by (auto simp: journal_plain_directory_def wp_simps fun_eq_iff split: option.split node.split)

lemma wp_read_json_marker [wp_simps]:
  "wp (read_json_marker from_slice p) Q = (\<lambda>d.
     Q (case lookup (dk_tree d) p of
          Some (NFile bytes) \<Rightarrow>
            if length bytes > 4096 then Err JrnOwnershipMismatch
            else map_err (\<lambda>_. JrnOwnershipMismatch) (from_slice bytes)
        | _ \<Rightarrow> Err JrnOwnershipMismatch) d)"
  by (auto simp: read_json_marker_def wp_simps fun_eq_iff split: option.split node.split)

lemma wp_read_dir [wp_simps]:
  "wp (read_dir p) Q = (\<lambda>d.
     Q (case lookup (dk_tree d) p of Some (NDir es) \<Rightarrow> Ok es | _ \<Rightarrow> Err (JrnIo not_found)) d)"
  by (auto simp: read_dir_def wp_simps fun_eq_iff split: option.split node.split)

lemma map_err_eq_Ok [simp]: "map_err f r = Ok x \<longleftrightarrow> r = Ok x"
  by (cases r) auto

lemma validate_run_marker_reads: "snd (run_state (validate_run_marker cx js st run run_id) d) = d"
proof -
  have "wp (validate_run_marker cx js st run run_id) (\<lambda>_ d'. d' = d) d"
    by (simp add: validate_run_marker_def wp_simps split: sum.split option.split node.split if_split)
  then show ?thesis by (simp add: wp_def split: prod.splits)
qed

lemma validate_run_marker_iff:
  "fst (run_state (validate_run_marker cx js st run run_id) d) = Ok u \<longleftrightarrow>
     (\<exists>files. lookup (dk_tree d) run = Some (NDir files) \<and> owned cx js st run_id files)"
proof -
  have "wp (validate_run_marker cx js st run run_id) (\<lambda>r _. r = Ok u) d \<longleftrightarrow>
     (\<exists>files. lookup (dk_tree d) run = Some (NDir files) \<and> owned cx js st run_id files)"
    by (auto simp: validate_run_marker_def wp_simps owned_def lookup_append
        split: sum.splits option.splits node.splits if_splits)
  then show ?thesis by (simp add: wp_def split: prod.splits)
qed

lemma node_exists_child:
  "lookup t p = Some (NDir files) \<Longrightarrow>
     node_exists t (p @ [x]) = (case map_of files x of None \<Rightarrow> False | Some (NLink _ resolves) \<Rightarrow> resolves | Some _ \<Rightarrow> True)"
  by (simp add: node_exists_def lookup_append)

lemma wp_validate_run_marker:
  "wp (validate_run_marker cx js st run run_id) Q d \<longleftrightarrow>
     Q (fst (run_state (validate_run_marker cx js st run run_id) d)) d"
  using validate_run_marker_reads [of cx js st run run_id d] by (auto simp: wp_def split: prod.splits)

lemma read_entries_wp:
  "wp (read_entries cx js st run_id) (\<lambda>r d'. d' = d \<and> (r = Ok es \<longleftrightarrow>
     (\<exists>files. lookup (dk_tree d) (run_path st run_id) = Some (NDir files) \<and> owned cx js st run_id files \<and>
        side_files js files \<and> entries_of js run_id files = Ok es))) d"
proof (cases "\<exists>files. lookup (dk_tree d) (run_path st run_id) = Some (NDir files)")
  case False
  then show ?thesis by (auto simp: read_entries_def Let_def wp_simps)
next
  case True
  then obtain files where f: "lookup (dk_tree d) (run_path st run_id) = Some (NDir files)" by blast
  note v = validate_run_marker_iff [of cx js st "run_path st run_id" run_id d "()", unfolded f, simplified]
  show ?thesis
  proof (cases "owned cx js st run_id files")
    case False
    with v obtain e where "fst (run_state (validate_run_marker cx js st (run_path st run_id) run_id) d) = Err e"
      by (cases "fst (run_state (validate_run_marker cx js st (run_path st run_id) run_id) d)") auto
    with False f show ?thesis
      by (auto simp: read_entries_def Let_def wp_simps wp_validate_run_marker)
  next
    case True
    with v f show ?thesis
      by (auto simp: read_entries_def Let_def wp_simps wp_validate_run_marker side_files_def entries_of_def
          node_exists_child lookup_child split: sum.splits option.splits node.splits if_splits)
  qed
qed

lemma read_entries_iff:
  "run_state (read_entries cx js st run_id) d = (Ok es, d') \<longleftrightarrow> d' = d \<and>
     (\<exists>files. lookup (dk_tree d) (run_path st run_id) = Some (NDir files) \<and> owned cx js st run_id files \<and>
        side_files js files \<and> entries_of js run_id files = Ok es)"
  using read_entries_wp [of cx js st run_id d es] by (auto simp: wp_def split: prod.splits)

lemma read_entries_only_reads: "snd (run_state (read_entries cx js st run_id) d) = d"
  using read_entries_wp [of cx js st run_id d "[]"] by (auto simp: wp_def split: prod.splits)

lemma wp_read_entries:
  assumes "\<And>e. Q (Err e) d"
    and "\<And>es files. lookup (dk_tree d) (run_path st run_id) = Some (NDir files) \<Longrightarrow> owned cx js st run_id files \<Longrightarrow>
      side_files js files \<Longrightarrow> entries_of js run_id files = Ok es \<Longrightarrow> Q (Ok es) d"
  shows "wp (read_entries cx js st run_id) Q d"
proof (cases "fst (run_state (read_entries cx js st run_id) d)")
  case (Inl e)
  with assms(1) read_entries_only_reads [of cx js st run_id d] show ?thesis by (auto simp: wp_def split: prod.splits)
next
  case (Inr es)
  then have r: "run_state (read_entries cx js st run_id) d = (Ok es, d)"
    using read_entries_only_reads [of cx js st run_id d] by (metis prod.collapse)
  have "Q (Ok es) d" using r assms(2) [of _ es] unfolding read_entries_iff by blast
  then show ?thesis by (simp add: wp_def r)
qed

section \<open>The entries of a listing\<close>

text \<open>What reading guarantees of the entries and of the files they were read from.\<close>

definition legal_journal :: "string \<Rightarrow> run_journal_entry_v1 list \<Rightarrow> bool" where
  "legal_journal run_id es \<longleftrightarrow>
     (\<forall>i<length es. validate_entry (es ! i) run_id (of_nat i) = Ok ()) \<and>
     (es \<noteq> [] \<longrightarrow> journal_run (map je_state es))"

definition holds_entries :: "journal_json \<Rightarrow> (string \<times> node) list \<Rightarrow> run_journal_entry_v1 list \<Rightarrow> bool" where
  "holds_entries js fs es \<longleftrightarrow> list_all2 (\<lambda>f e. fst f = entry_name (je_seq e) (je_state e) \<and>
     (\<exists>bytes. snd f = NFile bytes \<and> entry_from_slice js bytes = Ok e)) fs es"

lemma legal_journal_snoc:
  "legal_journal run_id (es @ [e]) \<longleftrightarrow>
     legal_journal run_id es \<and> validate_entry e run_id (of_nat (length es)) = Ok () \<and>
     (es \<noteq> [] \<longrightarrow> legal_transition (je_state (last es)) (je_state e))"
proof -
  have run: "journal_run (map je_state (es @ [e])) \<longleftrightarrow>
      (if es = [] then je_state e = Created
       else journal_run (map je_state es) \<and> legal_transition (je_state (last es)) (je_state e))"
    by (auto simp: last_map intro: journal_run.intros elim!: journal_run_snocE journal_run_oneE dest: journal_run_nonempty)
  have first: "validate_entry e run_id (of_nat 0) = Ok () \<Longrightarrow> je_state e = Created"
    by (simp add: validate_entry_def split: if_splits)
  show ?thesis
    unfolding legal_journal_def run using first
    by (auto simp: nth_append less_Suc_eq all_conj_distrib)
qed

lemma read_entry_step_iff:
  "read_entry_step js run_id es f = Ok es' \<longleftrightarrow>
     (\<exists>e. es' = es @ [e] \<and> holds_entries js [f] [e] \<and> validate_entry e run_id (of_nat (length es)) = Ok () \<and>
        (es \<noteq> [] \<longrightarrow> legal_transition (je_state (last es)) (je_state e)))"
  by (cases "snd f") (auto simp: read_entry_step_def result_simps holds_entries_def split: if_splits)

lemma holds_entries_snoc:
  "holds_entries js (fs @ [f]) es' \<longleftrightarrow> (\<exists>es e. es' = es @ [e] \<and> holds_entries js fs es \<and> holds_entries js [f] [e])"
  by (auto simp: holds_entries_def list_all2_append1 list_all2_Cons1 dest: list_all2_lengthD intro: list_all2_lengthD [symmetric])

lemma try_fold_entries_iff:
  "try_fold (read_entry_step js run_id) [] fs = Ok es \<longleftrightarrow> holds_entries js fs es \<and> legal_journal run_id es"
proof (induction fs arbitrary: es rule: rev_induct)
  case Nil
  then show ?case by (auto simp: holds_entries_def legal_journal_def)
next
  case (snoc f fs)
  show ?case
    by (auto simp: try_fold_append result_simps snoc.IH read_entry_step_iff holds_entries_snoc legal_journal_snoc
        legal_journal_snoc [of _ "[]", simplified])
qed

lemma entries_of_iff:
  "entries_of js run_id files = Ok es \<longleftrightarrow> holds_entries js (entry_files files) es \<and> legal_journal run_id es"
  by (simp add: entries_of_def try_fold_entries_iff)

section \<open>Appending an entry\<close>

lemma journal_shape_length: "journal_shape ss \<Longrightarrow> length ss \<le> 7"
  by (auto simp: journal_shape_def phases_def)

lemma legal_journal_length: "legal_journal run_id es \<Longrightarrow> length es \<le> 7"
  using journal_run_shape journal_shape_length by (fastforce simp: legal_journal_def)

lemma legal_journal_seq:
  assumes "legal_journal run_id es" and "i < length es"
  shows "je_seq (es ! i) = of_nat i"
  using assms by (auto simp: legal_journal_def validate_entry_def split: if_splits)

lemma show_pad_digit: "n < 10 \<Longrightarrow> show_pad 20 n = replicate 19 (CHR ''0'') @ [digit_char n]"
  by (simp add: show_pad_def show_nat.simps Let_def)

lemma digit_char_less: "i < j \<Longrightarrow> j < 10 \<Longrightarrow> digit_char i < digit_char j"
  by (simp add: digit_char_def less_char_def)

lemma prefixed_less: "x < y \<Longrightarrow> xs @ x # ys < xs @ y # (zs :: 'a :: order list)"
  by (induction xs) auto

text \<open>Entry names sort by sequence number.\<close>

lemma entry_name_less:
  assumes "unat n < unat m" and "unat m < 10"
  shows "entry_name n s < entry_name m s'"
  using assms prefixed_less [OF digit_char_less [OF assms], of "replicate 19 (CHR ''0'')"]
  by (simp only: entry_name_def show_pad_digit append_assoc append_Cons append_Nil)

lemma entry_name_not_reserved:
  assumes "unat n < 10"
  shows "\<not> reserved_name (entry_name n s)"
proof -
  have "hd (entry_name n s) = CHR ''0''" using assms by (simp add: entry_name_def show_pad_digit)
  then show ?thesis by (auto simp: reserved_name_def RUN_MARKER_def RESOURCES_DIR_def SOURCE_BINDING_def)
qed

lemma bt_insert_first: "\<forall>e\<in>set es. x < fst e \<Longrightarrow> bt_insert x v es = (x, v) # es"
  by (cases es) auto

lemma filter_bt_insert:
  "bt_inv es \<Longrightarrow> P x \<Longrightarrow> filter (\<lambda>e. P (fst e)) (bt_insert x v es) = bt_insert x v (filter (\<lambda>e. P (fst e)) es)"
  by (induction x v es rule: bt_insert.induct) (auto 4 4 intro!: bt_insert_first [symmetric] dest: order.strict_trans)

lemma bt_insert_last: "\<forall>e\<in>set es. fst e < x \<Longrightarrow> bt_insert x v es = es @ [(x, v)]"
  by (induction x v es rule: bt_insert.induct) auto

lemma entry_names_less:
  assumes h: "holds_entries js fs es" and l: "legal_journal run_id es"
    and n: "unat n = length es" "length es < 10" and f: "f \<in> set fs"
  shows "fst f < entry_name n s"
proof -
  have len: "length fs = length es" using h by (simp add: holds_entries_def list_all2_lengthD)
  with f obtain i where i: "i < length es" "f = fs ! i" by (metis in_set_conv_nth)
  then have "fst f = entry_name (of_nat i) (je_state (es ! i))"
    using h legal_journal_seq [OF l] len by (simp add: holds_entries_def list_all2_conv_all_nth)
  moreover have "unat (of_nat i :: u64) = i" using i n by (simp add: unsigned_of_nat take_bit_nat_eq_self)
  ultimately show ?thesis using entry_name_less [of "of_nat i" n] i n by simp
qed

lemma entry_files_insert:
  assumes inv: "bt_inv files" and es: "entries_of js run_id files = Ok es"
    and n: "unat n = length es" "length es < 10"
  shows "entry_files (bt_insert (entry_name n s) v files) = entry_files files @ [(entry_name n s, v)]"
proof -
  have "bt_insert (entry_name n s) v (entry_files files) = entry_files files @ [(entry_name n s, v)]"
    using es n entry_names_less by (intro bt_insert_last ballI) (auto simp only: entries_of_iff)
  then show ?thesis using filter_bt_insert [OF inv, of "\<lambda>k. \<not> reserved_name k"] n entry_name_not_reserved by simp
qed

lemma and_then_Ok [simp]: "and_then r Inr = r"
  by (cases r) auto

text \<open>With one more entry file, reading takes one more step.\<close>

lemma entries_of_insert:
  assumes "bt_inv files" "entries_of js run_id files = Ok es" "unat n = length es" "length es < 10"
  shows "entries_of js run_id (bt_insert (entry_name n s) v files) = read_entry_step js run_id es (entry_name n s, v)"
  unfolding entries_of_def entry_files_insert [OF assms]
  using assms(2) by (simp add: entries_of_def try_fold_append)

lemma reserved_insert:
  assumes "bt_inv files" "unat n < 10"
  shows "owned cx js st run_id (bt_insert (entry_name n s) v files) = owned cx js st run_id files"
    "side_files js (bt_insert (entry_name n s) v files) = side_files js files"
  using entry_name_not_reserved [OF assms(2), of s] assms(1)
  by (auto simp: owned_def side_files_def map_of_bt_insert reserved_name_def)

text \<open>
  What the journal relies on of the JSON library: an entry reads back from its text, with or without
  a newline after it, and not from a text that was cut short (the text of an object ends with its brace).
\<close>

definition entry_json_law :: "journal_json \<Rightarrow> bool" where
  "entry_json_law js \<longleftrightarrow>
     (\<forall>e bytes. entry_to_vec js e = Ok bytes \<longrightarrow>
        entry_from_slice js bytes = Ok e \<and> entry_from_slice js (bytes @ [CHR 0x0A]) = Ok e \<and>
        (\<forall>k<length bytes. \<not> is_ok (entry_from_slice js (take k bytes))))"

definition next_entry ::
    "string \<Rightarrow> run_journal_entry_v1 list \<Rightarrow> run_journal_state_v1 \<Rightarrow> string \<Rightarrow> run_failure_kind_v1 option \<Rightarrow>
       run_journal_entry_v1" where
  "next_entry run_id es state at_utc failure_kind =
     \<lparr>je_schema_version = RUN_JOURNAL_SCHEMA_VERSION, je_run_id = run_id, je_seq = of_nat (length es),
      je_state = state, je_at_utc = at_utc, je_failure_kind = failure_kind\<rparr>"

definition journal_reads ::
    "codec \<Rightarrow> journal_json \<Rightarrow> run_journal_store \<Rightarrow> string \<Rightarrow> node \<Rightarrow> run_journal_entry_v1 list \<Rightarrow> bool" where
  "journal_reads cx js st run_id t es \<longleftrightarrow>
     (\<exists>files. lookup t (run_path st run_id) = Some (NDir files) \<and> owned cx js st run_id files \<and>
        side_files js files \<and> entries_of js run_id files = Ok es)"

lemma journal_reads_iff:
  "journal_reads cx js st run_id (dk_tree d) es \<longleftrightarrow> run_state (read_entries cx js st run_id) d = (Ok es, d)"
  by (simp add: journal_reads_def read_entries_iff)

lemma journal_reads_unique: "journal_reads cx js st run_id t es \<Longrightarrow> journal_reads cx js st run_id t es' \<Longrightarrow> es' = es"
  by (auto simp: journal_reads_def)

lemma journal_reads_insert:
  assumes wf: "tree_wf t" and r: "journal_reads cx js st run_id t es" and n: "unat n = length es" "length es < 10"
  shows "journal_reads cx js st run_id (put (run_path st run_id @ [entry_name n s]) v t) es' \<longleftrightarrow>
    read_entry_step js run_id es (entry_name n s, v) = Ok es'"
proof -
  from r obtain files where f: "lookup t (run_path st run_id) = Some (NDir files)" "owned cx js st run_id files"
    "side_files js files" "entries_of js run_id files = Ok es" by (auto simp: journal_reads_def)
  have inv: "bt_inv files" using lookup_wf [OF wf f(1)] by simp
  have "unat n < 10" using n by simp
  then show ?thesis
    using f n entries_of_insert [OF inv f(4) n]
    by (simp add: journal_reads_def lookup_put_dir [OF wf f(1)] reserved_insert [OF inv])
qed

abbreviation entry_file :: "run_journal_store \<Rightarrow> run_journal_entry_v1 \<Rightarrow> path" where
  "entry_file st e \<equiv> run_path st (je_run_id e) @ [entry_name (je_seq e) (je_state e)]"

text \<open>The file of an entry was created and holds less than the text of the entry.\<close>

definition entry_torn :: "journal_json \<Rightarrow> run_journal_store \<Rightarrow> run_journal_entry_v1 \<Rightarrow> node \<Rightarrow> node \<Rightarrow> bool" where
  "entry_torn js st e t t' \<longleftrightarrow>
     (\<exists>bytes k. entry_to_vec js e = Ok bytes \<and> k < length bytes \<and> t' = put (entry_file st e) (NFile (take k bytes)) t)"

text \<open>What an attempt to add an entry to a journal leaves, by its result.\<close>

definition entry_added ::
    "codec \<Rightarrow> journal_json \<Rightarrow> run_journal_store \<Rightarrow> run_journal_entry_v1 list \<Rightarrow> run_journal_entry_v1 \<Rightarrow> node \<Rightarrow>
       (run_journal_error, run_journal_entry_v1) result \<Rightarrow> node \<Rightarrow> bool" where
  "entry_added cx js st es e t r t' \<longleftrightarrow>
     (case r of
        Inr e' \<Rightarrow> e' = e \<and> journal_reads cx js st (je_run_id e) t' (es @ [e])
      | Inl _ \<Rightarrow> t' = t \<or> journal_reads cx js st (je_run_id e) t' (es @ [e]) \<or>
          entry_torn js st e t t' \<and> (\<forall>es'. \<not> journal_reads cx js st (je_run_id e) t' es')) \<and>
     tree_wf t' \<and> (\<forall>q. entry_file st e \<parallel> q \<longrightarrow> lookup t' q = lookup t q)"

lemma take_newline: "take k (b @ [x]) = (if k \<le> length b then take k b else b @ [x])"
  by simp

lemma append_entry_outcome:
  fixes es run_id state at_utc failure_kind
  defines "n \<equiv> of_nat (length es) :: u64" and "e \<equiv> next_entry run_id es state at_utc failure_kind"
  assumes wf: "tree_wf (dk_tree d)" and r: "journal_reads cx js st run_id (dk_tree d) es" and len: "length es < 10"
    and law: "entry_json_law js" and valid: "validate_entry e run_id n = Ok ()"
    and legal: "es \<noteq> [] \<longrightarrow> legal_transition (je_state (last es)) state"
  shows "wp (append_entry js st run_id n state at_utc failure_kind) (\<lambda>res d'.
    entry_added cx js st es e (dk_tree d) res (dk_tree d')) d"
proof -
  let ?p = "run_path st run_id @ [entry_name n state]" and ?t = "dk_tree d"
  have n: "unat n = length es" using len by (simp add: n_def unsigned_of_nat take_bit_nat_eq_self)
  have e: "entry_file st e = ?p" "je_run_id e = run_id" "je_seq e = n" "je_state e = state"
    by (simp_all add: e_def next_entry_def n_def)
  have step: "journal_reads cx js st run_id (put ?p (NFile b) ?t) es' \<longleftrightarrow>
      read_entry_step js run_id es (entry_name n state, NFile b) = Ok es'" for b es'
    by (rule journal_reads_insert [OF wf r n len])
  have frame: "tree_wf (put ?p (NFile b) ?t)" "?p \<parallel> q \<longrightarrow> lookup (put ?p (NFile b) ?t) q = lookup ?t q" for b q
    using wf by (simp_all add: put_wf lookup_put_other)
  have full: "journal_reads cx js st run_id (put ?p (NFile b) ?t) (es @ [e])" if "entry_from_slice js b = Ok e" for b
    using that valid legal unfolding step by (simp add: read_entry_step_iff holds_entries_def e n_def)
  have short: "\<not> journal_reads cx js st run_id (put ?p (NFile b) ?t) es'" if "\<not> is_ok (entry_from_slice js b)" for b es'
    using that unfolding step by (auto simp: read_entry_step_iff holds_entries_def is_ok_def)
  have entry: "append_entry js st run_id n state at_utc failure_kind =
      attempt (lift (with_newline (entry_to_vec js e))) (\<lambda>bytes.
      attempt (on_err JrnDurable (create_new ?p bytes)) (\<lambda>_. ok e))"
    by (simp add: append_entry_def e_def next_entry_def n_def Let_def)
  show ?thesis
  proof (cases "entry_to_vec js e")
    case (Inl x)
    then show ?thesis using wf by (simp add: entry wp_simps with_newline_def entry_added_def)
  next
    case (Inr b)
    have reads: "entry_from_slice js b = Ok e" "entry_from_slice js (b @ [CHR 0x0A]) = Ok e"
      and cut: "\<And>k. k < length b \<Longrightarrow> \<not> is_ok (entry_from_slice js (take k b))"
      using law Inr by (simp_all add: entry_json_law_def)
    have part: "entry_added cx js st es e ?t (Inl x) (put ?p (NFile (take k (b @ [CHR 0x0A]))) ?t)" for k x
    proof (cases "k < length b")
      case True
      then show ?thesis using Inr short [OF cut] frame by (auto simp: entry_added_def entry_torn_def e)
    next
      case False
      then have "take k (b @ [CHR 0x0A]) \<in> {b, b @ [CHR 0x0A]}" by (auto simp: take_newline)
      then show ?thesis using full reads frame by (auto simp: entry_added_def e)
    qed
    show ?thesis
      apply (simp add: entry wp_simps with_newline_def Inr cong: sum.case_cong)
      apply (rule wp_create_new [OF wf])
      using wf full [OF reads(2)] frame part
      by (auto simp: entry_added_def e simp del: take_append)
  qed
qed

section \<open>Transitions\<close>

lemma legal_journal_bound:
  assumes "legal_journal run_id es" "es \<noteq> []" "legal_transition (je_state (last es)) s"
  shows "length es < 7"
proof -
  from assms have "journal_run (map je_state es @ [s])"
    by (intro journal_run.step) (auto simp: legal_journal_def last_map)
  from journal_shape_length [OF journal_run_shape [OF this]] show ?thesis by simp
qed

definition transition_allowed :: "run_journal_entry_v1 list \<Rightarrow> run_journal_state_v1 \<Rightarrow> run_failure_kind_v1 option \<Rightarrow> bool" where
  "transition_allowed es state failure_kind \<longleftrightarrow>
     es \<noteq> [] \<and> legal_transition (je_state (last es)) state \<and>
     \<not> (je_state (last es) = Created \<and> state = CleanupPending) \<and> (state = Failed \<longleftrightarrow> failure_kind \<noteq> None)"

lemma next_entry_valid:
  assumes "validate_timestamp at_utc = Ok ()" "transition_allowed es state failure_kind" "length es < 10"
  shows "validate_entry (next_entry run_id es state at_utc failure_kind) run_id (of_nat (length es)) = Ok ()"
proof -
  have "(of_nat (length es) :: u64) \<noteq> 0"
    using assms by (subst unat_eq_zero [symmetric]) (auto simp: transition_allowed_def unsigned_of_nat take_bit_nat_eq_self)
  with assms show ?thesis by (auto simp: validate_entry_def next_entry_def transition_allowed_def is_ok_def)
qed

text \<open>After reading the journal, a transition refuses or appends the next entry.\<close>

lemma transition_reading:
  assumes r: "journal_reads cx js st run_id (dk_tree d) es"
  shows "run_state (transition cx js st run_id state at_utc failure_kind) d =
    (if validate_run_id run_id \<noteq> Ok () then (Err (projl (validate_run_id run_id)), d)
     else if validate_timestamp at_utc \<noteq> Ok () then (Err (projl (validate_timestamp at_utc)), d)
     else if es = [] then (Err JrnCorrupt, d)
     else if \<not> transition_allowed es state failure_kind then (Err JrnInvalidTransition, d)
     else run_state (append_entry js st run_id (of_nat (length es)) state at_utc failure_kind) d)"
proof -
  have reads: "run_state (read_entries cx js st run_id) d = (Ok es, d)" using r by (simp add: journal_reads_iff)
  have l: "legal_journal run_id es" using r by (auto simp: journal_reads_def entries_of_iff)
  have seq: "je_seq (last es) + 1 = of_nat (length es)" if "es \<noteq> []"
    using legal_journal_seq [OF l, of "length es - 1"] that
    by (cases es rule: rev_cases) auto
  show ?thesis
    by (cases "validate_run_id run_id"; cases "validate_timestamp at_utc")
      (auto simp: transition_def attempt_def lift_def State_Monad.bind_def State_Monad.return_def reads Let_def seq fail_def
        transition_allowed_def)
qed

lemma transition_outcome:
  fixes es run_id state at_utc failure_kind
  defines "e \<equiv> next_entry run_id es state at_utc failure_kind"
  assumes wf: "tree_wf (dk_tree d)" and r: "journal_reads cx js st run_id (dk_tree d) es" and law: "entry_json_law js"
  shows "wp (transition cx js st run_id state at_utc failure_kind) (\<lambda>res d'.
    entry_added cx js st es e (dk_tree d) res (dk_tree d')) d"
proof (cases "validate_run_id run_id = Ok () \<and> validate_timestamp at_utc = Ok () \<and> transition_allowed es state failure_kind")
  case False
  then show ?thesis using wf
    by (auto simp: wp_def transition_reading [OF r] entry_added_def)
next
  case True
  then have a: "transition_allowed es state failure_kind" by simp
  have l: "legal_journal run_id es" using r by (auto simp: journal_reads_def entries_of_iff)
  with a have len: "length es < 10" using legal_journal_bound [of run_id es state] by (simp add: transition_allowed_def)
  have run: "run_state (transition cx js st run_id state at_utc failure_kind) d =
      run_state (append_entry js st run_id (of_nat (length es)) state at_utc failure_kind) d"
    using True by (simp add: transition_reading [OF r]) (simp add: transition_allowed_def)
  have "validate_entry e run_id (of_nat (length es)) = Ok ()"
    unfolding e_def using True a len by (intro next_entry_valid) auto
  from append_entry_outcome [OF wf r len law this [unfolded e_def]] a show ?thesis
    unfolding wp_def run e_def by (simp add: transition_allowed_def)
qed

lemma create_new_succeeds:
  assumes "p \<noteq> []" "lookup (dk_tree d) (butlast p) = Some (NDir fs)" "lookup (dk_tree d) p = None"
    "failures d = 0" "tree_wf (dk_tree d)"
  shows "fst (run_state (create_new p bytes) d) = Ok ()"
proof -
  have "wp (create_new p bytes) (\<lambda>r d'. r = Ok ()) d"
    using assms by (intro wp_create_new) auto
  then show ?thesis by (simp add: wp_def split: prod.splits)
qed

lemma entry_absent:
  assumes wf: "tree_wf t" and r: "journal_reads cx js st run_id t es" and n: "unat n = length es" "length es < 10"
  shows "lookup t (run_path st run_id @ [entry_name n s]) = None"
proof (rule ccontr)
  from r obtain files where f: "lookup t (run_path st run_id) = Some (NDir files)"
    "holds_entries js (entry_files files) es" "legal_journal run_id es"
    by (auto simp: journal_reads_def entries_of_iff)
  assume "lookup t (run_path st run_id @ [entry_name n s]) \<noteq> None"
  then obtain v where "(entry_name n s, v) \<in> set files"
    using lookup_child [OF f(1)] by (auto dest: map_of_SomeD)
  then have "(entry_name n s, v) \<in> set (entry_files files)" using entry_name_not_reserved [of n s] n by simp
  from entry_names_less [OF f(2,3) n this, of s] show False by simp
qed

lemma transition_succeeds:
  assumes wf: "tree_wf (dk_tree d)" and r: "journal_reads cx js st run_id (dk_tree d) es"
    and quiet: "failures d = 0" and ids: "validate_run_id run_id = Ok ()" "validate_timestamp at_utc = Ok ()"
    and a: "transition_allowed es state failure_kind"
    and json: "entry_to_vec js (next_entry run_id es state at_utc failure_kind) = Ok bytes"
  shows "fst (run_state (transition cx js st run_id state at_utc failure_kind) d) =
    Ok (next_entry run_id es state at_utc failure_kind)"
proof -
  have l: "legal_journal run_id es" using r by (auto simp: journal_reads_def entries_of_iff)
  with a have len: "length es < 10" using legal_journal_bound [of run_id es state] by (simp add: transition_allowed_def)
  then have n: "unat (of_nat (length es) :: u64) = length es" by (simp add: unsigned_of_nat take_bit_nat_eq_self)
  obtain files where f: "lookup (dk_tree d) (run_path st run_id) = Some (NDir files)"
    using r by (auto simp: journal_reads_def)
  have "es \<noteq> []" using a by (simp add: transition_allowed_def)
  with ids a have "run_state (transition cx js st run_id state at_utc failure_kind) d =
      run_state (append_entry js st run_id (of_nat (length es)) state at_utc failure_kind) d"
    by (simp add: transition_reading [OF r])
  then show ?thesis
    using json create_new_succeeds [OF _ _ entry_absent [OF wf r n len] quiet wf] f
    by (simp add: append_entry_def Let_def next_entry_def attempt_def lift_def with_newline_def on_err_def ok_def
        State_Monad.bind_def State_Monad.return_def case_prod_unfold)
qed

end
