(* ===== verification/Journal_Recovery.thy ===== *)
theory Journal_Recovery
  imports Journal_Disk
begin

text \<open>
  Recovery of a run: what \<open>recover_apply\<close> quarantines, that applying it again changes nothing, and
  what the status of a run says of its journal.
\<close>

section \<open>Moving an entry within a directory\<close>

abbreviation moved :: "path \<Rightarrow> string \<Rightarrow> string \<Rightarrow> node \<Rightarrow> node \<Rightarrow> node" where
  "moved dir x y n t \<equiv> put (dir @ [y]) n (del (dir @ [x]) t)"

lemma lookup_parent: "lookup t (dir @ [x]) = Some n \<Longrightarrow> \<exists>fs. lookup t dir = Some (NDir fs)"
proof -
  assume "lookup t (dir @ [x]) = Some n"
  then obtain m where "lookup t dir = Some m" "lookup m [x] = Some n" by (auto simp: lookup_append bind_eq_Some_conv)
  then show ?thesis by (cases m) auto
qed

lemma moved_lookup:
  assumes wf: "tree_wf t" and l: "lookup t (dir @ [x]) = Some n" and xy: "x \<noteq> y"
  shows "lookup (moved dir x y n t) (dir @ [x]) = None" "lookup (moved dir x y n t) (dir @ [y]) = Some n"
    "tree_wf (moved dir x y n t)"
proof -
  obtain fs where fs: "lookup t dir = Some (NDir fs)" using lookup_parent [OF l] by blast
  have dir: "lookup (del (dir @ [x]) t) dir = Some (NDir (filter (\<lambda>e. fst e \<noteq> x) fs))"
    by (rule lookup_del_dir [OF wf fs])
  have wfd: "tree_wf (del (dir @ [x]) t)" by (rule del_wf [OF wf])
  have par: "dir @ [y] \<parallel> dir @ [x]" using xy by (auto simp: parallel_def)
  show "lookup (moved dir x y n t) (dir @ [x]) = None"
    using lookup_put_other [OF wfd par] lookup_del_same [OF wf, of "dir @ [x]"] by simp
  show "lookup (moved dir x y n t) (dir @ [y]) = Some n"
    using dir by (intro lookup_put_same [OF wfd]) auto
  show "tree_wf (moved dir x y n t)" using lookup_wf [OF wf l] by (intro put_wf wfd)
qed

section \<open>Quarantine\<close>

abbreviation runs_dir :: "run_journal_store \<Rightarrow> path" where
  "runs_dir st \<equiv> js_root st @ [RUNS_DIR]"

lemma wp_quarantine_owned_tree:
  assumes same: "\<And>e d'. dk_tree d' = dk_tree d \<Longrightarrow> Q (Err e) d'"
    and full: "\<And>r files d'. lookup (dk_tree d) (dir @ [x]) = Some (NDir files) \<Longrightarrow> \<not> node_exists (dk_tree d) (dir @ [y]) \<Longrightarrow>
      dk_tree d' = moved dir x y (NDir files) (dk_tree d) \<Longrightarrow> Q r d'"
  shows "wp (quarantine_owned_tree (dir @ [x]) (dir @ [y]) marker bytes) Q d"
proof (cases "lookup (dk_tree d) (dir @ [x])")
  case None
  then show ?thesis
    by (auto simp: quarantine_owned_tree_def validate_owned_tree_def validate_plain_directory_def wp_simps intro: same)
next
  case (Some n)
  note parent = wp_checked_parent [of "dir @ [z]" for z, simplified]
  show ?thesis
  proof (cases n)
    case (NDir files)
    note defs = quarantine_owned_tree_def validate_owned_tree_def validate_plain_directory_def os_rename_def
    have rename: "wp (change_disk (moved dir x y (NDir files))) (case_sum (\<lambda>e. Q (Err e)) (\<lambda>x. wp (sync_directory dir) Q)) d"
      if "\<not> node_exists (dk_tree d) (dir @ [y])"
      apply (rule wp_change_disk)
       apply simp
       apply (rule wp_sync_directory)
        apply (use that Some NDir in \<open>auto intro: same full [of files]\<close>)
      done
    from NDir Some rename show ?thesis
      by (auto simp: defs wp_simps parent intro: same split: option.split node.split cong: sum.case_cong)
  qed (use Some in \<open>auto simp: quarantine_owned_tree_def validate_owned_tree_def validate_plain_directory_def wp_simps
        intro: same\<close>)
qed

section \<open>Applying recovery\<close>

abbreviation quarantine_name :: "string \<Rightarrow> string" where
  "quarantine_name run_id \<equiv> QUARANTINE_PREFIX @ run_id"

lemma quarantine_name_distinct: "run_id \<noteq> quarantine_name run_id"
  by (metis QUARANTINE_PREFIX_def append_self_conv2 list.discI)

text \<open>The disk after a run was quarantined: only its directory moved.\<close>

definition run_quarantined :: "codec \<Rightarrow> journal_json \<Rightarrow> run_journal_store \<Rightarrow> string \<Rightarrow> node \<Rightarrow> bool" where
  "run_quarantined cx js st run_id t \<longleftrightarrow>
     \<not> node_exists t (runs_dir st @ [run_id]) \<and>
     (\<exists>files. lookup t (runs_dir st @ [quarantine_name run_id]) = Some (NDir files) \<and> owned cx js st run_id files)"

lemma recover_apply_again:
  assumes "validate_run_id run_id = Ok ()" and "run_quarantined cx js st run_id (dk_tree d)"
  shows "run_state (recover_apply cx js st run_id) d = (Ok (quarantined_result run_id), d)"
proof -
  let ?q = "js_root st @ [RUNS_DIR, quarantine_name run_id]"
  have q: "node_exists (dk_tree d) ?q" "\<not> node_exists (dk_tree d) (run_path st run_id)"
    "fst (run_state (validate_run_marker cx js st ?q run_id) d) = Ok ()"
    using assms(2) unfolding validate_run_marker_iff by (auto simp: run_quarantined_def run_path_def node_exists_def)
  have "wp (recover_apply cx js st run_id) (\<lambda>r d'. r = Ok (quarantined_result run_id) \<and> d' = d) d"
    using assms(1) q by (simp add: recover_apply_def Let_def wp_simps wp_validate_run_marker)
  then show ?thesis by (simp add: wp_def split: prod.splits)
qed

lemma wp_then_ok: "wp (attempt (on_err f m) (\<lambda>_. ok x)) Q = wp m (\<lambda>r. Q (map_result (\<lambda>_. x) (map_err f r)))"
  unfolding wp_attempt wp_on_err wp_ok
  by (intro arg_cong [where f = "wp m"] ext) (simp add: map_err_def split: sum.split)

lemma wp_recover_apply_fresh:
  assumes "validate_run_id run_id = Ok ()"
    and "\<not> node_exists (dk_tree d) (js_root st @ [RUNS_DIR, quarantine_name run_id])"
  shows "wp (recover_apply cx js st run_id) Q d = wp (read_entries cx js st run_id) (\<lambda>r.
    case r of Inl e \<Rightarrow> Q (Inl e) | Inr es \<Rightarrow>
      if es = [] then Q (Err JrnCorrupt)
      else if classify (je_state (last es)) = Terminal then Q (Err JrnNonActionable)
      else case run_marker_bytes cx js (js_root_token st) run_id of Inl e \<Rightarrow> Q (Inl e) | Inr bytes \<Rightarrow>
        wp (quarantine_owned_tree (run_path st run_id) (js_root st @ [RUNS_DIR, quarantine_name run_id]) RUN_MARKER bytes)
          (\<lambda>r. Q (map_result (\<lambda>_. quarantined_result run_id) (map_err JrnDurable r)))) d"
  using assms by (simp add: recover_apply_def Let_def wp_then_ok wp_bind wp_tree wp_if wp_fail wp_lift
      wp_attempt [of "lift r" for r] wp_attempt [of "read_entries a b c d" for a b c d]
      cong: sum.case_cong if_cong)

lemma recover_apply_outcome:
  assumes wf: "tree_wf (dk_tree d)"
  shows "wp (recover_apply cx js st run_id) (\<lambda>r d'.
    (\<forall>x. r = Ok x \<longrightarrow> x = quarantined_result run_id \<and> run_quarantined cx js st run_id (dk_tree d')) \<and>
    (dk_tree d' = dk_tree d \<or>
     (\<exists>files es. lookup (dk_tree d) (runs_dir st @ [run_id]) = Some (NDir files) \<and>
        journal_reads cx js st run_id (dk_tree d) es \<and> es \<noteq> [] \<and> classify (je_state (last es)) \<noteq> Terminal \<and>
        run_quarantined cx js st run_id (dk_tree d') \<and>
        dk_tree d' = moved (runs_dir st) run_id (quarantine_name run_id) (NDir files) (dk_tree d)))) d"
    (is "wp _ ?Q d")
proof (cases "node_exists (dk_tree d) (js_root st @ [RUNS_DIR, quarantine_name run_id])")
  case True
  then show ?thesis
    using validate_run_marker_iff [of cx js st "js_root st @ [RUNS_DIR, quarantine_name run_id]" run_id d]
    by (auto simp: recover_apply_def Let_def wp_simps wp_validate_run_marker run_quarantined_def run_path_def
        split: sum.split)
next
  case False
  have q: "wp (quarantine_owned_tree (runs_dir st @ [run_id]) (runs_dir st @ [quarantine_name run_id]) RUN_MARKER bytes)
      (\<lambda>r. ?Q (map_result (\<lambda>_. quarantined_result run_id) (map_err JrnDurable r))) d"
    if f: "lookup (dk_tree d) (run_path st run_id) = Some (NDir files)" "owned cx js st run_id files"
      "side_files js files" "entries_of js run_id files = Ok es"
      and es: "es \<noteq> []" "classify (je_state (last es)) \<noteq> Terminal" for bytes files es
  proof (rule wp_quarantine_owned_tree)
    fix r files' and d' :: disk
    assume l: "lookup (dk_tree d) (runs_dir st @ [run_id]) = Some (NDir files')"
      and d': "dk_tree d' = moved (runs_dir st) run_id (quarantine_name run_id) (NDir files') (dk_tree d)"
    have [simp]: "files' = files" using l f(1) by (simp add: run_path_def)
    have "run_quarantined cx js st run_id (dk_tree d')"
      using moved_lookup [OF wf l quarantine_name_distinct] f(2) by (simp add: run_quarantined_def d' node_exists_def)
    moreover have "journal_reads cx js st run_id (dk_tree d) es" using f by (simp add: journal_reads_def)
    ultimately show "?Q (map_result (\<lambda>_. quarantined_result run_id) (map_err JrnDurable r)) d'"
      using l d' es by (cases r) auto
  qed auto
  show ?thesis
  proof (cases "validate_run_id run_id")
    case (Inl e)
    then show ?thesis by (simp add: recover_apply_def wp_simps)
  next
    case (Inr u)
    show ?thesis
      unfolding wp_recover_apply_fresh [OF Inr [simplified] False]
      apply (rule wp_read_entries)
       apply simp
      subgoal for es files
        using q [of files es] by (simp add: run_path_def split: sum.split)
      done
  qed
qed

end
