(* ===== verification/Journal_Props.thy ===== *)
theory Journal_Props
  imports Journal_Recovery "HOL-Library.Code_Target_Numeral"
begin

text \<open>
  The properties of the durable file system (\<^verbatim>\<open>src/src/durable_fs.rs\<close>) and of the run journal on it
  (\<^verbatim>\<open>src/src/run_journal.rs\<close>), with a small disk to apply them to.
\<close>

section \<open>A disk with one run\<close>

definition demo_id :: string where "demo_id = replicate 64 (CHR ''a'')"
definition demo_token :: string where "demo_token = encode_hex (replicate 32 (CHR ''x''))"
definition demo_time :: string where "demo_time = ''2026-07-01T12:00:00Z''"

definition journal_codec :: codec where
  "journal_codec = \<lparr>to_vec = (\<lambda>_. Ok ''{}''), sha256 = (\<lambda>_. replicate 32 (CHR ''x''))\<rparr>"

definition demo_store :: run_journal_store where
  "demo_store = \<lparr>js_root = [''cache'', JOURNAL_DIR], js_root_token = demo_token\<rparr>"

definition demo_marker :: run_owner_marker_v1 where
  "demo_marker = \<lparr>om_schema_version = RUN_JOURNAL_SCHEMA_VERSION, om_owner = ''commit-ci-preflight'',
     om_purpose = ''run-journal-entry'', om_root_token = demo_token, om_run_id = demo_id, om_run_token = demo_token\<rparr>"

definition demo_created :: run_journal_entry_v1 where
  "demo_created = next_entry demo_id [] Created demo_time None"

definition demo_admitted :: run_journal_entry_v1 where
  "demo_admitted = next_entry demo_id [demo_created] Admitted demo_time None"

text \<open>A JSON library that knows two entries and one marker.\<close>

definition demo_json :: journal_json where
  "demo_json =
     \<lparr>entry_to_vec = (\<lambda>e. if e = demo_created then Ok ''0'' else if e = demo_admitted then Ok ''1'' else Err ''unknown''),
      entry_from_slice = (\<lambda>b. if b \<in> {''0'', ''0'' @ [CHR 0x0A]} then Ok demo_created
        else if b \<in> {''1'', ''1'' @ [CHR 0x0A]} then Ok demo_admitted else Err ''syntax''),
      root_marker_to_vec = (\<lambda>_. Err ''unknown''), root_marker_from_slice = (\<lambda>_. Err ''syntax''),
      run_marker_to_vec = (\<lambda>m. if m = demo_marker then Ok ''m'' else Err ''unknown''),
      run_marker_from_slice = (\<lambda>b. if b = ''m'' @ [CHR 0x0A] then Ok demo_marker else Err ''syntax''),
      source_to_vec = (\<lambda>_. Err ''unknown''), source_from_slice = (\<lambda>_. Err ''syntax'')\<rparr>"

definition demo_run_files :: "(string \<times> node) list" where
  "demo_run_files = [(RUN_MARKER, NFile (''m'' @ [CHR 0x0A])), (entry_name 0 Created, NFile (''0'' @ [CHR 0x0A]))]"

definition demo_disk :: disk where
  "demo_disk = \<lparr>dk_tree = NDir [(''cache'', NDir [(JOURNAL_DIR, NDir [(RUNS_DIR, NDir [(demo_id, NDir demo_run_files)])])])],
     dk_faults = []\<rparr>"

lemma demo_law: "entry_json_law demo_json"
  by (auto simp: entry_json_law_def demo_json_def is_ok_def split: if_splits)

lemma demo_valid: "validate_run_id demo_id = Ok ()" "validate_timestamp demo_time = Ok ()"
  by (code_simp; simp)+

lemma demo_names: "hd (entry_name 0 s) = CHR ''0''" "entry_name 0 s \<noteq> []"
  using show_pad_digit [of 0] by (simp_all add: entry_name_def)

lemma demo_wf: "tree_wf (dk_tree demo_disk)"
proof -
  have "RUN_MARKER < entry_name 0 Created"
    using demo_names [of Created] by (cases "entry_name 0 Created") (auto simp: RUN_MARKER_def less_char_def)
  then show ?thesis by (simp add: demo_disk_def demo_run_files_def)
qed

lemma demo_owned: "owned journal_codec demo_json demo_store demo_id demo_run_files"
proof -
  have "derived_run_token journal_codec demo_token demo_id = Ok demo_token"
    by (simp add: derived_run_token_def token_digest_def canonical_digest_def canonical_json_def journal_codec_def
        demo_token_def RECEIPT_ID_PREFIX_def)
  then show ?thesis
    by (simp add: owned_def demo_run_files_def demo_json_def demo_marker_def demo_store_def)
qed

lemma demo_entries: "entries_of demo_json demo_id demo_run_files = Ok [demo_created]"
proof -
  have "\<not> reserved_name (entry_name 0 Created)" by (rule entry_name_not_reserved) simp
  moreover have "reserved_name RUN_MARKER" by (simp add: reserved_name_def)
  moreover have "validate_entry demo_created demo_id 0 = Ok ()"
    using demo_valid by (simp add: validate_entry_def demo_created_def next_entry_def is_ok_def)
  ultimately show ?thesis
    by (simp add: entries_of_def demo_run_files_def read_entry_step_def demo_json_def)
      (simp add: demo_created_def next_entry_def)
qed

lemma demo_reads: "run_state (read_entries journal_codec demo_json demo_store demo_id) demo_disk = (Ok [demo_created], demo_disk)"
proof -
  have "entry_name 0 Created \<noteq> RESOURCES_DIR" "entry_name 0 Created \<noteq> SOURCE_BINDING"
    using entry_name_not_reserved [of 0 Created] by (auto simp: reserved_name_def)
  then have "side_files demo_json demo_run_files"
    by (simp add: side_files_def demo_run_files_def RUN_MARKER_def RESOURCES_DIR_def SOURCE_BINDING_def)
  moreover have "lookup (dk_tree demo_disk) (run_path demo_store demo_id) = Some (NDir demo_run_files)"
    by (simp add: demo_disk_def run_path_def demo_store_def)
  ultimately show ?thesis using demo_owned demo_entries by (simp add: read_entries_iff)
qed

lemma demo_recovers:
  "fst (run_state (recover_apply journal_codec demo_json demo_store demo_id) demo_disk) = Ok (quarantined_result demo_id)"
proof -
  have absent: "\<not> node_exists (dk_tree demo_disk) (js_root demo_store @ [RUNS_DIR, quarantine_name demo_id])"
    using quarantine_name_distinct [of demo_id]
    by (simp add: demo_disk_def node_exists_def demo_store_def)
  have found: "lookup (dk_tree demo_disk) (js_root demo_store @ [RUNS_DIR, demo_id]) = Some (NDir demo_run_files)"
    by (simp add: demo_disk_def demo_store_def)
  have marker: "run_marker_bytes journal_codec demo_json (js_root_token demo_store) demo_id = Ok (''m'' @ [CHR 0x0A])"
    by (simp add: run_marker_bytes_def derived_run_token_def token_digest_def canonical_digest_def canonical_json_def
        journal_codec_def demo_json_def with_newline_def demo_marker_def demo_store_def demo_token_def RECEIPT_ID_PREFIX_def)
  have "wp (quarantine_owned_tree (js_root demo_store @ [RUNS_DIR, demo_id])
      (js_root demo_store @ [RUNS_DIR, quarantine_name demo_id]) RUN_MARKER (''m'' @ [CHR 0x0A])) (\<lambda>r _. r = Ok ()) demo_disk"
    using absent found lookup_child [OF found, of RUN_MARKER]
    by (auto simp: quarantine_owned_tree_def validate_owned_tree_def validate_plain_directory_def os_rename_def wp_simps
        demo_run_files_def RUN_MARKER_def QUARANTINE_PREFIX_def butlast_append failures_def demo_disk_def demo_store_def
        intro!: wp_change_disk wp_sync_directory)
  then have "wp (recover_apply journal_codec demo_json demo_store demo_id) (\<lambda>r _. r = Ok (quarantined_result demo_id)) demo_disk"
    unfolding wp_recover_apply_fresh [OF demo_valid(1) absent] wp_def [of "read_entries a b c e" for a b c e] demo_reads
    by (simp add: marker run_path_def) (simp add: demo_created_def next_entry_def classify_def wp_def split: prod.splits)
  then show ?thesis by (simp add: wp_def split: prod.splits)
qed

section \<open>The durable file system\<close>

text \<open>
  C26. Atomic replacement, whichever of its disk operations fail (creating the temporary file, writing any
  of its bytes, syncing, renaming, removing it again), and also when nothing works any more from some point
  on, as after a crash: the target holds either what it held before or the complete new content. Nothing
  else on the disk changes, except that the temporary file stays behind with a prefix of the new content
  when its removal fails too, which takes at least two failures. A reported success means that the new
  content is in place and no temporary file is left; without any failure the replacement of a plain file, or of
  nothing, in a plain directory succeeds.
\<close>

theorem atomic_replace_old_or_new:
  assumes "tree_wf (dk_tree d)" and "p \<noteq> []" and "temporary \<noteq> last p"
    and "lookup (dk_tree d) (butlast p @ [temporary]) = None"
    and "run_state (atomic_replace temporary p bytes) d = (r, d')"
  shows "(dk_tree d' = put p (NFile bytes) (dk_tree d) \<or>
      r \<noteq> Ok () \<and> (dk_tree d' = dk_tree d \<or>
        failures d' + 2 \<le> failures d \<and>
        (\<exists>k\<le>length bytes. dk_tree d' = put (butlast p @ [temporary]) (NFile (take k bytes)) (dk_tree d)))) \<and>
    (failures d = 0 \<and> (\<exists>es. lookup (dk_tree d) (butlast p) = Some (NDir es)) \<and>
     (\<forall>n. lookup (dk_tree d) p = Some n \<longrightarrow> (\<exists>b. n = NFile b)) \<longrightarrow> r = Ok ())"
  using atomic_replace_outcome [OF assms(1-4), of bytes] assms(5) by (simp add: wp_def)

text \<open>A disk that fails for good after two changes: the temporary file is created and gets one byte.\<close>

definition dying_disk :: disk where
  "dying_disk = demo_disk\<lparr>dk_faults := [None, None] @ replicate 3 (Some (IoError StorageFull ''no space''))\<rparr>"

definition dying_replace :: "(durable_fs_error, unit) result \<times> disk" where
  "dying_replace = run_state (atomic_replace ''.tmp'' [''cache'', ''f''] ''new'') dying_disk"

theorem atomic_replace_old_or_new_witness:
  "dk_tree (snd dying_replace) = put [''cache'', ''.tmp''] (NFile ''n'') (dk_tree dying_disk) \<and>
   failures (snd dying_replace) + 2 \<le> failures dying_disk \<and> fst dying_replace \<noteq> Ok ()"
proof -
  have wf: "tree_wf (dk_tree dying_disk)" using demo_wf by (simp add: dying_disk_def)
  have absent: "lookup (dk_tree dying_disk) (butlast [''cache'', ''f''] @ [''.tmp'']) = None" by code_simp
  have new: "dk_tree (snd dying_replace) = put [''cache'', ''.tmp''] (NFile ''n'') (dk_tree dying_disk)" by code_simp
  have "dk_tree (snd dying_replace) \<noteq> put [''cache'', ''f''] (NFile ''new'') (dk_tree dying_disk)"
    "dk_tree (snd dying_replace) \<noteq> dk_tree dying_disk" by code_simp+
  with new atomic_replace_old_or_new [OF wf _ _ absent, of "''new''" "fst dying_replace" "snd dying_replace"]
  show ?thesis by (simp add: dying_replace_def)
qed

section \<open>The run journal\<close>

text \<open>
  The three timestamp checks of the program, the validators of receipts and of journal entries
  and the parser of verification, accept exactly the same texts, so a recorded time is never refused
  by another component.
\<close>

theorem timestamp_validators_agree:
  "(require_timestamp field v = Ok () \<longleftrightarrow> (\<exists>n. parse_utc_seconds v = Some n)) \<and>
   (validate_timestamp v = Ok () \<longleftrightarrow> (\<exists>n. parse_utc_seconds v = Some n))"
  by (simp add: require_timestamp_iff validate_timestamp_iff)

text \<open>
  C27. Every journal that reads back follows the state machine: its states are some of created,
  admitted, prepared, executing, finalizing, from the start and in this order, and then nothing, or
  failed, or cleanup-pending, or cleanup-pending and failed, or sealed after all five; entries are
  numbered from 0, a failure kind is present exactly on failed entries and timestamps are valid.
\<close>

theorem journal_follows_state_machine:
  assumes "run_state (read_entries cx js st run_id) d = (Ok es, d')" and "es \<noteq> []"
  shows "journal_shape (map je_state es) \<and>
    (\<forall>i<length es. je_seq (es ! i) = of_nat i \<and> je_run_id (es ! i) = run_id \<and>
       (je_failure_kind (es ! i) \<noteq> None \<longleftrightarrow> je_state (es ! i) = Failed) \<and>
       parse_utc_seconds (je_at_utc (es ! i)) \<noteq> None)"
proof -
  from assms(1) have l: "legal_journal run_id es" by (auto simp: read_entries_iff entries_of_iff)
  have ts: "is_ok (validate_timestamp v) \<Longrightarrow> parse_utc_seconds v \<noteq> None" for v
    using validate_timestamp_iff [of v] by (cases "validate_timestamp v") (auto simp: is_ok_def)
  have "journal_shape (map je_state es)" using l assms(2) by (intro journal_run_shape) (simp add: legal_journal_def)
  then show ?thesis using l ts by (auto simp: legal_journal_def validate_entry_def split: if_splits)
qed

theorem journal_follows_state_machine_witness:
  "journal_shape [je_state demo_created] \<and> je_seq demo_created = 0 \<and> je_run_id demo_created = demo_id \<and>
   (je_failure_kind demo_created \<noteq> None \<longleftrightarrow> je_state demo_created = Failed) \<and>
   parse_utc_seconds (je_at_utc demo_created) \<noteq> None"
  using journal_follows_state_machine [OF demo_reads] by simp

text \<open>
  C28. A transition on a disk where any operation may fail, or everything from some point on. When it returns
  an entry, the journal reads as the old entries followed by that one. When it returns an error, the
  disk is as it was, or the journal reads with the new entry already, or the file of the new entry
  holds only a part of its text, and then the journal cannot be read any more. No other file changes. The JSON
  library is assumed to read back the entries it wrote and to refuse a text that was cut short.
\<close>

theorem transition_durable:
  assumes "tree_wf (dk_tree d)" and "entry_json_law js"
    and "run_state (read_entries cx js st run_id) d = (Ok es, d)"
    and "run_state (transition cx js st run_id state at_utc failure_kind) d = (r, d')"
    and "e = next_entry run_id es state at_utc failure_kind"
    and "entry = js_root st @ [RUNS_DIR, run_id, entry_name (of_nat (length es)) state]"
  shows "(case r of
      Inr e' \<Rightarrow> e' = e \<and> run_state (read_entries cx js st run_id) d' = (Ok (es @ [e]), d')
    | Inl _ \<Rightarrow>
        dk_tree d' = dk_tree d \<or> run_state (read_entries cx js st run_id) d' = (Ok (es @ [e]), d') \<or>
        (\<exists>bytes k. entry_to_vec js e = Ok bytes \<and> k < length bytes \<and>
           lookup (dk_tree d') entry = Some (NFile (take k bytes)) \<and>
           \<not> is_ok (fst (run_state (read_entries cx js st run_id) d')))) \<and>
    (\<forall>q. entry \<parallel> q \<longrightarrow> lookup (dk_tree d') q = lookup (dk_tree d) q)"
proof -
  have e: "je_run_id e = run_id" "run_path st run_id @ [entry_name (je_seq e) (je_state e)] = entry"
    by (simp_all add: assms(5,6) next_entry_def run_path_def)
  have r: "journal_reads cx js st run_id (dk_tree d) es" using assms(3) by (simp add: journal_reads_iff)
  obtain fs where fs: "lookup (dk_tree d) (run_path st run_id) = Some (NDir fs)" using r by (auto simp: journal_reads_def)
  have at: "lookup (put entry v (dk_tree d)) entry = Some v" for v
    by (rule lookup_put_same [OF assms(1)]) (use fs in \<open>simp_all add: assms(6) run_path_def butlast_append\<close>)
  have blocked: "\<not> is_ok (fst (run_state (read_entries cx js st run_id) d'))"
    if "\<forall>es'. \<not> journal_reads cx js st run_id (dk_tree d') es'"
    using that read_entries_only_reads [of cx js st run_id d'] unfolding journal_reads_iff
    by (auto simp: is_ok_def prod_eq_iff split: sum.splits)
  from transition_outcome [OF assms(1) r assms(2), of state at_utc failure_kind] assms(4)
  have "entry_added cx js st es e (dk_tree d) r (dk_tree d')" by (simp add: wp_def assms(5))
  then show ?thesis
    using at blocked unfolding entry_added_def entry_torn_def e journal_reads_iff
    by (auto split: sum.splits)
qed

text \<open>The transition succeeds, and on a disk that fails for good while the entry is written it tears the journal.\<close>

definition torn_disk :: disk where
  "torn_disk = demo_disk\<lparr>dk_faults := None # replicate 4 (Some (IoError StorageFull ''no space''))\<rparr>"

abbreviation admit :: "disk \<Rightarrow> (run_journal_error, run_journal_entry_v1) result \<times> disk" where
  "admit d \<equiv> run_state (transition journal_codec demo_json demo_store demo_id Admitted demo_time None) d"

lemma demo_allowed: "transition_allowed [demo_created] Admitted None"
  by (simp add: transition_allowed_def demo_created_def next_entry_def legal_transition_def)

lemma torn_reads: "run_state (read_entries journal_codec demo_json demo_store demo_id) torn_disk = (Ok [demo_created], torn_disk)"
  using demo_reads unfolding journal_reads_iff [symmetric] by (simp add: torn_disk_def)

lemma torn_admit:
  "\<not> is_ok (fst (admit torn_disk)) \<and> dk_tree (snd (admit torn_disk)) \<noteq> dk_tree torn_disk \<and>
   \<not> is_ok (fst (run_state (read_entries journal_codec demo_json demo_store demo_id) (snd (admit torn_disk))))"
  by code_simp

theorem transition_durable_witness:
  "run_state (read_entries journal_codec demo_json demo_store demo_id) (snd (admit demo_disk)) =
     (Ok [demo_created, demo_admitted], snd (admit demo_disk)) \<and>
   \<not> is_ok (fst (admit torn_disk)) \<and>
   \<not> is_ok (fst (run_state (read_entries journal_codec demo_json demo_store demo_id) (snd (admit torn_disk))))"
proof -
  have r: "journal_reads journal_codec demo_json demo_store demo_id (dk_tree demo_disk) [demo_created]"
    using demo_reads by (simp add: journal_reads_iff)
  have good: "fst (admit demo_disk) = Ok demo_admitted"
    unfolding demo_admitted_def
    by (rule transition_succeeds [OF demo_wf r _ demo_valid demo_allowed, where bytes = "''1''"])
      (simp_all add: failures_def demo_disk_def demo_json_def demo_admitted_def demo_created_def next_entry_def)
  have torn: "\<not> is_ok (fst (admit torn_disk))" "dk_tree (snd (admit torn_disk)) \<noteq> dk_tree torn_disk"
    "run_state (read_entries journal_codec demo_json demo_store demo_id) (snd (admit torn_disk)) \<noteq>
       (Ok [demo_created, demo_admitted], snd (admit torn_disk))"
    using torn_admit by (auto simp: is_ok_def)
  have wf: "tree_wf (dk_tree torn_disk)" using demo_wf by (simp add: torn_disk_def)
  note durable = transition_durable [OF _ demo_law _ prod.collapse [symmetric] demo_admitted_def refl]
  show ?thesis
    using durable [OF demo_wf demo_reads] durable [OF wf torn_reads] good torn
    by (cases "fst (admit torn_disk)") (auto simp: is_ok_def)
qed

text \<open>
  C29. The journal makes progress: on a disk that reports no failure, a transition is accepted
  exactly when the run id and timestamp are well formed and the state machine allows it (entering
  cleanup-pending directly from created is left to its own operation), and then it succeeds.
\<close>

theorem transition_progress:
  assumes "tree_wf (dk_tree d)" and "run_state (read_entries cx js st run_id) d = (Ok es, d)"
    and "failures d = 0"
    and "entry_to_vec js (next_entry run_id es state at_utc failure_kind) = Ok bytes"
  shows "(\<exists>e. fst (run_state (transition cx js st run_id state at_utc failure_kind) d) = Ok e) \<longleftrightarrow>
    validate_run_id run_id = Ok () \<and> validate_timestamp at_utc = Ok () \<and> transition_allowed es state failure_kind"
proof -
  have r: "journal_reads cx js st run_id (dk_tree d) es" using assms(2) by (simp add: journal_reads_iff)
  show ?thesis
    using transition_succeeds [OF assms(1) r assms(3) _ _ _ assms(4)]
    by (auto simp: transition_reading [OF r] split: if_splits)
qed

theorem transition_progress_witness:
  "(\<exists>e. fst (run_state (transition journal_codec demo_json demo_store demo_id Admitted demo_time None) demo_disk) = Ok e) \<longleftrightarrow>
    validate_run_id demo_id = Ok () \<and> validate_timestamp demo_time = Ok () \<and> transition_allowed [demo_created] Admitted None"
  by (rule transition_progress [OF demo_wf demo_reads, where bytes = "''1''"])
    (auto simp: demo_disk_def demo_json_def demo_admitted_def demo_created_def next_entry_def failures_def)

text \<open>
  C30. Recovery quarantines only owned runs that are not terminal, keeps their files, and is
  idempotent: the tree either stays as it was or the run's directory has moved to its quarantine
  name (the journal read before was not failed or sealed), and no other run is touched; after a success the run
  is quarantined and applying recovery again succeeds and changes nothing.
\<close>

theorem recovery_quarantines_once:
  assumes "tree_wf (dk_tree d)" and "validate_run_id run_id = Ok ()"
    and "run_state (recover_apply cx js st run_id) d = (r, d')"
  shows "(\<forall>x. r = Ok x \<longrightarrow> run_quarantined cx js st run_id (dk_tree d') \<and>
            run_state (recover_apply cx js st run_id) d' = (Ok x, d')) \<and>
    (dk_tree d' = dk_tree d \<or>
     (\<exists>files es. lookup (dk_tree d) (run_path st run_id) = Some (NDir files) \<and>
        run_state (read_entries cx js st run_id) d = (Ok es, d) \<and> es \<noteq> [] \<and>
        classify (je_state (last es)) \<noteq> Terminal \<and>
        lookup (dk_tree d') (js_root st @ [RUNS_DIR, QUARANTINE_PREFIX @ run_id]) = Some (NDir files))) \<and>
    (\<forall>q. js_root st @ [RUNS_DIR, run_id] \<parallel> q \<and> js_root st @ [RUNS_DIR, QUARANTINE_PREFIX @ run_id] \<parallel> q \<longrightarrow>
       lookup (dk_tree d') q = lookup (dk_tree d) q)"
proof -
  note out = recover_apply_outcome [OF assms(1), of cx js st run_id, unfolded wp_def assms(3) prod.case]
  have moved: "lookup (dk_tree d') (runs_dir st @ [quarantine_name run_id]) = Some (NDir files)"
    if "lookup (dk_tree d) (runs_dir st @ [run_id]) = Some (NDir files)"
      "dk_tree d' = moved (runs_dir st) run_id (quarantine_name run_id) (NDir files) (dk_tree d)" for files
    using moved_lookup(2) [OF assms(1) that(1) quarantine_name_distinct] that(2) by simp
  have "\<forall>x. r = Ok x \<longrightarrow> run_quarantined cx js st run_id (dk_tree d') \<and>
      run_state (recover_apply cx js st run_id) d' = (Ok x, d')"
    using out recover_apply_again [OF assms(2), of cx js st d'] by auto
  moreover have "lookup (dk_tree d') q = lookup (dk_tree d) q"
    if "js_root st @ [RUNS_DIR, run_id] \<parallel> q \<and> js_root st @ [RUNS_DIR, QUARANTINE_PREFIX @ run_id] \<parallel> q" for q
    using out that lookup_put_other [OF del_wf [OF assms(1)]] lookup_del_other [OF assms(1)] by auto
  ultimately show ?thesis using out moved by (auto simp: journal_reads_iff run_path_def)
qed

theorem recovery_quarantines_once_witness:
  "run_state (recover_apply journal_codec demo_json demo_store demo_id)
     (snd (run_state (recover_apply journal_codec demo_json demo_store demo_id) demo_disk)) =
   (Ok (quarantined_result demo_id), snd (run_state (recover_apply journal_codec demo_json demo_store demo_id) demo_disk))"
proof -
  have "fst (run_state (recover_apply journal_codec demo_json demo_store demo_id) demo_disk) = Ok (quarantined_result demo_id)"
    by (rule demo_recovers)
  then show ?thesis
    using recovery_quarantines_once [OF demo_wf demo_valid(1) prod.collapse [symmetric], of journal_codec demo_json demo_store]
    by simp
qed

end
