(* ===== verification/Cache_World.thy ===== *)
theory Cache_World
  imports Durable Canonical
begin

text \<open>
  The world the managed cache works on: a disk, the advisory locks that are held, the owners of staged
  generations, the process-wide sequences of temporary names, and the number of disk changes that
  happen before the power is lost (\<^verbatim>\<open>None\<close> in normal operation). Every change of the disk first asks for
  power; once it is lost nothing changes any more. A file is written byte by byte, so that losing
  power may leave any prefix of it. The replacement of a file by the durable file system asks for power
  once; an interruption in its middle is a last unit of power together with a disk whose schedule fails for
  good. The changes made before the interruption are kept, in the order in which they were made:
  \<^verbatim>\<open>sync_all\<close> has no effect here, and a disk that loses or reorders changes that were not synced (the renames
  of a promotion are not followed by a sync of their directory) is outside of the model.
  A path that leads through a file or a link is not found, and a link is not read through.
\<close>

section \<open>Errors and the world\<close>

datatype cache_error =
    CacNoPersistentDefault
  | CacUnsafePath string
  | CacOwnershipMissing path
  | CacInvalidOwnershipMarker path
  | CacSymlinkInManagedRoot path
  | CacUnexpectedEntry path
  | CacPayloadSymlinkUnsupported path
  | CacPayloadSymlinkRead path io_error
  | CacPayloadSymlinkCreate path io_error
  | CacInventoryLimitExceeded
  | CacInvalidBudget
  | CacInvalidDigest
  | CacGenerationMismatch
  | CacLockBusy path
  | CacPromotionUncertain
  | CacSizeOverflow
  | CacCanonical receipt_error
  | CacIo io_error

definition cache_exit_code :: "cache_error \<Rightarrow> int" where
  "cache_exit_code e =
     (case e of
        CacNoPersistentDefault \<Rightarrow> 2 | CacUnsafePath _ \<Rightarrow> 2 | CacInvalidBudget \<Rightarrow> 2 | CacInvalidDigest \<Rightarrow> 2
      | _ \<Rightarrow> 70)"

record prepared_cache_generation_owner =
  go_entry_path :: path
  go_staging_path :: path
  go_key_digest :: string
  go_plan_digest :: string
  go_generation :: u64
  go_phase :: u8

record cache_world =
  cw_disk :: disk
  cw_locks :: "path list"
  cw_owners :: "(path \<times> prepared_cache_generation_owner) list"
  cw_sequence :: u64
  cw_durable_sequence :: u64
  cw_run_lock_sequence :: u64
  cw_pid :: u32
  cw_power :: "nat option"

type_synonym 'a cache = "(cache_world, cache_error, 'a) action"

definition power_lost :: io_error where
  "power_lost = IoError OtherKind ''power lost''"

definition power :: "unit cache" where
  "power = State (\<lambda>w.
     case cw_power w of
       None \<Rightarrow> (Ok (), w)
     | Some 0 \<Rightarrow> (Err (CacIo power_lost), w)
     | Some (Suc n) \<Rightarrow> (Ok (), w\<lparr>cw_power := Some n\<rparr>))"

definition cache_tree :: "(cache_world, node) state" where
  "cache_tree = State (\<lambda>w. (dk_tree (cw_disk w), w))"

definition put_tree :: "node \<Rightarrow> cache_world \<Rightarrow> cache_world" where
  "put_tree t w = w\<lparr>cw_disk := (cw_disk w)\<lparr>dk_tree := t\<rparr>\<rparr>"

definition change_tree :: "(node \<Rightarrow> node) \<Rightarrow> unit cache" where
  "change_tree f = attempt power (\<lambda>_. State (\<lambda>w. (Ok (), put_tree (f (dk_tree (cw_disk w))) w)))"

definition on_disk :: "(durable_fs_error \<Rightarrow> cache_error) \<Rightarrow> 'a durable \<Rightarrow> 'a cache" where
  "on_disk f m = attempt power (\<lambda>_.
     State (\<lambda>w. case run_state m (cw_disk w) of (r, d) \<Rightarrow> (map_err f r, w\<lparr>cw_disk := d\<rparr>)))"

definition of_result :: "('e, 'a) result \<Rightarrow> ('w, 'e, 'a) action" where
  "of_result r = State_Monad.return r"

definition next_sequence :: "(cache_world, u64) state" where
  "next_sequence = State (\<lambda>w. (cw_sequence w, w\<lparr>cw_sequence := cw_sequence w + 1\<rparr>))"

definition next_durable_sequence :: "(cache_world, u64) state" where
  "next_durable_sequence = State (\<lambda>w. (cw_durable_sequence w, w\<lparr>cw_durable_sequence := cw_durable_sequence w + 1\<rparr>))"

definition process_id :: "(cache_world, u32) state" where
  "process_id = State (\<lambda>w. (cw_pid w, w))"

definition show_word :: "'a::len word \<Rightarrow> string" where
  "show_word n = show_nat (unat n)"

definition quoted :: "string \<Rightarrow> string" where
  "quoted s = CHR 0x22 # s @ [CHR 0x22]"

text \<open>A name of a temporary object: the prefix, the process and the number drawn.\<close>

definition temporary_name :: "string \<Rightarrow> (cache_world, string) state" where
  "temporary_name prefix = do {
     sequence \<leftarrow> next_sequence;
     pid \<leftarrow> process_id;
     State_Monad.return (prefix @ show_word pid @ ''-'' @ show_word sequence) }"

section \<open>What the operating system does\<close>

definition fs_metadata :: "path \<Rightarrow> (cache_world, node option) state" where
  "fs_metadata p = do { t \<leftarrow> cache_tree; State_Monad.return (lookup t p) }"

definition fs_exists :: "path \<Rightarrow> (cache_world, bool) state" where
  "fs_exists p = do { t \<leftarrow> cache_tree; State_Monad.return (node_exists t p) }"

definition fs_read :: "path \<Rightarrow> string cache" where
  "fs_read p = do { t \<leftarrow> cache_tree;
     case lookup t p of
       Some (NFile bytes) \<Rightarrow> ok bytes
     | Some (NDir _) \<Rightarrow> fail (CacIo (IoError OtherKind ''Is a directory''))
     | _ \<Rightarrow> fail (CacIo not_found) }"

definition already_exists :: io_error where
  "already_exists = IoError AlreadyExists ''File exists''"

definition fs_create :: "path \<Rightarrow> node \<Rightarrow> unit cache" where
  "fs_create p v = do { t \<leftarrow> cache_tree;
     case lookup t (butlast p) of
       Some (NDir es) \<Rightarrow> if lookup t p \<noteq> None then fail (CacIo already_exists) else change_tree (put p v)
     | _ \<Rightarrow> fail (CacIo not_found) }"

text \<open>Open for writing: an existing file is emptied, a missing one created.\<close>

definition fs_truncate :: "path \<Rightarrow> unit cache" where
  "fs_truncate p = do { t \<leftarrow> cache_tree;
     case lookup t p of
       Some (NFile _) \<Rightarrow> change_tree (put p (NFile []))
     | Some (NDir _) \<Rightarrow> fail (CacIo (IoError OtherKind ''Is a directory''))
     | Some _ \<Rightarrow> fail (CacIo not_found)
     | None \<Rightarrow> fs_create p (NFile []) }"

primrec fs_append :: "path \<Rightarrow> string \<Rightarrow> string \<Rightarrow> unit cache" where
  "fs_append p written [] = ok ()"
| "fs_append p written (b # bytes) =
     attempt (change_tree (put p (NFile (written @ [b])))) (\<lambda>_. fs_append p (written @ [b]) bytes)"

definition fs_write_new :: "path \<Rightarrow> string \<Rightarrow> unit cache" where
  "fs_write_new p bytes = attempt (fs_create p (NFile [])) (\<lambda>_. fs_append p [] bytes)"

definition fs_remove :: "path \<Rightarrow> unit cache" where
  "fs_remove p = change_tree (del p)"

definition fs_rename :: "path \<Rightarrow> path \<Rightarrow> unit cache" where
  "fs_rename p q = do { t \<leftarrow> cache_tree;
     case (lookup t p, lookup t (butlast q)) of
       (Some n, Some (NDir _)) \<Rightarrow>
         if rename_onto n (lookup t q) \<and> take (length p) q \<noteq> p then change_tree (\<lambda>t. put q n (del p t))
         else fail (CacIo (IoError OtherKind ''Invalid argument''))
     | _ \<Rightarrow> fail (CacIo not_found) }"

fun fs_create_dir_all :: "path \<Rightarrow> path \<Rightarrow> unit cache" where
  "fs_create_dir_all p [] = do { m \<leftarrow> fs_metadata p;
     case m of Some (NDir _) \<Rightarrow> ok () | _ \<Rightarrow> fail (CacIo already_exists) }"
| "fs_create_dir_all p (x # q) = do { m \<leftarrow> fs_metadata (p @ [x]);
     case m of
       None \<Rightarrow> attempt (fs_create (p @ [x]) (NDir [])) (\<lambda>_. fs_create_dir_all (p @ [x]) q)
     | Some _ \<Rightarrow> fs_create_dir_all (p @ [x]) q }"

section \<open>Locks\<close>

text \<open>
  An exclusive advisory lock excludes every other open handle, of this process or of another. It is
  given up when its handle is dropped.
\<close>

definition try_lock_exclusive :: "path \<Rightarrow> (cache_world, bool) state" where
  "try_lock_exclusive p = State (\<lambda>w.
     if p \<in> set (cw_locks w) then (False, w) else (True, w\<lparr>cw_locks := p # cw_locks w\<rparr>))"

definition unlock :: "path \<Rightarrow> (cache_world, unit) state" where
  "unlock p = State (\<lambda>w. ((), w\<lparr>cw_locks := remove1 p (cw_locks w)\<rparr>))"

primrec unlock_all :: "path list \<Rightarrow> (cache_world, unit) state" where
  "unlock_all [] = State_Monad.return ()"
| "unlock_all (p # ps) = do { _ \<leftarrow> unlock p; unlock_all ps }"

definition holding :: "path list \<Rightarrow> 'a cache \<Rightarrow> 'a cache" where
  "holding ps m = do { r \<leftarrow> m; _ \<leftarrow> unlock_all ps; State_Monad.return r }"

definition or_unlock :: "path list \<Rightarrow> 'a cache \<Rightarrow> 'a cache" where
  "or_unlock ps m = do { r \<leftarrow> m; if is_ok r then State_Monad.return r else holding ps (State_Monad.return r) }"

end
