(* ===== verification/Cache_Root.thy ===== *)
theory Cache_Root
  imports Cache_World Config_Types "HOL-Library.Sublist"
begin

text \<open>
  The cache root of \<^verbatim>\<open>src/src/cache.rs\<close>: where it may lie, and the names of the objects in it. The
  resolution of links by the operating system, its directory for temporary files and what other
  processes do while this one sleeps are the fields of a host parameter.
\<close>

section \<open>Constants\<close>

definition DEFAULT_DISK_BUDGET_BYTES :: u64 where
  "DEFAULT_DISK_BUDGET_BYTES = 20 * 1024 * 1024 * 1024"

definition OWNER_FILE :: string where "OWNER_FILE = ''.ccp-cache-root-v1.json''"
definition DEFAULT_CACHE_ROOT_NAME :: string where "DEFAULT_CACHE_ROOT_NAME = ''commit-ci-preflight-build-v1''"
definition OWNER_BYTES :: string where
  "OWNER_BYTES =
     ''{'' @ quoted ''owner'' @ '':'' @ quoted ''commit-ci-preflight'' @ '','' @ quoted ''purpose'' @ '':'' @
     quoted ''managed-cache-root'' @ '','' @ quoted ''schema_version'' @ '':'' @ quoted ''1.0'' @ ''}'' @ [CHR 0x0A]"
definition ENTRIES_DIR :: string where "ENTRIES_DIR = ''entries''"
definition WORKSPACES_DIR :: string where "WORKSPACES_DIR = ''workspaces''"
definition COMPLETE_FILE :: string where "COMPLETE_FILE = ''.complete-v1''"
definition COMPLETE_BYTES :: string where "COMPLETE_BYTES = ''complete-v1'' @ [CHR 0x0A]"
definition GENERATION_MANIFEST_FILE :: string where "GENERATION_MANIFEST_FILE = ''.generation-v1.json''"
definition GENERATION_SCHEMA_VERSION :: string where "GENERATION_SCHEMA_VERSION = ''1.0''"
definition ENTRY_LOCK_FILE :: string where "ENTRY_LOCK_FILE = ''.entry-lock-v1''"
definition PROMOTION_LOCK_FILE :: string where "PROMOTION_LOCK_FILE = ''.promotion-lock-v1''"
definition PROMOTION_JOURNAL_FILE :: string where "PROMOTION_JOURNAL_FILE = ''.promotion-journal-v1.json''"
definition PROMOTION_SCHEMA_VERSION :: string where "PROMOTION_SCHEMA_VERSION = ''1.0''"
definition INIT_RETRIES :: nat where "INIT_RETRIES = 40"
definition PREPARED_PHASE_PREPARING :: u8 where "PREPARED_PHASE_PREPARING = 0"
definition PREPARED_PHASE_STAGING :: u8 where "PREPARED_PHASE_STAGING = 1"
definition PREPARED_PHASE_PROMOTED :: u8 where "PREPARED_PHASE_PROMOTED = 2"

section \<open>Path texts\<close>

text \<open>\<^verbatim>\<open>Path::components\<close>: empty parts and inner dots disappear; only a leading dot is kept.\<close>

datatype component = RootDir | CurDir | ParentDir | Normal string

definition components :: "string \<Rightarrow> component list" where
  "components s =
     (let parts = split_on (CHR ''/'') s in
      (if path_is_absolute s then [RootDir] else if hd parts = ''.'' then [CurDir] else []) @
      map (\<lambda>x. if x = ''..'' then ParentDir else Normal x) (filter (\<lambda>x. x \<noteq> [] \<and> x \<noteq> ''.'') parts))"

primrec names_of :: "component list \<Rightarrow> path" where
  "names_of [] = []"
| "names_of (c # cs) = (case c of Normal x \<Rightarrow> x # names_of cs | _ \<Rightarrow> names_of cs)"

definition path_join :: "string \<Rightarrow> string \<Rightarrow> string" where
  "path_join base x = (if base = [] \<or> last base = CHR ''/'' then base @ x else base @ ''/'' @ x)"

section \<open>Resolution\<close>

datatype cache_root_source = RootExplicit | RootEnvironment | RootPlatformDefault

datatype platform_family = MacOs | Windows | Unix

record cache_root_options =
  ro_explicit :: "string option"
  ro_environment :: "string option"
  ro_home :: "string option"
  ro_xdg_cache_home :: "string option"
  ro_local_app_data :: "string option"
  ro_platform :: platform_family

record resolved_cache_root =
  rc_path :: path
  rc_source :: cache_root_source

record cache_host =
  ch_canonicalize :: "node \<Rightarrow> path \<Rightarrow> (io_error, path) result"
  ch_temp_dir :: path
  ch_pause :: "node \<Rightarrow> node"

definition platform_default :: "cache_root_options \<Rightarrow> (cache_error, string) result" where
  "platform_default options =
     (let suffix = DEFAULT_CACHE_ROOT_NAME in
      ok_or CacNoPersistentDefault
        (case ro_platform options of
           MacOs \<Rightarrow> map_option (\<lambda>home. path_join (path_join (path_join home ''Library'') ''Caches'') suffix) (ro_home options)
         | Windows \<Rightarrow> map_option (\<lambda>base. path_join base suffix) (ro_local_app_data options)
         | Unix \<Rightarrow>
             (case ro_xdg_cache_home options of
                Some base \<Rightarrow> Some (path_join base suffix)
              | None \<Rightarrow> map_option (\<lambda>home. path_join (path_join home ''.cache'') suffix) (ro_home options))))"

definition reject_unresolved :: "string \<Rightarrow> (cache_error, unit) result" where
  "reject_unresolved text =
     (if \<not> utf8_valid text then Err (CacUnsafePath ''cache root must be valid UTF-8'')
      else if starts_with ''~'' text \<or> CHR ''$'' \<in> set text \<or>
              (CHR ''%'' \<in> set text \<and> 3 \<le> length (split_on (CHR ''%'') text))
      then Err (CacUnsafePath ''cache root contains an unresolved variable or home shorthand'')
      else Ok ())"

definition reject_lexical_escape :: "string \<Rightarrow> (cache_error, unit) result" where
  "reject_lexical_escape text =
     (if list_ex (\<lambda>c. c = CurDir \<or> c = ParentDir) (components text)
      then Err (CacUnsafePath ''cache root cannot contain dot or parent components'') else Ok ())"

definition is_link :: "node option \<Rightarrow> bool" where
  "is_link m = (case m of Some (NLink _ _) \<Rightarrow> True | _ \<Rightarrow> False)"

fun reject_symlink_components :: "node \<Rightarrow> path \<Rightarrow> path \<Rightarrow> (cache_error, unit) result" where
  "reject_symlink_components t current rest =
     (if is_link (lookup t current) then Err (CacUnsafePath ''cache root cannot traverse a symbolic link'')
      else case rest of [] \<Rightarrow> Ok () | x # rest \<Rightarrow> reject_symlink_components t (current @ [x]) rest)"

text \<open>The recursion walks up: the path is given in reverse.\<close>

primrec canonicalize_existing_prefix ::
    "cache_host \<Rightarrow> node \<Rightarrow> path \<Rightarrow> path \<Rightarrow> (cache_error, path) result" where
  "canonicalize_existing_prefix hs t [] tail =
     (case ch_canonicalize hs t [] of
        Inr c \<Rightarrow> Ok (c @ tail)
      | Inl e \<Rightarrow> if io_kind_of e = NotFound then Err (CacUnsafePath ''cache root has no existing absolute ancestor'')
                 else Err (CacIo e))"
| "canonicalize_existing_prefix hs t (x # up) tail =
     (case ch_canonicalize hs t (rev (x # up)) of
        Inr c \<Rightarrow> Ok (c @ tail)
      | Inl e \<Rightarrow> if io_kind_of e = NotFound then canonicalize_existing_prefix hs t up (x # tail) else Err (CacIo e))"

definition canonical_directory :: "cache_host \<Rightarrow> node \<Rightarrow> path \<Rightarrow> string \<Rightarrow> (cache_error, path) result" where
  "canonical_directory hs t p label =
     and_then (map_err CacIo (ch_canonicalize hs t p)) (\<lambda>c.
       case lookup t c of Some (NDir _) \<Rightarrow> Ok c | _ \<Rightarrow> Err (CacUnsafePath label))"

definition validate_cache_candidate :: "cache_host \<Rightarrow> node \<Rightarrow> string \<Rightarrow> path \<Rightarrow> (cache_error, path) result" where
  "validate_cache_candidate hs t candidate repository =
     and_then (reject_unresolved candidate) (\<lambda>_.
     if \<not> path_is_absolute candidate then Err (CacUnsafePath ''cache root must be an absolute path'')
     else
       and_then (reject_lexical_escape candidate) (\<lambda>_.
       let names = names_of (components candidate) in
       and_then (reject_symlink_components t [] names) (\<lambda>_.
       and_then (canonicalize_existing_prefix hs t (rev names) []) (\<lambda>resolved.
       if resolved = [] then Err (CacUnsafePath ''filesystem root cannot be a cache root'')
       else if resolved = repository \<or> prefix repository resolved
       then Err (CacUnsafePath ''cache root cannot be the repository or one of its descendants'')
       else
         and_then (canonicalize_existing_prefix hs t (rev (ch_temp_dir hs)) []) (\<lambda>temporary.
         if resolved = temporary \<or> prefix temporary resolved
         then Err (CacUnsafePath ''cache root cannot be a temporary directory'')
         else Ok resolved)))))"

definition resolve_cache_root ::
    "cache_host \<Rightarrow> node \<Rightarrow> path \<Rightarrow> cache_root_options \<Rightarrow> (cache_error, resolved_cache_root) result" where
  "resolve_cache_root hs t repository options =
     and_then
       (case ro_explicit options of
          Some p \<Rightarrow> Ok (p, RootExplicit)
        | None \<Rightarrow>
            (case ro_environment options of
               Some p \<Rightarrow> Ok (p, RootEnvironment)
             | None \<Rightarrow> map_result (\<lambda>p. (p, RootPlatformDefault)) (platform_default options)))
       (\<lambda>(candidate, source).
     and_then (canonical_directory hs t repository ''repository'') (\<lambda>repository.
     and_then (validate_cache_candidate hs t candidate repository) (\<lambda>p.
     Ok \<lparr>rc_path = p, rc_source = source\<rparr>)))"

section \<open>Keys and names\<close>

record cache_key =
  ck_digest :: string

definition validated_digest_hex :: "string \<Rightarrow> (cache_error, string) result" where
  "validated_digest_hex digest =
     (case strip_prefix ''sha256:'' digest of
        None \<Rightarrow> Err CacInvalidDigest
      | Some hex \<Rightarrow> if length hex \<noteq> 64 \<or> \<not> list_all is_lower_hex hex then Err CacInvalidDigest else Ok hex)"

definition cache_key_input_to_value :: "string \<Rightarrow> string \<Rightarrow> string \<Rightarrow> string \<Rightarrow> json" where
  "cache_key_input_to_value project plan_digest image_ref cache_id = json_object
     [(''schema_version'', JString ''1.0''), (''project'', JString project),
      (''plan_digest'', JString plan_digest), (''image'', JString image_ref), (''cache_id'', JString cache_id)]"

definition for_plan_cache ::
    "codec \<Rightarrow> execution_plan_envelope_v1 \<Rightarrow> normalized_cache \<Rightarrow> (cache_error, cache_key) result" where
  "for_plan_cache cx envelope cache =
     and_then (map_err CacCanonical (canonical_json cx
       (cache_key_input_to_value (pl_project (pe_plan envelope)) (pe_plan_digest envelope)
          (nr_image (pl_runtime (pe_plan envelope))) (nc_id cache)))) (\<lambda>bytes.
     Ok \<lparr>ck_digest = ''sha256:'' @ encode_hex (sha256 cx bytes)\<rparr>)"

definition directory_name :: "cache_key \<Rightarrow> string" where
  "directory_name key = ''sha256-'' @ drop 7 (ck_digest key)"

definition is_cache_directory_name :: "string \<Rightarrow> bool" where
  "is_cache_directory_name name \<longleftrightarrow>
     (case strip_prefix ''sha256-'' name of
        None \<Rightarrow> False
      | Some rest \<Rightarrow> is_ok (validated_digest_hex (''sha256:'' @ rest)))"

definition root_entry_path :: "resolved_cache_root \<Rightarrow> cache_key \<Rightarrow> path" where
  "root_entry_path r key = rc_path r @ [ENTRIES_DIR, directory_name key]"

definition root_entry_data_path :: "resolved_cache_root \<Rightarrow> cache_key \<Rightarrow> path" where
  "root_entry_data_path r key = root_entry_path r key @ [''data'']"

definition root_workspace_path :: "resolved_cache_root \<Rightarrow> string \<Rightarrow> (cache_error, path) result" where
  "root_workspace_path r plan_digest =
     and_then (validated_digest_hex plan_digest) (\<lambda>digest. Ok (rc_path r @ [WORKSPACES_DIR, ''sha256-'' @ digest]))"

definition validate_owned_name :: "string \<Rightarrow> string \<Rightarrow> (cache_error, unit) result" where
  "validate_owned_name name lead =
     (if length name \<le> length lead \<or> 128 < length name \<or> \<not> starts_with lead name \<or>
         CHR ''/'' \<in> set name \<or> CHR 0x5C \<in> set name \<or>
         \<not> list_all (\<lambda>c. is_ascii_alphanumeric (byte_val c) \<or> c = CHR ''.'' \<or> c = CHR ''-'') name
      then Err CacGenerationMismatch else Ok ())"

end
