(* ===== verification/Cache_Payload.thy ===== *)
theory Cache_Payload
  imports Cache_World
begin

text \<open>
  The payload trees of \<^verbatim>\<open>src/src/cache_payload.rs\<close> on Unix: measuring, validating and copying a tree without
  following its links.
\<close>

section \<open>Payload trees\<close>

datatype payload_link_policy = Preserve | Reject

definition payload_link_policy_current :: payload_link_policy where
  "payload_link_policy_current = Preserve"

record payload_tree_stats =
  pt_bytes :: u64
  pt_files :: u64

definition MAX_INVENTORY_NODES :: nat where "MAX_INVENTORY_NODES = 100000"

definition measure_symlink :: "payload_link_policy \<Rightarrow> path \<Rightarrow> string \<Rightarrow> (cache_error, payload_tree_stats) result" where
  "measure_symlink policy p target =
     (if policy = Reject then Err (CacPayloadSymlinkUnsupported p)
      else Ok \<lparr>pt_bytes = of_nat (length target), pt_files = 1\<rparr>)"

text \<open>The walk also returns the number of nodes seen so far.\<close>

fun walk_payload_with_policy ::
    "payload_link_policy \<Rightarrow> nat \<Rightarrow> path \<Rightarrow> node \<Rightarrow> nat \<Rightarrow> (cache_error, payload_tree_stats \<times> nat) result"
  and walk_payload_entries ::
    "payload_link_policy \<Rightarrow> nat \<Rightarrow> path \<Rightarrow> (string \<times> node) list \<Rightarrow> payload_tree_stats \<Rightarrow> nat \<Rightarrow>
       (cache_error, payload_tree_stats \<times> nat) result" where
  "walk_payload_with_policy policy limit p n nodes =
     (if nodes + 1 > limit then Err CacInventoryLimitExceeded
      else case n of
        NLink target _ \<Rightarrow> map_result (\<lambda>s. (s, nodes + 1)) (measure_symlink policy p target)
      | NFile bytes \<Rightarrow> Ok (\<lparr>pt_bytes = of_nat (length bytes), pt_files = 1\<rparr>, nodes + 1)
      | NOther \<Rightarrow> Err (CacUnexpectedEntry p)
      | NDir es \<Rightarrow> walk_payload_entries policy limit p es \<lparr>pt_bytes = 0, pt_files = 0\<rparr> (nodes + 1))"
| "walk_payload_entries policy limit p [] stats nodes = Ok (stats, nodes)"
| "walk_payload_entries policy limit p ((x, n) # es) stats nodes =
     and_then (walk_payload_with_policy policy limit (p @ [x]) n nodes) (\<lambda>(child, nodes).
     and_then (ok_or CacSizeOverflow (checked_add (pt_bytes stats) (pt_bytes child))) (\<lambda>bytes.
     and_then (ok_or CacSizeOverflow (checked_add (pt_files stats) (pt_files child))) (\<lambda>files.
     walk_payload_entries policy limit p es \<lparr>pt_bytes = bytes, pt_files = files\<rparr> nodes)))"

definition measure_payload_tree_with_policy ::
    "payload_link_policy \<Rightarrow> path \<Rightarrow> nat \<Rightarrow> nat \<Rightarrow> (payload_tree_stats \<times> nat) cache" where
  "measure_payload_tree_with_policy policy root nodes node_limit = do {
     m \<leftarrow> fs_metadata root;
     case m of
       None \<Rightarrow> fail (CacIo not_found)
     | Some (NLink _ _) \<Rightarrow> fail (CacSymlinkInManagedRoot root)
     | Some (NDir es) \<Rightarrow> State_Monad.return (walk_payload_with_policy policy node_limit root (NDir es) nodes)
     | Some _ \<Rightarrow> fail (CacUnexpectedEntry root) }"

definition measure_payload_tree :: "path \<Rightarrow> nat \<Rightarrow> nat \<Rightarrow> (payload_tree_stats \<times> nat) cache" where
  "measure_payload_tree = measure_payload_tree_with_policy payload_link_policy_current"

definition validate_payload_tree_with_policy :: "payload_link_policy \<Rightarrow> path \<Rightarrow> nat \<Rightarrow> nat \<Rightarrow> unit cache" where
  "validate_payload_tree_with_policy policy root nodes node_limit =
     attempt (measure_payload_tree_with_policy policy root nodes node_limit) (\<lambda>_. ok ())"

definition validate_payload_tree :: "path \<Rightarrow> nat \<Rightarrow> nat \<Rightarrow> unit cache" where
  "validate_payload_tree root nodes node_limit = attempt (measure_payload_tree root nodes node_limit) (\<lambda>_. ok ())"

definition recreate_payload_link :: "payload_link_policy \<Rightarrow> path \<Rightarrow> path \<Rightarrow> string \<Rightarrow> bool \<Rightarrow> unit cache" where
  "recreate_payload_link policy source destination target resolves =
     (if policy = Reject then fail (CacPayloadSymlinkUnsupported source)
      else do {
        m \<leftarrow> fs_metadata destination;
        if m \<noteq> None then fail (CacUnexpectedEntry destination)
        else do {
          r \<leftarrow> fs_create destination (NLink target resolves);
          State_Monad.return (map_err (\<lambda>e. case e of CacIo x \<Rightarrow> CacPayloadSymlinkCreate destination x | _ \<Rightarrow> e) r) } })"

text \<open>Copying reads the source node by node; the destination lies outside of it.\<close>

fun copy_payload_node :: "payload_link_policy \<Rightarrow> nat \<Rightarrow> path \<Rightarrow> path \<Rightarrow> node \<Rightarrow> nat \<Rightarrow> nat cache"
  and copy_payload_entries :: "payload_link_policy \<Rightarrow> nat \<Rightarrow> path \<Rightarrow> path \<Rightarrow> (string \<times> node) list \<Rightarrow> nat \<Rightarrow> nat cache" where
  "copy_payload_node policy limit source destination n nodes =
     (if nodes + 1 > limit then fail CacInventoryLimitExceeded
      else case n of
        NLink target resolves \<Rightarrow>
          attempt (recreate_payload_link policy source destination target resolves) (\<lambda>_. ok (nodes + 1))
      | NFile bytes \<Rightarrow>
          attempt (fs_truncate destination) (\<lambda>_.
          attempt (fs_append destination [] bytes) (\<lambda>_. ok (nodes + 1)))
      | NOther \<Rightarrow> fail (CacUnexpectedEntry source)
      | NDir es \<Rightarrow>
          attempt (fs_create destination (NDir [])) (\<lambda>_.
          copy_payload_entries policy limit source destination es (nodes + 1)))"
| "copy_payload_entries policy limit source destination [] nodes = ok nodes"
| "copy_payload_entries policy limit source destination ((x, n) # es) nodes =
     attempt (copy_payload_node policy limit (source @ [x]) (destination @ [x]) n nodes) (\<lambda>nodes.
     copy_payload_entries policy limit source destination es nodes)"

definition copy_payload_tree_with_policy :: "payload_link_policy \<Rightarrow> path \<Rightarrow> path \<Rightarrow> nat \<Rightarrow> nat \<Rightarrow> nat cache" where
  "copy_payload_tree_with_policy policy source destination nodes node_limit = do {
     m \<leftarrow> fs_metadata source;
     case m of
       None \<Rightarrow> fail (CacIo not_found)
     | Some (NLink _ _) \<Rightarrow> fail (CacSymlinkInManagedRoot source)
     | Some (NDir es) \<Rightarrow> do {
         d \<leftarrow> fs_metadata destination;
         if d \<noteq> None then fail (CacUnexpectedEntry destination)
         else copy_payload_node policy node_limit source destination (NDir es) nodes }
     | Some _ \<Rightarrow> fail (CacUnexpectedEntry source) }"

end
