(* ===== verification/Cache.thy ===== *)
theory Cache
  imports Cache_Root Cache_Payload
begin

text \<open>
  The managed cache of \<^verbatim>\<open>src/src/cache.rs\<close>: ownership, locks, staged generations, their journalled promotion
  and its recovery, pins, inventory and the clean-up plan. JSON documents are read by \<^verbatim>\<open>serde_json\<close>, a
  parameter; they are written canonically.
\<close>

section \<open>Documents\<close>

record cache_generation_manifest_v1 =
  gm_schema_version :: string
  gm_key_digest :: string
  gm_plan_digest :: string
  gm_generation :: u64
  gm_state :: string

record cache_promotion_journal_entry_v1 =
  ce_key_digest :: string
  ce_plan_digest :: string
  ce_generation :: u64
  ce_staging_name :: string
  ce_backup_name :: string
  ce_had_current :: bool
  ce_previous_marker :: "string option"
  ce_previous_manifest :: "string option"

record cache_promotion_journal_v1 =
  cj_schema_version :: string
  cj_operation_id :: string
  cj_state :: string
  cj_entries :: "cache_promotion_journal_entry_v1 list"

definition manifest_to_value :: "cache_generation_manifest_v1 \<Rightarrow> json" where
  "manifest_to_value m = json_object
     [(''schema_version'', JString (gm_schema_version m)), (''key_digest'', JString (gm_key_digest m)),
      (''plan_digest'', JString (gm_plan_digest m)), (''generation'', json_u64 (gm_generation m)),
      (''state'', JString (gm_state m))]"

definition bytes_to_value :: "string \<Rightarrow> json" where
  "bytes_to_value bytes = JArray (map (\<lambda>b. json_u64 (of_nat (byte_val b))) bytes)"

definition promotion_entry_to_value :: "cache_promotion_journal_entry_v1 \<Rightarrow> json" where
  "promotion_entry_to_value e = json_object
     [(''key_digest'', JString (ce_key_digest e)), (''plan_digest'', JString (ce_plan_digest e)),
      (''generation'', json_u64 (ce_generation e)), (''staging_name'', JString (ce_staging_name e)),
      (''backup_name'', JString (ce_backup_name e)), (''had_current'', JBool (ce_had_current e)),
      (''previous_marker'', json_option bytes_to_value (ce_previous_marker e)),
      (''previous_manifest'', json_option bytes_to_value (ce_previous_manifest e))]"

definition promotion_to_value :: "cache_promotion_journal_v1 \<Rightarrow> json" where
  "promotion_to_value j = json_object
     [(''schema_version'', JString (cj_schema_version j)), (''operation_id'', JString (cj_operation_id j)),
      (''state'', JString (cj_state j)), (''entries'', JArray (map promotion_entry_to_value (cj_entries j)))]"

record cache_json =
  manifest_from_slice :: "string \<Rightarrow> (string, cache_generation_manifest_v1) result"
  promotion_from_slice :: "string \<Rightarrow> (string, cache_promotion_journal_v1) result"

definition invalid_data :: "string \<Rightarrow> cache_error" where
  "invalid_data message = CacIo (IoError InvalidData message)"

record managed_cache =
  mc_root :: resolved_cache_root
  mc_disk_budget_bytes :: u64

definition with_disk_budget :: "managed_cache \<Rightarrow> u64 \<Rightarrow> (cache_error, managed_cache) result" where
  "with_disk_budget cache bytes =
     (if bytes = 0 then Err CacInvalidBudget else Ok (cache\<lparr>mc_disk_budget_bytes := bytes\<rparr>))"

definition entry_path :: "managed_cache \<Rightarrow> cache_key \<Rightarrow> path" where
  "entry_path cache key = root_entry_path (mc_root cache) key"

abbreviation root_path :: "managed_cache \<Rightarrow> path" where
  "root_path cache \<equiv> rc_path (mc_root cache)"

section \<open>Plain objects\<close>

definition cache_plain_directory :: "path \<Rightarrow> unit cache" where
  "cache_plain_directory p = do { m \<leftarrow> fs_metadata p;
     case m of
       Some (NLink _ _) \<Rightarrow> fail (CacSymlinkInManagedRoot p)
     | Some (NDir _) \<Rightarrow> ok ()
     | Some _ \<Rightarrow> fail (CacUnexpectedEntry p)
     | None \<Rightarrow> fail (CacIo not_found) }"

definition ensure_managed_directory :: "path \<Rightarrow> unit cache" where
  "ensure_managed_directory p = do { r \<leftarrow> fs_create p (NDir []);
     case r of
       Inr _ \<Rightarrow> cache_plain_directory p
     | Inl (CacIo e) \<Rightarrow> if io_kind_of e = AlreadyExists then cache_plain_directory p else fail (CacIo e)
     | Inl e \<Rightarrow> fail e }"

definition read_optional_file :: "path \<Rightarrow> string option cache" where
  "read_optional_file p = do { m \<leftarrow> fs_metadata p;
     case m of
       Some (NLink _ _) \<Rightarrow> fail (CacSymlinkInManagedRoot p)
     | Some (NFile _) \<Rightarrow> attempt (fs_read p) (\<lambda>bytes. ok (Some bytes))
     | Some _ \<Rightarrow> fail (CacUnexpectedEntry p)
     | None \<Rightarrow> ok None }"

definition cache_remove_if_present :: "path \<Rightarrow> unit cache" where
  "cache_remove_if_present p = do { m \<leftarrow> fs_metadata p;
     case m of
       Some (NLink _ _) \<Rightarrow> fail (CacSymlinkInManagedRoot p)
     | Some (NDir _) \<Rightarrow> fs_remove p
     | Some (NFile _) \<Rightarrow> fs_remove p
     | Some _ \<Rightarrow> fail (CacUnexpectedEntry p)
     | None \<Rightarrow> ok () }"

definition remove_owned_generation_directory :: "path \<Rightarrow> unit cache" where
  "remove_owned_generation_directory p = do { m \<leftarrow> fs_metadata p;
     case m of
       Some (NLink _ _) \<Rightarrow> fail (CacSymlinkInManagedRoot p)
     | Some (NDir _) \<Rightarrow> fs_remove p
     | Some _ \<Rightarrow> fail (CacUnexpectedEntry p)
     | None \<Rightarrow> fail (CacIo not_found) }"

definition sorted_directory_entries :: "path \<Rightarrow> (string \<times> node) list cache" where
  "sorted_directory_entries p = do { m \<leftarrow> fs_metadata p;
     case m of Some (NDir es) \<Rightarrow> ok es | _ \<Rightarrow> fail (CacIo not_found) }"

section \<open>Ownership\<close>

definition validate_owner_marker :: "path \<Rightarrow> unit cache" where
  "validate_owner_marker marker = do { m \<leftarrow> fs_metadata marker;
     case m of
       Some (NLink _ _) \<Rightarrow> fail (CacSymlinkInManagedRoot marker)
     | Some (NFile bytes) \<Rightarrow>
         if take (length OWNER_BYTES + 1) bytes \<noteq> OWNER_BYTES then fail (CacInvalidOwnershipMarker marker) else ok ()
     | Some _ \<Rightarrow> fail (CacInvalidOwnershipMarker marker)
     | None \<Rightarrow> fail (CacOwnershipMissing (butlast marker)) }"

definition pause :: "cache_host \<Rightarrow> (cache_world, unit) state" where
  "pause hs = State (\<lambda>w. ((), put_tree (ch_pause hs (dk_tree (cw_disk w))) w))"

definition is_owner_temporary :: "string \<times> node \<Rightarrow> bool" where
  "is_owner_temporary e \<longleftrightarrow> starts_with ''.owner-tmp-'' (fst e)"

primrec wait_for_concurrent_initializer :: "cache_host \<Rightarrow> path \<Rightarrow> path \<Rightarrow> nat \<Rightarrow> unit cache" where
  "wait_for_concurrent_initializer hs root marker 0 = ok ()"
| "wait_for_concurrent_initializer hs root marker (Suc retries) = do {
     present \<leftarrow> fs_exists marker;
     if present then ok ()
     else
       attempt (sorted_directory_entries root) (\<lambda>entries.
       if entries = [] then ok ()
       else if list_all is_owner_temporary entries
       then do { _ \<leftarrow> pause hs; wait_for_concurrent_initializer hs root marker retries }
       else ok ()) }"

text \<open>The last of the bounded attempts returns whatever it found.\<close>

fun validate_owner_marker_after_initialization :: "cache_host \<Rightarrow> path \<Rightarrow> nat \<Rightarrow> unit cache" where
  "validate_owner_marker_after_initialization hs marker retries = do {
     r \<leftarrow> validate_owner_marker marker;
     case (r, retries) of
       (Inl (CacOwnershipMissing _), Suc (Suc n)) \<Rightarrow>
         do { _ \<leftarrow> pause hs; validate_owner_marker_after_initialization hs marker (Suc n) }
     | _ \<Rightarrow> State_Monad.return r }"

definition ensure_unowned_root_is_empty :: "path \<Rightarrow> unit cache" where
  "ensure_unowned_root_is_empty root =
     attempt (sorted_directory_entries root) (\<lambda>entries.
     if list_ex (\<lambda>e. \<not> is_owner_temporary e) entries then fail (CacOwnershipMissing root) else ok ())"

text \<open>A temporary file left behind is removed, whatever came of it.\<close>

definition discard_temporary :: "path \<Rightarrow> (cache_world, unit) state" where
  "discard_temporary temporary = do {
     left \<leftarrow> fs_exists temporary;
     if left then do { _ \<leftarrow> fs_remove temporary; State_Monad.return () } else State_Monad.return () }"

definition write_owner_marker :: "path \<Rightarrow> path \<Rightarrow> unit cache" where
  "write_owner_marker root marker = do {
     name \<leftarrow> temporary_name ''.owner-tmp-'';
     let temporary = root @ [name];
     r \<leftarrow> attempt (fs_write_new temporary OWNER_BYTES) (\<lambda>_. do {
       renamed \<leftarrow> fs_rename temporary marker;
       present \<leftarrow> fs_exists marker;
       if is_ok renamed then ok ()
       else if present then validate_owner_marker marker
       else State_Monad.return renamed });
     _ \<leftarrow> discard_temporary temporary;
     State_Monad.return r }"

section \<open>Opening\<close>

definition cache_initialize :: "cache_host \<Rightarrow> resolved_cache_root \<Rightarrow> managed_cache cache" where
  "cache_initialize hs root =
     (let marker = rc_path root @ [OWNER_FILE] in
      attempt (fs_create_dir_all [] (rc_path root)) (\<lambda>_. do {
      t \<leftarrow> cache_tree;
      attempt (of_result (reject_symlink_components t [] (rc_path root))) (\<lambda>_. do {
      present \<leftarrow> fs_exists marker;
      attempt
        (if present then validate_owner_marker marker
         else
           attempt (wait_for_concurrent_initializer hs (rc_path root) marker INIT_RETRIES) (\<lambda>_. do {
           present \<leftarrow> fs_exists marker;
           attempt
             (if \<not> present
              then attempt (ensure_unowned_root_is_empty (rc_path root)) (\<lambda>_. write_owner_marker (rc_path root) marker)
              else ok ())
             (\<lambda>_. validate_owner_marker_after_initialization hs marker INIT_RETRIES) }))
        (\<lambda>_.
      attempt (ensure_managed_directory (rc_path root @ [ENTRIES_DIR])) (\<lambda>_.
      attempt (ensure_managed_directory (rc_path root @ [WORKSPACES_DIR])) (\<lambda>_.
      ok \<lparr>mc_root = root, mc_disk_budget_bytes = DEFAULT_DISK_BUDGET_BYTES\<rparr>))) }) }))"

definition cache_open :: "resolved_cache_root \<Rightarrow> managed_cache cache" where
  "cache_open root = do {
     t \<leftarrow> cache_tree;
     attempt (of_result (reject_symlink_components t [] (rc_path root))) (\<lambda>_.
     attempt (validate_owner_marker (rc_path root @ [OWNER_FILE])) (\<lambda>_.
     attempt (cache_plain_directory (rc_path root @ [ENTRIES_DIR])) (\<lambda>_.
     attempt (cache_plain_directory (rc_path root @ [WORKSPACES_DIR])) (\<lambda>_.
     ok \<lparr>mc_root = root, mc_disk_budget_bytes = DEFAULT_DISK_BUDGET_BYTES\<rparr>)))) }"

end
