(* ===== verification/Cache_Generation.thy ===== *)
theory Cache_Generation
  imports Cache
begin

text \<open>
  Generations of a cache entry in \<^verbatim>\<open>src/src/cache.rs\<close>: locks, manifests and markers, staging a generation,
  its journalled promotion, and the recovery of an interrupted promotion.
\<close>

section \<open>Locks\<close>

definition lock_owner_text :: "string \<Rightarrow> u32 \<Rightarrow> string" where
  "lock_owner_text label pid =
     ''{'' @ quoted ''schema_version'' @ '':'' @ quoted ''1.0'' @ '','' @ quoted ''owner'' @ '':'' @
     quoted ''commit-ci-preflight'' @ '','' @ quoted ''purpose'' @ '':'' @ quoted label @ '','' @ quoted ''pid'' @
     '':'' @ show_word pid @ ''}'' @ [CHR 0x0A]"

definition acquire_advisory_lock_with_mode :: "path \<Rightarrow> string \<Rightarrow> bool \<Rightarrow> bool \<Rightarrow> path cache" where
  "acquire_advisory_lock_with_mode p label create write_owner = do { m \<leftarrow> fs_metadata p;
     attempt
       (case m of
          Some (NLink _ _) \<Rightarrow> fail (CacSymlinkInManagedRoot p)
        | Some (NFile _) \<Rightarrow> ok ()
        | Some _ \<Rightarrow> fail (CacUnexpectedEntry p)
        | None \<Rightarrow> if create then fs_create p (NFile []) else fail (CacIo not_found))
       (\<lambda>_. do {
     locked \<leftarrow> try_lock_exclusive p;
     if \<not> locked then fail (CacLockBusy p)
     else or_unlock [p]
       (if write_owner
        then do {
          pid \<leftarrow> process_id;
          attempt (fs_truncate p) (\<lambda>_.
          attempt (fs_append p [] (lock_owner_text label pid)) (\<lambda>_. ok p)) }
        else ok p) }) }"

definition acquire_entry_lock :: "path \<Rightarrow> path cache" where
  "acquire_entry_lock entry = acquire_advisory_lock_with_mode (entry @ [ENTRY_LOCK_FILE]) ''cache entry'' True True"

definition acquire_existing_entry_lock :: "path \<Rightarrow> path cache" where
  "acquire_existing_entry_lock entry =
     acquire_advisory_lock_with_mode (entry @ [ENTRY_LOCK_FILE]) ''cache entry'' False True"

definition acquire_existing_entry_lock_readonly :: "path \<Rightarrow> path cache" where
  "acquire_existing_entry_lock_readonly entry =
     acquire_advisory_lock_with_mode (entry @ [ENTRY_LOCK_FILE]) ''cache entry'' False False"

definition acquire_promotion_lock :: "path \<Rightarrow> path cache" where
  "acquire_promotion_lock root =
     acquire_advisory_lock_with_mode (root @ [PROMOTION_LOCK_FILE]) ''cache promotion'' True True"

section \<open>Manifests and markers\<close>

definition read_generation_manifest :: "cache_json \<Rightarrow> path \<Rightarrow> cache_generation_manifest_v1 cache" where
  "read_generation_manifest cj p =
     attempt (fs_read p) (\<lambda>bytes. of_result (map_err invalid_data (manifest_from_slice cj bytes)))"

definition write_generation_manifest :: "codec \<Rightarrow> path \<Rightarrow> cache_generation_manifest_v1 \<Rightarrow> unit cache" where
  "write_generation_manifest cx staging_path manifest =
     attempt (of_result (map_err CacCanonical (canonical_json cx (manifest_to_value manifest)))) (\<lambda>bytes.
     fs_write_new (staging_path @ [GENERATION_MANIFEST_FILE]) (bytes @ [CHR 0x0A]))"

fun map_durable_manifest_error :: "durable_fs_error \<Rightarrow> cache_error" where
  "map_durable_manifest_error (DurIo e) = CacIo e"
| "map_durable_manifest_error _ = CacPromotionUncertain"

definition write_generation_manifest_replacing :: "codec \<Rightarrow> path \<Rightarrow> cache_generation_manifest_v1 \<Rightarrow> unit cache" where
  "write_generation_manifest_replacing cx p manifest =
     attempt (of_result (map_err CacCanonical (canonical_json cx (manifest_to_value manifest)))) (\<lambda>bytes. do {
     sequence \<leftarrow> next_durable_sequence;
     pid \<leftarrow> process_id;
     on_disk map_durable_manifest_error
       (atomic_replace (''.ccp-durable-tmp-'' @ show_word pid @ ''-'' @ show_word sequence) p (bytes @ [CHR 0x0A])) })"

definition write_complete_marker :: "path \<Rightarrow> unit cache" where
  "write_complete_marker p = fs_write_new p COMPLETE_BYTES"

definition restore_optional_file :: "path \<Rightarrow> string option \<Rightarrow> unit cache" where
  "restore_optional_file p bytes =
     attempt (cache_remove_if_present p) (\<lambda>_.
     case bytes of None \<Rightarrow> ok () | Some bytes \<Rightarrow> fs_write_new p bytes)"

datatype cache_entry_status = Complete | Incomplete

definition entry_status :: "cache_json \<Rightarrow> path \<Rightarrow> string \<Rightarrow> cache_entry_status cache" where
  "entry_status cj p name =
     (let marker = p @ [COMPLETE_FILE] in
      if starts_with ''.entry-tmp-'' name then ok Incomplete
      else do { m \<leftarrow> fs_metadata marker;
        case m of
          Some (NLink _ _) \<Rightarrow> fail (CacSymlinkInManagedRoot marker)
        | Some (NFile _) \<Rightarrow>
            attempt (fs_read marker) (\<lambda>bytes.
            if bytes = COMPLETE_BYTES
            then
              attempt (read_optional_file (p @ [GENERATION_MANIFEST_FILE])) (\<lambda>manifest.
              case manifest of
                None \<Rightarrow> ok Complete
              | Some manifest_bytes \<Rightarrow>
                  attempt (of_result (map_err invalid_data (manifest_from_slice cj manifest_bytes))) (\<lambda>parsed.
                  if gm_state parsed \<noteq> ''complete'' then fail CacGenerationMismatch else ok Complete))
            else fail (CacUnexpectedEntry marker))
        | Some _ \<Rightarrow> fail (CacUnexpectedEntry marker)
        | None \<Rightarrow> ok Incomplete })"

section \<open>Staging a generation\<close>

record prepared_cache_entry =
  pc_path :: path
  pc_data_path :: path
  pc_staging_path :: path
  pc_key_digest :: string
  pc_plan_digest :: string
  pc_generation :: u64
  pc_was_complete :: bool

definition set_phase :: "path \<Rightarrow> u8 \<Rightarrow> (cache_world, unit) state" where
  "set_phase staging phase = State (\<lambda>w.
     ((), w\<lparr>cw_owners := map (\<lambda>(p, g). if p = staging then (p, g\<lparr>go_phase := phase\<rparr>) else (p, g)) (cw_owners w)\<rparr>))"

definition own_generation :: "prepared_cache_generation_owner \<Rightarrow> (cache_world, unit) state" where
  "own_generation g = State (\<lambda>w. ((), w\<lparr>cw_owners := (go_staging_path g, g) # cw_owners w\<rparr>))"

definition disown_generation :: "path \<Rightarrow> (cache_world, unit) state" where
  "disown_generation staging = State (\<lambda>w. ((), w\<lparr>cw_owners := filter (\<lambda>e. fst e \<noteq> staging) (cw_owners w)\<rparr>))"

definition owner_of :: "path \<Rightarrow> (cache_world, prepared_cache_generation_owner option) state" where
  "owner_of staging = State (\<lambda>w. (map_of (cw_owners w) staging, w))"

definition validate_owned_staging_root :: "path \<Rightarrow> path \<Rightarrow> unit cache" where
  "validate_owned_staging_root entry staging =
     (if staging = [] \<or> butlast staging \<noteq> entry then fail CacGenerationMismatch
      else
        attempt (of_result (validate_owned_name (last staging) ''.staging-'')) (\<lambda>_.
        cache_plain_directory staging))"

definition owner_matches :: "prepared_cache_generation_owner \<Rightarrow> cache_generation_manifest_v1 \<Rightarrow> bool" where
  "owner_matches g m \<longleftrightarrow>
     gm_schema_version m = GENERATION_SCHEMA_VERSION \<and> gm_key_digest m = go_key_digest g \<and>
     gm_plan_digest m = go_plan_digest g \<and> gm_generation m = go_generation g \<and> gm_state m = ''staging''"

text \<open>What dropping the last handle of a prepared entry does.\<close>

definition drop_owner :: "cache_json \<Rightarrow> prepared_cache_generation_owner \<Rightarrow> unit cache" where
  "drop_owner cj g =
     (if go_phase g = PREPARED_PHASE_PROMOTED then ok ()
      else if go_phase g \<noteq> PREPARED_PHASE_PREPARING \<and> go_phase g \<noteq> PREPARED_PHASE_STAGING then ok ()
      else
        attempt (validate_owned_staging_root (go_entry_path g) (go_staging_path g)) (\<lambda>_.
        attempt
          (if go_phase g = PREPARED_PHASE_STAGING
           then
             attempt (read_generation_manifest cj (go_staging_path g @ [GENERATION_MANIFEST_FILE])) (\<lambda>m.
             if owner_matches g m then ok () else fail CacGenerationMismatch)
           else ok ())
          (\<lambda>_. remove_owned_generation_directory (go_staging_path g))))"

definition drop_prepared :: "cache_json \<Rightarrow> path \<Rightarrow> (cache_world, unit) state" where
  "drop_prepared cj staging = do {
     g \<leftarrow> owner_of staging;
     case g of
       None \<Rightarrow> State_Monad.return ()
     | Some g \<Rightarrow> do {
         _ \<leftarrow> drop_owner cj g;
         _ \<leftarrow> disown_generation staging;
         unlock (go_entry_path g @ [ENTRY_LOCK_FILE]) } }"

definition or_drop :: "cache_json \<Rightarrow> path \<Rightarrow> 'a cache \<Rightarrow> 'a cache" where
  "or_drop cj staging m = do {
     r \<leftarrow> m;
     if is_ok r then State_Monad.return r else do { _ \<leftarrow> drop_prepared cj staging; State_Monad.return r } }"

text \<open>Without the clone call of macOS the tree is validated and left to the copy.\<close>

definition try_clone_tree :: "payload_link_policy \<Rightarrow> path \<Rightarrow> path \<Rightarrow> bool cache" where
  "try_clone_tree policy source destination =
     attempt (validate_payload_tree_with_policy policy source 0 MAX_INVENTORY_NODES) (\<lambda>_. ok False)"

definition fill_staging ::
    "codec \<Rightarrow> payload_link_policy \<Rightarrow> cache_key \<Rightarrow> string \<Rightarrow> u64 \<Rightarrow> path \<Rightarrow> path \<Rightarrow> bool \<Rightarrow> unit cache" where
  "fill_staging cx policy key plan_digest generation p staging_path complete =
     (let data_path = staging_path @ [''data'']; source = p @ [''data''] in
      attempt (ensure_managed_directory data_path) (\<lambda>_.
      attempt
        (if complete
         then
           attempt (cache_remove_if_present data_path) (\<lambda>_.
           attempt (try_clone_tree policy source data_path) (\<lambda>cloned.
           if \<not> cloned
           then attempt (copy_payload_tree_with_policy policy source data_path 0 MAX_INVENTORY_NODES) (\<lambda>_. ok ())
           else ok ()))
         else ok ())
        (\<lambda>_.
      write_generation_manifest cx staging_path
        \<lparr>gm_schema_version = GENERATION_SCHEMA_VERSION, gm_key_digest = ck_digest key,
         gm_plan_digest = plan_digest, gm_generation = generation, gm_state = ''staging''\<rparr>)))"

definition prepare_entry_with_payload_link_policy ::
    "codec \<Rightarrow> cache_json \<Rightarrow> payload_link_policy \<Rightarrow> managed_cache \<Rightarrow> cache_key \<Rightarrow> string \<Rightarrow> u64 \<Rightarrow>
       prepared_cache_entry cache" where
  "prepare_entry_with_payload_link_policy cx cj policy cache key plan_digest generation =
     (let p = entry_path cache key in
      attempt (validate_owner_marker (root_path cache @ [OWNER_FILE])) (\<lambda>_.
      attempt (cache_plain_directory (root_path cache @ [ENTRIES_DIR])) (\<lambda>_. do {
      m \<leftarrow> fs_metadata p;
      attempt
        (case m of
           Some (NLink _ _) \<Rightarrow> fail (CacSymlinkInManagedRoot p)
         | Some (NDir _) \<Rightarrow> ok ()
         | Some _ \<Rightarrow> fail (CacUnexpectedEntry p)
         | None \<Rightarrow> fs_create p (NDir []))
        (\<lambda>_.
      attempt (of_result (validated_digest_hex plan_digest)) (\<lambda>_.
      attempt (acquire_entry_lock p) (\<lambda>entry_lock.
      attempt
        (or_unlock [entry_lock]
          (attempt (entry_status cj p (directory_name key)) (\<lambda>status. do {
           name \<leftarrow> temporary_name ''.staging-'';
           attempt (ensure_managed_directory (p @ [name])) (\<lambda>_. ok (status = Complete, p @ [name])) })))
        (\<lambda>(complete, staging_path). do {
      _ \<leftarrow> own_generation
        \<lparr>go_entry_path = p, go_staging_path = staging_path, go_key_digest = ck_digest key,
         go_plan_digest = plan_digest, go_generation = generation, go_phase = PREPARED_PHASE_PREPARING\<rparr>;
      or_drop cj staging_path
        (attempt (fill_staging cx policy key plan_digest generation p staging_path complete) (\<lambda>_. do {
         _ \<leftarrow> set_phase staging_path PREPARED_PHASE_STAGING;
         ok \<lparr>pc_path = p, pc_data_path = staging_path @ [''data''], pc_staging_path = staging_path,
             pc_key_digest = ck_digest key, pc_plan_digest = plan_digest, pc_generation = generation,
             pc_was_complete = complete\<rparr> })) })))) })))"

definition prepare_entry ::
    "codec \<Rightarrow> cache_json \<Rightarrow> managed_cache \<Rightarrow> cache_key \<Rightarrow> string \<Rightarrow> u64 \<Rightarrow> prepared_cache_entry cache" where
  "prepare_entry cx cj cache key plan_digest generation =
     prepare_entry_with_payload_link_policy cx cj payload_link_policy_current cache key plan_digest generation"

record cache_generation_expectation =
  cg_key_digest :: string
  cg_plan_digest :: string
  cg_generation :: u64
  cg_state :: string

definition generation_expectation :: "prepared_cache_entry \<Rightarrow> cache_generation_expectation" where
  "generation_expectation p =
     \<lparr>cg_key_digest = pc_key_digest p, cg_plan_digest = pc_plan_digest p, cg_generation = pc_generation p,
      cg_state = ''staging''\<rparr>"

definition revalidate_generation_source :: "cache_json \<Rightarrow> path \<Rightarrow> cache_generation_expectation \<Rightarrow> unit cache" where
  "revalidate_generation_source cj source expected =
     (if source = [] then fail CacPromotionUncertain
      else
        attempt (read_generation_manifest cj (butlast source @ [GENERATION_MANIFEST_FILE])) (\<lambda>m.
        if gm_schema_version m \<noteq> GENERATION_SCHEMA_VERSION \<or> gm_key_digest m \<noteq> cg_key_digest expected \<or>
           gm_plan_digest m \<noteq> cg_plan_digest expected \<or> gm_generation m \<noteq> cg_generation expected \<or>
           gm_state m \<noteq> cg_state expected
        then fail CacPromotionUncertain else ok ()))"

end
