(* ===== verification/Cache_Promotion.thy ===== *)
theory Cache_Promotion
  imports Cache_Generation
begin

text \<open>
  The journalled promotion of staged generations in \<^verbatim>\<open>src/src/cache.rs\<close> and the recovery of an interrupted
  one. The journal names, for every entry, the staged and the displaced tree and the bytes of the
  previous marker and manifest.
\<close>

section \<open>The promotion journal\<close>

definition validate_prepared_entry :: "cache_json \<Rightarrow> prepared_cache_entry \<Rightarrow> unit cache" where
  "validate_prepared_entry cj prepared =
     attempt (cache_plain_directory (pc_path prepared)) (\<lambda>_.
     attempt (cache_plain_directory (pc_staging_path prepared)) (\<lambda>_.
     attempt (cache_plain_directory (pc_data_path prepared)) (\<lambda>_.
     attempt (read_generation_manifest cj (pc_staging_path prepared @ [GENERATION_MANIFEST_FILE])) (\<lambda>m.
     if gm_key_digest m \<noteq> pc_key_digest prepared \<or> gm_plan_digest m \<noteq> pc_plan_digest prepared \<or>
        gm_generation m \<noteq> pc_generation prepared \<or> gm_state m \<noteq> ''staging''
     then fail CacGenerationMismatch
     else validate_payload_tree (pc_data_path prepared) 0 MAX_INVENTORY_NODES))))"

definition write_promotion_journal :: "codec \<Rightarrow> path \<Rightarrow> cache_promotion_journal_v1 \<Rightarrow> unit cache" where
  "write_promotion_journal cx root journal =
     attempt (of_result (map_err CacCanonical (canonical_json cx (promotion_to_value journal)))) (\<lambda>bytes.
     fs_write_new (root @ [PROMOTION_JOURNAL_FILE]) (bytes @ [CHR 0x0A]))"

definition journal_prepared_entry :: "cache_json \<Rightarrow> prepared_cache_entry \<Rightarrow> cache_promotion_journal_entry_v1 cache" where
  "journal_prepared_entry cj entry =
     (let staging_name = last (pc_staging_path entry); current = pc_path entry @ [''data''] in
      attempt (validate_prepared_entry cj entry) (\<lambda>_.
      if pc_staging_path entry = [] then fail CacGenerationMismatch
      else
        attempt (of_result (validate_owned_name staging_name ''.staging-'')) (\<lambda>_.
        if butlast (pc_staging_path entry) \<noteq> pc_path entry then fail CacGenerationMismatch
        else do {
          m \<leftarrow> fs_metadata current;
          attempt
            (case m of
               Some (NLink _ _) \<Rightarrow> fail (CacSymlinkInManagedRoot current)
             | Some (NDir _) \<Rightarrow> ok True
             | Some _ \<Rightarrow> fail (CacUnexpectedEntry current)
             | None \<Rightarrow> ok False)
            (\<lambda>had_current. do {
          backup_name \<leftarrow> temporary_name ''.backup-'';
          taken \<leftarrow> fs_exists (pc_path entry @ [backup_name]);
          if taken then fail CacPromotionUncertain
          else
            attempt (read_optional_file (pc_path entry @ [COMPLETE_FILE])) (\<lambda>previous_marker.
            attempt (read_optional_file (pc_path entry @ [GENERATION_MANIFEST_FILE])) (\<lambda>previous_manifest.
            ok \<lparr>ce_key_digest = pc_key_digest entry, ce_plan_digest = pc_plan_digest entry,
                ce_generation = pc_generation entry, ce_staging_name = staging_name,
                ce_backup_name = backup_name, ce_had_current = had_current,
                ce_previous_marker = previous_marker, ce_previous_manifest = previous_manifest\<rparr>)) }) })))"

fun journal_entries ::
    "cache_json \<Rightarrow> path list \<Rightarrow> prepared_cache_entry list \<Rightarrow> cache_promotion_journal_entry_v1 list cache" where
  "journal_entries cj paths [] = ok []"
| "journal_entries cj paths (entry # prepared) =
     (if pc_path entry \<in> set paths then fail CacGenerationMismatch
      else
        attempt (journal_prepared_entry cj entry) (\<lambda>e.
        attempt (journal_entries cj (pc_path entry # paths) prepared) (\<lambda>es. ok (e # es))))"

definition create_promotion_journal ::
    "codec \<Rightarrow> cache_json \<Rightarrow> managed_cache \<Rightarrow> prepared_cache_entry list \<Rightarrow> cache_promotion_journal_v1 cache" where
  "create_promotion_journal cx cj cache prepared =
     attempt (journal_entries cj [] prepared) (\<lambda>entries. do {
     operation_id \<leftarrow> temporary_name [];
     let journal = \<lparr>cj_schema_version = PROMOTION_SCHEMA_VERSION, cj_operation_id = operation_id,
                    cj_state = ''prepared'', cj_entries = entries\<rparr>;
     attempt (write_promotion_journal cx (root_path cache) journal) (\<lambda>_. ok journal) })"

definition journal_key :: "cache_promotion_journal_entry_v1 \<Rightarrow> (cache_error, cache_key) result" where
  "journal_key entry =
     and_then (validated_digest_hex (ce_key_digest entry)) (\<lambda>_. Ok \<lparr>ck_digest = ce_key_digest entry\<rparr>)"

section \<open>Promotion\<close>

definition promote_one ::
    "codec \<Rightarrow> cache_json \<Rightarrow> prepared_cache_entry \<Rightarrow> cache_promotion_journal_entry_v1 \<Rightarrow> unit cache" where
  "promote_one cx cj prepared journal_entry =
     (let manifest_path = pc_staging_path prepared @ [GENERATION_MANIFEST_FILE];
          current = pc_path prepared @ [''data''];
          backup = pc_path prepared @ [ce_backup_name journal_entry];
          marker = pc_path prepared @ [COMPLETE_FILE];
          previous_manifest_path = pc_path prepared @ [GENERATION_MANIFEST_FILE] in
      attempt (read_generation_manifest cj manifest_path) (\<lambda>manifest.
      attempt (write_generation_manifest_replacing cx manifest_path (manifest\<lparr>gm_state := ''complete''\<rparr>)) (\<lambda>_.
      attempt (if ce_had_current journal_entry then fs_rename current backup else ok ()) (\<lambda>_.
      attempt (cache_remove_if_present marker) (\<lambda>_.
      attempt (cache_remove_if_present previous_manifest_path) (\<lambda>_.
      attempt (fs_rename (pc_data_path prepared) current) (\<lambda>_.
      attempt (fs_rename manifest_path previous_manifest_path) (\<lambda>_.
      attempt (write_complete_marker marker) (\<lambda>_. do {
      _ \<leftarrow> set_phase (pc_staging_path prepared) PREPARED_PHASE_PROMOTED;
      ok () })))))))))"

fun promote_all ::
    "codec \<Rightarrow> cache_json \<Rightarrow> (prepared_cache_entry \<times> cache_promotion_journal_entry_v1) list \<Rightarrow> unit cache" where
  "promote_all cx cj [] = ok ()"
| "promote_all cx cj ((prepared, journal_entry) # rest) =
     attempt (promote_one cx cj prepared journal_entry) (\<lambda>_. promote_all cx cj rest)"

definition execute_promotion ::
    "codec \<Rightarrow> cache_json \<Rightarrow> prepared_cache_entry list \<Rightarrow> cache_promotion_journal_v1 \<Rightarrow> unit cache" where
  "execute_promotion cx cj prepared journal = promote_all cx cj (zip prepared (cj_entries journal))"

fun finalize_entries :: "managed_cache \<Rightarrow> cache_promotion_journal_entry_v1 list \<Rightarrow> unit cache" where
  "finalize_entries cache [] = ok ()"
| "finalize_entries cache (entry # entries) =
     attempt (of_result (journal_key entry)) (\<lambda>key.
     attempt (cache_plain_directory (entry_path cache key)) (\<lambda>_.
     attempt (cache_remove_if_present (entry_path cache key @ [ce_backup_name entry])) (\<lambda>_.
     attempt (cache_remove_if_present (entry_path cache key @ [ce_staging_name entry])) (\<lambda>_.
     finalize_entries cache entries))))"

definition finalize_promotion :: "managed_cache \<Rightarrow> cache_promotion_journal_v1 \<Rightarrow> unit cache" where
  "finalize_promotion cache journal =
     attempt (finalize_entries cache (cj_entries journal)) (\<lambda>_.
     cache_remove_if_present (root_path cache @ [PROMOTION_JOURNAL_FILE]))"

section \<open>Recovery\<close>

definition current_generation_is_complete ::
    "cache_json \<Rightarrow> path \<Rightarrow> path \<Rightarrow> path \<Rightarrow> cache_promotion_journal_entry_v1 \<Rightarrow> bool cache" where
  "current_generation_is_complete cj current marker manifest_path journal = do { m \<leftarrow> fs_metadata current;
     case m of
       Some (NLink _ _) \<Rightarrow> fail (CacSymlinkInManagedRoot current)
     | None \<Rightarrow> ok False
     | Some (NDir _) \<Rightarrow>
         attempt (read_optional_file marker) (\<lambda>bytes.
         if bytes \<noteq> Some COMPLETE_BYTES then ok False
         else
           attempt (read_optional_file manifest_path) (\<lambda>bytes.
           case bytes of
             None \<Rightarrow> ok False
           | Some bytes \<Rightarrow>
               attempt (of_result (map_err invalid_data (manifest_from_slice cj bytes))) (\<lambda>m.
               ok (gm_schema_version m = GENERATION_SCHEMA_VERSION \<and> gm_key_digest m = ce_key_digest journal \<and>
                   gm_plan_digest m = ce_plan_digest journal \<and> gm_generation m = ce_generation journal \<and>
                   gm_state m = ''complete''))))
     | Some _ \<Rightarrow> fail (CacUnexpectedEntry current) }"

definition current_matches_previous ::
    "path \<Rightarrow> path \<Rightarrow> path \<Rightarrow> cache_promotion_journal_entry_v1 \<Rightarrow> bool cache" where
  "current_matches_previous current marker manifest journal = do { m \<leftarrow> fs_metadata current;
     case m of
       Some (NLink _ _) \<Rightarrow> fail (CacSymlinkInManagedRoot current)
     | None \<Rightarrow> ok False
     | Some (NDir _) \<Rightarrow>
         attempt (read_optional_file marker) (\<lambda>bytes.
         if bytes \<noteq> ce_previous_marker journal then ok False
         else attempt (read_optional_file manifest) (\<lambda>bytes. ok (bytes = ce_previous_manifest journal)))
     | Some _ \<Rightarrow> fail (CacUnexpectedEntry current) }"

text \<open>The locks taken so far are given up when a later one fails.\<close>

fun lock_entries :: "managed_cache \<Rightarrow> path list \<Rightarrow> cache_promotion_journal_entry_v1 list \<Rightarrow> path list cache" where
  "lock_entries cache locks [] = ok locks"
| "lock_entries cache locks (entry # entries) =
     attempt (or_unlock locks
       (attempt (of_result (validate_owned_name (ce_staging_name entry) ''.staging-'')) (\<lambda>_.
        attempt (of_result (validate_owned_name (ce_backup_name entry) ''.backup-'')) (\<lambda>_.
        attempt (of_result (journal_key entry)) (\<lambda>key.
        attempt (cache_plain_directory (entry_path cache key)) (\<lambda>_.
        acquire_entry_lock (entry_path cache key))))))) (\<lambda>lock.
     lock_entries cache (locks @ [lock]) entries)"

definition recover_entry :: "cache_json \<Rightarrow> managed_cache \<Rightarrow> cache_promotion_journal_entry_v1 \<Rightarrow> unit cache" where
  "recover_entry cj cache entry =
     attempt (of_result (journal_key entry)) (\<lambda>key.
     let p = entry_path cache key;
         current = p @ [''data'']; marker = p @ [COMPLETE_FILE]; manifest = p @ [GENERATION_MANIFEST_FILE];
         backup = p @ [ce_backup_name entry]; staging = p @ [ce_staging_name entry] in
     attempt (current_generation_is_complete cj current marker manifest entry) (\<lambda>complete.
     if complete
     then attempt (cache_remove_if_present backup) (\<lambda>_. cache_remove_if_present staging)
     else do {
       has_backup \<leftarrow> fs_exists backup;
       if ce_had_current entry
       then
         if has_backup
         then
           attempt (cache_remove_if_present current) (\<lambda>_.
           attempt (cache_remove_if_present marker) (\<lambda>_.
           attempt (cache_remove_if_present manifest) (\<lambda>_.
           attempt (fs_rename backup current) (\<lambda>_.
           attempt (restore_optional_file manifest (ce_previous_manifest entry)) (\<lambda>_.
           attempt (restore_optional_file marker (ce_previous_marker entry)) (\<lambda>_.
           cache_remove_if_present staging))))))
         else
           attempt (current_matches_previous current marker manifest entry) (\<lambda>same.
           if same then cache_remove_if_present staging else fail CacPromotionUncertain)
       else do {
         has_current \<leftarrow> fs_exists current;
         if \<not> has_backup \<and> \<not> has_current
         then
           attempt (cache_remove_if_present marker) (\<lambda>_.
           attempt (cache_remove_if_present manifest) (\<lambda>_.
           cache_remove_if_present staging))
         else fail CacPromotionUncertain } }))"

fun recover_entries :: "cache_json \<Rightarrow> managed_cache \<Rightarrow> cache_promotion_journal_entry_v1 list \<Rightarrow> unit cache" where
  "recover_entries cj cache [] = ok ()"
| "recover_entries cj cache (entry # entries) =
     attempt (recover_entry cj cache entry) (\<lambda>_. recover_entries cj cache entries)"

definition recover_promotion_locked :: "cache_json \<Rightarrow> managed_cache \<Rightarrow> unit cache" where
  "recover_promotion_locked cj cache =
     (let p = root_path cache @ [PROMOTION_JOURNAL_FILE] in
      attempt (read_optional_file p) (\<lambda>bytes.
      case bytes of
        None \<Rightarrow> ok ()
      | Some bytes \<Rightarrow>
          if 1048576 < length bytes then fail CacPromotionUncertain
          else
            attempt (of_result (map_err invalid_data (promotion_from_slice cj bytes))) (\<lambda>journal.
            if cj_schema_version journal \<noteq> PROMOTION_SCHEMA_VERSION \<or> cj_state journal \<noteq> ''prepared'' \<or>
               cj_entries journal = [] \<or> cj_operation_id journal = []
            then fail CacPromotionUncertain
            else
              attempt (lock_entries cache [] (cj_entries journal)) (\<lambda>locks.
              attempt (holding locks (recover_entries cj cache (cj_entries journal))) (\<lambda>_.
              cache_remove_if_present p)))))"

section \<open>The operations\<close>

datatype cache_promotion_outcome = NotAttempted | Promoted

definition promote_entries ::
    "codec \<Rightarrow> cache_json \<Rightarrow> managed_cache \<Rightarrow> prepared_cache_entry list \<Rightarrow> cache_promotion_outcome cache" where
  "promote_entries cx cj cache prepared =
     (if prepared = [] then ok NotAttempted
      else
        attempt (validate_owner_marker (root_path cache @ [OWNER_FILE])) (\<lambda>_.
        attempt (acquire_promotion_lock (root_path cache)) (\<lambda>lock.
        holding [lock]
          (attempt (recover_promotion_locked cj cache) (\<lambda>_.
           attempt (create_promotion_journal cx cj cache prepared) (\<lambda>journal.
           attempt (execute_promotion cx cj prepared journal) (\<lambda>_.
           attempt (finalize_promotion cache journal) (\<lambda>_. ok Promoted))))))))"

definition promote_entry ::
    "codec \<Rightarrow> cache_json \<Rightarrow> managed_cache \<Rightarrow> prepared_cache_entry \<Rightarrow> cache_promotion_outcome cache" where
  "promote_entry cx cj cache prepared = promote_entries cx cj cache [prepared]"

definition mark_entry_complete :: "managed_cache \<Rightarrow> cache_key \<Rightarrow> unit cache" where
  "mark_entry_complete cache key =
     (let entry = entry_path cache key; marker = entry @ [COMPLETE_FILE] in
      attempt (validate_owner_marker (root_path cache @ [OWNER_FILE])) (\<lambda>_.
      attempt (cache_plain_directory entry) (\<lambda>_.
      attempt (cache_plain_directory (entry @ [''data''])) (\<lambda>_.
      attempt (validate_payload_tree (entry @ [''data'']) 0 MAX_INVENTORY_NODES) (\<lambda>_. do {
      m \<leftarrow> fs_metadata marker;
      case m of
        Some (NLink _ _) \<Rightarrow> fail (CacSymlinkInManagedRoot marker)
      | Some (NFile bytes) \<Rightarrow> if bytes = COMPLETE_BYTES then ok () else fail (CacUnexpectedEntry marker)
      | Some _ \<Rightarrow> fail (CacUnexpectedEntry marker)
      | None \<Rightarrow> do {
          name \<leftarrow> temporary_name ''.complete-tmp-'';
          let temporary = entry @ [name];
          r \<leftarrow> attempt (fs_write_new temporary COMPLETE_BYTES) (\<lambda>_. fs_rename temporary marker);
          _ \<leftarrow> discard_temporary temporary;
          State_Monad.return r } })))))"

end
