(* ===== verification/Cache_Inventory.thy ===== *)
theory Cache_Inventory
  imports Cache_Promotion
begin

text \<open>
  Pins of completed entries, the bounded inventory of a cache and its clean-up plan in
  \<^verbatim>\<open>src/src/cache.rs\<close>.
\<close>

section \<open>Pins\<close>

record cache_use_pin =
  up_entry_path :: path
  up_data_path :: path
  up_key_digest :: string
  up_plan_digest :: string
  up_generation :: u64

definition validate_pin_source_names :: "cache_host \<Rightarrow> node \<Rightarrow> path \<Rightarrow> path \<Rightarrow> (cache_error, path) result" where
  "validate_pin_source_names hs t root source =
     and_then (reject_symlink_components t [] source) (\<lambda>_.
     and_then (map_err CacIo (ch_canonicalize hs t source)) (\<lambda>canonical.
     if canonical \<noteq> source then Err (CacUnsafePath ''cache source must be canonical'')
     else if \<not> prefix root source then Err (CacUnsafePath ''cache source is outside managed root'')
     else
       let relative = drop (length root) source in
       if length relative \<noteq> 3 \<or> relative ! 0 \<noteq> ENTRIES_DIR \<or> relative ! 2 \<noteq> ''data''
       then Err (CacUnsafePath ''cache source must be an entry data path'')
       else if \<not> utf8_valid (relative ! 1) then Err CacInvalidDigest
       else
         case strip_prefix ''sha256-'' (relative ! 1) of
           None \<Rightarrow> Err CacInvalidDigest
         | Some key_hex \<Rightarrow>
             if length key_hex \<noteq> 64 \<or> \<not> list_all is_lower_hex key_hex then Err CacInvalidDigest else Ok source))"

definition validate_pin_source_path :: "cache_host \<Rightarrow> node \<Rightarrow> path \<Rightarrow> string \<Rightarrow> (cache_error, path) result" where
  "validate_pin_source_path hs t root source =
     (if \<not> path_is_absolute source then Err (CacUnsafePath ''cache source must be absolute'')
      else
        and_then (reject_lexical_escape source) (\<lambda>_.
        validate_pin_source_names hs t root (names_of (components source))))"

definition require_file :: "path \<Rightarrow> unit cache" where
  "require_file p = do { m \<leftarrow> fs_metadata p;
     case m of
       Some (NLink _ _) \<Rightarrow> fail (CacSymlinkInManagedRoot p)
     | Some (NFile _) \<Rightarrow> ok ()
     | Some _ \<Rightarrow> fail (CacUnexpectedEntry p)
     | None \<Rightarrow> fail (CacIo not_found) }"

definition validate_completed_entry ::
    "cache_host \<Rightarrow> cache_json \<Rightarrow> path \<Rightarrow> path \<Rightarrow> path \<Rightarrow> cache_generation_manifest_v1 cache" where
  "validate_completed_entry hs cj root data_path entry = do {
     t \<leftarrow> cache_tree;
     attempt (of_result (validate_pin_source_names hs t root data_path)) (\<lambda>_.
     attempt (cache_plain_directory entry) (\<lambda>_.
     attempt (cache_plain_directory data_path) (\<lambda>_.
     attempt (require_file (entry @ [COMPLETE_FILE])) (\<lambda>_.
     attempt (fs_read (entry @ [COMPLETE_FILE])) (\<lambda>bytes.
     if bytes \<noteq> COMPLETE_BYTES then fail CacGenerationMismatch
     else
       attempt (require_file (entry @ [GENERATION_MANIFEST_FILE])) (\<lambda>_.
       attempt (read_generation_manifest cj (entry @ [GENERATION_MANIFEST_FILE])) (\<lambda>m.
       attempt (of_result (validated_digest_hex (gm_plan_digest m))) (\<lambda>_.
       if gm_schema_version m \<noteq> GENERATION_SCHEMA_VERSION \<or>
          gm_key_digest m \<noteq> ''sha256:'' @ drop 7 (last entry) \<or> gm_state m \<noteq> ''complete''
       then fail CacGenerationMismatch else ok m)))))))) }"

definition from_locked_source :: "cache_host \<Rightarrow> cache_json \<Rightarrow> managed_cache \<Rightarrow> path \<Rightarrow> cache_use_pin cache" where
  "from_locked_source hs cj cache source =
     attempt (validate_completed_entry hs cj (root_path cache) source (butlast source)) (\<lambda>m.
     ok \<lparr>up_entry_path = butlast source, up_data_path = source, up_key_digest = gm_key_digest m,
         up_plan_digest = gm_plan_digest m, up_generation = gm_generation m\<rparr>)"

definition validate_managed_root :: "path \<Rightarrow> unit cache" where
  "validate_managed_root root =
     attempt (validate_owner_marker (root @ [OWNER_FILE])) (\<lambda>_.
     attempt (cache_plain_directory (root @ [ENTRIES_DIR])) (\<lambda>_.
     cache_plain_directory (root @ [WORKSPACES_DIR])))"

text \<open>A pin that fails gives up its own lock and those of the pins before it.\<close>

fun pin_ordered :: "cache_host \<Rightarrow> cache_json \<Rightarrow> managed_cache \<Rightarrow> path list \<Rightarrow> path list \<Rightarrow> cache_use_pin list cache" where
  "pin_ordered hs cj cache locks [] = ok []"
| "pin_ordered hs cj cache locks (source # sources) =
     attempt
       (or_unlock locks
         (attempt (require_file (butlast source @ [ENTRY_LOCK_FILE])) (\<lambda>_.
          attempt (acquire_existing_entry_lock (butlast source)) (\<lambda>lock.
          attempt (or_unlock [lock] (from_locked_source hs cj cache source)) (\<lambda>pin. ok (lock, pin))))))
       (\<lambda>(lock, pin).
     attempt (pin_ordered hs cj cache (lock # locks) sources) (\<lambda>pins. ok (pin # pins)))"

definition pin_completed_sources ::
    "cache_host \<Rightarrow> cache_json \<Rightarrow> managed_cache \<Rightarrow> string list \<Rightarrow> cache_use_pin list cache" where
  "pin_completed_sources hs cj cache sources =
     attempt (validate_managed_root (root_path cache)) (\<lambda>_. do {
     t \<leftarrow> cache_tree;
     attempt (of_result (try_fold (\<lambda>ordered source.
        map_result (\<lambda>p. bs_insert p ordered) (validate_pin_source_path hs t (root_path cache) source)) [] sources))
       (\<lambda>ordered. pin_ordered hs cj cache [] ordered) })"

definition revalidate_pin :: "cache_host \<Rightarrow> cache_json \<Rightarrow> cache_use_pin \<Rightarrow> unit cache" where
  "revalidate_pin hs cj pin =
     (if length (up_entry_path pin) < 2 then fail (CacUnsafePath ''cache pin has no managed root'')
      else
        let root = butlast (butlast (up_entry_path pin)) in
        attempt (validate_managed_root root) (\<lambda>_.
        attempt (validate_completed_entry hs cj root (up_data_path pin) (up_entry_path pin)) (\<lambda>m.
        if gm_key_digest m \<noteq> up_key_digest pin \<or> gm_plan_digest m \<noteq> up_plan_digest pin \<or>
           gm_generation m \<noteq> up_generation pin
        then fail CacGenerationMismatch else ok ())))"

section \<open>Inventory\<close>

record cache_entry_inventory =
  ci_directory :: string
  ci_status :: cache_entry_status
  ci_bytes :: u64
  ci_files :: u64

record cache_inventory =
  cv_root :: path
  cv_source :: cache_root_source
  cv_entries :: "cache_entry_inventory list"
  cv_total_bytes :: u64
  cv_disk_budget_bytes :: u64
  cv_budget_exceeded :: bool

datatype cleanup_reason = IncompleteEntry

record cleanup_candidate =
  cc_relative_path :: path
  cc_reason :: cleanup_reason
  cc_bytes :: u64

record cleanup_plan =
  cp_root :: path
  cp_total_bytes :: u64
  cp_disk_budget_bytes :: u64
  cp_budget_exceeded :: bool
  cp_candidates :: "cleanup_candidate list"
  cp_reclaimable_bytes :: u64
  cp_deletion_performed :: bool

text \<open>The candidate is given by its names below the entry.\<close>

definition is_payload_root :: "string \<Rightarrow> path \<Rightarrow> bool" where
  "is_payload_root entry_name relative \<longleftrightarrow>
     is_cache_directory_name entry_name \<and>
     (case relative of
        [data] \<Rightarrow> data = ''data''
      | [generation, data] \<Rightarrow>
          data = ''data'' \<and>
          (is_ok (validate_owned_name generation ''.staging-'') \<or> is_ok (validate_owned_name generation ''.backup-''))
      | _ \<Rightarrow> False)"

fun bounded_entry_size_at ::
    "path \<Rightarrow> path \<Rightarrow> node \<Rightarrow> nat \<Rightarrow> (cache_error, (u64 \<times> u64) \<times> nat) result"
  and bounded_entries_size ::
    "path \<Rightarrow> path \<Rightarrow> (string \<times> node) list \<Rightarrow> u64 \<times> u64 \<Rightarrow> nat \<Rightarrow> (cache_error, (u64 \<times> u64) \<times> nat) result" where
  "bounded_entry_size_at entry_root relative n nodes =
     (if is_payload_root (last entry_root) relative
      then
        case n of
          NLink _ _ \<Rightarrow> Err (CacSymlinkInManagedRoot (entry_root @ relative))
        | NDir es \<Rightarrow>
            map_result (\<lambda>(stats, nodes). ((pt_bytes stats, pt_files stats), nodes))
              (walk_payload_with_policy payload_link_policy_current MAX_INVENTORY_NODES (entry_root @ relative) (NDir es) nodes)
        | _ \<Rightarrow> Err (CacUnexpectedEntry (entry_root @ relative))
      else if nodes + 1 > MAX_INVENTORY_NODES then Err CacInventoryLimitExceeded
      else
        case n of
          NLink _ _ \<Rightarrow> Err (CacSymlinkInManagedRoot (entry_root @ relative))
        | NFile bytes \<Rightarrow> Ok ((of_nat (length bytes), 1), nodes + 1)
        | NDir es \<Rightarrow> bounded_entries_size entry_root relative es (0, 0) (nodes + 1)
        | NOther \<Rightarrow> Err (CacUnexpectedEntry (entry_root @ relative)))"
| "bounded_entries_size entry_root relative [] so_far nodes = Ok (so_far, nodes)"
| "bounded_entries_size entry_root relative ((x, n) # es) so_far nodes =
     and_then (bounded_entry_size_at entry_root (relative @ [x]) n nodes) (\<lambda>((bytes, files), nodes).
     and_then (ok_or CacSizeOverflow (checked_add (fst so_far) bytes)) (\<lambda>bytes.
     and_then (ok_or CacSizeOverflow (checked_add (snd so_far) files)) (\<lambda>files.
     bounded_entries_size entry_root relative es (bytes, files) nodes)))"

definition inventory_entry :: "cache_json \<Rightarrow> path \<Rightarrow> string \<times> node \<Rightarrow> cache_entry_inventory cache" where
  "inventory_entry cj entries_root entry =
     (let name = fst entry; p = entries_root @ [name] in
      case snd entry of
        NLink _ _ \<Rightarrow> fail (CacSymlinkInManagedRoot p)
      | NDir _ \<Rightarrow>
          if \<not> utf8_valid name then fail (CacUnexpectedEntry p)
          else if \<not> is_cache_directory_name name \<and> \<not> starts_with ''.entry-tmp-'' name then fail (CacUnexpectedEntry p)
          else
            attempt
              (if is_cache_directory_name name
               then attempt (acquire_existing_entry_lock_readonly p) (\<lambda>lock. ok [lock]) else ok []) (\<lambda>locks.
            holding locks (do {
              m \<leftarrow> fs_metadata p;
              case m of
                None \<Rightarrow> fail (CacIo not_found)
              | Some n \<Rightarrow>
                  attempt (of_result (bounded_entry_size_at p [] n 0)) (\<lambda>((bytes, files), _).
                  attempt (entry_status cj p name) (\<lambda>status.
                  ok \<lparr>ci_directory = name, ci_status = status, ci_bytes = bytes, ci_files = files\<rparr>)) }))
      | _ \<Rightarrow> fail (CacUnexpectedEntry p))"

fun inventory_entries ::
    "cache_json \<Rightarrow> path \<Rightarrow> (string \<times> node) list \<Rightarrow> cache_entry_inventory list cache" where
  "inventory_entries cj entries_root [] = ok []"
| "inventory_entries cj entries_root (entry # es) =
     attempt (inventory_entry cj entries_root entry) (\<lambda>i.
     attempt (inventory_entries cj entries_root es) (\<lambda>is. ok (i # is)))"

definition checked_sum :: "u64 list \<Rightarrow> (cache_error, u64) result" where
  "checked_sum = try_fold (\<lambda>so_far n. ok_or CacSizeOverflow (checked_add so_far n)) 0"

definition inventory :: "cache_json \<Rightarrow> managed_cache \<Rightarrow> cache_inventory cache" where
  "inventory cj cache =
     (let entries_root = root_path cache @ [ENTRIES_DIR] in
      attempt (validate_owner_marker (root_path cache @ [OWNER_FILE])) (\<lambda>_.
      attempt (cache_plain_directory entries_root) (\<lambda>_.
      attempt (sorted_directory_entries entries_root) (\<lambda>es.
      attempt (inventory_entries cj entries_root es) (\<lambda>entries.
      attempt (of_result (checked_sum (map ci_bytes entries))) (\<lambda>total_bytes.
      ok \<lparr>cv_root = root_path cache, cv_source = rc_source (mc_root cache), cv_entries = entries,
          cv_total_bytes = total_bytes, cv_disk_budget_bytes = mc_disk_budget_bytes cache,
          cv_budget_exceeded = total_bytes > mc_disk_budget_bytes cache\<rparr>))))))"

definition cleanup_dry_run :: "cache_json \<Rightarrow> managed_cache \<Rightarrow> cleanup_plan cache" where
  "cleanup_dry_run cj cache =
     attempt (inventory cj cache) (\<lambda>v.
     let candidates = map (\<lambda>e. \<lparr>cc_relative_path = [ENTRIES_DIR, ci_directory e], cc_reason = IncompleteEntry,
                                  cc_bytes = ci_bytes e\<rparr>)
                        (filter (\<lambda>e. ci_status e = Incomplete) (cv_entries v)) in
     attempt (of_result (checked_sum (map cc_bytes candidates))) (\<lambda>reclaimable_bytes.
     ok \<lparr>cp_root = cv_root v, cp_total_bytes = cv_total_bytes v, cp_disk_budget_bytes = cv_disk_budget_bytes v,
         cp_budget_exceeded = cv_budget_exceeded v, cp_candidates = candidates,
         cp_reclaimable_bytes = reclaimable_bytes, cp_deletion_performed = False\<rparr>))"

end
