(* ===== verification/Cache_Correct.thy ===== *)
theory Cache_Correct
  imports Cache_Inventory Durable_Correct
begin

text \<open>
  Reasoning about the cache: the weakest preconditions of its disk operations under power loss, and a
  small logic for the objects directly inside one directory, on which a promotion works.
\<close>

section \<open>Primitive actions\<close>

abbreviation tr :: "cache_world \<Rightarrow> node" where
  "tr w \<equiv> dk_tree (cw_disk w)"

lemma wp_of_result [wp_simps]: "wp (of_result r) Q = Q r"
  by (simp add: of_result_def wp_simps)

lemma wp_cache_tree [wp_simps]: "wp cache_tree Q = (\<lambda>w. Q (tr w) w)"
  by (simp add: cache_tree_def wp_def fun_eq_iff)

lemma wp_fs_metadata [wp_simps]: "wp (fs_metadata p) Q = (\<lambda>w. Q (lookup (tr w) p) w)"
  by (simp add: fs_metadata_def wp_simps fun_eq_iff)

lemma wp_fs_exists [wp_simps]: "wp (fs_exists p) Q = (\<lambda>w. Q (node_exists (tr w) p) w)"
  by (simp add: fs_exists_def wp_simps fun_eq_iff)

lemma wp_process_id [wp_simps]: "wp process_id Q = (\<lambda>w. Q (cw_pid w) w)"
  by (simp add: process_id_def wp_def fun_eq_iff)

lemma wp_next_sequence [wp_simps]:
  "wp next_sequence Q = (\<lambda>w. Q (cw_sequence w) (w\<lparr>cw_sequence := cw_sequence w + 1\<rparr>))"
  by (simp add: next_sequence_def wp_def fun_eq_iff)

lemma wp_next_durable_sequence [wp_simps]:
  "wp next_durable_sequence Q = (\<lambda>w. Q (cw_durable_sequence w) (w\<lparr>cw_durable_sequence := cw_durable_sequence w + 1\<rparr>))"
  by (simp add: next_durable_sequence_def wp_def fun_eq_iff)

lemma wp_set_phase [wp_simps]:
  "wp (set_phase s f) Q = (\<lambda>w. Q () (w\<lparr>cw_owners :=
     map (\<lambda>(p, g). if p = s then (p, g\<lparr>go_phase := f\<rparr>) else (p, g)) (cw_owners w)\<rparr>))"
  by (simp add: set_phase_def wp_def fun_eq_iff)

lemma wp_unlock [wp_simps]: "wp (unlock p) Q = (\<lambda>w. Q () (w\<lparr>cw_locks := remove1 p (cw_locks w)\<rparr>))"
  by (simp add: unlock_def wp_def fun_eq_iff)

lemma wp_unlock_all:
  "(\<And>w'. cw_disk w' = cw_disk w \<Longrightarrow> cw_power w' = cw_power w \<Longrightarrow> set (cw_locks w') \<subseteq> set (cw_locks w) \<Longrightarrow> Q () w') \<Longrightarrow>
     wp (unlock_all ps) Q w"
proof (induction ps arbitrary: w)
  case (Cons p ps)
  show ?case
    apply (simp add: wp_simps)
    apply (rule Cons.IH)
    apply (rule Cons.prems)
      apply (use set_remove1_subset [of p "cw_locks w"] in \<open>auto\<close>)
    done
qed (simp add: wp_simps)

text \<open>Changes of the tree: the power may be gone.\<close>

definition keeps_power :: "cache_world \<Rightarrow> cache_world \<Rightarrow> bool" where
  "keeps_power w w' \<longleftrightarrow> (cw_power w = None \<longrightarrow> cw_power w' = None)"

lemma wp_power:
  assumes "\<And>w'. cw_disk w' = cw_disk w \<Longrightarrow> cw_locks w' = cw_locks w \<Longrightarrow> keeps_power w w' \<Longrightarrow> Q (Ok ()) w'"
    and "cw_power w \<noteq> None \<Longrightarrow> Q (Err (CacIo power_lost)) w"
  shows "wp power Q w"
  using assms by (auto simp: wp_def power_def keeps_power_def split: option.split nat.split)

lemma wp_change_tree:
  assumes "\<And>w'. tr w' = f (tr w) \<Longrightarrow> cw_locks w' = cw_locks w \<Longrightarrow> keeps_power w w' \<Longrightarrow> Q (Ok ()) w'"
    and "cw_power w \<noteq> None \<Longrightarrow> Q (Err (CacIo power_lost)) w"
  shows "wp (change_tree f) Q w"
proof -
  have put: "wp (State (\<lambda>w. (Ok (), put_tree (f (tr w)) w))) R v = R (Ok ()) (put_tree (f (tr v)) v)"
    for R :: "(cache_error, unit) result \<Rightarrow> cache_world \<Rightarrow> bool" and v
    by (simp add: wp_def)
  show ?thesis
    apply (simp add: change_tree_def wp_simps)
    apply (rule wp_power)
     apply (simp add: put)
     apply (rule assms(1))
       apply (simp_all add: put_tree_def keeps_power_def assms(2))
    done
qed

section \<open>The objects of one directory\<close>

text \<open>
  \<open>inside w0 p s w\<close>: since \<open>w0\<close> only the contents of the directory \<open>p\<close> changed, and its objects are now \<open>s\<close>.
\<close>

definition slots :: "node \<Rightarrow> path \<Rightarrow> string \<Rightarrow> node option" where
  "slots t p n = lookup t (p @ [n])"

definition is_dir :: "node \<Rightarrow> path \<Rightarrow> bool" where
  "is_dir t p \<longleftrightarrow> (\<exists>es. lookup t p = Some (NDir es))"

definition inside :: "cache_world \<Rightarrow> path \<Rightarrow> (string \<Rightarrow> node option) \<Rightarrow> cache_world \<Rightarrow> bool" where
  "inside w0 p s w \<longleftrightarrow>
     tree_wf (tr w) \<and> is_dir (tr w) p \<and> slots (tr w) p = s \<and> (\<forall>q. p \<parallel> q \<longrightarrow> lookup (tr w) q = lookup (tr w0) q) \<and>
     cw_locks w = cw_locks w0 \<and> keeps_power w0 w"

lemma insideD:
  assumes "inside w0 p s w"
  shows "tree_wf (tr w)" "is_dir (tr w) p" "lookup (tr w) (p @ [n]) = s n" "slots (tr w) p = s"
    "p \<parallel> q \<Longrightarrow> lookup (tr w) q = lookup (tr w0) q" "cw_locks w = cw_locks w0" "keeps_power w0 w"
  using assms by (auto simp: inside_def slots_def)

lemma inside_refl: "tree_wf (tr w) \<Longrightarrow> is_dir (tr w) p \<Longrightarrow> inside w p (slots (tr w) p) w"
  by (simp add: inside_def keeps_power_def)

lemma inside_upd:
  assumes "inside w0 p s w" and "tr w' = tr w" "cw_locks w' = cw_locks w" "cw_power w' = cw_power w"
  shows "inside w0 p s w'"
  using assms by (simp add: inside_def keeps_power_def)

lemma snoc_parallel: "p @ [n] \<parallel> p @ [m] \<longleftrightarrow> n \<noteq> m"
  by (induction p) (auto simp: parallel_def)

lemma append_parallel: "p \<parallel> q \<Longrightarrow> p @ r \<parallel> q" "q \<parallel> p \<Longrightarrow> q \<parallel> p @ r"
  by (auto simp: parallel_def prefix_def append_eq_append_conv2)

lemma is_dir_put:
  assumes "tree_wf t" "is_dir t p" shows "is_dir (put (p @ [n]) v t) p"
  using assms lookup_put_dir by (auto simp: is_dir_def)

lemma is_dir_del:
  assumes "tree_wf t" "is_dir t p" shows "is_dir (del (p @ [n]) t) p"
  using assms lookup_del_dir by (auto simp: is_dir_def)

lemma slots_put:
  assumes "tree_wf t" "is_dir t p" shows "slots (put (p @ [n]) v t) p = (slots t p)(n := Some v)"
  using assms by (auto simp: slots_def fun_eq_iff is_dir_def lookup_put_same lookup_put_other snoc_parallel)

lemma slots_del:
  assumes "tree_wf t" "is_dir t p" shows "slots (del (p @ [n]) t) p = (slots t p)(n := None)"
  using assms by (auto simp: slots_def fun_eq_iff lookup_del_same lookup_del_other snoc_parallel)

lemma inside_put:
  assumes "inside w0 p s w" "tr w' = put (p @ [n]) v (tr w)" "tree_wf v" "cw_locks w' = cw_locks w" "keeps_power w w'"
  shows "inside w0 p (s(n := Some v)) w'"
  using assms by (auto simp: inside_def put_wf is_dir_put slots_put lookup_put_other append_parallel keeps_power_def)

lemma inside_del:
  assumes "inside w0 p s w" "tr w' = del (p @ [n]) (tr w)" "cw_locks w' = cw_locks w" "keeps_power w w'"
  shows "inside w0 p (s(n := None)) w'"
  using assms by (auto simp: inside_def del_wf is_dir_del slots_del lookup_del_other append_parallel keeps_power_def)

lemma inside_exists:
  "inside w0 p s w \<Longrightarrow> node_exists (tr w) (p @ [n]) =
     (case s n of None \<Rightarrow> False | Some (NLink _ resolves) \<Rightarrow> resolves | Some _ \<Rightarrow> True)"
  by (simp add: node_exists_def insideD(3))

lemma wp_change_inside:
  assumes st: "inside w0 p s w"
    and "\<And>w'. tr w' = f (tr w) \<Longrightarrow> cw_locks w' = cw_locks w \<Longrightarrow> keeps_power w w' \<Longrightarrow> Q (Ok ()) w'"
    and "cw_power w0 \<noteq> None \<Longrightarrow> Q (Err (CacIo power_lost)) w"
  shows "wp (change_tree f) Q w"
  using assms(2,3) insideD(7) [OF st] by (auto intro!: wp_change_tree simp: keeps_power_def)

lemma wp_create_in:
  assumes st: "inside w0 p s w" and v: "tree_wf v" and free: "s n = None"
    and fin: "\<And>w'. inside w0 p (s(n := Some v)) w' \<Longrightarrow> Q (Ok ()) w'"
    and cut: "cw_power w0 \<noteq> None \<Longrightarrow> Q (Err (CacIo power_lost)) w"
  shows "wp (fs_create (p @ [n]) v) Q w"
proof -
  obtain es where "lookup (tr w) p = Some (NDir es)" using insideD(2) [OF st] by (auto simp: is_dir_def)
  then show ?thesis
    apply (simp add: fs_create_def wp_simps insideD(3) [OF st] free)
    apply (rule wp_change_inside [OF st])
     prefer 2 apply (erule cut)
    apply (rule fin)
    apply (rule inside_put [OF st _ v])
      apply simp_all
    done
qed

lemma wp_append_in:
  assumes "inside w0 p s w" and "s n = Some (NFile written)"
    and "\<And>w'. inside w0 p (s(n := Some (NFile (written @ bytes)))) w' \<Longrightarrow> Q (Ok ()) w'"
    and "\<And>w' k. cw_power w0 \<noteq> None \<Longrightarrow> k < length bytes \<Longrightarrow>
      inside w0 p (s(n := Some (NFile (written @ take k bytes)))) w' \<Longrightarrow> Q (Err (CacIo power_lost)) w'"
  shows "wp (fs_append (p @ [n]) written bytes) Q w"
  using assms
proof (induction bytes arbitrary: written s w)
  case Nil
  then show ?case by (simp add: wp_simps fun_upd_idem)
next
  case (Cons b bytes)
  let ?s = "s(n := Some (NFile (written @ [b])))"
  have rest: "wp (fs_append (p @ [n]) (written @ [b]) bytes) Q w'" if "inside w0 p ?s w'" for w'
    using that
  proof (rule Cons.IH)
    show "Q (Ok ()) w''" if "inside w0 p (?s(n := Some (NFile ((written @ [b]) @ bytes)))) w''" for w''
      using that by (intro Cons.prems(3)) (simp add: fun_upd_def cong: if_cong)
    show "Q (Err (CacIo power_lost)) w''"
      if "cw_power w0 \<noteq> None" "k < length bytes" "inside w0 p (?s(n := Some (NFile ((written @ [b]) @ take k bytes)))) w''"
      for w'' k
      using that by (intro Cons.prems(4) [of "Suc k"]) (simp_all add: fun_upd_def cong: if_cong)
  qed simp
  have cut: "Q (Err (CacIo power_lost)) w" if "cw_power w0 \<noteq> None"
    using that Cons.prems(1,2) by (intro Cons.prems(4) [of 0]) (simp_all add: fun_upd_idem)
  show ?case
    apply (simp add: wp_simps)
    apply (rule wp_change_inside [OF Cons.prems(1)])
     apply (simp add: wp_simps)
     apply (rule rest)
     apply (rule inside_put [OF Cons.prems(1)])
        apply simp_all
    apply (rule cut)
    apply simp
    done
qed

lemma wp_truncate_in:
  assumes st: "inside w0 p s w" and old: "s n = Some (NFile b)"
    and fin: "\<And>w'. inside w0 p (s(n := Some (NFile []))) w' \<Longrightarrow> Q (Ok ()) w'"
    and cut: "cw_power w0 \<noteq> None \<Longrightarrow> Q (Err (CacIo power_lost)) w"
  shows "wp (fs_truncate (p @ [n])) Q w"
  apply (simp add: fs_truncate_def wp_simps insideD(3) [OF st] old)
  apply (rule wp_change_inside [OF st])
   prefer 2 apply (erule cut)
  apply (rule fin)
  apply (rule inside_put [OF st])
     apply simp_all
  done

lemma wp_write_new_in:
  assumes st: "inside w0 p s w" and free: "s n = None"
    and fin: "\<And>w'. inside w0 p (s(n := Some (NFile bytes))) w' \<Longrightarrow> Q (Ok ()) w'"
    and cut: "\<And>w'. cw_power w0 \<noteq> None \<Longrightarrow> inside w0 p s w' \<Longrightarrow> Q (Err (CacIo power_lost)) w'"
    and torn: "\<And>w' k. cw_power w0 \<noteq> None \<Longrightarrow> k < length bytes \<Longrightarrow>
      inside w0 p (s(n := Some (NFile (take k bytes)))) w' \<Longrightarrow> Q (Err (CacIo power_lost)) w'"
  shows "wp (fs_write_new (p @ [n]) bytes) Q w"
  apply (simp add: fs_write_new_def wp_simps)
  apply (rule wp_create_in [OF st _ free])
    apply simp
   apply (simp add: wp_simps)
   apply (rule wp_append_in)
      apply assumption
     apply simp
    apply (simp add: fin)
   apply (simp add: torn)
  apply (simp add: cut st)
  done

lemma wp_remove_in:
  assumes st: "inside w0 p s w" and plain: "\<not> is_link (s n)" "s n \<noteq> Some NOther"
    and fin: "\<And>w'. inside w0 p (s(n := None)) w' \<Longrightarrow> Q (Ok ()) w'"
    and cut: "cw_power w0 \<noteq> None \<Longrightarrow> Q (Err (CacIo power_lost)) w"
  shows "wp (cache_remove_if_present (p @ [n])) Q w"
proof -
  have removed: "wp (fs_remove (p @ [n])) Q w"
    apply (simp add: fs_remove_def)
    apply (rule wp_change_inside [OF st])
     prefer 2 apply (erule cut)
    apply (rule fin)
    apply (rule inside_del [OF st])
      apply simp_all
    done
  have absent: "Q (Ok ()) w" if "s n = None"
    by (rule fin) (use st that in \<open>simp add: fun_upd_idem\<close>)
  show ?thesis
    using plain removed absent
    by (auto simp: cache_remove_if_present_def wp_simps insideD(3) [OF st] is_link_def split: option.split node.split)
qed

lemma wp_rename_in:
  assumes st: "inside w0 p s w" and src: "s n = Some v" and free: "s m = None" and other: "n \<noteq> m"
    and fin: "\<And>w'. inside w0 p (s(n := None, m := Some v)) w' \<Longrightarrow> Q (Ok ()) w'"
    and cut: "cw_power w0 \<noteq> None \<Longrightarrow> Q (Err (CacIo power_lost)) w"
  shows "wp (fs_rename (p @ [n]) (p @ [m])) Q w"
proof -
  obtain es where dir: "lookup (tr w) p = Some (NDir es)" using insideD(2) [OF st] by (auto simp: is_dir_def)
  have v: "tree_wf v" using lookup_wf insideD(1,3) [OF st] src by metis
  show ?thesis
    apply (simp add: fs_rename_def wp_simps insideD(3) [OF st] src free dir other [symmetric] other)
    apply (rule wp_change_inside [OF st])
     prefer 2 apply (erule cut)
    apply (rule fin)
    subgoal premises prems for w'
    proof -
      let ?u = "put_tree (del (p @ [n]) (tr w)) w"
      have "inside w0 p (s(n := None)) ?u"
        by (rule inside_del [OF st]) (simp_all add: put_tree_def keeps_power_def)
      then show ?thesis by (rule inside_put) (use prems v in \<open>simp_all add: put_tree_def keeps_power_def\<close>)
    qed
    done
qed

lemma wp_read_optional_in:
  assumes st: "inside w0 p s w" and plain: "\<not> is_link (s n)" "s n \<noteq> Some NOther" "\<nexists>es. s n = Some (NDir es)"
    and "s n = None \<Longrightarrow> Q (Ok None) w" and "\<And>bytes. s n = Some (NFile bytes) \<Longrightarrow> Q (Ok (Some bytes)) w"
  shows "wp (read_optional_file (p @ [n])) Q w"
  using assms
  by (auto simp: read_optional_file_def fs_read_def wp_simps insideD(3) [OF st] is_link_def split: option.split node.split)

end
