(* ===== verification/Cache_Recovery.thy ===== *)
theory Cache_Recovery
  imports Cache_Correct
begin

text \<open>
  What an interrupted promotion leaves of an entry, and that recovery brings back the previous
  generation or keeps the new one.
\<close>

section \<open>States of an entry\<close>

definition plain_file :: "node option \<Rightarrow> bool" where
  "plain_file m \<longleftrightarrow> m = None \<or> (\<exists>bytes. m = Some (NFile bytes))"

definition plain_tree :: "node option \<Rightarrow> bool" where
  "plain_tree m \<longleftrightarrow> m = None \<or> (\<exists>es. m = Some (NDir es))"

lemma plain_simps [simp]:
  "plain_file None" "plain_file (Some (NFile b))" "plain_tree None" "plain_tree (Some (NDir es))"
  "plain_file (map_option NFile c)"
  by (auto simp: plain_file_def plain_tree_def map_option_case split: option.split)

lemma is_link_simps [simp]:
  "\<not> is_link None" "\<not> is_link (Some (NFile b))" "\<not> is_link (Some (NDir es))" "\<not> is_link (Some NOther)"
  by (simp_all add: is_link_def)

lemma plain_file_Some: "plain_file m \<Longrightarrow> m = Some n \<Longrightarrow> \<exists>b. n = NFile b"
  by (auto simp: plain_file_def)

lemma plain_is_plain:
  "plain_file m \<Longrightarrow> \<not> is_link m \<and> m \<noteq> Some NOther \<and> (\<nexists>es. m = Some (NDir es))"
  "plain_tree m \<Longrightarrow> \<not> is_link m \<and> m \<noteq> Some NOther"
  by (auto simp: plain_file_def plain_tree_def is_link_def)

definition manifest_is_for ::
    "cache_promotion_journal_entry_v1 \<Rightarrow> cache_generation_manifest_v1 \<Rightarrow> bool" where
  "manifest_is_for j m \<longleftrightarrow>
     gm_schema_version m = GENERATION_SCHEMA_VERSION \<and> gm_key_digest m = ce_key_digest j \<and>
     gm_plan_digest m = ce_plan_digest j \<and> gm_generation m = ce_generation j \<and> gm_state m = ''complete''"

text \<open>The previous generation with its marker and manifest; the new one, marked complete.\<close>

definition previous_generation ::
    "cache_promotion_journal_entry_v1 \<Rightarrow> node \<Rightarrow> (string \<Rightarrow> node option) \<Rightarrow> bool" where
  "previous_generation j d s \<longleftrightarrow>
     s ''data'' = Some d \<and> s COMPLETE_FILE = map_option NFile (ce_previous_marker j) \<and>
     s GENERATION_MANIFEST_FILE = map_option NFile (ce_previous_manifest j)"

definition new_generation ::
    "cache_json \<Rightarrow> cache_promotion_journal_entry_v1 \<Rightarrow> node \<Rightarrow> (string \<Rightarrow> node option) \<Rightarrow> bool" where
  "new_generation cj j d s \<longleftrightarrow>
     s ''data'' = Some d \<and> s COMPLETE_FILE = Some (NFile COMPLETE_BYTES) \<and>
     (\<exists>bytes m. s GENERATION_MANIFEST_FILE = Some (NFile bytes) \<and> manifest_from_slice cj bytes = Ok m \<and>
        manifest_is_for j m)"

definition displaced :: "cache_promotion_journal_entry_v1 \<Rightarrow> node \<Rightarrow> (string \<Rightarrow> node option) \<Rightarrow> bool" where
  "displaced j d s \<longleftrightarrow>
     s (ce_backup_name j) = Some d \<and> plain_tree (s ''data'') \<and> plain_file (s COMPLETE_FILE) \<and>
     plain_file (s GENERATION_MANIFEST_FILE) \<and> (s ''data'' = None \<or> s COMPLETE_FILE \<noteq> Some (NFile COMPLETE_BYTES))"

definition recoverable ::
    "cache_json \<Rightarrow> cache_promotion_journal_entry_v1 \<Rightarrow> node \<Rightarrow> node \<Rightarrow> (string \<Rightarrow> node option) \<Rightarrow> bool" where
  "recoverable cj j old new s \<longleftrightarrow>
     plain_tree (s (ce_staging_name j)) \<and>
     (previous_generation j old s \<and> s (ce_backup_name j) = None \<or> displaced j old s \<or>
      new_generation cj j new s \<and> plain_tree (s (ce_backup_name j)))"

definition recovered ::
    "cache_json \<Rightarrow> cache_promotion_journal_entry_v1 \<Rightarrow> node \<Rightarrow> node \<Rightarrow> (string \<Rightarrow> node option) \<Rightarrow> bool" where
  "recovered cj j old new s \<longleftrightarrow>
     (previous_generation j old s \<or> new_generation cj j new s) \<and>
     s (ce_backup_name j) = None \<and> s (ce_staging_name j) = None"

text \<open>What the journal of a promotion records of an entry that had a generation.\<close>

definition journalled :: "cache_json \<Rightarrow> managed_cache \<Rightarrow> path \<Rightarrow> cache_promotion_journal_entry_v1 \<Rightarrow> bool" where
  "journalled cj cache p j \<longleftrightarrow>
     validated_digest_hex (ce_key_digest j) \<noteq> Err CacInvalidDigest \<and> p = entry_path cache \<lparr>ck_digest = ce_key_digest j\<rparr> \<and>
     validate_owned_name (ce_staging_name j) ''.staging-'' = Ok () \<and>
     validate_owned_name (ce_backup_name j) ''.backup-'' = Ok () \<and> ce_had_current j \<and>
     (ce_previous_marker j = Some COMPLETE_BYTES \<longrightarrow>
        (\<forall>bytes. ce_previous_manifest j = Some bytes \<longrightarrow> is_ok (manifest_from_slice cj bytes)))"

lemma owned_name_starts: "validate_owned_name n lead = Ok () \<Longrightarrow> \<exists>rest. n = lead @ rest"
  by (auto simp: validate_owned_name_def starts_with_iff prefix_def split: if_splits)

lemma journalled_names:
  assumes "journalled cj cache p j"
  shows "ce_staging_name j \<notin> {''data'', COMPLETE_FILE, GENERATION_MANIFEST_FILE, ENTRY_LOCK_FILE, ce_backup_name j}"
    "ce_backup_name j \<notin> {''data'', COMPLETE_FILE, GENERATION_MANIFEST_FILE, ENTRY_LOCK_FILE, ce_staging_name j}"
    "''data'' \<notin> {ce_staging_name j, ce_backup_name j}" "COMPLETE_FILE \<notin> {ce_staging_name j, ce_backup_name j}"
    "GENERATION_MANIFEST_FILE \<notin> {ce_staging_name j, ce_backup_name j}" "ENTRY_LOCK_FILE \<notin> {ce_staging_name j, ce_backup_name j}"
  using assms
  by (auto simp: journalled_def COMPLETE_FILE_def GENERATION_MANIFEST_FILE_def ENTRY_LOCK_FILE_def
      dest!: owned_name_starts)

lemma journalled_key: "journalled cj cache p j \<Longrightarrow> journal_key j = Ok \<lparr>ck_digest = ce_key_digest j\<rparr>"
  by (auto simp: journalled_def journal_key_def validated_digest_hex_def result_simps split: option.splits if_splits)

section \<open>Recovering one entry\<close>

lemma name_simps [simp]:
  "COMPLETE_FILE \<noteq> ''data''" "GENERATION_MANIFEST_FILE \<noteq> ''data''" "COMPLETE_FILE \<noteq> GENERATION_MANIFEST_FILE"
  "ENTRY_LOCK_FILE \<noteq> ''data''" "ENTRY_LOCK_FILE \<noteq> COMPLETE_FILE" "ENTRY_LOCK_FILE \<noteq> GENERATION_MANIFEST_FILE"
  "''data'' \<noteq> COMPLETE_FILE" "''data'' \<noteq> GENERATION_MANIFEST_FILE" "GENERATION_MANIFEST_FILE \<noteq> COMPLETE_FILE"
  "''data'' \<noteq> ENTRY_LOCK_FILE" "COMPLETE_FILE \<noteq> ENTRY_LOCK_FILE" "GENERATION_MANIFEST_FILE \<noteq> ENTRY_LOCK_FILE"
  by (simp_all add: COMPLETE_FILE_def GENERATION_MANIFEST_FILE_def ENTRY_LOCK_FILE_def)

definition is_complete_for ::
    "cache_json \<Rightarrow> cache_promotion_journal_entry_v1 \<Rightarrow> (string \<Rightarrow> node option) \<Rightarrow> bool" where
  "is_complete_for cj j s \<longleftrightarrow> (\<exists>d. s ''data'' = Some d \<and> new_generation cj j d s)"

lemma wp_current_complete:
  assumes st: "inside w0 p s w"
    and plain: "plain_tree (s ''data'')" "plain_file (s COMPLETE_FILE)" "plain_file (s GENERATION_MANIFEST_FILE)"
    and readable: "\<And>bytes. s ''data'' \<noteq> None \<Longrightarrow> s COMPLETE_FILE = Some (NFile COMPLETE_BYTES) \<Longrightarrow>
      s GENERATION_MANIFEST_FILE = Some (NFile bytes) \<Longrightarrow> is_ok (manifest_from_slice cj bytes)"
    and fin: "Q (Ok (is_complete_for cj j s)) w"
  shows "wp (current_generation_is_complete cj (p @ [''data'']) (p @ [COMPLETE_FILE]) (p @ [GENERATION_MANIFEST_FILE]) j) Q w"
proof (cases "s ''data''")
  case None
  then have "Q (Ok False) w" using fin by (simp add: is_complete_for_def)
  with None show ?thesis by (simp add: current_generation_is_complete_def wp_simps insideD(3) [OF st])
next
  case (Some d)
  then obtain es where d: "d = NDir es" using plain(1) by (auto simp: plain_tree_def)
  have marker: "wp (read_optional_file (p @ [COMPLETE_FILE])) R w"
    if "s COMPLETE_FILE = None \<Longrightarrow> R (Ok None) w" "\<And>b. s COMPLETE_FILE = Some (NFile b) \<Longrightarrow> R (Ok (Some b)) w" for R
    using plain_is_plain(1) [OF plain(2)] that by (intro wp_read_optional_in [OF st]) auto
  have manifest: "wp (read_optional_file (p @ [GENERATION_MANIFEST_FILE])) R w"
    if "s GENERATION_MANIFEST_FILE = None \<Longrightarrow> R (Ok None) w"
      "\<And>b. s GENERATION_MANIFEST_FILE = Some (NFile b) \<Longrightarrow> R (Ok (Some b)) w" for R
    using plain_is_plain(1) [OF plain(3)] that by (intro wp_read_optional_in [OF st]) auto
  have no: "Q (Ok False) w" if "\<not> is_complete_for cj j s" using fin that by simp
  show ?thesis
    apply (simp add: current_generation_is_complete_def wp_simps insideD(3) [OF st] Some d)
    apply (rule marker)
     apply (simp add: wp_simps, rule no, simp add: is_complete_for_def new_generation_def)
    apply (simp add: wp_simps)
    apply (intro conjI impI)
     apply (rule no, simp add: is_complete_for_def new_generation_def)
    apply (rule manifest)
     apply (simp add: wp_simps, rule no, simp add: is_complete_for_def new_generation_def)
    apply (frule readable [rotated 2])
      apply (use Some fin d in \<open>auto simp: wp_simps is_ok_def result_simps is_complete_for_def new_generation_def
        manifest_is_for_def split: sum.splits\<close>)
    done
qed

lemma wp_matches_previous:
  assumes st: "inside w0 p s w" and prev: "previous_generation j (NDir es) s" and fin: "Q (Ok True) w"
  shows "wp (current_matches_previous (p @ [''data'']) (p @ [COMPLETE_FILE]) (p @ [GENERATION_MANIFEST_FILE]) j) Q w"
proof -
  have read: "wp (read_optional_file (p @ [n])) R w" if "s n = map_option NFile b" "R (Ok b) w" for n b R
    using that by (intro wp_read_optional_in [OF st]) (auto simp: is_link_def map_option_case split: option.splits)
  show ?thesis
    using prev
    apply (simp add: current_matches_previous_def wp_simps insideD(3) [OF st] previous_generation_def)
    apply (rule read [of COMPLETE_FILE])
     apply simp
    apply (simp add: wp_simps)
    apply (rule read [of GENERATION_MANIFEST_FILE])
     apply simp
    apply (simp add: wp_simps fin)
    done
qed

lemma wp_restore_in:
  assumes st: "inside w0 p s w" and quiet: "cw_power w0 = None" and plain: "s n = None"
    and fin: "\<And>w'. inside w0 p (s(n := map_option NFile bytes)) w' \<Longrightarrow> Q (Ok ()) w'"
  shows "wp (restore_optional_file (p @ [n]) bytes) Q w"
proof -
  have gone: "wp (cache_remove_if_present (p @ [n])) R w" if "R (Ok ()) w" for R
    using that plain by (simp add: cache_remove_if_present_def wp_simps insideD(3) [OF st])
  show ?thesis
  proof (cases bytes)
    case None
    with fin st plain show ?thesis
      by (auto simp: restore_optional_file_def wp_simps intro!: gone) (simp add: fun_upd_idem)
  next
    case (Some b)
    show ?thesis
      unfolding restore_optional_file_def wp_simps
      apply (rule gone)
      apply (simp add: Some)
      apply (rule wp_write_new_in [OF st plain])
      using fin by (simp_all add: Some quiet)
  qed
qed

lemma attempt_of_ok [simp]: "attempt (of_result (Ok x)) k = k x"
  by (simp add: attempt_def of_result_def)

text \<open>Recovery of an entry that had a generation.\<close>

lemma journalled_recovery:
  assumes "journalled cj cache p j"
  shows "recover_entry cj cache j =
    attempt (current_generation_is_complete cj (p @ [''data'']) (p @ [COMPLETE_FILE]) (p @ [GENERATION_MANIFEST_FILE]) j)
      (\<lambda>complete.
         if complete
         then attempt (cache_remove_if_present (p @ [ce_backup_name j])) (\<lambda>_. cache_remove_if_present (p @ [ce_staging_name j]))
         else do {
           has_backup \<leftarrow> fs_exists (p @ [ce_backup_name j]);
           if has_backup
           then
             attempt (cache_remove_if_present (p @ [''data''])) (\<lambda>_.
             attempt (cache_remove_if_present (p @ [COMPLETE_FILE])) (\<lambda>_.
             attempt (cache_remove_if_present (p @ [GENERATION_MANIFEST_FILE])) (\<lambda>_.
             attempt (fs_rename (p @ [ce_backup_name j]) (p @ [''data''])) (\<lambda>_.
             attempt (restore_optional_file (p @ [GENERATION_MANIFEST_FILE]) (ce_previous_manifest j)) (\<lambda>_.
             attempt (restore_optional_file (p @ [COMPLETE_FILE]) (ce_previous_marker j)) (\<lambda>_.
             cache_remove_if_present (p @ [ce_staging_name j])))))))
           else
             attempt (current_matches_previous (p @ [''data'']) (p @ [COMPLETE_FILE]) (p @ [GENERATION_MANIFEST_FILE]) j)
               (\<lambda>same. if same then cache_remove_if_present (p @ [ce_staging_name j]) else fail CacPromotionUncertain) })"
  using assms journalled_key [OF assms]
  by (simp add: recover_entry_def journalled_def Let_def cong: if_cong)

lemma recover_entry_restores:
  assumes st: "inside w0 p s w" and quiet: "cw_power w0 = None" and j: "journalled cj cache p j"
    and displaced: "displaced j (NDir es) s" and staging: "plain_tree (s (ce_staging_name j))"
  shows "wp (recover_entry cj cache j) (\<lambda>r w'. r = Ok () \<and> (\<exists>s'. inside w0 p s' w' \<and>
    previous_generation j (NDir es) s' \<and> s' (ce_backup_name j) = None \<and> s' (ce_staging_name j) = None)) w"
proof -
  note names = journalled_names [OF j] and key = journalled_key [OF j]
  note plain = displaced [unfolded displaced_def]
  have not_complete: "\<not> is_complete_for cj j s"
    using displaced by (auto simp: displaced_def is_complete_for_def new_generation_def)
  show ?thesis
    apply (simp add: journalled_recovery [OF j] wp_simps)
    apply (rule wp_current_complete [OF st])
        apply (use plain in auto)[4]
    apply (simp add: not_complete wp_simps inside_exists [OF st] plain)
    apply (rule wp_remove_in [OF st])
       apply (use plain_is_plain(2) plain in blast)
      apply (use plain_is_plain(2) plain in blast)
     apply (simp add: wp_simps)
     apply (erule wp_remove_in)
        apply (use plain_is_plain(1) plain in simp)
       apply (use plain_is_plain(1) plain in simp)
      apply (simp add: wp_simps)
      apply (erule wp_remove_in)
         apply (use plain_is_plain(1) plain in simp)
        apply (use plain_is_plain(1) plain in simp)
       apply (simp add: wp_simps)
       apply (erule wp_rename_in)
           apply (use names plain in simp)
          apply (use names plain in simp)
         apply (use names in auto)[1]
        apply (simp add: wp_simps)
        apply (erule wp_restore_in [OF _ quiet])
         apply (use names in simp)
        apply (simp add: wp_simps)
        apply (erule wp_restore_in [OF _ quiet])
         apply (use names in simp)
        apply (simp add: wp_simps)
        apply (erule wp_remove_in)
           apply (use plain_is_plain(2) [OF staging] names in simp)
          apply (use plain_is_plain(2) [OF staging] names in simp)
         apply (rule conjI [OF refl], rule exI, erule conjI)
         apply (use names in \<open>auto simp: previous_generation_def\<close>)[1]
        apply (simp_all add: quiet)
    done
qed

lemma recover_entry_keeps_new:
  assumes st: "inside w0 p s w" and quiet: "cw_power w0 = None" and j: "journalled cj cache p j"
    and new: "is_complete_for cj j s" "plain_tree (s ''data'')" and staging: "plain_tree (s (ce_staging_name j))"
    and backup: "plain_tree (s (ce_backup_name j))"
  shows "wp (recover_entry cj cache j) (\<lambda>r w'. r = Ok () \<and>
    inside w0 p (s(ce_backup_name j := None, ce_staging_name j := None)) w') w"
proof -
  note names = journalled_names [OF j]
  show ?thesis
    apply (simp add: journalled_recovery [OF j] wp_simps)
    apply (rule wp_current_complete [OF st])
        apply (use new in \<open>auto simp: is_complete_for_def new_generation_def is_ok_def\<close>)[4]
    apply (simp add: new wp_simps)
    apply (rule wp_remove_in [OF st])
       apply (use plain_is_plain(2) [OF backup] in blast)
      apply (use plain_is_plain(2) [OF backup] in blast)
     apply (simp add: wp_simps)
     apply (erule wp_remove_in)
        apply (use plain_is_plain(2) [OF staging] names in simp)
       apply (use plain_is_plain(2) [OF staging] names in simp)
      apply (simp_all add: quiet)
    done
qed

lemma recover_entry_keeps_previous:
  assumes st: "inside w0 p s w" and quiet: "cw_power w0 = None" and j: "journalled cj cache p j"
    and old: "previous_generation j (NDir es) s" "s (ce_backup_name j) = None" "\<not> is_complete_for cj j s"
    and staging: "plain_tree (s (ce_staging_name j))"
  shows "wp (recover_entry cj cache j) (\<lambda>r w'. r = Ok () \<and> inside w0 p (s(ce_staging_name j := None)) w') w"
proof -
  have readable: "is_ok (manifest_from_slice cj bytes)"
    if "s COMPLETE_FILE = Some (NFile COMPLETE_BYTES)" "s GENERATION_MANIFEST_FILE = Some (NFile bytes)" for bytes
    using j old(1) that by (cases "ce_previous_marker j"; cases "ce_previous_manifest j")
      (auto simp: journalled_def previous_generation_def)
  show ?thesis
    apply (simp add: journalled_recovery [OF j] wp_simps)
    apply (rule wp_current_complete [OF st])
        apply (use old(1) in \<open>auto simp: previous_generation_def\<close>)[3]
     apply (erule (1) readable)
    apply (simp add: old wp_simps inside_exists [OF st])
    apply (rule wp_matches_previous [OF st old(1)])
    apply (simp add: wp_simps)
    apply (rule wp_remove_in [OF st])
       apply (use plain_is_plain(2) [OF staging] in blast)
      apply (use plain_is_plain(2) [OF staging] in blast)
     apply (simp_all add: quiet)
    done
qed

lemma previous_generation_upd:
  "n \<notin> {''data'', COMPLETE_FILE, GENERATION_MANIFEST_FILE} \<Longrightarrow>
     previous_generation j d (s(n := v)) = previous_generation j d s"
  "n \<notin> {''data'', COMPLETE_FILE, GENERATION_MANIFEST_FILE} \<Longrightarrow>
     new_generation cj j d (s(n := v)) = new_generation cj j d s"
  by (auto simp: previous_generation_def new_generation_def)

lemma recover_entry_recovers:
  assumes st: "inside w0 p s w" and quiet: "cw_power w0 = None" and j: "journalled cj cache p j"
    and s: "recoverable cj j (NDir es) (NDir fs) s"
  shows "wp (recover_entry cj cache j) (\<lambda>r w'. r = Ok () \<and>
    (\<exists>s'. inside w0 p s' w' \<and> recovered cj j (NDir es) (NDir fs) s')) w"
proof -
  note names = journalled_names [OF j]
  let ?d = "s(ce_backup_name j := None, ce_staging_name j := None)"
  have staging: "plain_tree (s (ce_staging_name j))" using s by (simp add: recoverable_def)
  consider
      (new) "new_generation cj j (NDir fs) s" "plain_tree (s (ce_backup_name j))"
    | (old) "previous_generation j (NDir es) s" "s (ce_backup_name j) = None"
    | (displaced) "displaced j (NDir es) s"
    using s by (auto simp: recoverable_def)
  then show ?thesis
  proof cases
    case new
    then have "is_complete_for cj j s" "plain_tree (s ''data'')"
      by (auto simp: is_complete_for_def new_generation_def)
    from recover_entry_keeps_new [OF st quiet j this staging new(2)] show ?thesis
      by (rule wp_mono) (use new(1) names in \<open>auto simp: recovered_def previous_generation_upd intro!: exI [of _ ?d]\<close>)
  next
    case old
    show ?thesis
    proof (cases "is_complete_for cj j s")
      case True
      from old have "plain_tree (s ''data'')" "plain_tree (s (ce_backup_name j))"
        by (simp_all add: previous_generation_def)
      from recover_entry_keeps_new [OF st quiet j True this(1) staging this(2)] show ?thesis
        by (rule wp_mono) (use old names in \<open>auto simp: recovered_def previous_generation_upd intro!: exI [of _ ?d]\<close>)
    next
      case False
      from recover_entry_keeps_previous [OF st quiet j old False staging] show ?thesis
        by (rule wp_mono) (use old names in \<open>auto simp: recovered_def previous_generation_upd
          intro!: exI [of _ "s(ce_staging_name j := None)"]\<close>)
    qed
  next
    case displaced
    from recover_entry_restores [OF st quiet j displaced staging] show ?thesis
      by (rule wp_mono) (auto simp: recovered_def)
  qed
qed

section \<open>Recovering all entries of a journal\<close>

text \<open>Changes confined to a directory, as several entries see them.\<close>

definition confined :: "path \<Rightarrow> cache_world \<Rightarrow> cache_world \<Rightarrow> bool" where
  "confined p w w' \<longleftrightarrow>
     tree_wf (tr w') \<and> is_dir (tr w') p \<and> (\<forall>q. p \<parallel> q \<longrightarrow> lookup (tr w') q = lookup (tr w) q) \<and> keeps_power w w'"

lemma inside_confined: "inside w0 p s w \<Longrightarrow> confined p w0 w \<and> slots (tr w) p = s \<and> cw_locks w = cw_locks w0"
  by (simp add: inside_def confined_def)

lemma confined_other:
  assumes "confined p w w'" and "p \<parallel> q"
  shows "slots (tr w') q = slots (tr w) q" "is_dir (tr w') q = is_dir (tr w) q" "lookup (tr w') q = lookup (tr w) q"
  using assms by (auto simp: confined_def slots_def fun_eq_iff is_dir_def append_parallel)

lemma wp_acquire_entry_lock:
  assumes wf: "tree_wf (tr w)" "is_dir (tr w) p" and quiet: "cw_power w = None"
    and lock: "plain_file (slots (tr w) p ENTRY_LOCK_FILE)" and free: "p @ [ENTRY_LOCK_FILE] \<notin> set (cw_locks w)"
    and fin: "\<And>w' b. confined p w w' \<Longrightarrow> slots (tr w') p = (slots (tr w) p)(ENTRY_LOCK_FILE := Some (NFile b)) \<Longrightarrow>
      cw_locks w' = (p @ [ENTRY_LOCK_FILE]) # cw_locks w \<Longrightarrow> Q (Ok (p @ [ENTRY_LOCK_FILE])) w'"
  shows "wp (acquire_entry_lock p) Q w"
proof -
  let ?l = "p @ [ENTRY_LOCK_FILE]" and ?s = "slots (tr w) p"
  have st: "inside w p ?s w" by (rule inside_refl [OF wf])
  have written: "wp (do { locked \<leftarrow> try_lock_exclusive ?l;
      if \<not> locked then fail (CacLockBusy ?l)
      else or_unlock [?l] (do { pid \<leftarrow> process_id;
        attempt (fs_truncate ?l) (\<lambda>_. attempt (fs_append ?l [] (lock_owner_text ''cache entry'' pid)) (\<lambda>_. ok ?l)) }) }) Q v"
    if v: "inside w p (?s(ENTRY_LOCK_FILE := Some (NFile b))) v" for v b
  proof -
    let ?v = "v\<lparr>cw_locks := ?l # cw_locks v\<rparr>"
    have v': "inside ?v p (?s(ENTRY_LOCK_FILE := Some (NFile b))) ?v" and pw: "cw_power v = None"
      using v quiet by (auto simp: inside_def keeps_power_def)
    have held: "Q (Ok ?l) w'" if "inside ?v p (?s(ENTRY_LOCK_FILE := Some (NFile c))) w'" for w' c
      by (rule fin) (use that v in \<open>auto simp: inside_def confined_def keeps_power_def\<close>)
    have lk: "wp (try_lock_exclusive ?l) R v = R True ?v" for R
      using free v by (simp add: try_lock_exclusive_def wp_def inside_def)
    show ?thesis
      apply (simp only: wp_bind lk or_unlock_def if_False simp_thms wp_process_id wp_attempt)
      apply (rule wp_truncate_in [OF v'])
        apply simp
       apply (simp only: sum.case wp_attempt)
       apply (rule wp_append_in)
          apply assumption
         apply simp
        apply (simp add: wp_simps is_ok_def held)
       apply (simp_all add: pw)
      done
  qed
  show ?thesis
    apply (simp only: acquire_entry_lock_def acquire_advisory_lock_with_mode_def wp_bind wp_fs_metadata wp_attempt
        insideD(3) [OF st] if_True)
    apply (cases "?s ENTRY_LOCK_FILE")
     apply (simp only: option.case)
     apply (rule wp_create_in [OF st])
        apply simp_all[2]
      apply (simp only: sum.case)
      apply (erule written [unfolded wp_bind])
     apply (simp add: quiet)
    apply (frule plain_file_Some [OF lock], erule exE)
    apply (simp only: option.case node.case wp_ok sum.case)
    subgoal for n b
      by (rule written [unfolded wp_bind, of b]) (use st in \<open>simp add: fun_upd_idem\<close>)
    done
qed

text \<open>The entries of a journal, each with its previous and its new tree.\<close>

type_synonym generations = "(cache_promotion_journal_entry_v1 \<times> (string \<times> node) list \<times> (string \<times> node) list) list"

definition place :: "managed_cache \<Rightarrow> cache_promotion_journal_entry_v1 \<Rightarrow> path" where
  "place cache j = entry_path cache \<lparr>ck_digest = ce_key_digest j\<rparr>"

definition all_entries ::
    "(cache_promotion_journal_entry_v1 \<Rightarrow> node \<Rightarrow> node \<Rightarrow> (string \<Rightarrow> node option) \<Rightarrow> bool) \<Rightarrow>
       managed_cache \<Rightarrow> generations \<Rightarrow> cache_world \<Rightarrow> bool" where
  "all_entries P cache gens w \<longleftrightarrow>
     (\<forall>(j, old, new) \<in> set gens. is_dir (tr w) (place cache j) \<and> P j (NDir old) (NDir new) (slots (tr w) (place cache j)))"

abbreviation places :: "managed_cache \<Rightarrow> generations \<Rightarrow> path list" where
  "places cache gens \<equiv> map (\<lambda>g. place cache (fst g)) gens"

lemma all_entries_Nil [simp]: "all_entries P cache [] w"
  by (simp add: all_entries_def)

lemma all_entries_Cons [simp]:
  "all_entries P cache ((j, old, new) # gens) w \<longleftrightarrow>
     is_dir (tr w) (place cache j) \<and> P j (NDir old) (NDir new) (slots (tr w) (place cache j)) \<and> all_entries P cache gens w"
  by (auto simp: all_entries_def)

lemma places_parallel: "place cache j \<noteq> place cache k \<Longrightarrow> place cache j \<parallel> place cache k"
  by (simp add: place_def entry_path_def root_entry_path_def not_equal_is_parallel)

lemma all_entries_confined:
  assumes "confined (place cache j) w w'" and "place cache j \<notin> set (places cache gens)"
  shows "all_entries P cache gens w' = all_entries P cache gens w"
proof -
  have "slots (tr w') (place cache (fst g)) = slots (tr w) (place cache (fst g)) \<and>
      is_dir (tr w') (place cache (fst g)) = is_dir (tr w) (place cache (fst g))" if "g \<in> set gens" for g
    using that assms by (intro conjI confined_other [OF assms(1)] places_parallel) auto
  then show ?thesis by (auto simp: all_entries_def)
qed

lemma all_entries_mono: "all_entries P cache gens w \<Longrightarrow> (\<And>j old new s. P j old new s \<Longrightarrow> R j old new s) \<Longrightarrow> all_entries R cache gens w"
  by (fastforce simp: all_entries_def)

text \<open>Everything outside of the entries.\<close>

definition elsewhere :: "path list \<Rightarrow> cache_world \<Rightarrow> cache_world \<Rightarrow> bool" where
  "elsewhere ps w w' \<longleftrightarrow> tree_wf (tr w') \<and> keeps_power w w' \<and>
     (\<forall>q. (\<forall>p \<in> set ps. p \<parallel> q) \<longrightarrow> lookup (tr w') q = lookup (tr w) q)"

lemma elsewhere_refl: "tree_wf (tr w) \<Longrightarrow> elsewhere ps w w"
  by (simp add: elsewhere_def keeps_power_def)

lemma elsewhere_Cons: "confined p w w' \<Longrightarrow> elsewhere ps w' w'' \<Longrightarrow> elsewhere (p # ps) w w''"
  by (auto simp: elsewhere_def confined_def keeps_power_def)

text \<open>
  A loop over entries that works inside one entry at a time. \<open>P\<close> holds of every entry before, \<open>T\<close> after
  a run to the end, \<open>R\<close> in any case. A loop that is \<open>sure\<close> ends well while the power lasts.
\<close>

fun each :: "('x \<Rightarrow> unit cache) \<Rightarrow> 'x list \<Rightarrow> unit cache" where
  "each f [] = ok ()"
| "each f (x # xs) = attempt (f x) (\<lambda>_. each f xs)"

definition step_outcome where
  "step_outcome sure R T w0 p r w' \<longleftrightarrow>
     (\<exists>s'. inside w0 p s' w' \<and> R s' \<and> (r = (Ok () :: (cache_error, unit) result) \<longrightarrow> T s') \<and>
        (sure \<longrightarrow> r = Ok ()))"

definition loop_outcome where
  "loop_outcome sure R T cache gens w r w' \<longleftrightarrow>
     all_entries R cache gens w' \<and> (r = (Ok () :: (cache_error, unit) result) \<longrightarrow> all_entries T cache gens w') \<and>
     (sure \<longrightarrow> r = Ok ()) \<and> elsewhere (places cache gens) w w' \<and> cw_locks w' = cw_locks w"

lemma elsewhere_entry:
  assumes "elsewhere (places cache gens) w w'" and "place cache j \<notin> set (places cache gens)"
  shows "slots (tr w') (place cache j) = slots (tr w) (place cache j)" "is_dir (tr w') (place cache j) = is_dir (tr w) (place cache j)"
proof -
  have "\<forall>q\<in>set (places cache gens). q \<parallel> place cache j" using assms(2) by (force intro!: places_parallel)
  then show "slots (tr w') (place cache j) = slots (tr w) (place cache j)" "is_dir (tr w') (place cache j) = is_dir (tr w) (place cache j)"
    using assms(1) by (auto simp: elsewhere_def slots_def fun_eq_iff is_dir_def append_parallel)
qed

lemma each_outcome:
  assumes "tree_wf (tr w)" "distinct (places cache (map g xs))" "all_entries P cache (map g xs) w"
    and "sure \<Longrightarrow> cw_power w = None"
    and "\<And>x j old new s w. x \<in> set xs \<Longrightarrow> g x = (j, old, new) \<Longrightarrow> inside w (place cache j) s w \<Longrightarrow>
      (sure \<Longrightarrow> cw_power w = None) \<Longrightarrow> P j (NDir old) (NDir new) s \<Longrightarrow>
      wp (f x) (step_outcome sure (R j (NDir old) (NDir new)) (T j (NDir old) (NDir new)) w (place cache j)) w"
    and PR: "\<And>j old new s. P j old new s \<Longrightarrow> R j old new s"
  shows "wp (each f xs) (loop_outcome sure R T cache (map g xs) w) w"
  using assms(1-5)
proof (induction xs arbitrary: w)
  case Nil
  then show ?case by (simp add: wp_simps loop_outcome_def elsewhere_refl)
next
  case (Cons x xs)
  obtain j old new where g: "g x = (j, old, new)" by (cases "g x")
  let ?p = "place cache j" and ?gens = "map g xs"
  have fresh: "?p \<notin> set (places cache ?gens)" using Cons.prems(2) g by simp
  have st: "inside w ?p (slots (tr w) ?p) w" using Cons.prems(1,3) g by (simp add: inside_refl)
  have "wp (f x) (step_outcome sure (R j (NDir old) (NDir new)) (T j (NDir old) (NDir new)) w ?p) w"
    by (rule Cons.prems(5) [OF _ g st]) (use Cons.prems(3,4) g in auto)
  then show ?case
    unfolding each.simps wp_attempt
  proof (rule wp_mono)
    fix r w'
    assume "step_outcome sure (R j (NDir old) (NDir new)) (T j (NDir old) (NDir new)) w ?p r w'"
    then obtain s' where s': "inside w ?p s' w'" "R j (NDir old) (NDir new) s'" "r = Ok () \<longrightarrow> T j (NDir old) (NDir new) s'"
      "sure \<longrightarrow> r = Ok ()"
      by (auto simp: step_outcome_def)
    have c: "confined ?p w w'" and sl: "slots (tr w') ?p = s'" and lk: "cw_locks w' = cw_locks w"
      using inside_confined [OF s'(1)] by auto
    have rest: "all_entries P cache ?gens w'"
      using Cons.prems(3) g by (simp add: all_entries_confined [OF c fresh])
    show "(case r of Inl e \<Rightarrow> loop_outcome sure R T cache (map g (x # xs)) w (Inl e)
        | Inr _ \<Rightarrow> wp (each f xs) (loop_outcome sure R T cache (map g (x # xs)) w)) w'"
    proof (cases r)
      case (Inl e)
      with s' c sl lk rest PR show ?thesis
        by (auto simp: loop_outcome_def g confined_def elsewhere_def intro: all_entries_mono)
    next
      case (Inr u)
      have "wp (each f xs) (loop_outcome sure R T cache ?gens w') w'"
        using c Cons.prems(2,4) rest by (intro Cons.IH Cons.prems(5)) (auto simp: confined_def keeps_power_def)
      then have "wp (each f xs) (loop_outcome sure R T cache (map g (x # xs)) w) w'"
      proof (rule wp_mono)
        fix r' w''
        assume o: "loop_outcome sure R T cache ?gens w' r' w''"
        then have e: "elsewhere (places cache ?gens) w' w''" by (simp add: loop_outcome_def)
        from elsewhere_entry [OF e fresh] c sl
        have "slots (tr w'') ?p = s'" "is_dir (tr w'') ?p" by (auto simp: confined_def)
        with o s' Inr lk elsewhere_Cons [OF c e] c show "loop_outcome sure R T cache (map g (x # xs)) w r' w''"
          by (auto simp: loop_outcome_def g confined_def keeps_power_def)
      qed
      with Inr show ?thesis by simp
    qed
  qed
qed

lemma recover_entries_each: "recover_entries cj cache (map fst gens) = each (\<lambda>g. recover_entry cj cache (fst g)) gens"
  by (induction gens) simp_all

lemma recover_entries_recover:
  assumes wf: "tree_wf (tr w)" "distinct (places cache gens)" and quiet: "cw_power w = None"
    and j: "\<And>g. g \<in> set gens \<Longrightarrow> journalled cj cache (place cache (fst g)) (fst g)"
    and rec: "all_entries (recoverable cj) cache gens w"
  shows "wp (recover_entries cj cache (map fst gens)) (loop_outcome True (\<lambda>_ _ _ _. True) (recovered cj) cache gens w) w"
proof -
  let ?f = "\<lambda>g. recover_entry cj cache (fst g)" and ?T = "\<lambda>_ _ _ _. True"
  have step: "wp (?f x) (step_outcome True (?T j (NDir old) (NDir new)) (recovered cj j (NDir old) (NDir new)) v (place cache j)) v"
    if x: "x \<in> set gens" "id x = (j, old, new)" and v: "inside v (place cache j) s v" "True \<Longrightarrow> cw_power v = None"
      and s: "recoverable cj j (NDir old) (NDir new) s" for x j old new s v
  proof -
    from x assms(4) have "journalled cj cache (place cache j) j" by force
    from recover_entry_recovers [OF v(1) v(2) [OF TrueI] this s] x(2) show ?thesis
      by (auto simp: step_outcome_def elim!: wp_mono)
  qed
  have "wp (each ?f gens) (loop_outcome True ?T (recovered cj) cache (map id gens) w) w"
    by (rule each_outcome [where P = "recoverable cj"]) (use assms step in simp_all)
  then show ?thesis by (simp add: recover_entries_each)
qed

end
