(* ===== verification/Cache_Promote.thy ===== *)
theory Cache_Promote
  imports Cache_Recovery
begin

text \<open>
  A promotion, stopped anywhere: every entry stays in a state from which recovery brings back the
  previous generation or keeps the new one.
\<close>

section \<open>Changes below an object\<close>

lemma lookup_below: "inside w0 p s w \<Longrightarrow> lookup (tr w) (p @ [n, x]) = Option.bind (s n) (\<lambda>m. lookup m [x])"
  using lookup_append [of "tr w" "p @ [n]" "[x]"] by (simp add: insideD(3))

lemma below_is_dir: "lookup t (p @ [n]) = Some m \<Longrightarrow> is_dir t p"
  by (cases "lookup t p") (auto simp: lookup_append is_dir_def elim: lookup.elims)

lemma inside_below:
  assumes st: "inside w0 p s w" and wf: "tree_wf (tr w')" and m: "lookup (tr w') (p @ [n]) = Some m"
    and frame: "\<And>q. p @ [n] \<parallel> q \<Longrightarrow> lookup (tr w') q = lookup (tr w) q"
    and "cw_locks w' = cw_locks w" "keeps_power w w'"
  shows "inside w0 p (s(n := Some m)) w'"
proof -
  have "slots (tr w') p k = (s(n := Some m)) k" for k
    using m frame [of "p @ [k]"] insideD(3) [OF st, of k] by (auto simp: slots_def snoc_parallel)
  then show ?thesis
    using assms below_is_dir [OF m] by (auto simp: inside_def append_parallel keeps_power_def fun_eq_iff)
qed

lemma wp_rename_out:
  assumes st: "inside w0 p s w" and dir: "s n = Some (NDir es)" and src: "map_of es x = Some v"
    and free: "s m = None"
    and fin: "\<And>w'. inside w0 p (s(n := Some (NDir (filter (\<lambda>e. fst e \<noteq> x) es)), m := Some v)) w' \<Longrightarrow> Q (Ok ()) w'"
    and cut: "cw_power w0 \<noteq> None \<Longrightarrow> Q (Err (CacIo power_lost)) w"
  shows "wp (fs_rename (p @ [n, x]) (p @ [m])) Q w"
proof -
  obtain ps where top: "lookup (tr w) p = Some (NDir ps)" using insideD(2) [OF st] by (auto simp: is_dir_def)
  have wf: "tree_wf (tr w)" using insideD(1) [OF st] .
  have d: "lookup (tr w) (p @ [n]) = Some (NDir es)" using insideD(3) [OF st] dir by simp
  have v: "tree_wf v" using child_wf [of es x v] lookup_wf [OF wf d] src by simp
  have short: "take (length p + 2) (p @ [m]) \<noteq> p @ [n, x]" by simp
  let ?u = "put_tree (del (p @ [n, x]) (tr w)) w"
  have "inside w0 p (s(n := Some (NDir (filter (\<lambda>e. fst e \<noteq> x) es)))) ?u"
  proof (rule inside_below [OF st])
    show "lookup (tr ?u) (p @ [n]) = Some (NDir (filter (\<lambda>e. fst e \<noteq> x) es))"
      using lookup_del_dir [OF wf d, of x] by (simp add: put_tree_def)
    show "lookup (tr ?u) q = lookup (tr w) q" if "p @ [n] \<parallel> q" for q
      using lookup_del_other [OF wf append_parallel(1) [OF that, of "[x]"]] by (simp add: put_tree_def)
  qed (simp_all add: put_tree_def keeps_power_def del_wf wf)
  then have moved: "inside w0 p (s(n := Some (NDir (filter (\<lambda>e. fst e \<noteq> x) es)), m := Some v)) w'"
    if "tr w' = put (p @ [m]) v (del (p @ [n, x]) (tr w))" "cw_locks w' = cw_locks w" "keeps_power w w'" for w'
    by (rule inside_put) (use that v in \<open>simp_all add: put_tree_def keeps_power_def\<close>)
  show ?thesis
    using short
    apply (simp add: fs_rename_def wp_simps lookup_below [OF st] insideD(3) [OF st] dir src free top)
    apply (rule wp_change_inside [OF st])
     prefer 2 apply (erule cut)
    apply (rule fin)
    apply (rule moved)
      apply simp_all
    done
qed

section \<open>Replacing a manifest\<close>

lemma atomic_replace_below:
  assumes wf: "tree_wf (dk_tree k)" and dir: "lookup (dk_tree k) d = Some (NDir es)" and tmp: "tmp \<noteq> g"
  shows "wp (atomic_replace tmp (d @ [g]) bytes) (\<lambda>r k'.
    tree_wf (dk_tree k') \<and> (\<forall>q. d \<parallel> q \<longrightarrow> lookup (dk_tree k') q = lookup (dk_tree k) q) \<and>
    (\<exists>fs. lookup (dk_tree k') d = Some (NDir fs) \<and>
       (r = Ok () \<longrightarrow> (\<forall>x. map_of fs x = ((map_of es)(g := Some (NFile bytes))) x)))) k"
proof (cases "lookup (dk_tree k) (d @ [tmp])")
  case None
  have wf_es: "bt_inv es" using lookup_wf [OF wf dir] by simp
  show ?thesis
    using None tmp wf
    by (intro wp_mono [OF atomic_replace_outcome [OF wf, of "d @ [g]"]])
      (auto simp: put_wf lookup_put_other append_parallel lookup_put_dir [OF wf dir] map_of_bt_insert wf_es dir)
next
  case (Some m)
  have gone: "lookup (del (d @ [tmp]) (dk_tree k)) d = Some (NDir (filter (\<lambda>e. fst e \<noteq> tmp) es))"
    by (rule lookup_del_dir [OF wf dir])
  have failed: "wp (write_and_rename d (d @ [tmp]) (d @ [g]) bytes) (\<lambda>r k'. r \<noteq> Ok () \<and> dk_tree k' = dk_tree k) k"
    by (simp add: write_and_rename_def wp_simps os_create_def Some dir)
  show ?thesis
    apply (simp add: atomic_replace_def reject_symlink_or_non_file_def wp_simps)
    apply (rule wp_validate_plain_directory)
     apply (simp add: wf dir)
    apply (auto simp: wp_simps wf dir split: option.split node.split
        intro!: wp_mono [OF failed])
       apply (auto simp: remove_if_present_def os_remove_file_def wp_simps wf dir del_wf gone lookup_del_other append_parallel
        intro!: wp_change_disk)
    done
qed

lemma wp_on_disk:
  assumes "\<And>w'. cw_disk w' = cw_disk w \<Longrightarrow> cw_locks w' = cw_locks w \<Longrightarrow> keeps_power w w' \<Longrightarrow>
      wp m (\<lambda>r k. Q (map_err f r) (w'\<lparr>cw_disk := k\<rparr>)) (cw_disk w)"
    and "cw_power w \<noteq> None \<Longrightarrow> Q (Err (CacIo power_lost)) w"
  shows "wp (on_disk f m) Q w"
  apply (simp add: on_disk_def wp_simps)
  apply (rule wp_power)
   apply (frule (2) assms(1))
   apply (simp add: wp_def split: prod.splits)
  apply (simp add: assms(2))
  done

lemma wp_replace_manifest:
  assumes st: "inside w0 p s w" and dir: "s n = Some (NDir es)"
    and fin: "\<And>w' fs b. inside w0 p (s(n := Some (NDir fs))) w' \<Longrightarrow> canonical_json cx (manifest_to_value m) = Ok b \<Longrightarrow>
      map_of fs = (map_of es)(GENERATION_MANIFEST_FILE := Some (NFile (b @ [CHR 0x0A]))) \<Longrightarrow> Q (Ok ()) w'"
    and cut: "\<And>w' fs e. inside w0 p (s(n := Some (NDir fs))) w' \<Longrightarrow> Q (Err e) w'"
  shows "wp (write_generation_manifest_replacing cx (p @ [n, GENERATION_MANIFEST_FILE]) m) Q w"
proof (cases "canonical_json cx (manifest_to_value m)")
  case (Inl e)
  then show ?thesis
    using st dir cut [of es w] by (simp add: write_generation_manifest_replacing_def wp_simps result_simps fun_upd_idem)
next
  case (Inr b)
  let ?tmp = "\<lambda>v. ''.ccp-durable-tmp-'' @ show_word (cw_pid v) @ ''-'' @ show_word (cw_durable_sequence v)"
  let ?v = "w\<lparr>cw_durable_sequence := cw_durable_sequence w + 1\<rparr>"
  have st': "inside w0 p s ?v" by (rule inside_upd [OF st]) simp_all
  have d: "lookup (dk_tree (cw_disk ?v)) (p @ [n]) = Some (NDir es)" using insideD(3) [OF st', of n] dir by simp
  have wf: "tree_wf (dk_tree (cw_disk ?v))" using insideD(1) [OF st'] .
  have replaced: "wp (on_disk map_durable_manifest_error
      (atomic_replace tmp (p @ [n, GENERATION_MANIFEST_FILE]) (b @ [CHR 0x0A]))) Q ?v"
    if tmp: "tmp \<noteq> GENERATION_MANIFEST_FILE" for tmp
  proof (rule wp_on_disk)
    fix w'
    assume w': "cw_disk w' = cw_disk ?v" "cw_locks w' = cw_locks ?v" "keeps_power ?v w'"
    have below: "wp (atomic_replace tmp (p @ [n, GENERATION_MANIFEST_FILE]) (b @ [CHR 0x0A])) (\<lambda>r k.
        tree_wf (dk_tree k) \<and> (\<forall>q. p @ [n] \<parallel> q \<longrightarrow> lookup (dk_tree k) q = lookup (tr w) q) \<and>
        (\<exists>fs. lookup (dk_tree k) (p @ [n]) = Some (NDir fs) \<and>
          (r = Ok () \<longrightarrow> (\<forall>x. map_of fs x = ((map_of es)(GENERATION_MANIFEST_FILE := Some (NFile (b @ [CHR 0x0A])))) x)))) (cw_disk ?v)"
      using atomic_replace_below [OF wf d tmp, of "b @ [CHR 0x0A]"] by simp
    have "Q (map_err map_durable_manifest_error r) (w'\<lparr>cw_disk := k\<rparr>)"
      if k: "tree_wf (dk_tree k)" "\<forall>q. p @ [n] \<parallel> q \<longrightarrow> lookup (dk_tree k) q = lookup (tr w) q"
        "lookup (dk_tree k) (p @ [n]) = Some (NDir fs)"
        and fs: "r = Ok () \<longrightarrow> (\<forall>x. map_of fs x = ((map_of es)(GENERATION_MANIFEST_FILE := Some (NFile (b @ [CHR 0x0A])))) x)"
      for r :: "(durable_fs_error, unit) result" and k fs
    proof -
      have i: "inside w0 p (s(n := Some (NDir fs))) (w'\<lparr>cw_disk := k\<rparr>)"
        by (rule inside_below [OF st']) (use k w' in \<open>simp_all add: keeps_power_def\<close>)
      show ?thesis
      proof (cases r)
        case (Inr u)
        with fs have "map_of fs = (map_of es)(GENERATION_MANIFEST_FILE := Some (NFile (b @ [CHR 0x0A])))"
          by (simp add: fun_eq_iff)
        from fin [OF i \<open>canonical_json cx _ = _\<close> this] Inr show ?thesis by (simp add: result_simps)
      qed (simp add: result_simps cut [OF i])
    qed
    then show "wp (atomic_replace tmp (p @ [n, GENERATION_MANIFEST_FILE]) (b @ [CHR 0x0A]))
        (\<lambda>r k. Q (map_err map_durable_manifest_error r) (w'\<lparr>cw_disk := k\<rparr>)) (cw_disk ?v)"
      by (intro wp_mono [OF below]) blast
  next
    assume "cw_power ?v \<noteq> None"
    show "Q (Err (CacIo power_lost)) ?v" using cut [of es ?v] st' dir by (simp add: fun_upd_idem)
  qed
  have "?tmp w \<noteq> GENERATION_MANIFEST_FILE" by (simp add: GENERATION_MANIFEST_FILE_def)
  from replaced [OF this] show ?thesis
    by (simp add: write_generation_manifest_replacing_def wp_simps Inr result_simps)
qed

section \<open>Promoting one entry\<close>

text \<open>The writer and the reader of manifests agree.\<close>

definition manifest_law :: "codec \<Rightarrow> cache_json \<Rightarrow> bool" where
  "manifest_law cx cj \<longleftrightarrow>
     (\<forall>m bytes. canonical_json cx (manifest_to_value m) = Ok bytes \<longrightarrow> manifest_from_slice cj (bytes @ [CHR 0x0A]) = Ok m)"

definition prepared_at :: "prepared_cache_entry \<Rightarrow> path \<Rightarrow> string \<Rightarrow> bool" where
  "prepared_at pr p n \<longleftrightarrow> pc_path pr = p \<and> pc_staging_path pr = p @ [n] \<and> pc_data_path pr = p @ [n, ''data'']"

definition staged ::
    "cache_json \<Rightarrow> cache_promotion_journal_entry_v1 \<Rightarrow> node \<Rightarrow> (string \<Rightarrow> node option) \<Rightarrow> bool" where
  "staged cj j new s \<longleftrightarrow>
     (\<exists>es b m. s (ce_staging_name j) = Some (NDir es) \<and> map_of es ''data'' = Some new \<and>
        map_of es GENERATION_MANIFEST_FILE = Some (NFile b) \<and> manifest_from_slice cj b = Ok m \<and>
        manifest_is_for j (m\<lparr>gm_state := ''complete''\<rparr>))"

lemma complete_take: "k < length COMPLETE_BYTES \<Longrightarrow> take k COMPLETE_BYTES \<noteq> COMPLETE_BYTES"
  by (metis length_take min.absorb4 nat_neq_iff)

definition promotion_outcome where
  "promotion_outcome cj j old new w0 p s r w' \<longleftrightarrow>
     (\<exists>s'. inside w0 p s' w' \<and> recoverable cj j (NDir old) (NDir new) s' \<and> s' ENTRY_LOCK_FILE = s ENTRY_LOCK_FILE \<and>
        (r = (Ok () :: (cache_error, unit) result) \<longrightarrow> new_generation cj j (NDir new) s'))"

lemma promotion_stops:
  "inside w0 p s' w' \<Longrightarrow> recoverable cj j (NDir old) (NDir new) s' \<Longrightarrow> s' ENTRY_LOCK_FILE = s ENTRY_LOCK_FILE \<Longrightarrow>
     promotion_outcome cj j old new w0 p s (Err e) w'"
  by (auto simp: promotion_outcome_def)

lemma promote_one_safe:
  assumes st: "inside w0 p s w" and j: "journalled cj cache p j" and pr: "prepared_at pr p (ce_staging_name j)"
    and law: "manifest_law cx cj"
    and old: "previous_generation j (NDir old) s" "s (ce_backup_name j) = None" and new: "staged cj j (NDir new) s"
  shows "wp (promote_one cx cj pr j) (promotion_outcome cj j old new w0 p s) w"
proof -
  note names = journalled_names [OF j]
  have had: "ce_had_current j" using j by (simp add: journalled_def)
  let ?S = "ce_staging_name j" and ?B = "ce_backup_name j" and ?post = "promotion_outcome cj j old new w0 p s"
  obtain es b m where es: "s ?S = Some (NDir es)" "map_of es ''data'' = Some (NDir new)"
      "map_of es GENERATION_MANIFEST_FILE = Some (NFile b)" and m: "manifest_from_slice cj b = Ok m"
      "manifest_is_for j (m\<lparr>gm_state := ''complete''\<rparr>)"
    using new by (auto simp: staged_def)
  have cut0: "?post (Err e) w'" if "inside w0 p (s(?S := Some (NDir fs))) w'" for w' fs e
    using that by (rule promotion_stops) (use old names in \<open>auto simp: recoverable_def previous_generation_def\<close>)
  have files: "plain_file (s COMPLETE_FILE)" "plain_file (s GENERATION_MANIFEST_FILE)" "s ''data'' = Some (NDir old)"
    using old by (auto simp: previous_generation_def)
  note plain = plain_is_plain(1) [OF files(1)] plain_is_plain(1) [OF files(2)]
  note out = recoverable_def displaced_def plain_tree_def files
  show ?thesis
    apply (simp only: promote_one_def Let_def pr [unfolded prepared_at_def] had if_True append.assoc append.simps wp_attempt)
    apply (simp only: read_generation_manifest_def fs_read_def wp_attempt wp_bind wp_cache_tree lookup_below [OF st] es
        Option.bind.bind_lunit lookup_NDir_Cons lookup.simps option.case node.case wp_ok sum.case wp_of_result m map_err_simps)
    apply (rule wp_replace_manifest [OF st es(1)])
     prefer 2 apply (simp add: cut0)
    subgoal premises prems for w1 fs c
    proof -
      note st1 = prems(1)
      have c: "manifest_from_slice cj (c @ [CHR 0x0A]) = Ok (m\<lparr>gm_state := ''complete''\<rparr>)"
        using law prems(2) by (simp add: manifest_law_def)
      show ?thesis
        apply (simp only: sum.case)
        apply (rule wp_rename_in [OF st1, where v = "NDir old"])
            apply (use names files old in auto)[3]
         prefer 2 apply (simp add: cut0 [OF st1])
        apply (simp only: sum.case)
        apply (rule wp_remove_in, assumption)
           apply (use names plain in simp_all)[2]
         prefer 2 apply (simp, erule promotion_stops, use names in \<open>auto simp: out\<close>)[1]
        apply (simp only: sum.case)
        apply (rule wp_remove_in, assumption)
           apply (use names plain in simp_all)[2]
         prefer 2 apply (simp, erule promotion_stops, use names in \<open>auto simp: out\<close>)[1]
        apply (simp only: sum.case)
        apply (rule wp_rename_out [where es = fs and v = "NDir new"], assumption)
            apply (use names prems(3) es in simp_all)[3]
         prefer 2 apply (simp, erule promotion_stops, use names in \<open>auto simp: out\<close>)[1]
        apply (simp only: sum.case)
        apply (rule wp_rename_out [where es = "filter (\<lambda>e. fst e \<noteq> ''data'') fs" and v = "NFile (c @ [CHR 0x0A])"], assumption)
            apply (use names prems(3) es in \<open>simp_all add: map_of_remove\<close>)[3]
         prefer 2 apply (simp, erule promotion_stops, use names in \<open>auto simp: out\<close>)[1]
        apply (simp only: sum.case write_complete_marker_def)
        apply (rule wp_write_new_in, assumption)
           apply (use names in simp)[1]
          prefer 2 apply (simp, erule promotion_stops, use names in \<open>auto simp: out\<close>)[1]
         prefer 2 apply (simp, erule promotion_stops, use names complete_take in \<open>auto simp: out\<close>)[1]
        apply (simp only: sum.case wp_set_phase wp_bind wp_ok promotion_outcome_def)
        subgoal premises last
          by (rule exI, rule conjI, rule inside_upd [OF last(6)])
            (use names c m in \<open>auto simp: recoverable_def new_generation_def\<close>)
        done
    qed
    done
qed

section \<open>Promoting all entries of a journal\<close>

text \<open>An entry before, during and after its promotion; its lock file stays a plain file.\<close>

definition ready where
  "ready cj j old new s \<longleftrightarrow>
     previous_generation j old s \<and> s (ce_backup_name j) = None \<and> staged cj j new s \<and> plain_file (s ENTRY_LOCK_FILE)"

definition underway where
  "underway cj j old new s \<longleftrightarrow> recoverable cj j old new s \<and> plain_file (s ENTRY_LOCK_FILE)"

definition promoted where
  "promoted cj j old new s \<longleftrightarrow>
     new_generation cj j new s \<and> plain_tree (s (ce_backup_name j)) \<and> plain_tree (s (ce_staging_name j)) \<and>
     plain_file (s ENTRY_LOCK_FILE)"

definition finished where
  "finished cj j old new s \<longleftrightarrow>
     new_generation cj j new s \<and> s (ce_backup_name j) = None \<and> s (ce_staging_name j) = None"

lemma ready_underway: "ready cj j old new s \<Longrightarrow> underway cj j old new s"
  by (auto simp: ready_def underway_def recoverable_def staged_def)

lemma promoted_underway: "promoted cj j old new s \<Longrightarrow> underway cj j old new s"
  by (auto simp: promoted_def underway_def recoverable_def)

lemma finished_recovered: "finished cj j old new s \<Longrightarrow> recovered cj j old new s"
  by (auto simp: finished_def recovered_def)

lemma promote_all_each:
  "length prepared = length gens \<Longrightarrow>
     promote_all cx cj (zip prepared (map fst gens)) = each (\<lambda>(pr, g). promote_one cx cj pr (fst g)) (zip prepared gens)"
  by (induction prepared gens rule: list_induct2) simp_all

lemma recoverable_promoted:
  "recoverable cj j (NDir old) new s \<Longrightarrow> new_generation cj j new s \<Longrightarrow> plain_file (s ENTRY_LOCK_FILE) \<Longrightarrow>
     promoted cj j (NDir old) new s"
  by (auto simp: recoverable_def promoted_def displaced_def)

lemma promote_all_outcome:
  assumes wf: "tree_wf (tr w)" "distinct (places cache gens)" and law: "manifest_law cx cj"
    and j: "\<And>g. g \<in> set gens \<Longrightarrow> journalled cj cache (place cache (fst g)) (fst g)"
    and pr: "list_all2 (\<lambda>pr g. prepared_at pr (place cache (fst g)) (ce_staging_name (fst g))) prepared gens"
    and ready: "all_entries (ready cj) cache gens w"
  shows "wp (promote_all cx cj (zip prepared (map fst gens))) (loop_outcome False (underway cj) (promoted cj) cache gens w) w"
proof -
  let ?f = "\<lambda>(pr, g). promote_one cx cj pr (fst g)"
  have len: "length prepared = length gens" using pr by (rule list_all2_lengthD)
  then have gens: "map snd (zip prepared gens) = gens" by simp
  have step: "wp (?f x) (step_outcome False (underway cj j (NDir old) (NDir new)) (promoted cj j (NDir old) (NDir new)) v (place cache j)) v"
    if x: "x \<in> set (zip prepared gens)" "snd x = (j, old, new)" and v: "inside v (place cache j) s v"
      and s: "ready cj j (NDir old) (NDir new) s" for x j old new s v
  proof -
    obtain pr where x': "x = (pr, j, old, new)" using x(2) by (cases x) auto
    have "journalled cj cache (place cache j) j" using assms(4) x(1) x' by (force dest: set_zip_rightD)
    moreover have "prepared_at pr (place cache j) (ce_staging_name j)"
      using pr x(1) x' by (fastforce simp: list_all2_iff)
    ultimately have "wp (promote_one cx cj pr j) (promotion_outcome cj j old new v (place cache j) s) v"
      using s by (intro promote_one_safe [OF v _ _ law]) (auto simp: ready_def)
    then show ?thesis
      unfolding x' prod.case fst_conv
      by (rule wp_mono)
        (use s in \<open>force simp: step_outcome_def promotion_outcome_def underway_def ready_def intro: recoverable_promoted\<close>)
  qed
  have "wp (each ?f (zip prepared gens)) (loop_outcome False (underway cj) (promoted cj) cache (map snd (zip prepared gens)) w) w"
    by (rule each_outcome [where P = "ready cj"]) (use wf ready step ready_underway in \<open>simp_all add: gens\<close>)
  then show ?thesis by (simp add: promote_all_each [OF len] gens)
qed

lemma finalize_entry_outcome:
  assumes st: "inside w p s w" and j: "journalled cj cache p j" and s: "promoted cj j (NDir old) (NDir new) s"
  shows "wp (attempt (cache_plain_directory p) (\<lambda>_. attempt (cache_remove_if_present (p @ [ce_backup_name j]))
      (\<lambda>_. cache_remove_if_present (p @ [ce_staging_name j]))))
    (step_outcome False (underway cj j (NDir old) (NDir new)) (finished cj j (NDir old) (NDir new)) w p) w"
proof -
  note names = journalled_names [OF j]
  let ?post = "step_outcome False (underway cj j (NDir old) (NDir new)) (finished cj j (NDir old) (NDir new)) w p"
  have stop: "?post (Err e) w'" if "inside w p s' w'" "promoted cj j (NDir old) (NDir new) s'" for e s' w'
    using that promoted_underway by (auto simp: step_outcome_def)
  have gone: "promoted cj j (NDir old) (NDir new) (s(ce_backup_name j := None))"
    using s names by (auto simp: promoted_def new_generation_def)
  obtain es where dir: "lookup (tr w) p = Some (NDir es)" using insideD(2) [OF st] by (auto simp: is_dir_def)
  have plain: "plain_tree (s (ce_backup_name j))" "plain_tree (s (ce_staging_name j))" using s by (auto simp: promoted_def)
  show ?thesis
    apply (simp add: cache_plain_directory_def wp_simps dir)
    apply (rule wp_remove_in [OF st])
       apply (use plain_is_plain(2) [OF plain(1)] in blast)+
     prefer 2 apply (simp add: stop [OF st s])
    apply simp
    apply (rule wp_remove_in, assumption)
       apply (use plain_is_plain(2) [OF plain(2)] names in simp_all)[2]
     prefer 2 apply (erule stop, rule gone)
    apply (simp only: step_outcome_def)
    apply (rule exI, rule conjI, assumption)
    apply (use s names in \<open>auto simp: finished_def underway_def promoted_def new_generation_def recoverable_def\<close>)
    done
qed

lemma finalize_entries_outcome:
  assumes wf: "tree_wf (tr w)" "distinct (places cache gens)"
    and j: "\<And>g. g \<in> set gens \<Longrightarrow> journalled cj cache (place cache (fst g)) (fst g)"
    and all: "all_entries (promoted cj) cache gens w"
  shows "wp (finalize_entries cache (map fst gens)) (loop_outcome False (underway cj) (finished cj) cache gens w) w"
proof -
  let ?f = "\<lambda>g. let p = place cache (fst g) in attempt (cache_plain_directory p) (\<lambda>_.
     attempt (cache_remove_if_present (p @ [ce_backup_name (fst g)])) (\<lambda>_. cache_remove_if_present (p @ [ce_staging_name (fst g)])))"
  have assoc: "attempt (attempt m k) l = attempt m (\<lambda>x. attempt (k x) l)" for m :: "'a cache" and k :: "'a \<Rightarrow> 'b cache" and l :: "'b \<Rightarrow> 'c cache"
    by (auto simp: attempt_def intro!: arg_cong [where f = "State_Monad.bind m"] split: sum.split)
  have "finalize_entries cache (map fst gens) = each ?f gens" using j
  proof (induction gens)
    case (Cons g gens)
    from Cons.prems [of g] have "journal_key (fst g) = Ok \<lparr>ck_digest = ce_key_digest (fst g)\<rparr>" by (auto intro: journalled_key)
    with Cons show ?case by (simp add: place_def Let_def assoc)
  qed simp
  moreover have "wp (?f x) (step_outcome False (underway cj j (NDir old) (NDir new)) (finished cj j (NDir old) (NDir new)) v (place cache j)) v"
    if "x \<in> set gens" "id x = (j, old, new)" "inside v (place cache j) s v" "promoted cj j (NDir old) (NDir new) s" for x j old new s v
    using finalize_entry_outcome [OF that(3) _ that(4)] j [OF that(1)] that(2) by (simp add: Let_def)
  then have "wp (each ?f gens) (loop_outcome False (underway cj) (finished cj) cache (map id gens) w) w"
    by (intro each_outcome [where P = "promoted cj"]) (use wf all promoted_underway in simp_all)
  ultimately show ?thesis by simp
qed

end
