(* ===== verification/Cache_Crash.thy ===== *)
theory Cache_Crash
  imports Cache_Promote
begin

text \<open>
  Losing power during a promotion and recovering from its journal: the entries locked, each of them
  recovered, and the journal removed.
\<close>

section \<open>Frames\<close>

text \<open>What the entries see of two worlds.\<close>

definition same_entries :: "managed_cache \<Rightarrow> generations \<Rightarrow> cache_world \<Rightarrow> cache_world \<Rightarrow> bool" where
  "same_entries cache gens w w' \<longleftrightarrow>
     (\<forall>g r. g \<in> set gens \<longrightarrow> lookup (tr w') (place cache (fst g) @ r) = lookup (tr w) (place cache (fst g) @ r))"

lemma same_entries_all: "same_entries cache gens w w' \<Longrightarrow> all_entries P cache gens w' = all_entries P cache gens w"
proof -
  assume same: "same_entries cache gens w w'"
  have "slots (tr w') (place cache (fst g)) = slots (tr w) (place cache (fst g)) \<and>
      is_dir (tr w') (place cache (fst g)) = is_dir (tr w) (place cache (fst g))" if "g \<in> set gens" for g
  proof -
    from same that have *: "lookup (tr w') (place cache (fst g) @ r) = lookup (tr w) (place cache (fst g) @ r)" for r
      unfolding same_entries_def by blast
    from * [of "[]"] * [of "[n]" for n] show ?thesis by (simp add: slots_def is_dir_def fun_eq_iff)
  qed
  then show ?thesis by (auto simp: all_entries_def)
qed

lemma journal_parallel: "root_path cache @ [PROMOTION_JOURNAL_FILE] \<parallel> place cache j @ r"
proof -
  have "root_path cache @ [PROMOTION_JOURNAL_FILE] \<parallel> root_path cache @ [ENTRIES_DIR]"
    by (simp add: snoc_parallel PROMOTION_JOURNAL_FILE_def ENTRIES_DIR_def)
  from append_parallel(2) [OF this, of "directory_name \<lparr>ck_digest = ce_key_digest j\<rparr> # r"] show ?thesis
    by (simp add: place_def entry_path_def root_entry_path_def)
qed

lemma journal_elsewhere:
  "elsewhere (places cache gens) w w' \<Longrightarrow>
     lookup (tr w') (root_path cache @ [PROMOTION_JOURNAL_FILE]) = lookup (tr w) (root_path cache @ [PROMOTION_JOURNAL_FILE])"
  using journal_parallel [of cache _ "[]"] by (auto simp: elsewhere_def parallel_def)

lemma elsewhere_trans: "elsewhere ps w w' \<Longrightarrow> elsewhere ps w' w'' \<Longrightarrow> elsewhere ps w w''"
  by (simp add: elsewhere_def keeps_power_def)

section \<open>Locking the entries\<close>

lemma underway_locked:
  assumes "journalled cj cache p j" and "underway cj j old new s"
  shows "underway cj j old new (s(ENTRY_LOCK_FILE := Some (NFile b)))"
  using assms(2) journalled_names [OF assms(1)]
  by (auto simp: underway_def recoverable_def previous_generation_def displaced_def new_generation_def)

lemma lock_entries_outcome:
  assumes "tree_wf (tr w)" "cw_power w = None" "distinct (places cache gens)"
    and "\<And>g. g \<in> set gens \<Longrightarrow> journalled cj cache (place cache (fst g)) (fst g)"
    and "all_entries (underway cj) cache gens w"
    and "\<And>g. g \<in> set gens \<Longrightarrow> place cache (fst g) @ [ENTRY_LOCK_FILE] \<notin> set (cw_locks w)"
  shows "wp (lock_entries cache locks (map fst gens)) (\<lambda>r w'. is_ok r \<and>
    all_entries (underway cj) cache gens w' \<and> elsewhere (places cache gens) w w') w"
  using assms
proof (induction gens arbitrary: w locks)
  case Nil
  then show ?case by (simp add: wp_simps elsewhere_refl is_ok_def)
next
  case (Cons g gens)
  obtain j old new where g: "g = (j, old, new)" by (cases g)
  let ?p = "place cache j"
  have fresh: "?p \<notin> set (places cache gens)" using Cons.prems(3) g by simp
  have j: "journalled cj cache ?p j" using Cons.prems(4) [of g] g by simp
  have u: "underway cj j (NDir old) (NDir new) (slots (tr w) ?p)" and d: "is_dir (tr w) ?p" using Cons.prems(5) g by simp_all
  from d obtain es where dir: "lookup (tr w) ?p = Some (NDir es)" by (auto simp: is_dir_def)
  have free: "?p @ [ENTRY_LOCK_FILE] \<notin> set (cw_locks w)" using Cons.prems(6) [of g] g by simp
  have lock: "plain_file (slots (tr w) ?p ENTRY_LOCK_FILE)" using u by (simp add: underway_def)
  have names: "validate_owned_name (ce_staging_name j) ''.staging-'' = Ok ()"
    "validate_owned_name (ce_backup_name j) ''.backup-'' = Ok ()" using j by (auto simp: journalled_def)
  have rest: "wp (lock_entries cache ls (map fst gens)) (\<lambda>r w''. is_ok r \<and>
      all_entries (underway cj) cache (g # gens) w'' \<and> elsewhere (places cache (g # gens)) w w'') w'"
    if c: "confined ?p w w'" and sl: "slots (tr w') ?p = (slots (tr w) ?p)(ENTRY_LOCK_FILE := Some (NFile b))"
      and lk: "cw_locks w' = (?p @ [ENTRY_LOCK_FILE]) # cw_locks w" for w' b ls
  proof -
    have "wp (lock_entries cache ls (map fst gens)) (\<lambda>r w''. is_ok r \<and>
        all_entries (underway cj) cache gens w'' \<and> elsewhere (places cache gens) w' w'') w'"
    proof (rule Cons.IH)
      show "tree_wf (tr w')" "cw_power w' = None" using c Cons.prems(2) by (simp_all add: confined_def keeps_power_def)
      show "distinct (places cache gens)" using Cons.prems(3) by simp
      show "all_entries (underway cj) cache gens w'" using Cons.prems(5) g by (simp add: all_entries_confined [OF c fresh])
      show "journalled cj cache (place cache (fst k)) (fst k)" if "k \<in> set gens" for k
        by (rule Cons.prems(4)) (simp add: that)
      show "place cache (fst k) @ [ENTRY_LOCK_FILE] \<notin> set (cw_locks w')" if "k \<in> set gens" for k
      proof -
        from that have "place cache (fst k) \<in> set (places cache gens)" by simp
        with fresh have "place cache (fst k) \<noteq> ?p" by metis
        then show ?thesis using Cons.prems(6) [of k] that lk by simp
      qed
    qed
    then show ?thesis
    proof (rule wp_mono, elim conjE)
      fix r w''
      assume e: "elsewhere (places cache gens) w' w''" and o: "all_entries (underway cj) cache gens w''" "is_ok r"
      from elsewhere_entry [OF e fresh] sl c have "slots (tr w'') ?p = (slots (tr w) ?p)(ENTRY_LOCK_FILE := Some (NFile b))"
        "is_dir (tr w'') ?p" by (auto simp: confined_def)
      with o underway_locked [OF j u] elsewhere_Cons [OF c e]
      show "is_ok r \<and> all_entries (underway cj) cache (g # gens) w'' \<and> elsewhere (places cache (g # gens)) w w''"
        by (simp add: g)
    qed
  qed
  show ?case
    apply (simp only: g list.map fst_conv lock_entries.simps wp_attempt or_unlock_def wp_bind names wp_of_result sum.case
        journalled_key [OF j] cache_plain_directory_def wp_fs_metadata place_def [symmetric] dir option.case node.case wp_ok)
    apply (rule wp_acquire_entry_lock [OF Cons.prems(1) d Cons.prems(2) lock free])
    apply (use rest [unfolded g] in \<open>simp add: is_ok_def wp_simps\<close>)
    done
qed

section \<open>Recovery from the journal\<close>

definition journal_on_disk :: "cache_json \<Rightarrow> managed_cache \<Rightarrow> cache_promotion_journal_v1 \<Rightarrow> cache_world \<Rightarrow> bool" where
  "journal_on_disk cj cache journal w \<longleftrightarrow>
     (\<exists>bytes. lookup (tr w) (root_path cache @ [PROMOTION_JOURNAL_FILE]) = Some (NFile bytes) \<and> length bytes \<le> 1048576 \<and>
        promotion_from_slice cj bytes = Ok journal) \<and>
     cj_schema_version journal = PROMOTION_SCHEMA_VERSION \<and> cj_state journal = ''prepared'' \<and>
     cj_entries journal \<noteq> [] \<and> cj_operation_id journal \<noteq> []"

lemma wp_remove_journal:
  assumes wf: "tree_wf (tr w)" and on: "lookup (tr w) (root_path cache @ [PROMOTION_JOURNAL_FILE]) = Some (NFile b)"
    and fin: "\<And>w'. same_entries cache gens w w' \<Longrightarrow> lookup (tr w') (root_path cache @ [PROMOTION_JOURNAL_FILE]) = None \<Longrightarrow>
      tree_wf (tr w') \<Longrightarrow> Q (Ok ()) w'"
    and cut: "cw_power w \<noteq> None \<Longrightarrow> Q (Err (CacIo power_lost)) w"
  shows "wp (cache_remove_if_present (root_path cache @ [PROMOTION_JOURNAL_FILE])) Q w"
  apply (simp add: cache_remove_if_present_def wp_simps on fs_remove_def)
  apply (rule wp_change_tree)
   prefer 2 apply (erule cut)
  apply (rule fin)
    apply (simp_all add: same_entries_def lookup_del_other [OF wf journal_parallel] lookup_del_same wf del_wf)
  done

lemma wp_holding: "wp (holding ps m) Q = wp m (\<lambda>r. wp (unlock_all ps) (\<lambda>_. Q r))"
  by (simp add: holding_def wp_simps)

lemma recover_promotion_outcome:
  assumes wf: "tree_wf (tr w)" "cw_power w = None" "distinct (places cache gens)"
    and j: "\<And>g. g \<in> set gens \<Longrightarrow> journalled cj cache (place cache (fst g)) (fst g)"
    and all: "all_entries (underway cj) cache gens w"
    and free: "\<And>g. g \<in> set gens \<Longrightarrow> place cache (fst g) @ [ENTRY_LOCK_FILE] \<notin> set (cw_locks w)"
    and journal: "journal_on_disk cj cache journal w" "cj_entries journal = map fst gens"
  shows "wp (recover_promotion_locked cj cache) (\<lambda>r w'. r = Ok () \<and> all_entries (recovered cj) cache gens w' \<and>
    lookup (tr w') (root_path cache @ [PROMOTION_JOURNAL_FILE]) = None) w"
proof -
  obtain bytes where on: "lookup (tr w) (root_path cache @ [PROMOTION_JOURNAL_FILE]) = Some (NFile bytes)"
      "length bytes \<le> 1048576" "promotion_from_slice cj bytes = Ok journal"
    using journal(1) by (auto simp: journal_on_disk_def)
  have removed: "wp (cache_remove_if_present (root_path cache @ [PROMOTION_JOURNAL_FILE])) (\<lambda>r w'. r = Ok () \<and>
      all_entries (recovered cj) cache gens w' \<and> lookup (tr w') (root_path cache @ [PROMOTION_JOURNAL_FILE]) = None) v"
    if "all_entries (recovered cj) cache gens v" "tree_wf (tr v)" "cw_power v = None"
      "lookup (tr v) (root_path cache @ [PROMOTION_JOURNAL_FILE]) = Some (NFile bytes)" for v
    using that by (intro wp_remove_journal [OF that(2,4), of gens]) (auto simp: same_entries_all)
  have recovered: "wp (holding ls (recover_entries cj cache (map fst gens)))
      (\<lambda>r. case r of Inl e \<Rightarrow> (\<lambda>_. False) | Inr _ \<Rightarrow>
        wp (cache_remove_if_present (root_path cache @ [PROMOTION_JOURNAL_FILE])) (\<lambda>r w'. r = Ok () \<and>
          all_entries (recovered cj) cache gens w' \<and> lookup (tr w') (root_path cache @ [PROMOTION_JOURNAL_FILE]) = None)) v"
    if v: "all_entries (underway cj) cache gens v" "elsewhere (places cache gens) w v" for ls v
  proof -
    have quiet: "cw_power v = None" "tree_wf (tr v)" using v(2) wf by (auto simp: elsewhere_def keeps_power_def)
    have "all_entries (recoverable cj) cache gens v" using v(1) by (rule all_entries_mono) (simp add: underway_def)
    from recover_entries_recover [OF quiet(2) wf(3) quiet(1) j this] show ?thesis
      unfolding wp_holding
    proof (rule wp_mono)
      fix r v'
      assume "loop_outcome True (\<lambda>_ _ _ _. True) (recovered cj) cache gens v r v'"
      then have r: "r = Ok ()" "all_entries (recovered cj) cache gens v'" "elsewhere (places cache gens) w v'"
        using elsewhere_trans [OF v(2)] by (auto simp: loop_outcome_def)
      note at = journal_elsewhere [OF r(3)]
      show "wp (unlock_all ls) (\<lambda>_. case r of Inl e \<Rightarrow> (\<lambda>_. False) | Inr _ \<Rightarrow>
        wp (cache_remove_if_present (root_path cache @ [PROMOTION_JOURNAL_FILE])) (\<lambda>r w'. r = Ok () \<and>
          all_entries (recovered cj) cache gens w' \<and> lookup (tr w') (root_path cache @ [PROMOTION_JOURNAL_FILE]) = None)) v'"
      proof (rule wp_unlock_all)
        fix u :: cache_world
        assume u: "cw_disk u = cw_disk v'" "cw_power u = cw_power v'"
        have "all_entries (recovered cj) cache gens u" using r(2) u(1) by (simp add: all_entries_def)
        from removed [OF this] show "(case r of Inl e \<Rightarrow> (\<lambda>_. False) | Inr _ \<Rightarrow>
          wp (cache_remove_if_present (root_path cache @ [PROMOTION_JOURNAL_FILE])) (\<lambda>r w'. r = Ok () \<and>
            all_entries (recovered cj) cache gens w' \<and> lookup (tr w') (root_path cache @ [PROMOTION_JOURNAL_FILE]) = None)) u"
          using u r at on wf by (auto simp: elsewhere_def keeps_power_def)
      qed
    qed
  qed
  have plain: "\<not> 1048576 < length bytes" using on(2) by simp
  have ok_journal: "(cj_schema_version journal \<noteq> PROMOTION_SCHEMA_VERSION \<or> cj_state journal \<noteq> ''prepared'' \<or>
      map fst gens = [] \<or> cj_operation_id journal = []) = False"
    using journal by (simp add: journal_on_disk_def)
  show ?thesis
    apply (simp only: recover_promotion_locked_def Let_def wp_attempt read_optional_file_def wp_bind wp_fs_metadata on(1)
        option.case node.case fs_read_def wp_cache_tree wp_ok sum.case plain if_False)
    apply (simp only: wp_if plain if_False wp_attempt wp_of_result on(3) map_err_simps sum.case ok_journal simp_thms journal(2))
    apply (rule wp_mono [OF lock_entries_outcome [OF wf j all free]])
      apply (use recovered in \<open>auto simp: is_ok_def split: sum.splits\<close>)
    done
qed

section \<open>After a promotion was cut off\<close>

text \<open>The machine comes up again: the locks and the handles of the process are gone, the disk is not.\<close>

definition reboot :: "cache_world \<Rightarrow> cache_world" where
  "reboot w = w\<lparr>cw_power := None, cw_locks := [], cw_owners := []\<rparr>"

lemma reboot_tree [simp]: "cw_disk (reboot w) = cw_disk w" "cw_power (reboot w) = None" "cw_locks (reboot w) = []"
  by (simp_all add: reboot_def)

lemma all_entries_reboot [simp]: "all_entries P cache gens (reboot w) = all_entries P cache gens w"
  by (simp add: all_entries_def)

definition cut_off where
  "cut_off cj cache gens b r w' \<longleftrightarrow>
     tree_wf (tr w') \<and>
     (all_entries (underway cj) cache gens w' \<and>
        lookup (tr w') (root_path cache @ [PROMOTION_JOURNAL_FILE]) = Some (NFile b) \<and> r \<noteq> (Ok () :: (cache_error, unit) result) \<or>
      all_entries (finished cj) cache gens w' \<and> lookup (tr w') (root_path cache @ [PROMOTION_JOURNAL_FILE]) = None)"

lemma promotion_cut_off:
  assumes wf: "tree_wf (tr w)" "distinct (places cache gens)" and law: "manifest_law cx cj"
    and j: "\<And>g. g \<in> set gens \<Longrightarrow> journalled cj cache (place cache (fst g)) (fst g)"
    and pr: "list_all2 (\<lambda>pr g. prepared_at pr (place cache (fst g)) (ce_staging_name (fst g))) prepared gens"
    and ready: "all_entries (ready cj) cache gens w"
    and on: "lookup (tr w) (root_path cache @ [PROMOTION_JOURNAL_FILE]) = Some (NFile b)"
    and entries: "cj_entries journal = map fst gens"
  shows "wp (attempt (execute_promotion cx cj prepared journal) (\<lambda>_. finalize_promotion cache journal))
    (cut_off cj cache gens b) w"
proof -
  have final: "wp (finalize_promotion cache journal) (cut_off cj cache gens b) v"
    if v: "loop_outcome False (underway cj) (promoted cj) cache gens w (Ok ()) v" for v
  proof -
    have v': "tree_wf (tr v)" "all_entries (promoted cj) cache gens v" "elsewhere (places cache gens) w v"
      using v by (auto simp: loop_outcome_def elsewhere_def)
    show ?thesis
      unfolding finalize_promotion_def entries wp_attempt
    proof (rule wp_mono [OF finalize_entries_outcome [OF v'(1) wf(2) j v'(2)]])
      fix r u
      assume u: "loop_outcome False (underway cj) (finished cj) cache gens v r u"
      then have e: "elsewhere (places cache gens) w u" "all_entries (underway cj) cache gens u"
        using elsewhere_trans [OF v'(3)] by (auto simp: loop_outcome_def)
      have at: "lookup (tr u) (root_path cache @ [PROMOTION_JOURNAL_FILE]) = Some (NFile b)" "tree_wf (tr u)"
        using journal_elsewhere [OF e(1)] on e(1) by (auto simp: elsewhere_def)
      have stop: "cut_off cj cache gens b (Err x) u" for x
        using e at by (simp add: cut_off_def)
      have "wp (cache_remove_if_present (root_path cache @ [PROMOTION_JOURNAL_FILE])) (cut_off cj cache gens b) u" if "r = Ok ()"
        using u that stop by (intro wp_remove_journal [OF at(2,1), of gens]) (auto simp: cut_off_def loop_outcome_def same_entries_all)
      with stop show "(case r of Inl e \<Rightarrow> cut_off cj cache gens b (Inl e)
          | Inr _ \<Rightarrow> wp (cache_remove_if_present (root_path cache @ [PROMOTION_JOURNAL_FILE])) (cut_off cj cache gens b)) u"
        by (cases r) auto
    qed
  qed
  show ?thesis
    unfolding execute_promotion_def entries wp_attempt
  proof (rule wp_mono [OF promote_all_outcome [OF wf law j pr ready]])
    fix r v
    assume v: "loop_outcome False (underway cj) (promoted cj) cache gens w r v"
    then have e: "elsewhere (places cache gens) w v" "all_entries (underway cj) cache gens v" by (auto simp: loop_outcome_def)
    with journal_elsewhere [OF e(1)] on have "cut_off cj cache gens b (Err x) v" for x
      by (simp add: cut_off_def elsewhere_def)
    with v final show "(case r of Inl e \<Rightarrow> cut_off cj cache gens b (Inl e)
        | Inr _ \<Rightarrow> wp (finalize_promotion cache journal) (cut_off cj cache gens b)) v"
      by (cases r) auto
  qed
qed

lemma cut_off_recovers:
  assumes cut: "cut_off cj cache gens b r w" and distinct: "distinct (places cache gens)"
    and j: "\<And>g. g \<in> set gens \<Longrightarrow> journalled cj cache (place cache (fst g)) (fst g)"
    and journal: "\<And>w. lookup (tr w) (root_path cache @ [PROMOTION_JOURNAL_FILE]) = Some (NFile b) \<Longrightarrow> journal_on_disk cj cache journal w"
      "cj_entries journal = map fst gens"
  shows "wp (recover_promotion_locked cj cache) (\<lambda>r w'. r = Ok () \<and> all_entries (recovered cj) cache gens w' \<and>
    lookup (tr w') (root_path cache @ [PROMOTION_JOURNAL_FILE]) = None) (reboot w)"
proof (cases "lookup (tr w) (root_path cache @ [PROMOTION_JOURNAL_FILE])")
  case None
  with cut have "all_entries (recovered cj) cache gens w"
    by (auto simp: cut_off_def elim: all_entries_mono intro: finished_recovered)
  with None show ?thesis by (simp add: recover_promotion_locked_def Let_def read_optional_file_def wp_simps)
next
  case (Some n)
  with cut have "n = NFile b" "all_entries (underway cj) cache gens w" "tree_wf (tr w)" by (auto simp: cut_off_def)
  with Some show ?thesis
    by (intro recover_promotion_outcome [OF _ _ distinct j _ _ _ journal(2)] journal(1)) simp_all
qed

end
