(* ===== verification/Cache_Journal.thy ===== *)
theory Cache_Journal
  imports Cache_Crash
begin

text \<open>
  From prepared generations to their journal: what \<open>create_promotion_journal\<close> records is what the recovery
  of an interrupted promotion needs, and only the promotion lock and the journal change meanwhile.
\<close>

section \<open>Names\<close>

lemma length_show_u32: "length (show_word (n :: u32)) \<le> 10"
proof -
  have "unat n < 2 ^ LENGTH(32)" by (rule unsigned_less)
  then show ?thesis unfolding show_word_def by (intro length_show_nat) simp_all
qed

lemma length_show_u64: "length (show_word (n :: u64)) \<le> 20"
proof -
  have "unat n < 2 ^ LENGTH(64)" by (rule unsigned_less)
  then show ?thesis unfolding show_word_def by (intro length_show_nat) simp_all
qed

lemma show_word_owned:
  "c \<in> set (show_word n) \<Longrightarrow> is_ascii_alphanumeric (byte_val c) \<and> c \<noteq> CHR ''/'' \<and> c \<noteq> CHR 0x5C"
  using show_nat_digits [of c "unat n"] by (auto simp: show_word_def is_ascii_alphanumeric_def is_ascii_digit_def)

lemma show_word_not_Nil: "show_word n \<noteq> []"
  by (subst show_word_def, subst show_nat.simps) simp

lemma backup_name_valid:
  "validate_owned_name (''.backup-'' @ show_word (pid :: u32) @ ''-'' @ show_word (n :: u64)) ''.backup-'' = Ok ()"
  using length_show_u32 [of pid] length_show_u64 [of n]
  by (auto simp: validate_owned_name_def list_all_iff starts_with_def is_ascii_alphanumeric_def is_ascii_alphabetic_def
      dest: show_word_owned)

lemma wp_temporary_name:
  "wp (temporary_name lead) Q = (\<lambda>w. Q (lead @ show_word (cw_pid w) @ ''-'' @ show_word (cw_sequence w))
     (w\<lparr>cw_sequence := cw_sequence w + 1\<rparr>))"
  by (simp add: temporary_name_def wp_simps fun_eq_iff)

section \<open>What the journal records\<close>

definition listing :: "node option \<Rightarrow> (string \<times> node) list" where
  "listing m = (case m of Some (NDir es) \<Rightarrow> es | _ \<Rightarrow> [])"

lemma is_dir_listing: "is_dir t p \<Longrightarrow> lookup t p = Some (NDir (listing (lookup t p)))"
  by (auto simp: is_dir_def listing_def)

text \<open>
  A generation as \<open>prepare_entry\<close> leaves it: the staging tree with its manifest of the current version, plain
  files or nothing in the places of the marker, the manifest and the lock, a readable manifest next to a complete
  marker, and no link that leads nowhere. The entry may or may not have a previous generation.
\<close>

definition prepared_generation :: "cache_json \<Rightarrow> managed_cache \<Rightarrow> node \<Rightarrow> prepared_cache_entry \<Rightarrow> bool" where
  "prepared_generation cj cache t pr \<longleftrightarrow>
     (let p = pc_path pr; n = last (pc_staging_path pr) in
      p = entry_path cache \<lparr>ck_digest = pc_key_digest pr\<rparr> \<and> is_ok (validated_digest_hex (pc_key_digest pr)) \<and>
      pc_staging_path pr = p @ [n] \<and> pc_data_path pr = p @ [n, ''data''] \<and>
      is_dir t p \<and> is_dir t (p @ [n]) \<and> is_dir t (p @ [n, ''data'']) \<and>
      plain_file (lookup t (p @ [COMPLETE_FILE])) \<and> plain_file (lookup t (p @ [GENERATION_MANIFEST_FILE])) \<and>
      plain_file (lookup t (p @ [ENTRY_LOCK_FILE])) \<and>
      (lookup t (p @ [COMPLETE_FILE]) = Some (NFile COMPLETE_BYTES) \<longrightarrow>
        (\<forall>b. lookup t (p @ [GENERATION_MANIFEST_FILE]) = Some (NFile b) \<longrightarrow> is_ok (manifest_from_slice cj b))) \<and>
      (\<forall>x l. lookup t (p @ [x]) \<noteq> Some (NLink l False)) \<and>
      (\<exists>b m. lookup t (p @ [n, GENERATION_MANIFEST_FILE]) = Some (NFile b) \<and> manifest_from_slice cj b = Ok m \<and>
        gm_schema_version m = GENERATION_SCHEMA_VERSION))"

text \<open>The entry has a previous generation.\<close>

definition has_generation :: "node \<Rightarrow> prepared_cache_entry \<Rightarrow> bool" where
  "has_generation t pr \<longleftrightarrow> is_dir t (pc_path pr @ [''data''])"

text \<open>A prepared generation of an entry that has one already.\<close>

definition replaces_generation :: "cache_json \<Rightarrow> managed_cache \<Rightarrow> node \<Rightarrow> prepared_cache_entry \<Rightarrow> bool" where
  "replaces_generation cj cache t pr \<longleftrightarrow> prepared_generation cj cache t pr \<and> has_generation t pr"

lemmas replaces_defs = replaces_generation_def prepared_generation_def has_generation_def

definition journal_entry_for ::
    "cache_json \<Rightarrow> node \<Rightarrow> prepared_cache_entry \<Rightarrow> cache_promotion_journal_entry_v1 \<Rightarrow> bool" where
  "journal_entry_for cj t pr j \<longleftrightarrow>
     ce_key_digest j = pc_key_digest pr \<and> ce_plan_digest j = pc_plan_digest pr \<and> ce_generation j = pc_generation pr \<and>
     ce_staging_name j = last (pc_staging_path pr) \<and> ce_had_current j \<and>
     validate_owned_name (ce_staging_name j) ''.staging-'' = Ok () \<and>
     validate_owned_name (ce_backup_name j) ''.backup-'' = Ok () \<and> length (ce_backup_name j) \<le> 39 \<and>
     lookup t (pc_path pr @ [ce_backup_name j]) = None \<and>
     lookup t (pc_path pr @ [COMPLETE_FILE]) = map_option NFile (ce_previous_marker j) \<and>
     lookup t (pc_path pr @ [GENERATION_MANIFEST_FILE]) = map_option NFile (ce_previous_manifest j) \<and>
     (\<forall>b m. lookup t (pc_staging_path pr @ [GENERATION_MANIFEST_FILE]) = Some (NFile b) \<longrightarrow>
        manifest_from_slice cj b = Ok m \<longrightarrow>
        gm_key_digest m = pc_key_digest pr \<and> gm_plan_digest m = pc_plan_digest pr \<and> gm_generation m = pc_generation pr)"

definition journal_for ::
    "cache_json \<Rightarrow> node \<Rightarrow> prepared_cache_entry list \<Rightarrow> cache_promotion_journal_v1 \<Rightarrow> bool" where
  "journal_for cj t prepared journal \<longleftrightarrow>
     cj_schema_version journal = PROMOTION_SCHEMA_VERSION \<and> cj_state journal = ''prepared'' \<and>
     cj_operation_id journal \<noteq> [] \<and> length (cj_operation_id journal) \<le> 31 \<and>
     list_all2 (journal_entry_for cj t) prepared (cj_entries journal) \<and> distinct (map pc_path prepared)"

lemma wp_validate_prepared_entry:
  assumes "\<And>e. Q (Err e) w"
    and "(\<forall>b m. lookup (tr w) (pc_staging_path pr @ [GENERATION_MANIFEST_FILE]) = Some (NFile b) \<longrightarrow>
        manifest_from_slice cj b = Ok m \<longrightarrow>
        gm_key_digest m = pc_key_digest pr \<and> gm_plan_digest m = pc_plan_digest pr \<and> gm_generation m = pc_generation pr) \<Longrightarrow>
      Q (Ok ()) w"
  shows "wp (validate_prepared_entry cj pr) Q w"
proof -
  have plain: "wp (cache_plain_directory p) R w" if "\<And>e. R (Err e) w" "R (Ok ()) w" for p R
    using that by (auto simp: cache_plain_directory_def wp_simps split: option.split node.split)
  have tree: "wp (validate_payload_tree p k l) R w" if "\<And>e. R (Err e) w" "R (Ok ()) w" for p k l R
    using that
    by (auto simp: validate_payload_tree_def measure_payload_tree_def measure_payload_tree_with_policy_def wp_simps
        split: option.split node.split sum.split)
  have read: "wp (read_generation_manifest cj p) R w"
    if "\<And>e. R (Err e) w" "\<And>b m. lookup (tr w) p = Some (NFile b) \<Longrightarrow> manifest_from_slice cj b = Ok m \<Longrightarrow> R (Ok m) w" for p R
    using that
    by (auto simp: read_generation_manifest_def fs_read_def wp_simps map_err_def split: option.split node.split sum.split)
  show ?thesis
    unfolding validate_prepared_entry_def wp_attempt
    by (intro plain read) (auto simp: assms wp_simps intro!: plain read tree assms)
qed

lemma wp_read_optional:
  assumes "\<And>e. Q (Err e) w" and "\<And>b. lookup (tr w) p = map_option NFile b \<Longrightarrow> Q (Ok b) w"
  shows "wp (read_optional_file p) Q w"
  using assms(1) assms(2) [of None] assms(2) [of "Some b" for b]
  by (auto simp: read_optional_file_def fs_read_def wp_simps split: option.split node.split)

text \<open>Only numbers are drawn while the journal is composed.\<close>

definition same_disk :: "cache_world \<Rightarrow> cache_world \<Rightarrow> bool" where
  "same_disk w w' \<longleftrightarrow> cw_disk w' = cw_disk w \<and> cw_locks w' = cw_locks w \<and> cw_power w' = cw_power w"

lemma journal_prepared_entry_outcome:
  assumes pr: "replaces_generation cj cache (tr w) pr"
  shows "wp (journal_prepared_entry cj pr) (\<lambda>r w'. same_disk w w' \<and> (\<forall>j. r = Ok j \<longrightarrow> journal_entry_for cj (tr w) pr j)) w"
proof -
  have parts: "pc_staging_path pr = pc_path pr @ [last (pc_staging_path pr)]" "is_dir (tr w) (pc_path pr @ [''data''])"
    "\<And>x l. lookup (tr w) (pc_path pr @ [x]) \<noteq> Some (NLink l False)"
    using pr by (auto simp: replaces_defs Let_def)
  then have free: "lookup (tr w) (pc_path pr @ [x]) = None" if "\<not> node_exists (tr w) (pc_path pr @ [x])" for x
    using that by (auto simp: node_exists_def split: option.splits node.splits bool.splits)
  from parts(2) obtain es where data: "lookup (tr w) (pc_path pr @ [''data'']) = Some (NDir es)" by (auto simp: is_dir_def)
  have short: "length (''.backup-'' @ show_word (cw_pid w) @ ''-'' @ show_word (cw_sequence w)) \<le> 39"
    using length_show_u32 [of "cw_pid w"] length_show_u64 [of "cw_sequence w"] by simp
  show ?thesis
    unfolding journal_prepared_entry_def Let_def wp_attempt
    apply (rule wp_validate_prepared_entry)
     apply (simp add: same_disk_def)
    apply (auto simp: wp_simps wp_temporary_name data same_disk_def split: sum.split)
    apply (rule wp_read_optional)
     apply simp
    apply (simp add: wp_simps)
    apply (rule wp_read_optional)
     apply simp
    apply (use short in \<open>auto simp: wp_simps journal_entry_for_def backup_name_valid [simplified] free\<close>)
    done
qed

lemma same_disk_trans: "same_disk w w' \<Longrightarrow> same_disk w' w'' \<Longrightarrow> same_disk w w''"
  by (simp add: same_disk_def)

lemma journal_entries_outcome:
  assumes "\<And>pr. pr \<in> set prepared \<Longrightarrow> replaces_generation cj cache (tr w) pr"
  shows "wp (journal_entries cj paths prepared) (\<lambda>r w'. same_disk w w' \<and> (\<forall>es. r = Ok es \<longrightarrow>
    list_all2 (journal_entry_for cj (tr w)) prepared es \<and> distinct (map pc_path prepared) \<and>
    set (map pc_path prepared) \<inter> set paths = {})) w"
  using assms
proof (induction prepared arbitrary: paths w)
  case Nil
  then show ?case by (simp add: wp_simps same_disk_def)
next
  case (Cons pr prepared)
  have pr: "replaces_generation cj cache (tr w) pr" using Cons.prems by simp
  have rest: "wp (journal_entries cj (pc_path pr # paths) prepared) (\<lambda>r w'. same_disk w w' \<and> (\<forall>es. r = Ok es \<longrightarrow>
      list_all2 (journal_entry_for cj (tr w)) prepared es \<and> distinct (map pc_path prepared) \<and>
      set (map pc_path prepared) \<inter> set (pc_path pr # paths) = {})) v" if "same_disk w v" for v
    using that Cons.prems Cons.IH [of v "pc_path pr # paths"] by (auto simp: same_disk_def elim!: wp_mono)
  show ?case
  proof (cases "pc_path pr \<in> set paths")
    case False
    then show ?thesis
      apply (simp add: wp_simps)
      apply (rule wp_mono [OF journal_prepared_entry_outcome [OF pr]])
      apply (auto simp: wp_simps split: sum.splits)
      apply (rule wp_mono [OF rest], assumption)
      apply (auto simp: wp_simps split: sum.splits)
      done
  qed (simp add: wp_simps same_disk_def)
qed

section \<open>What a journal means for the entries\<close>

definition generations_of :: "node \<Rightarrow> prepared_cache_entry list \<Rightarrow> cache_promotion_journal_entry_v1 list \<Rightarrow> generations" where
  "generations_of t prepared js =
     map2 (\<lambda>pr j. (j, listing (lookup t (pc_path pr @ [''data''])), listing (lookup t (pc_data_path pr)))) prepared js"

lemma append_snoc: "p @ [n, x] = (p @ [n]) @ [x]"
  by simp

lemma lookup_entry: "lookup (NDir es) [x] = map_of es x"
  by (simp split: option.split)

lemma prepared_journalled:
  assumes pr: "replaces_generation cj cache t pr" and j: "journal_entry_for cj t pr j"
  shows "place cache j = pc_path pr" "journalled cj cache (pc_path pr) j" "prepared_at pr (pc_path pr) (ce_staging_name j)"
    and "ready cj j (NDir (listing (lookup t (pc_path pr @ [''data''])))) (NDir (listing (lookup t (pc_data_path pr)))) (slots t (pc_path pr))"
proof -
  let ?p = "pc_path pr" and ?n = "last (pc_staging_path pr)"
  show "place cache j = ?p" "prepared_at pr ?p (ce_staging_name j)"
    using assms by (auto simp: replaces_defs journal_entry_for_def place_def prepared_at_def Let_def)
  show "journalled cj cache ?p j"
    using assms by (auto simp: replaces_defs journal_entry_for_def journalled_def Let_def is_ok_def)
  have dirs: "is_dir t (?p @ [''data''])" "is_dir t (?p @ [?n])" "is_dir t (?p @ [?n, ''data''])"
    and paths: "pc_staging_path pr = ?p @ [?n]" "pc_data_path pr = ?p @ [?n, ''data'']" "ce_staging_name j = ?n"
    using assms by (auto simp: replaces_defs journal_entry_for_def Let_def)
  obtain b m where m: "lookup t (?p @ [?n, GENERATION_MANIFEST_FILE]) = Some (NFile b)" "manifest_from_slice cj b = Ok m"
      "gm_schema_version m = GENERATION_SCHEMA_VERSION"
    using pr by (auto simp: replaces_defs Let_def)
  have staged: "lookup t (pc_staging_path pr @ [GENERATION_MANIFEST_FILE]) = Some (NFile b)"
    using m(1) paths(1) by (metis append.assoc append_Cons append_Nil)
  have "gm_key_digest m = pc_key_digest pr \<and> gm_plan_digest m = pc_plan_digest pr \<and> gm_generation m = pc_generation pr"
    using j m(2) staged unfolding journal_entry_for_def by blast
  then have "manifest_is_for j (m\<lparr>gm_state := ''complete''\<rparr>)"
    using j m(3) by (simp add: manifest_is_for_def journal_entry_for_def)
  moreover have below: "lookup t (?p @ [?n, x]) = map_of (listing (lookup t (?p @ [?n]))) x" for x
    by (subst append_snoc, subst lookup_append, subst is_dir_listing [OF dirs(2)]) (simp add: lookup_entry)
  ultimately have "staged cj j (NDir (listing (lookup t (pc_data_path pr)))) (slots t ?p)"
    using m(1,2) is_dir_listing [OF dirs(2)] is_dir_listing [OF dirs(3)] below [of "''data''"] below [of GENERATION_MANIFEST_FILE]
    unfolding staged_def paths(2,3) slots_def by auto
  then show "ready cj j (NDir (listing (lookup t (?p @ [''data''])))) (NDir (listing (lookup t (pc_data_path pr)))) (slots t ?p)"
    using assms is_dir_listing [OF dirs(1)]
    by (auto simp: ready_def previous_generation_def slots_def replaces_defs journal_entry_for_def Let_def)
qed

lemma generations_of_Cons:
  "generations_of t (pr # prepared) (j # js) =
     (j, listing (lookup t (pc_path pr @ [''data''])), listing (lookup t (pc_data_path pr))) # generations_of t prepared js"
  by (simp add: generations_of_def)

lemma generations_facts:
  assumes "list_all2 (journal_entry_for cj (tr w)) prepared js"
    and "\<forall>pr\<in>set prepared. replaces_generation cj cache (tr w) pr"
  shows "map fst (generations_of (tr w) prepared js) = js \<and>
    places cache (generations_of (tr w) prepared js) = map pc_path prepared \<and>
    (\<forall>g\<in>set (generations_of (tr w) prepared js). journalled cj cache (place cache (fst g)) (fst g)) \<and>
    list_all2 (\<lambda>pr g. prepared_at pr (place cache (fst g)) (ce_staging_name (fst g))) prepared (generations_of (tr w) prepared js) \<and>
    all_entries (ready cj) cache (generations_of (tr w) prepared js) w"
  using assms
proof (induction prepared js rule: list_all2_induct)
  case Nil
  then show ?case by (simp add: generations_of_def)
next
  case (Cons pr prepared j js)
  from Cons.prems have pr: "replaces_generation cj cache (tr w) pr" by simp
  note here = prepared_journalled [OF pr Cons.hyps(1)]
  have "is_dir (tr w) (pc_path pr)" using pr unfolding replaces_defs Let_def by blast
  with here Cons.IH Cons.prems show ?case by (simp add: generations_of_Cons)
qed

section \<open>Before the journal is written\<close>

definition prior :: "managed_cache \<Rightarrow> cache_world \<Rightarrow> cache_world \<Rightarrow> bool" where
  "prior cache w0 w \<longleftrightarrow>
     tree_wf (tr w) \<and> is_dir (tr w) (root_path cache) \<and>
     (\<forall>n. n \<noteq> PROMOTION_LOCK_FILE \<longrightarrow> slots (tr w) (root_path cache) n = slots (tr w0) (root_path cache) n)"

lemma prior_locks [simp]: "prior cache w0 (w\<lparr>cw_locks := ls\<rparr>) = prior cache w0 w"
  by (simp add: prior_def)

lemma prior_journal:
  "prior cache w0 w \<Longrightarrow> lookup (tr w) (root_path cache @ [PROMOTION_JOURNAL_FILE]) = lookup (tr w0) (root_path cache @ [PROMOTION_JOURNAL_FILE])"
  by (simp add: prior_def slots_def PROMOTION_JOURNAL_FILE_def PROMOTION_LOCK_FILE_def)

text \<open>Taking a lock changes the lock file at most, whatever comes of it.\<close>

definition only_slot :: "path \<Rightarrow> string \<Rightarrow> cache_world \<Rightarrow> cache_world \<Rightarrow> bool" where
  "only_slot d n w0 w \<longleftrightarrow>
     tree_wf (tr w) \<and> is_dir (tr w) d \<and> (\<forall>m. m \<noteq> n \<longrightarrow> slots (tr w) d m = slots (tr w0) d m) \<and>
     (\<forall>q. d \<parallel> q \<longrightarrow> lookup (tr w) q = lookup (tr w0) q)"

lemma only_slot_locks [simp]: "only_slot d n w0 (w\<lparr>cw_locks := ls\<rparr>) = only_slot d n w0 w"
  by (simp add: only_slot_def)

lemma inside_only_slot: "only_slot d n w0 v \<Longrightarrow> inside v d ((slots (tr v) d)(n := x)) w \<Longrightarrow> only_slot d n w0 w"
  by (auto simp: only_slot_def inside_def)

lemma wp_acquire_lock:
  assumes wf: "tree_wf (tr w)" "is_dir (tr w) d"
    and fin: "\<And>r w'. only_slot d n w w' \<Longrightarrow> cw_locks w' = cw_locks w \<or> cw_locks w' = (d @ [n]) # cw_locks w \<Longrightarrow>
      (d @ [n] \<in> set (cw_locks w) \<Longrightarrow> \<not> is_ok r) \<Longrightarrow> Q r w'"
  shows "wp (acquire_advisory_lock_with_mode (d @ [n]) label True True) Q w"
proof -
  let ?l = "d @ [n]"
  let ?take = "do { locked \<leftarrow> try_lock_exclusive ?l;
      if \<not> locked then fail (CacLockBusy ?l)
      else or_unlock [?l] (do { pid \<leftarrow> process_id;
        attempt (fs_truncate ?l) (\<lambda>_. attempt (fs_append ?l [] (lock_owner_text label pid)) (\<lambda>_. ok ?l)) }) }"
  have pre: "only_slot d n w w" using wf by (simp add: only_slot_def)
  have st: "inside v d (slots (tr v) d) v" if "only_slot d n w v" for v
    using that by (simp add: inside_refl only_slot_def)
  have written: "wp ?take Q v"
    if v: "only_slot d n w v" "slots (tr v) d n = Some (NFile b)" and lk: "cw_locks v = cw_locks w" for v b
  proof (cases "?l \<in> set (cw_locks v)")
    case True
    then have "wp (try_lock_exclusive ?l) R v = R False v" for R
      by (simp add: try_lock_exclusive_def wp_def)
    with v lk show ?thesis by (simp add: wp_bind wp_simps fin is_ok_def)
  next
    case False
    let ?v = "v\<lparr>cw_locks := ?l # cw_locks w\<rparr>"
    from False have taken: "wp (try_lock_exclusive ?l) R v = R True ?v" for R
      by (simp add: try_lock_exclusive_def wp_def lk)
    have v': "only_slot d n w ?v" using v by simp
    note inside_slot = inside_only_slot [OF v', simplified]
    show ?thesis
      apply (simp only: wp_bind taken or_unlock_def if_False simp_thms wp_process_id wp_attempt)
      apply (rule wp_truncate_in [OF st [OF v']])
        apply (simp add: v)
       apply (simp only: sum.case wp_attempt)
       apply (rule wp_append_in)
          apply assumption
         apply simp
        apply (use False lk in \<open>auto simp: wp_simps is_ok_def wp_holding v insideD(6) intro!: fin elim: inside_slot\<close>)
      done
  qed
  have create: "wp (fs_create ?l (NFile [])) (\<lambda>r. case r of Inl e \<Rightarrow> Q (Inl e) | Inr _ \<Rightarrow> wp ?take Q) w" if "lookup (tr w) ?l = None"
    apply (rule wp_create_in [OF st [OF pre]])
       apply (simp_all add: slots_def that fin pre is_ok_def)
    apply (rule written)
      apply (erule inside_only_slot [OF pre])
     apply (simp_all add: inside_def slots_def)
    done
  show ?thesis
    unfolding acquire_advisory_lock_with_mode_def if_True
    by (subst wp_bind) (auto simp: wp_fs_metadata wp_attempt wp_ok wp_fail fin pre is_ok_def slots_def
        intro!: written create split: option.split node.split)
qed

lemma wp_acquire_promotion_lock:
  assumes pre: "prior cache w0 w"
    and fin: "\<And>r w'. prior cache w0 w' \<Longrightarrow> cw_locks w' = cw_locks w \<or> cw_locks w' = (root_path cache @ [PROMOTION_LOCK_FILE]) # cw_locks w \<Longrightarrow> Q r w'"
  shows "wp (acquire_promotion_lock (root_path cache)) Q w"
  unfolding acquire_promotion_lock_def
proof (rule wp_acquire_lock)
  show "tree_wf (tr w)" "is_dir (tr w) (root_path cache)" using pre by (simp_all add: prior_def)
next
  fix r w'
  assume "only_slot (root_path cache) PROMOTION_LOCK_FILE w w'"
    and l: "cw_locks w' = cw_locks w \<or> cw_locks w' = (root_path cache @ [PROMOTION_LOCK_FILE]) # cw_locks w"
  with pre have "prior cache w0 w'" by (simp add: prior_def only_slot_def)
  then show "Q r w'" using l by (rule fin)
qed

lemma entries_lookup:
  assumes "slots (tr w) (root_path cache) ENTRIES_DIR = slots (tr w0) (root_path cache) ENTRIES_DIR"
  shows "lookup (tr w) (root_path cache @ ENTRIES_DIR # r) = lookup (tr w0) (root_path cache @ ENTRIES_DIR # r)"
  using assms lookup_append [of "tr w" "root_path cache @ [ENTRIES_DIR]" r] lookup_append [of "tr w0" "root_path cache @ [ENTRIES_DIR]" r]
  by (simp add: slots_def)

lemma prior_lookup:
  "prior cache w0 w \<Longrightarrow> lookup (tr w) (root_path cache @ ENTRIES_DIR # r) = lookup (tr w0) (root_path cache @ ENTRIES_DIR # r)"
  by (rule entries_lookup) (simp add: prior_def ENTRIES_DIR_def PROMOTION_LOCK_FILE_def)

lemma prior_entry:
  assumes "prior cache w0 w" and "replaces_generation cj cache t pr"
  shows "lookup (tr w) (pc_path pr @ r) = lookup (tr w0) (pc_path pr @ r)"
    "lookup (tr w) (pc_data_path pr) = lookup (tr w0) (pc_data_path pr)"
proof -
  have at: "pc_path pr = entry_path cache \<lparr>ck_digest = pc_key_digest pr\<rparr>" "pc_data_path pr = pc_path pr @ [last (pc_staging_path pr), ''data'']"
    using assms(2) unfolding replaces_defs Let_def by blast+
  show path: "lookup (tr w) (pc_path pr @ r) = lookup (tr w0) (pc_path pr @ r)" for r
    using prior_lookup [OF assms(1)] by (simp add: at(1) entry_path_def root_entry_path_def)
  show "lookup (tr w) (pc_data_path pr) = lookup (tr w0) (pc_data_path pr)"
    unfolding at(2) by (rule path)
qed

lemma prior_prepared:
  assumes "prior cache w0 w" and "replaces_generation cj cache (tr w0) pr"
  shows "replaces_generation cj cache (tr w) pr"
  using assms(2)
  unfolding replaces_defs is_dir_def Let_def prior_entry(1) [OF assms] prior_entry(1) [OF assms, of "[]", unfolded append_Nil2]
  by (rule iffD1 [OF refl])

section \<open>What an entry holds\<close>

definition holds_previous :: "node \<Rightarrow> prepared_cache_entry \<Rightarrow> node \<Rightarrow> bool" where
  "holds_previous t0 pr t \<longleftrightarrow>
     list_all (\<lambda>x. lookup t (pc_path pr @ [x]) = lookup t0 (pc_path pr @ [x])) [''data'', COMPLETE_FILE, GENERATION_MANIFEST_FILE]"

definition holds_new :: "cache_json \<Rightarrow> node \<Rightarrow> prepared_cache_entry \<Rightarrow> node \<Rightarrow> bool" where
  "holds_new cj t0 pr t \<longleftrightarrow>
     lookup t (pc_path pr @ [''data'']) = lookup t0 (pc_data_path pr) \<and>
     lookup t (pc_path pr @ [COMPLETE_FILE]) = Some (NFile COMPLETE_BYTES) \<and>
     (case lookup t (pc_path pr @ [GENERATION_MANIFEST_FILE]) of
        Some (NFile bytes) \<Rightarrow>
          (case manifest_from_slice cj bytes of
             Inr m \<Rightarrow> gm_schema_version m = GENERATION_SCHEMA_VERSION \<and> gm_key_digest m = pc_key_digest pr \<and>
               gm_plan_digest m = pc_plan_digest pr \<and> gm_generation m = pc_generation pr \<and> gm_state m = ''complete''
           | Inl _ \<Rightarrow> False)
      | _ \<Rightarrow> False)"

lemma previous_holds:
  assumes "replaces_generation cj cache t pr" "journal_entry_for cj t pr j"
    and "previous_generation j (NDir (listing (lookup t (pc_path pr @ [''data''])))) (slots u (pc_path pr))"
  shows "holds_previous t pr u"
proof -
  have "is_dir t (pc_path pr @ [''data''])" using assms(1) unfolding replaces_defs Let_def by blast
  from is_dir_listing [OF this] assms(2,3) show ?thesis
    by (simp add: holds_previous_def previous_generation_def slots_def journal_entry_for_def)
qed

lemma new_holds:
  assumes "replaces_generation cj cache t pr" "journal_entry_for cj t pr j"
    and "new_generation cj j (NDir (listing (lookup t (pc_data_path pr)))) (slots u (pc_path pr))"
  shows "holds_new cj t pr u"
proof -
  have "is_dir t (pc_data_path pr)" using assms(1) unfolding replaces_defs Let_def by metis
  from is_dir_listing [OF this] assms(2,3) show ?thesis
    by (auto simp: holds_new_def new_generation_def slots_def journal_entry_for_def manifest_is_for_def)
qed

lemma all_entries_hold:
  assumes "list_all2 (journal_entry_for cj t) prepared js" "\<forall>pr\<in>set prepared. replaces_generation cj cache t pr"
    and "all_entries P cache (generations_of t prepared js) w"
    and "\<And>pr j. replaces_generation cj cache t pr \<Longrightarrow> journal_entry_for cj t pr j \<Longrightarrow>
      P j (NDir (listing (lookup t (pc_path pr @ [''data''])))) (NDir (listing (lookup t (pc_data_path pr)))) (slots (tr w) (pc_path pr)) \<Longrightarrow> R pr"
  shows "\<forall>pr\<in>set prepared. R pr"
  using assms
proof (induction prepared js rule: list_all2_induct)
  case (Cons pr prepared j js)
  have "place cache j = pc_path pr"
    by (rule prepared_journalled(1) [OF _ Cons.hyps(1)]) (use Cons.prems(1) in simp)
  with Cons show ?case by (simp add: generations_of_Cons)
qed simp

lemma recovered_hold:
  assumes "list_all2 (journal_entry_for cj t) prepared js" "\<forall>pr\<in>set prepared. replaces_generation cj cache t pr"
    and "all_entries (recovered cj) cache (generations_of t prepared js) w"
  shows "\<forall>pr\<in>set prepared. holds_previous t pr (tr w) \<or> holds_new cj t pr (tr w)"
  using assms by (rule all_entries_hold) (auto simp: recovered_def dest: previous_holds new_holds)

lemma finished_hold:
  assumes "list_all2 (journal_entry_for cj t) prepared js" "\<forall>pr\<in>set prepared. replaces_generation cj cache t pr"
    and "all_entries (finished cj) cache (generations_of t prepared js) w"
  shows "\<forall>pr\<in>set prepared. holds_new cj t pr (tr w)"
  using assms by (rule all_entries_hold) (auto simp: finished_def dest: new_holds)

section \<open>Promotion as a whole\<close>

text \<open>
  What is used of the JSON library: a journal is read back, with and without the final newline, and no
  proper prefix of the text of a journal is one.
\<close>

definition promotion_law :: "codec \<Rightarrow> cache_json \<Rightarrow> bool" where
  "promotion_law cx cj \<longleftrightarrow>
     (\<forall>j bytes. canonical_json cx (promotion_to_value j) = Ok bytes \<longrightarrow>
        promotion_from_slice cj bytes = Ok j \<and> promotion_from_slice cj (bytes @ [CHR 0x0A]) = Ok j \<and>
        (\<forall>k < length bytes. \<not> is_ok (promotion_from_slice cj (take k bytes))))"

definition journal_fits :: "codec \<Rightarrow> cache_json \<Rightarrow> node \<Rightarrow> prepared_cache_entry list \<Rightarrow> bool" where
  "journal_fits cx cj t prepared \<longleftrightarrow>
     (\<forall>journal bytes. journal_for cj t prepared journal \<longrightarrow> canonical_json cx (promotion_to_value journal) = Ok bytes \<longrightarrow>
        length bytes < 1048576)"

definition torn :: "cache_json \<Rightarrow> managed_cache \<Rightarrow> node \<Rightarrow> bool" where
  "torn cj cache t \<longleftrightarrow>
     (case lookup t (root_path cache @ [PROMOTION_JOURNAL_FILE]) of
        Some (NFile bytes) \<Rightarrow> \<not> is_ok (promotion_from_slice cj bytes) \<and> length bytes \<le> 1048576 | _ \<Rightarrow> False)"

definition no_journal :: "managed_cache \<Rightarrow> node \<Rightarrow> bool" where
  "no_journal cache t \<longleftrightarrow> lookup t (root_path cache @ [PROMOTION_JOURNAL_FILE]) = None"

text \<open>What the next start finds and does.\<close>

definition recovers :: "cache_json \<Rightarrow> managed_cache \<Rightarrow> prepared_cache_entry list \<Rightarrow> node \<Rightarrow> cache_world \<Rightarrow> bool" where
  "recovers cj cache prepared t w \<longleftrightarrow>
     wp (recover_promotion_locked cj cache) (\<lambda>r w'.
       r = Ok () \<and> no_journal cache (tr w') \<and> (\<forall>pr\<in>set prepared. holds_previous t pr (tr w') \<or> holds_new cj t pr (tr w')) \<or>
       r \<noteq> Ok () \<and> torn cj cache (tr w') \<and> (\<forall>pr\<in>set prepared. holds_previous t pr (tr w'))) (reboot w)"

definition safe_outcome where
  "safe_outcome cj cache prepared t r w \<longleftrightarrow>
     recovers cj cache prepared t w \<and>
     (r = (Ok Promoted :: (cache_error, cache_promotion_outcome) result) \<longrightarrow> no_journal cache (tr w) \<and> (\<forall>pr\<in>set prepared. holds_new cj t pr (tr w)))"

lemma no_journal_recovers:
  assumes "no_journal cache (tr w)" and "\<forall>pr\<in>set prepared. holds_previous t pr (tr w) \<or> holds_new cj t pr (tr w)"
  shows "recovers cj cache prepared t w"
  using assms by (simp add: recovers_def no_journal_def recover_promotion_locked_def Let_def read_optional_file_def wp_simps)

lemma torn_recovery:
  assumes "torn cj cache (tr w)" and "\<And>e. Q (Err e) w"
  shows "wp (recover_promotion_locked cj cache) Q w"
  using assms
  by (auto simp: torn_def recover_promotion_locked_def Let_def read_optional_file_def fs_read_def wp_simps is_ok_def map_err_simps
      split: option.splits node.splits sum.splits)

lemma torn_recovers:
  assumes "torn cj cache (tr w)" and "\<forall>pr\<in>set prepared. holds_previous t pr (tr w)"
  shows "recovers cj cache prepared t w"
  unfolding recovers_def by (rule torn_recovery) (use assms in simp_all)

lemma holds_previous_refl [simp]: "holds_previous t pr t"
  by (simp add: holds_previous_def)

lemma journalled_outcome:
  assumes wf: "tree_wf (tr w)" and law: "manifest_law cx cj"
    and pr: "\<forall>pr\<in>set prepared. replaces_generation cj cache (tr w0) pr" and journal: "journal_for cj (tr w0) prepared journal"
    and same: "same_entries cache (generations_of (tr w0) prepared (cj_entries journal)) w0 w"
    and on: "lookup (tr w) (root_path cache @ [PROMOTION_JOURNAL_FILE]) = Some (NFile b)" "length b \<le> 1048576"
      "promotion_from_slice cj b = Ok journal" and some: "prepared \<noteq> []"
  shows "wp (attempt (execute_promotion cx cj prepared journal) (\<lambda>_. attempt (finalize_promotion cache journal) (\<lambda>_. ok Promoted)))
      (safe_outcome cj cache prepared (tr w0)) w"
    and "recovers cj cache prepared (tr w0) w"
proof -
  let ?gens = "generations_of (tr w0) prepared (cj_entries journal)"
  have all2: "list_all2 (journal_entry_for cj (tr w0)) prepared (cj_entries journal)" and distinct: "distinct (map pc_path prepared)"
    using journal by (simp_all add: journal_for_def)
  note facts = generations_facts [OF all2 pr]
  have d: "distinct (places cache ?gens)" and entries: "cj_entries journal = map fst ?gens"
    and j: "\<And>g. g \<in> set ?gens \<Longrightarrow> journalled cj cache (place cache (fst g)) (fst g)"
    using facts distinct by simp_all
  have ready: "all_entries (ready cj) cache ?gens w" using facts same_entries_all [OF same] by simp
  have at: "journal_on_disk cj cache journal v" if "lookup (tr v) (root_path cache @ [PROMOTION_JOURNAL_FILE]) = Some (NFile b)" for v
    using that on(2,3) journal some all2 by (auto simp: journal_on_disk_def journal_for_def)
  have rec: "recovers cj cache prepared (tr w0) v" if "cut_off cj cache ?gens b r v" for r v
    unfolding recovers_def
    by (rule wp_mono [OF cut_off_recovers [OF that d j at entries]])
      (auto simp: no_journal_def dest: recovered_hold [OF all2 pr])
  have "cut_off cj cache ?gens b (Err CacPromotionUncertain) w"
    using wf on(1) ready by (auto simp: cut_off_def elim: all_entries_mono intro: ready_underway)
  then show "recovers cj cache prepared (tr w0) w" by (rule rec)
  have over: "safe_outcome cj cache prepared (tr w0) (map_result (\<lambda>_. Promoted) r) v" if c: "cut_off cj cache ?gens b r v" for r v
    using rec [OF c] c finished_hold [OF all2 pr, of v]
    by (auto simp: safe_outcome_def cut_off_def no_journal_def map_result_def split: sum.splits)
  from promotion_cut_off [OF wf d law j _ ready on(1) entries, of prepared] facts
  have "wp (attempt (execute_promotion cx cj prepared journal) (\<lambda>_. finalize_promotion cache journal)) (cut_off cj cache ?gens b) w"
    by simp
  then show "wp (attempt (execute_promotion cx cj prepared journal) (\<lambda>_. attempt (finalize_promotion cache journal) (\<lambda>_. ok Promoted)))
      (safe_outcome cj cache prepared (tr w0)) w"
    unfolding wp_attempt wp_ok
  proof (rule wp_mono)
    fix r v
    assume "(case r of Inl e \<Rightarrow> cut_off cj cache ?gens b (Inl e)
      | Inr _ \<Rightarrow> wp (finalize_promotion cache journal) (cut_off cj cache ?gens b)) v"
    then show "(case r of Inl e \<Rightarrow> safe_outcome cj cache prepared (tr w0) (Inl e) | Inr _ \<Rightarrow> wp (finalize_promotion cache journal)
      (\<lambda>r. case r of Inl e \<Rightarrow> safe_outcome cj cache prepared (tr w0) (Inl e) | Inr _ \<Rightarrow> safe_outcome cj cache prepared (tr w0) (Inr Promoted))) v"
      using over by (cases r) (fastforce elim!: wp_mono split: sum.splits)+
  qed
qed

lemma same_entries_root:
  "slots (tr w) (root_path cache) ENTRIES_DIR = slots (tr w0) (root_path cache) ENTRIES_DIR \<Longrightarrow> same_entries cache gens w0 w"
  using entries_lookup [of w cache w0] by (simp add: same_entries_def place_def entry_path_def root_entry_path_def)

lemma entries_hold_root:
  assumes "slots (tr w) (root_path cache) ENTRIES_DIR = slots (tr w0) (root_path cache) ENTRIES_DIR"
    and "\<forall>pr\<in>set prepared. replaces_generation cj cache (tr w0) pr"
  shows "\<forall>pr\<in>set prepared. holds_previous (tr w0) pr (tr w)"
proof
  fix pr assume "pr \<in> set prepared"
  with assms(2) have "pc_path pr = entry_path cache \<lparr>ck_digest = pc_key_digest pr\<rparr>"
    unfolding replaces_defs Let_def by blast
  with entries_lookup [OF assms(1)] show "holds_previous (tr w0) pr (tr w)"
    by (simp add: holds_previous_def entry_path_def root_entry_path_def)
qed

lemma written_journal_outcome:
  assumes wf: "tree_wf (tr w)" "is_dir (tr w) (root_path cache)" and laws: "manifest_law cx cj" "promotion_law cx cj"
    and pr: "\<forall>pr\<in>set prepared. replaces_generation cj cache (tr w) pr" and journal: "journal_for cj (tr w) prepared journal"
    and none: "no_journal cache (tr w)" and fits: "journal_fits cx cj (tr w) prepared" and some: "prepared \<noteq> []"
  shows "wp (attempt (write_promotion_journal cx (root_path cache) journal) (\<lambda>_.
      attempt (execute_promotion cx cj prepared journal) (\<lambda>_. attempt (finalize_promotion cache journal) (\<lambda>_. ok Promoted))))
    (safe_outcome cj cache prepared (tr w)) w"
proof (cases "canonical_json cx (promotion_to_value journal)")
  case (Inl e)
  with none show ?thesis
    by (auto simp: write_promotion_journal_def wp_simps map_err_simps safe_outcome_def intro!: no_journal_recovers)
next
  case (Inr bytes)
  let ?s = "slots (tr w) (root_path cache)" and ?J = PROMOTION_JOURNAL_FILE
  have st: "inside w (root_path cache) ?s w" by (rule inside_refl [OF wf])
  have free: "?s ?J = None" using none by (simp add: no_journal_def slots_def)
  have short: "length bytes < 1048576" using fits journal Inr by (auto simp: journal_fits_def)
  then have short': "length (bytes @ [CHR 0x0A]) \<le> 1048576" by simp
  have law: "promotion_from_slice cj bytes = Ok journal" "promotion_from_slice cj (bytes @ [CHR 0x0A]) = Ok journal"
    "k < length bytes \<Longrightarrow> \<not> is_ok (promotion_from_slice cj (take k bytes))" for k
    using laws(2) Inr by (auto simp: promotion_law_def)
  have at: "tree_wf (tr v)" "slots (tr v) (root_path cache) ENTRIES_DIR = ?s ENTRIES_DIR"
      "lookup (tr v) (root_path cache @ [?J]) = Some (NFile b)"
    if "inside w (root_path cache) (?s(?J := Some (NFile b))) v" for b v
    using that insideD(3) [OF that, of ?J] by (auto simp: inside_def ENTRIES_DIR_def PROMOTION_JOURNAL_FILE_def)
  note run = journalled_outcome [OF _ laws(1) pr journal same_entries_root _ _ _ some]
  have broken: "recovers cj cache prepared (tr w) v"
    if k: "k < length (bytes @ [CHR 0x0A])" and v: "inside w (root_path cache) (?s(?J := Some (NFile (take k (bytes @ [CHR 0x0A]))))) v" for k v
  proof (cases "k = length bytes")
    case True
    then show ?thesis using at [OF v] short law by (intro run(2)) auto
  next
    case False
    then have "torn cj cache (tr v)" using at(3) [OF v] k law(3) [of k] short by (auto simp: torn_def)
    with entries_hold_root [OF at(2) [OF v] pr] show ?thesis by (intro torn_recovers)
  qed
  have idle: "safe_outcome cj cache prepared (tr w) (Err e) v" if v: "inside w (root_path cache) ?s v" for e v
  proof -
    have "no_journal cache (tr v)" using insideD(3) [OF v] free by (simp add: no_journal_def)
    moreover have "\<forall>pr\<in>set prepared. holds_previous (tr w) pr (tr v)"
      by (rule entries_hold_root [OF _ pr]) (simp add: insideD(4) [OF v])
    ultimately show ?thesis by (simp add: safe_outcome_def no_journal_recovers)
  qed
  show ?thesis
    apply (simp only: write_promotion_journal_def wp_attempt wp_of_result Inr map_err_simps sum.case)
    apply (rule wp_write_new_in [OF st free])
      apply (simp only: sum.case)
      apply (rule run(1) [unfolded wp_attempt])
          apply (erule at(1), erule at(2), erule at(3), rule short', rule law(2))
    subgoal by (simp add: idle)
    subgoal by (auto simp: safe_outcome_def broken)
    done
qed

lemma safe_outcome_locks [simp]:
  "safe_outcome cj cache prepared t r (w\<lparr>cw_locks := ls\<rparr>) = safe_outcome cj cache prepared t r w"
  by (simp add: safe_outcome_def recovers_def reboot_def)

lemma created_journal_outcome:
  assumes wf: "tree_wf (tr w)" "is_dir (tr w) (root_path cache)" and laws: "manifest_law cx cj" "promotion_law cx cj"
    and pr: "\<forall>pr\<in>set prepared. replaces_generation cj cache (tr w) pr"
    and none: "no_journal cache (tr w)" and fits: "journal_fits cx cj (tr w) prepared" and some: "prepared \<noteq> []"
  shows "wp (attempt (create_promotion_journal cx cj cache prepared) (\<lambda>journal.
      attempt (execute_promotion cx cj prepared journal) (\<lambda>_. attempt (finalize_promotion cache journal) (\<lambda>_. ok Promoted))))
    (safe_outcome cj cache prepared (tr w)) w"
  unfolding create_promotion_journal_def wp_attempt
proof (rule wp_mono [OF journal_entries_outcome], goal_cases)
  case (2 r v)
  then have v: "tr v = tr w" by (simp add: same_disk_def)
  show ?case
  proof (cases r)
    case (Inl e)
    with none v show ?thesis by (auto simp: safe_outcome_def intro!: no_journal_recovers)
  next
    case (Inr es)
    let ?op = "show_word (cw_pid v) @ ''-'' @ show_word (cw_sequence v)" and ?v = "v\<lparr>cw_sequence := cw_sequence v + 1\<rparr>"
    let ?journal = "\<lparr>cj_schema_version = PROMOTION_SCHEMA_VERSION, cj_operation_id = ?op, cj_state = ''prepared'', cj_entries = es\<rparr>"
    have "journal_for cj (tr ?v) prepared ?journal"
      using 2 Inr v length_show_u32 [of "cw_pid v"] length_show_u64 [of "cw_sequence v"] by (simp add: journal_for_def)
    from written_journal_outcome [where w = ?v and cache = cache, OF _ _ laws _ this _ _ some, unfolded wp_attempt wp_ok]
    show ?thesis using wf pr none fits v
      by (simp add: Inr wp_bind wp_temporary_name wp_attempt wp_ok Let_def)
  qed
qed (use pr in blast)

lemma prior_journal_for:
  assumes p: "prior cache w0 w" and pr: "\<forall>pr\<in>set prepared. replaces_generation cj cache (tr w0) pr"
    and journal: "journal_for cj (tr w) prepared journal"
  shows "journal_for cj (tr w0) prepared journal"
proof -
  have "journal_entry_for cj (tr w0) x j" if "x \<in> set prepared" "journal_entry_for cj (tr w) x j" for x j
  proof -
    have x: "replaces_generation cj cache (tr w0) x" using pr that(1) by blast
    have at: "pc_staging_path x @ [GENERATION_MANIFEST_FILE] = pc_path x @ [last (pc_staging_path x), GENERATION_MANIFEST_FILE]"
      using x unfolding replaces_defs Let_def by (metis append.assoc append_Cons append_Nil)
    show ?thesis using that(2) unfolding journal_entry_for_def at prior_entry(1) [OF p x] .
  qed
  with journal show ?thesis
    unfolding journal_for_def by (auto elim!: list.rel_mono_strong)
qed

lemma prior_safe:
  assumes p: "prior cache w0 w" and pr: "\<forall>pr\<in>set prepared. replaces_generation cj cache (tr w0) pr"
  shows "safe_outcome cj cache prepared (tr w) r v = safe_outcome cj cache prepared (tr w0) r v"
proof -
  have "holds_previous (tr w) x t = holds_previous (tr w0) x t \<and> holds_new cj (tr w) x t = holds_new cj (tr w0) x t"
    if "x \<in> set prepared" for x t
    using prior_entry [OF p bspec [OF pr that]] by (simp add: holds_previous_def holds_new_def)
  then show ?thesis by (simp add: safe_outcome_def recovers_def cong: ball_cong)
qed

lemma wp_validate_owner_marker: "(\<And>r. Q r w) \<Longrightarrow> wp (validate_owner_marker p) Q w"
  by (simp add: validate_owner_marker_def wp_simps split: option.split node.split)

lemma promote_entries_safe:
  assumes wf: "tree_wf (tr w)" "is_dir (tr w) (root_path cache)" and laws: "manifest_law cx cj" "promotion_law cx cj"
    and pr: "\<forall>pr\<in>set prepared. replaces_generation cj cache (tr w) pr"
    and none: "no_journal cache (tr w)" and fits: "journal_fits cx cj (tr w) prepared"
  shows "wp (promote_entries cx cj cache prepared) (safe_outcome cj cache prepared (tr w)) w"
proof -
  have start: "prior cache w w" using wf by (simp add: prior_def)
  have early: "safe_outcome cj cache prepared (tr w) r v" if v: "prior cache w v" and r: "r \<noteq> Ok Promoted" for r v
  proof -
    have "no_journal cache (tr v)" using prior_journal [OF v] none by (simp add: no_journal_def)
    moreover have "slots (tr v) (root_path cache) ENTRIES_DIR = slots (tr w) (root_path cache) ENTRIES_DIR"
      using v by (simp add: prior_def ENTRIES_DIR_def PROMOTION_LOCK_FILE_def)
    from entries_hold_root [OF this pr] have "\<forall>x\<in>set prepared. holds_previous (tr w) x (tr v)" .
    ultimately show ?thesis using r by (simp add: safe_outcome_def no_journal_recovers)
  qed
  have run: "wp (attempt (recover_promotion_locked cj cache) (\<lambda>_. attempt (create_promotion_journal cx cj cache prepared) (\<lambda>journal.
      attempt (execute_promotion cx cj prepared journal) (\<lambda>_. attempt (finalize_promotion cache journal) (\<lambda>_. ok Promoted)))))
    (safe_outcome cj cache prepared (tr w)) v" if v: "prior cache w v" and some: "prepared \<noteq> []" for v
  proof -
    have n: "no_journal cache (tr v)" using prior_journal [OF v] none by (simp add: no_journal_def)
    have "\<forall>x\<in>set prepared. replaces_generation cj cache (tr v) x" using prior_prepared [OF v] pr by blast
    moreover have "journal_fits cx cj (tr v) prepared"
      using fits prior_journal_for [OF v pr] unfolding journal_fits_def by blast
    ultimately have "wp (attempt (create_promotion_journal cx cj cache prepared) (\<lambda>journal.
        attempt (execute_promotion cx cj prepared journal) (\<lambda>_. attempt (finalize_promotion cache journal) (\<lambda>_. ok Promoted))))
      (safe_outcome cj cache prepared (tr v)) v"
      using v n some by (intro created_journal_outcome [OF _ _ laws]) (auto simp: prior_def)
    moreover have "wp (recover_promotion_locked cj cache) Q v = Q (Ok ()) v" for Q
      using n by (simp add: no_journal_def recover_promotion_locked_def Let_def read_optional_file_def wp_simps)
    ultimately show ?thesis by (subst wp_attempt) (simp add: prior_safe [OF v pr, abs_def])
  qed
  show ?thesis
  proof (cases "prepared = []")
    case False
    then show ?thesis
      apply (simp only: promote_entries_def if_False wp_attempt)
      apply (rule wp_validate_owner_marker)
      subgoal for r
        apply (cases r)
         apply (simp add: early start)
        apply (simp only: sum.case)
        apply (rule wp_acquire_promotion_lock [OF start])
        subgoal for _ q v
          by (cases q) (use run [of v] in \<open>simp_all add: early wp_holding wp_unlock unlock_all.simps wp_bind wp_return\<close>)
        done
      done
  next
    case True
    with early [OF start, of "Ok NotAttempted"] show ?thesis by (simp add: promote_entries_def wp_ok)
  qed
qed

section \<open>An entry that is locked\<close>

lemma lock_entries_held:
  assumes "tree_wf (tr w)" and "j \<in> set entries" and "place cache j @ [ENTRY_LOCK_FILE] \<in> set (cw_locks w)"
  shows "wp (lock_entries cache locks entries) (\<lambda>r w'. \<not> is_ok r \<and>
    lookup (tr w') (root_path cache @ [PROMOTION_JOURNAL_FILE]) = lookup (tr w) (root_path cache @ [PROMOTION_JOURNAL_FILE])) w"
  using assms
proof (induction entries arbitrary: w locks)
  case (Cons e entries)
  let ?J = "root_path cache @ [PROMOTION_JOURNAL_FILE]"
  let ?P = "\<lambda>r w'. \<not> is_ok (r :: (cache_error, path list) result) \<and> lookup (tr w') ?J = lookup (tr w) ?J"
  have J: "place cache e \<parallel> ?J" using journal_parallel [of cache e "[]"] by (auto simp: parallel_def)
  have rest: "wp (lock_entries cache ls entries) ?P v"
    if v: "only_slot (place cache e) ENTRY_LOCK_FILE w v" "set (cw_locks w) \<subseteq> set (cw_locks v)" "j \<in> set entries" for v ls
  proof -
    from J have "lookup (tr v) ?J = lookup (tr w) ?J" "tree_wf (tr v)" using v(1) by (simp_all add: only_slot_def)
    with Cons.IH [of v ls] v Cons.prems(3) show ?thesis by auto
  qed
  let ?got = "\<lambda>r v. case r of Inl x \<Rightarrow> lookup (tr v) ?J = lookup (tr w) ?J
    | Inr l \<Rightarrow> only_slot (place cache e) ENTRY_LOCK_FILE w v \<and> set (cw_locks w) \<subseteq> set (cw_locks v) \<and> j \<in> set entries"
  have lock: "wp (acquire_entry_lock (place cache e)) ?got w" if "is_dir (tr w) (place cache e)"
    unfolding acquire_entry_lock_def
    by (rule wp_acquire_lock [OF Cons.prems(1) that])
      (use Cons.prems(2,3) J in \<open>auto simp: only_slot_def is_ok_def split: sum.splits\<close>)
  have key: "journal_key e = Ok k \<Longrightarrow> entry_path cache k = place cache e" for k
    by (auto simp: journal_key_def place_def and_then_def split: sum.splits)
  have got: "wp (attempt (of_result (validate_owned_name (ce_staging_name e) ''.staging-'')) (\<lambda>_.
        attempt (of_result (validate_owned_name (ce_backup_name e) ''.backup-'')) (\<lambda>_.
        attempt (of_result (journal_key e)) (\<lambda>key.
        attempt (cache_plain_directory (entry_path cache key)) (\<lambda>_.
        acquire_entry_lock (entry_path cache key)))))) ?got w"
    using lock by (auto simp: wp_attempt wp_of_result cache_plain_directory_def wp_bind wp_fs_metadata wp_ok wp_fail key is_dir_def
        split: sum.split option.split node.split elim!: wp_mono) blast
  show ?case
    apply (subst lock_entries.simps, subst wp_attempt, subst or_unlock_def, subst wp_bind)
    apply (rule wp_mono [OF got])
    subgoal for r v
      by (cases r) (auto simp: is_ok_def wp_return wp_holding rest [unfolded is_ok_def] intro!: wp_unlock_all)
    done
qed simp

lemma promote_entries_stuck:
  assumes start: "tree_wf (tr w)" "is_dir (tr w) (root_path cache)" and some: "prepared \<noteq> []"
    and keep: "\<And>v. prior cache w v \<Longrightarrow> K v" and locks: "\<And>v ls. K (v\<lparr>cw_locks := ls\<rparr>) = K v"
    and stuck: "\<And>v. prior cache w v \<Longrightarrow> set (cw_locks w) \<subseteq> set (cw_locks v) \<Longrightarrow>
      wp (recover_promotion_locked cj cache) (\<lambda>r w'. \<not> is_ok r \<and> K w') v"
  shows "wp (promote_entries cx cj cache prepared) (\<lambda>r w'. \<not> is_ok r \<and> K w') w"
proof -
  have prior: "prior cache w w" using start by (simp add: prior_def)
  show ?thesis
    using some
    apply (simp only: promote_entries_def if_False wp_attempt)
    apply (rule wp_validate_owner_marker)
    subgoal for r
      apply (cases r)
       apply (simp add: keep prior is_ok_def)
      apply (simp only: sum.case)
      apply (rule wp_acquire_promotion_lock [OF prior])
      subgoal for _ q v
        apply (cases q)
         apply (simp add: keep is_ok_def)
        apply (simp only: sum.case wp_holding)
        apply (subst wp_attempt)
        apply (rule wp_mono [OF stuck])
          apply (auto simp: is_ok_def wp_unlock wp_bind wp_return locks split: sum.splits)
        done
      done
    done
qed

section \<open>A first generation that was half installed\<close>

text \<open>
  The journal says that the entry had no generation, and its data directory is there without the
  complete marker: the promotion was interrupted between moving the data and writing the marker.
\<close>

definition half_installed :: "managed_cache \<Rightarrow> cache_promotion_journal_entry_v1 \<Rightarrow> node \<Rightarrow> bool" where
  "half_installed cache j t \<longleftrightarrow> \<not> ce_had_current j \<and> is_dir t (place cache j @ [''data'']) \<and>
     lookup t (place cache j @ [COMPLETE_FILE]) \<noteq> Some (NFile COMPLETE_BYTES)"

lemma recover_half_installed:
  assumes "half_installed cache j (tr w)" and "\<And>e. Q (Err e) w"
  shows "wp (recover_entry cj cache j) Q w"
proof (cases "journal_key j")
  case (Inl e)
  with assms(2) show ?thesis by (simp add: recover_entry_def wp_simps)
next
  case (Inr k)
  then have "entry_path cache k = place cache j"
    by (auto simp: journal_key_def place_def and_then_def split: sum.splits)
  with Inr assms show ?thesis
    by (auto simp: recover_entry_def Let_def wp_simps half_installed_def is_dir_def node_exists_def fs_exists_def
        current_generation_is_complete_def read_optional_file_def fs_read_def
        split: option.split node.split)
qed

abbreviation same_state :: "managed_cache \<Rightarrow> cache_promotion_journal_entry_v1 \<Rightarrow> cache_world \<Rightarrow> cache_world \<Rightarrow> bool" where
  "same_state cache j w v \<equiv>
     lookup (tr v) (root_path cache @ [PROMOTION_JOURNAL_FILE]) = lookup (tr w) (root_path cache @ [PROMOTION_JOURNAL_FILE]) \<and>
     (\<forall>x\<in>{''data'', COMPLETE_FILE}. lookup (tr v) (place cache j @ [x]) = lookup (tr w) (place cache j @ [x]))"

lemma lock_entry_same_state:
  assumes wf: "tree_wf (tr w)"
  shows "wp (lock_entries cache [] [j]) (\<lambda>_. same_state cache j w) w"
proof -
  let ?J = "root_path cache @ [PROMOTION_JOURNAL_FILE]"
  have J: "place cache j \<parallel> ?J" using journal_parallel [of cache j "[]"] by (auto simp: parallel_def)
  have lock: "wp (acquire_entry_lock (place cache j)) (\<lambda>_. same_state cache j w) w" if "is_dir (tr w) (place cache j)"
    unfolding acquire_entry_lock_def
    by (rule wp_acquire_lock [OF wf that])
      (use J in \<open>auto simp: only_slot_def slots_def ENTRY_LOCK_FILE_def COMPLETE_FILE_def\<close>)
  have key: "journal_key j = Ok k \<Longrightarrow> entry_path cache k = place cache j" for k
    by (auto simp: journal_key_def place_def and_then_def split: sum.splits)
  have got: "wp (attempt (of_result (validate_owned_name (ce_staging_name j) ''.staging-'')) (\<lambda>_.
        attempt (of_result (validate_owned_name (ce_backup_name j) ''.backup-'')) (\<lambda>_.
        attempt (of_result (journal_key j)) (\<lambda>key.
        attempt (cache_plain_directory (entry_path cache key)) (\<lambda>_.
        acquire_entry_lock (entry_path cache key)))))) (\<lambda>_. same_state cache j w) w"
    using lock by (auto simp: wp_attempt wp_of_result cache_plain_directory_def wp_bind wp_fs_metadata wp_ok wp_fail key is_dir_def
        split: sum.split option.split node.split)
  show ?thesis
    apply (subst lock_entries.simps, subst wp_attempt, subst or_unlock_def, subst wp_bind)
    apply (rule wp_mono [OF got])
    subgoal for r v
      by (cases r) (auto simp: is_ok_def wp_return wp_holding wp_ok wp_attempt intro!: wp_unlock_all)
    done
qed

lemma half_installed_recovery:
  assumes wf: "tree_wf (tr w)" and journal: "journal_on_disk cj cache journal w" and one: "cj_entries journal = [j]"
    and half: "half_installed cache j (tr w)"
  shows "wp (recover_promotion_locked cj cache) (\<lambda>r v. \<not> is_ok r \<and> same_state cache j w v) w"
proof -
  obtain bytes where on: "lookup (tr w) (root_path cache @ [PROMOTION_JOURNAL_FILE]) = Some (NFile bytes)"
      "\<not> 1048576 < length bytes" "promotion_from_slice cj bytes = Ok journal"
    and whole: "(cj_schema_version journal \<noteq> PROMOTION_SCHEMA_VERSION \<or> cj_state journal \<noteq> ''prepared'' \<or>
      [j] = [] \<or> cj_operation_id journal = []) = False"
    using journal by (auto simp: journal_on_disk_def)
  have stuck: "wp (holding ls (recover_entries cj cache [j])) (\<lambda>r. case r of Inl e \<Rightarrow> same_state cache j w | Inr _ \<Rightarrow> \<lambda>_. False) v"
    if v: "same_state cache j w v" for ls v
  proof -
    have "half_installed cache j (tr v)" using half v by (simp add: half_installed_def is_dir_def)
    then have "wp (recover_entry cj cache j) (\<lambda>r v'. \<not> is_ok r \<and> v' = v) v"
      by (rule recover_half_installed) (simp add: is_ok_def)
    then show ?thesis
      unfolding wp_holding recover_entries.simps wp_attempt
      by (rule wp_mono) (use v in \<open>auto simp: is_ok_def split: sum.splits intro!: wp_unlock_all\<close>)
  qed
  show ?thesis
    apply (simp only: recover_promotion_locked_def Let_def wp_attempt read_optional_file_def wp_bind wp_fs_metadata on(1)
        option.case node.case fs_read_def wp_cache_tree wp_ok sum.case)
    apply (simp only: wp_if on(2) if_False wp_attempt wp_of_result on(3) map_err_simps sum.case one whole)
    apply (rule wp_mono [OF lock_entry_same_state [OF wf]])
    subgoal for r v
      apply (cases r)
       apply (simp add: is_ok_def on(1))
      apply (simp only: sum.case)
      apply (rule wp_mono [OF stuck])
       apply (auto simp: is_ok_def on(1) split: sum.splits)
      done
    done
qed

end
