(* ===== verification/Cache_Props.thy ===== *)
theory Cache_Props
  imports Cache_Journal "HOL-Library.Code_Target_Numeral"
begin

text \<open>
  The properties of the managed cache (\<^verbatim>\<open>src/src/cache.rs\<close>): what is left of a promotion that is
  stopped at any point, and a small cache to apply them to.
\<close>

section \<open>A cache with one prepared generation\<close>

definition demo_key :: string where "demo_key = ''sha256:'' @ replicate 64 (CHR ''a'')"

definition demo_cache :: managed_cache where
  "demo_cache = \<lparr>mc_root = \<lparr>rc_path = [''c''], rc_source = RootExplicit\<rparr>, mc_disk_budget_bytes = 1000\<rparr>"

definition demo_entry :: path where
  "demo_entry = [''c'', ENTRIES_DIR, ''sha256-'' @ replicate 64 (CHR ''a'')]"

definition demo_prepared :: prepared_cache_entry where
  "demo_prepared = \<lparr>pc_path = demo_entry, pc_data_path = demo_entry @ [''.staging-1'', ''data''],
     pc_staging_path = demo_entry @ [''.staging-1''], pc_key_digest = demo_key, pc_plan_digest = demo_key,
     pc_generation = 2, pc_was_complete = False\<rparr>"

definition demo_manifest :: "string \<Rightarrow> cache_generation_manifest_v1" where
  "demo_manifest state = \<lparr>gm_schema_version = GENERATION_SCHEMA_VERSION, gm_key_digest = demo_key, gm_plan_digest = demo_key,
     gm_generation = 2, gm_state = state\<rparr>"

definition demo_promotion :: cache_promotion_journal_v1 where
  "demo_promotion = \<lparr>cj_schema_version = PROMOTION_SCHEMA_VERSION, cj_operation_id = ''0-1'', cj_state = ''prepared'',
     cj_entries = [\<lparr>ce_key_digest = demo_key, ce_plan_digest = demo_key, ce_generation = 2, ce_staging_name = ''.staging-1'',
       ce_backup_name = ''.backup-0-0'', ce_had_current = True, ce_previous_marker = None, ce_previous_manifest = None\<rparr>]\<rparr>"

text \<open>A JSON library that knows one journal and the two manifests.\<close>

definition demo_cache_codec :: codec where
  "demo_cache_codec = \<lparr>to_vec = (\<lambda>v.
       if v = normalize_json (promotion_to_value demo_promotion) then Ok ''{}''
       else if v = normalize_json (manifest_to_value (demo_manifest ''complete'')) then Ok ''m'' else Err ''unknown''),
     sha256 = (\<lambda>_. [])\<rparr>"

definition demo_cache_json :: cache_json where
  "demo_cache_json =
     \<lparr>manifest_from_slice = (\<lambda>b. if b = ''s'' then Ok (demo_manifest ''staging'')
        else if b = ''m'' @ [CHR 0x0A] then Ok (demo_manifest ''complete'') else Err ''syntax''),
      promotion_from_slice = (\<lambda>b. if b = ''{}'' \<or> b = ''{}'' @ [CHR 0x0A] then Ok demo_promotion else Err ''syntax'')\<rparr>"

definition demo_files :: "(string \<times> node) list" where
  "demo_files = [(''.staging-1'', NDir [(GENERATION_MANIFEST_FILE, NFile ''s''), (''data'', NDir [(''new'', NFile ''2'')])]),
     (''data'', NDir [(''old'', NFile ''1'')])]"

definition demo_tree :: "(string \<times> node) list \<Rightarrow> node" where
  "demo_tree extra = NDir [(''c'', NDir ((OWNER_FILE, NFile OWNER_BYTES) # extra @
     [(ENTRIES_DIR, NDir [(''sha256-'' @ replicate 64 (CHR ''a''), NDir demo_files)])]))]"

text \<open>Power for the first disk changes only.\<close>

definition demo_world :: "node \<Rightarrow> nat option \<Rightarrow> cache_world" where
  "demo_world t p = \<lparr>cw_disk = \<lparr>dk_tree = t, dk_faults = []\<rparr>, cw_locks = [], cw_owners = [],
     cw_sequence = 0, cw_durable_sequence = 0, cw_run_lock_sequence = 0, cw_pid = 0, cw_power = p\<rparr>"

lemma demo_entry_unique:
  "normalize_json (promotion_entry_to_value e) = normalize_json (promotion_entry_to_value d) \<Longrightarrow>
     ce_previous_marker d = None \<Longrightarrow> ce_previous_manifest d = None \<Longrightarrow> e = (d :: cache_promotion_journal_entry_v1)"
  by (simp add: promotion_entry_to_value_def json_object_def bt_collect_def json_u64_def json_option_def bytes_to_value_def
      split: option.splits)

lemma demo_promotion_unique:
  "normalize_json (promotion_to_value j) = normalize_json (promotion_to_value demo_promotion) \<Longrightarrow> j = demo_promotion"
  by (auto simp: promotion_to_value_def json_object_def bt_collect_def demo_promotion_def map_eq_Cons_conv
      intro!: cache_promotion_journal_v1.equality demo_entry_unique)

lemma demo_manifest_unique:
  "normalize_json (manifest_to_value m) = normalize_json (manifest_to_value d) \<Longrightarrow> m = (d :: cache_generation_manifest_v1)"
  by (simp add: manifest_to_value_def json_object_def bt_collect_def json_u64_def)

lemma demo_kinds: "normalize_json (promotion_to_value j) \<noteq> normalize_json (manifest_to_value m)"
  by (simp add: promotion_to_value_def manifest_to_value_def json_object_def bt_collect_def)

lemma demo_writes:
  "canonical_json demo_cache_codec (promotion_to_value j) = Ok b \<longleftrightarrow> j = demo_promotion \<and> b = ''{}''"
  "canonical_json demo_cache_codec (manifest_to_value m) = Ok b \<longleftrightarrow> m = demo_manifest ''complete'' \<and> b = ''m''"
  using demo_kinds demo_kinds [symmetric] demo_promotion_unique [of j] demo_manifest_unique [of m "demo_manifest ''complete''"]
  by (auto simp: canonical_json_def demo_cache_codec_def map_err_def split: sum.splits if_splits)

lemma demo_laws: "promotion_law demo_cache_codec demo_cache_json" "manifest_law demo_cache_codec demo_cache_json"
  by (auto simp: promotion_law_def manifest_law_def demo_writes demo_cache_json_def is_ok_def less_Suc_eq numeral_2_eq_2
      split: if_splits)

lemma demo_fits: "journal_fits demo_cache_codec demo_cache_json t prepared"
  by (auto simp: journal_fits_def demo_writes)

lemma demo_tree_wf: "tree_wf (demo_tree [])" "tree_wf (demo_tree [(PROMOTION_JOURNAL_FILE, NFile b)])"
  by (simp_all add: demo_tree_def demo_files_def bt_inv_def OWNER_FILE_def ENTRIES_DIR_def GENERATION_MANIFEST_FILE_def
      PROMOTION_JOURNAL_FILE_def)

lemma demo_lookup:
  "lookup (demo_tree []) (demo_entry @ x # r) = lookup (NDir demo_files) (x # r)" "lookup (demo_tree []) demo_entry = Some (NDir demo_files)"
  by (simp_all add: demo_tree_def demo_entry_def OWNER_FILE_def ENTRIES_DIR_def)

lemma demo_is_prepared: "prepared_generation demo_cache_json demo_cache (demo_tree []) demo_prepared"
proof -
  have "is_ok (validated_digest_hex demo_key)" by (code_simp; simp)
  moreover have "entry_path demo_cache \<lparr>ck_digest = demo_key\<rparr> = demo_entry"
    by (simp add: entry_path_def root_entry_path_def demo_cache_def demo_entry_def directory_name_def demo_key_def)
  ultimately show ?thesis
    unfolding prepared_generation_def Let_def
    by (simp add: demo_prepared_def demo_lookup is_dir_def demo_files_def COMPLETE_FILE_def
        GENERATION_MANIFEST_FILE_def ENTRY_LOCK_FILE_def demo_cache_json_def demo_manifest_def plain_file_def)
qed

lemma demo_has_generation: "has_generation (demo_tree []) demo_prepared"
  by (simp add: has_generation_def demo_prepared_def demo_lookup is_dir_def demo_files_def)

section \<open>Properties\<close>

text \<open>
  C2. A promotion that replaces generations, every entry having one already, may be stopped after any of its disk
  changes, in the middle of a file included (the removal of a tree is one change); what was changed up to then is kept, in
  the order in which it was changed. When the recovery of the next start returns without an error, the journal is gone and every entry holds, with
  its marker and its manifest, either its previous generation unchanged or the whole new one. When it
  does not, the journal file is torn and every entry still holds its previous generation. A promotion
  that reports success has installed every new generation.
\<close>

theorem promotion_survives_interruption:
  assumes "tree_wf (tr w)" and "is_dir (tr w) (root_path cache)" and "manifest_law cx cj" and "promotion_law cx cj"
    and "list_all (prepared_generation cj cache (tr w)) prepared" and "list_all (has_generation (tr w)) prepared"
    and "no_journal cache (tr w)" and "journal_fits cx cj (tr w) prepared"
    and "run_state (promote_entries cx cj cache prepared) w = (r, w')"
    and "run_state (recover_promotion_locked cj cache) (reboot w') = (r', w'')"
  shows "(if r' = Ok ()
          then no_journal cache (tr w'') \<and> list_all (\<lambda>pr. holds_previous (tr w) pr (tr w'') \<or> holds_new cj (tr w) pr (tr w'')) prepared
          else torn cj cache (tr w'') \<and> list_all (\<lambda>pr. holds_previous (tr w) pr (tr w'')) prepared) \<and>
    (r = Ok Promoted \<longrightarrow> no_journal cache (tr w') \<and> list_all (\<lambda>pr. holds_new cj (tr w) pr (tr w')) prepared)"
proof -
  have "wp (promote_entries cx cj cache prepared) (safe_outcome cj cache prepared (tr w)) w"
    using assms(1-8) by (intro promote_entries_safe) (simp_all add: list_all_iff replaces_generation_def)
  with assms(9,10) show ?thesis
    by (auto simp: wp_def safe_outcome_def recovers_def list_all_iff)
qed

text \<open>The promotion of the small cache, cut off after twenty disk changes and recovered.\<close>

definition demo_cut :: "nat \<Rightarrow> cache_world" where
  "demo_cut n = snd (run_state (recover_promotion_locked demo_cache_json demo_cache)
     (reboot (snd (run_state (promote_entries demo_cache_codec demo_cache_json demo_cache [demo_prepared])
       (demo_world (demo_tree []) (Some n))))))"

lemma demo_world_tree [simp]: "tr (demo_world t p) = t"
  by (simp add: demo_world_def)

lemma promotion_survives_interruption_witness:
  "holds_previous (demo_tree []) demo_prepared (tr (demo_cut 20)) \<or>
   holds_new demo_cache_json (demo_tree []) demo_prepared (tr (demo_cut 20))"
proof -
  have "is_dir (demo_tree []) (root_path demo_cache)" "no_journal demo_cache (demo_tree [])"
    by (simp_all add: is_dir_def demo_tree_def no_journal_def demo_cache_def OWNER_FILE_def ENTRIES_DIR_def PROMOTION_JOURNAL_FILE_def)
  then show ?thesis
    using promotion_survives_interruption [of "demo_world (demo_tree []) (Some 20)" demo_cache demo_cache_codec demo_cache_json
        "[demo_prepared]", OF _ _ demo_laws(2,1) _ _ _ demo_fits prod.collapse [symmetric] prod.collapse [symmetric]]
    by (auto simp: demo_tree_wf demo_is_prepared demo_has_generation demo_cut_def [symmetric] split: if_splits)
qed

text \<open>
  C38. The promotion of a first generation, of one entry, is not recovered when it is interrupted between moving the data into place
  and completing the marker: the journal says that the entry had no generation, a data directory is there
  and the marker is not complete. The recovery of the next start fails and so does every promotion, and
  both leave the journal and the data as they are.
\<close>

theorem first_promotion_not_recovered:
  assumes "tree_wf (tr w)" and "is_dir (tr w) (root_path cache)" and "journal_on_disk cj cache journal w"
    and "cj_entries journal = [j]" and "\<not> ce_had_current j" and "is_dir (tr w) (place cache j @ [''data''])"
    and "lookup (tr w) (place cache j @ [COMPLETE_FILE]) \<noteq> Some (NFile COMPLETE_BYTES)" and "prepared \<noteq> []"
    and "run_state (recover_promotion_locked cj cache) w = (r, v)"
    and "run_state (promote_entries cx cj cache prepared) w = (q, u)"
  shows "\<not> is_ok r \<and> journal_on_disk cj cache journal v \<and>
      lookup (tr v) (place cache j @ [''data'']) = lookup (tr w) (place cache j @ [''data'']) \<and>
    \<not> is_ok q \<and> journal_on_disk cj cache journal u \<and>
      lookup (tr u) (place cache j @ [''data'']) = lookup (tr w) (place cache j @ [''data''])"
proof -
  have half: "half_installed cache j (tr w)" using assms(5-7) by (simp add: half_installed_def)
  have keep: "same_state cache j w v" if "prior cache w v" for v
    using prior_journal [OF that] prior_lookup [OF that] by (simp add: place_def entry_path_def root_entry_path_def)
  have on: "journal_on_disk cj cache journal v" if "same_state cache j w v" for v
    using that assms(3) by (simp add: journal_on_disk_def)
  have "wp (promote_entries cx cj cache prepared) (\<lambda>q u. \<not> is_ok q \<and> same_state cache j w u) w"
  proof (rule promote_entries_stuck [OF assms(1,2,8)])
    fix v
    assume v: "prior cache w v"
    with keep have k: "same_state cache j w v" by blast
    then have "half_installed cache j (tr v)" using half by (simp add: half_installed_def is_dir_def)
    from half_installed_recovery [OF _ on [OF k] assms(4) this] v
    have "wp (recover_promotion_locked cj cache) (\<lambda>r u. \<not> is_ok r \<and> same_state cache j v u) v" by (simp add: prior_def)
    then show "wp (recover_promotion_locked cj cache) (\<lambda>r u. \<not> is_ok r \<and> same_state cache j w u) v"
      by (rule wp_mono) (use k in simp)
  qed (use keep in auto)
  moreover have "wp (recover_promotion_locked cj cache) (\<lambda>r v. \<not> is_ok r \<and> same_state cache j w v) w"
    by (rule half_installed_recovery [OF assms(1,3,4) half])
  ultimately show ?thesis using assms(9,10) on by (simp add: wp_def)
qed

text \<open>The promotion of a first generation, stopped after moving the data.\<close>

definition fresh_promotion :: cache_promotion_journal_v1 where
  "fresh_promotion = demo_promotion\<lparr>cj_entries := map (\<lambda>e. e\<lparr>ce_had_current := False\<rparr>) (cj_entries demo_promotion)\<rparr>"

definition fresh_codec :: codec where
  "fresh_codec = \<lparr>to_vec = (\<lambda>v.
       if v = normalize_json (promotion_to_value fresh_promotion) then Ok ''{}''
       else if v = normalize_json (manifest_to_value (demo_manifest ''complete'')) then Ok ''m'' else Err ''unknown''),
     sha256 = (\<lambda>_. [])\<rparr>"

definition fresh_json :: cache_json where
  "fresh_json = demo_cache_json\<lparr>promotion_from_slice := \<lambda>b. if b = ''{}'' @ [CHR 0x0A] then Ok fresh_promotion else Err ''syntax''\<rparr>"

definition fresh_tree :: node where
  "fresh_tree = del (demo_entry @ [''data'']) (demo_tree [])"

definition fresh_cut :: "nat \<Rightarrow> cache_world" where
  "fresh_cut n = reboot (snd (run_state (promote_entries fresh_codec fresh_json demo_cache [demo_prepared])
     (demo_world fresh_tree (Some n))))"

lemma fresh_cut_half_installed:
  "let w = fresh_cut 105 in tree_wf (tr w) \<and> (case lookup (tr w) [''c''] of Some (NDir _) \<Rightarrow> True | _ \<Rightarrow> False) \<and>
     lookup (tr w) [''c'', PROMOTION_JOURNAL_FILE] = Some (NFile (''{}'' @ [CHR 0x0A])) \<and>
     lookup (tr w) (demo_entry @ [''data'']) = Some (NDir [(''new'', NFile ''2'')]) \<and>
     lookup (tr w) (demo_entry @ [COMPLETE_FILE]) = Some (NFile ''comp'') \<and>
     fst (run_state (recover_promotion_locked fresh_json demo_cache) w) = Err CacPromotionUncertain"
  by code_simp

theorem first_promotion_not_recovered_witness:
  "fst (run_state (recover_promotion_locked fresh_json demo_cache) (fresh_cut 105)) = Err CacPromotionUncertain \<and>
   journal_on_disk fresh_json demo_cache fresh_promotion
     (snd (run_state (recover_promotion_locked fresh_json demo_cache) (fresh_cut 105))) \<and>
   \<not> is_ok (fst (run_state (promote_entries fresh_codec fresh_json demo_cache [demo_prepared]) (fresh_cut 105)))"
proof -
  let ?w = "fresh_cut 105" and ?j = "hd (cj_entries fresh_promotion)"
  note w = fresh_cut_half_installed [unfolded Let_def]
  have root: "root_path demo_cache = [''c'']" "is_dir (tr ?w) [''c'']"
    using w by (auto simp: demo_cache_def is_dir_def split: option.splits node.splits)
  have entry: "cj_entries fresh_promotion = [?j]" "\<not> ce_had_current ?j" "place demo_cache ?j = demo_entry"
    by (simp_all add: fresh_promotion_def demo_promotion_def place_def demo_cache_def demo_entry_def entry_path_def
        root_entry_path_def directory_name_def demo_key_def)
  have "journal_on_disk fresh_json demo_cache fresh_promotion ?w"
    using w by (simp add: journal_on_disk_def root fresh_json_def fresh_promotion_def demo_promotion_def)
  from first_promotion_not_recovered [OF _ _ this entry(1,2) _ _ _ prod.collapse [symmetric] prod.collapse [symmetric],
      where prepared = "[demo_prepared]" and cx = fresh_codec]
  show ?thesis using w root by (auto simp: entry(3) is_dir_def COMPLETE_BYTES_def)
qed

text \<open>
  C39. A promotion journal that was cut off while it was written stops every later promotion: whatever is to be
  promoted, the operation fails, and the torn journal is still there afterwards.
\<close>

theorem torn_journal_blocks_promotion:
  assumes "tree_wf (tr w)" and "is_dir (tr w) (root_path cache)" and "torn cj cache (tr w)" and "prepared \<noteq> []"
    and "run_state (promote_entries cx cj cache prepared) w = (r, w')"
  shows "\<not> is_ok r \<and> torn cj cache (tr w')"
proof -
  have keep: "torn cj cache (tr v)" if "prior cache w v" for v
    using prior_journal [OF that] assms(3) by (simp add: torn_def)
  have "wp (promote_entries cx cj cache prepared) (\<lambda>r w'. \<not> is_ok r \<and> torn cj cache (tr w')) w"
    using assms(1,2,4) by (rule promote_entries_stuck) (auto simp: keep is_ok_def intro!: torn_recovery)
  with assms(5) show ?thesis by (simp add: wp_def)
qed

lemma torn_journal_blocks_promotion_witness:
  "\<not> is_ok (fst (run_state (promote_entries demo_cache_codec demo_cache_json demo_cache [demo_prepared])
     (demo_world (demo_tree [(PROMOTION_JOURNAL_FILE, NFile ''{'')]) None)))"
proof -
  let ?t = "demo_tree [(PROMOTION_JOURNAL_FILE, NFile ''{'')]"
  have "is_dir ?t (root_path demo_cache)" "torn demo_cache_json demo_cache ?t"
    by (simp_all add: is_dir_def demo_tree_def torn_def demo_cache_def demo_cache_json_def is_ok_def OWNER_FILE_def ENTRIES_DIR_def
        PROMOTION_JOURNAL_FILE_def)
  then show ?thesis
    using torn_journal_blocks_promotion [of "demo_world ?t None" demo_cache demo_cache_json "[demo_prepared]" demo_cache_codec,
        OF _ _ _ _ prod.collapse [symmetric]]
    by (simp add: demo_tree_wf)
qed

text \<open>
  C40. The recovery that a promotion starts with takes the locks of the entries the journal names. When one of them is
  an entry that is about to be promoted, its lock is already held by the preparation: the operation
  fails, and the interrupted promotion stays as it is.
\<close>

theorem recovery_blocked_by_own_lock:
  assumes "tree_wf (tr w)" and "is_dir (tr w) (root_path cache)" and "journal_on_disk cj cache journal w"
    and "pr \<in> set prepared" and "pc_path pr @ [ENTRY_LOCK_FILE] \<in> set (cw_locks w)"
    and "pc_path pr \<in> set (map (place cache) (cj_entries journal))"
    and "run_state (promote_entries cx cj cache prepared) w = (r, w')"
  shows "\<not> is_ok r \<and> journal_on_disk cj cache journal w'"
proof -
  from assms(6) obtain j where j: "j \<in> set (cj_entries journal)" "place cache j = pc_path pr" by auto
  have some: "prepared \<noteq> []" using assms(4) by auto
  have keep: "journal_on_disk cj cache journal v"
    if "lookup (tr v) (root_path cache @ [PROMOTION_JOURNAL_FILE]) = lookup (tr w) (root_path cache @ [PROMOTION_JOURNAL_FILE])" for v
    using that assms(3) by (simp add: journal_on_disk_def)
  have blocked: "wp (recover_promotion_locked cj cache) (\<lambda>r w'. \<not> is_ok r \<and> journal_on_disk cj cache journal w') v"
    if v: "prior cache w v" "set (cw_locks w) \<subseteq> set (cw_locks v)" for v
  proof -
    have J: "lookup (tr v) (root_path cache @ [PROMOTION_JOURNAL_FILE]) = lookup (tr w) (root_path cache @ [PROMOTION_JOURNAL_FILE])"
      by (rule prior_journal [OF v(1)])
    have held: "tree_wf (tr v)" "place cache j @ [ENTRY_LOCK_FILE] \<in> set (cw_locks v)"
      using v assms(5) j by (auto simp: prior_def)
    obtain bytes where on: "lookup (tr v) (root_path cache @ [PROMOTION_JOURNAL_FILE]) = Some (NFile bytes)"
        "\<not> 1048576 < length bytes" "promotion_from_slice cj bytes = Ok journal"
      and whole: "(cj_schema_version journal \<noteq> PROMOTION_SCHEMA_VERSION \<or> cj_state journal \<noteq> ''prepared'' \<or>
        cj_entries journal = [] \<or> cj_operation_id journal = []) = False"
      using assms(3) J by (auto simp: journal_on_disk_def)
    show ?thesis
      apply (simp only: recover_promotion_locked_def Let_def wp_attempt read_optional_file_def wp_bind wp_fs_metadata on(1)
          option.case node.case fs_read_def wp_cache_tree wp_ok sum.case)
      apply (simp only: wp_if on(2) if_False wp_attempt wp_of_result on(3) map_err_simps sum.case whole)
      apply (rule wp_mono [OF lock_entries_held [OF held(1) j(1) held(2)]])
      apply (use keep J in \<open>auto simp: is_ok_def split: sum.splits\<close>)
      done
  qed
  have "wp (promote_entries cx cj cache prepared) (\<lambda>r w'. \<not> is_ok r \<and> journal_on_disk cj cache journal w') w"
    using keep [OF prior_journal] by (rule promote_entries_stuck [OF assms(1,2) some _ _ blocked]) (auto simp: journal_on_disk_def)
  with assms(7) show ?thesis by (simp add: wp_def)
qed

lemma recovery_blocked_by_own_lock_witness:
  "\<not> is_ok (fst (run_state (promote_entries demo_cache_codec demo_cache_json demo_cache [demo_prepared])
     ((demo_world (demo_tree [(PROMOTION_JOURNAL_FILE, NFile ''{}'')]) None)\<lparr>cw_locks := [demo_entry @ [ENTRY_LOCK_FILE]]\<rparr>)))"
proof -
  let ?w = "(demo_world (demo_tree [(PROMOTION_JOURNAL_FILE, NFile ''{}'')]) None)\<lparr>cw_locks := [demo_entry @ [ENTRY_LOCK_FILE]]\<rparr>"
  have "is_dir (tr ?w) (root_path demo_cache)" "journal_on_disk demo_cache_json demo_cache demo_promotion ?w"
    by (simp_all add: is_dir_def demo_tree_def journal_on_disk_def demo_cache_def demo_cache_json_def OWNER_FILE_def ENTRIES_DIR_def
        PROMOTION_JOURNAL_FILE_def demo_promotion_def)
  moreover have "pc_path demo_prepared \<in> set (map (place demo_cache) (cj_entries demo_promotion))"
    by (simp add: demo_prepared_def demo_promotion_def place_def demo_cache_def demo_entry_def entry_path_def root_entry_path_def
        directory_name_def demo_key_def)
  ultimately show ?thesis
    using recovery_blocked_by_own_lock [of ?w demo_cache demo_cache_json demo_promotion demo_prepared "[demo_prepared]" demo_cache_codec,
        OF _ _ _ _ _ _ prod.collapse [symmetric]]
    by (simp add: demo_tree_wf demo_prepared_def)
qed

end
