(* ===== verification/Workspace.thy ===== *)
theory Workspace
  imports Cache_Promotion Config Plan_Json
begin

text \<open>
  The workspace of a run (\<^verbatim>\<open>src/src/workspace.rs\<close>): the mounts a plan needs, their validation before
  they are used, the lock of the run and the directories and files it prepares. The text of a path
  that is joined to another loses its empty parts and its dots, as \<^verbatim>\<open>Path::components\<close> does.
\<close>

section \<open>Mounts\<close>

definition CONTAINER_WORKSPACE :: string where "CONTAINER_WORKSPACE = ''/workspace''"
definition RUN_LOCK_FILE :: string where "RUN_LOCK_FILE = ''.run-lock-v1''"

datatype mount_access = MountReadOnly | MountReadWrite

datatype mount_purpose = MountRepository | MountCache | MountArtifact

datatype mount_source_kind = SourceDirectory | SourceRegularFile

record mount_source_expectation =
  me_kind :: mount_source_kind
  me_canonical_anchor :: path
  me_exact_repository :: "path option"
  me_cache_generation :: "cache_generation_expectation option"

record mount_binding =
  mb_source :: path
  mb_target :: string
  mb_access :: mount_access
  mb_purpose :: mount_purpose
  mb_logical_id :: "string option"
  mb_expectation :: "mount_source_expectation option"

record workspace_plan_v1 =
  wk_schema_version :: string
  wk_repository :: path
  wk_source_snapshot_digest :: "string option"
  wk_run_root :: path
  wk_mounts :: "mount_binding list"

datatype workspace_error =
    WsMountExpectationMissing
  | WsMountSourceChanged mount_purpose
  | WsRepositoryNotDirectory
  | WsInvalidLogicalPath
  | WsUnsupportedHostPath
  | WsDuplicateTarget string
  | WsMissingRepositoryMountTarget string
  | WsUnsafeRepositoryMountTarget string
  | WsPathEscape
  | WsBusy path
  | WsUnsafeManagedObject
  | WsCache cache_error
  | WsIo io_error

type_synonym 'a workspace = "(cache_world, workspace_error, 'a) action"

definition path_parts :: "string \<Rightarrow> path" where
  "path_parts s = filter (\<lambda>x. x \<noteq> [] \<and> x \<noteq> ''.'') (split_on (CHR ''/'') s)"

definition join_path :: "path \<Rightarrow> string \<Rightarrow> path" where
  "join_path p s = (if path_is_absolute s then path_parts s else p @ path_parts s)"

definition path_text :: "path \<Rightarrow> string" where
  "path_text p = (if p = [] then ''/'' else concat (map (Cons (CHR ''/'')) p))"

section \<open>Validation\<close>

definition plain_segments :: "string \<Rightarrow> bool" where
  "plain_segments relative \<longleftrightarrow>
     list_all (\<lambda>segment. segment \<noteq> [] \<and> segment \<noteq> ''.'' \<and> segment \<noteq> ''..'') (split_on (CHR ''/'') relative)"

definition validate_container_mount_target :: "string \<Rightarrow> (workspace_error, unit) result" where
  "validate_container_mount_target target =
     (if CHR '','' \<in> set target \<or> CHR ''='' \<in> set target \<or> CHR 0x5C \<in> set target \<or> any_control target
      then Err WsInvalidLogicalPath
      else if target = CONTAINER_WORKSPACE then Ok ()
      else
        and_then (ok_or WsInvalidLogicalPath (Option.bind (strip_prefix CONTAINER_WORKSPACE target) (strip_prefix ''/''))) (\<lambda>relative.
        if relative = [] \<or> \<not> plain_segments relative then Err WsInvalidLogicalPath else Ok ()))"

definition container_target :: "string \<Rightarrow> (workspace_error, string) result" where
  "container_target relative =
     (if relative = [] \<or> starts_with ''/'' relative \<or> CHR 0x5C \<in> set relative \<or> CHR '','' \<in> set relative \<or>
         CHR ''='' \<in> set relative \<or> any_control relative \<or> \<not> plain_segments relative
      then Err WsInvalidLogicalPath
      else
        let target = CONTAINER_WORKSPACE @ ''/'' @ relative in
        and_then (validate_container_mount_target target) (\<lambda>_. Ok target))"

definition validate_under_root :: "path \<Rightarrow> path \<Rightarrow> (workspace_error, unit) result" where
  "validate_under_root p root = (if p = root \<or> prefix root p then Ok () else Err WsPathEscape)"

definition validate_host_path :: "path \<Rightarrow> (workspace_error, unit) result" where
  "validate_host_path p =
     (let text = path_text p in
      if \<not> utf8_valid text then Err WsUnsupportedHostPath
      else if CHR '','' \<in> set text \<or> CHR ''='' \<in> set text \<or> any_control text then Err WsUnsupportedHostPath
      else Ok ())"

definition artifact_kind_for :: "normalized_check \<Rightarrow> string \<Rightarrow> artifact_kind" where
  "artifact_kind_for check p =
     (case find (\<lambda>contract. na_path contract = p) (nk_artifact_contracts check) of
        Some contract \<Rightarrow> na_kind contract
      | None \<Rightarrow> RegularFile)"

definition artifacts_of :: "execution_plan_v1 \<Rightarrow> (normalized_check \<times> string) list" where
  "artifacts_of plan = concat (map (\<lambda>check. map (Pair check) (nk_artifacts check)) (pl_checks plan))"

section \<open>The plan of the workspace\<close>

definition repository_mount :: "path \<Rightarrow> mount_binding" where
  "repository_mount repository =
     \<lparr>mb_source = repository, mb_target = CONTAINER_WORKSPACE, mb_access = MountReadOnly, mb_purpose = MountRepository,
      mb_logical_id = None,
      mb_expectation = Some \<lparr>me_kind = SourceDirectory, me_canonical_anchor = repository,
        me_exact_repository = Some repository, me_cache_generation = None\<rparr>\<rparr>"

definition add_cache_mount ::
    "codec \<Rightarrow> execution_plan_envelope_v1 \<Rightarrow> resolved_cache_root \<Rightarrow> (string, path) btree_map \<Rightarrow>
       mount_binding list \<times> string btree_set \<Rightarrow> normalized_cache \<Rightarrow>
       (workspace_error, mount_binding list \<times> string btree_set) result" where
  "add_cache_mount cx envelope root cache_sources = (\<lambda>(mounts, targets) declared.
     and_then (map_err WsCache (for_plan_cache cx envelope declared)) (\<lambda>key.
     let source = (case bt_get cache_sources (nc_id declared) of Some s \<Rightarrow> s | None \<Rightarrow> root_entry_data_path root key) in
     and_then (validate_under_root source (rc_path root)) (\<lambda>_.
     and_then (container_target (nc_mount_path declared)) (\<lambda>target.
     if target \<in> set targets then Err (WsDuplicateTarget target)
     else Ok (mounts @ [\<lparr>mb_source = source, mb_target = target, mb_access = MountReadWrite, mb_purpose = MountCache,
                mb_logical_id = Some (nc_id declared),
                mb_expectation = Some \<lparr>me_kind = SourceDirectory, me_canonical_anchor = rc_path root,
                  me_exact_repository = None, me_cache_generation = None\<rparr>\<rparr>],
              bs_insert target targets)))))"

definition add_artifact_mount ::
    "path \<Rightarrow> mount_binding list \<times> string btree_set \<Rightarrow> normalized_check \<times> string \<Rightarrow>
       (workspace_error, mount_binding list \<times> string btree_set) result" where
  "add_artifact_mount run_root = (\<lambda>(mounts, targets) (check, artifact).
     let source = join_path (run_root @ [''artifacts'']) artifact in
     and_then (validate_under_root source run_root) (\<lambda>_.
     and_then (container_target artifact) (\<lambda>target.
     if target \<in> set targets then Err (WsDuplicateTarget target)
     else Ok (mounts @ [\<lparr>mb_source = source, mb_target = target, mb_access = MountReadWrite, mb_purpose = MountArtifact,
                mb_logical_id = Some (nk_id check @ '':'' @ artifact),
                mb_expectation = Some
                  \<lparr>me_kind = (if artifact_kind_for check artifact = Directory then SourceDirectory else SourceRegularFile),
                   me_canonical_anchor = run_root, me_exact_repository = None, me_cache_generation = None\<rparr>\<rparr>],
              bs_insert target targets))))"

definition build_with_cache_sources ::
    "codec \<Rightarrow> cache_host \<Rightarrow> node \<Rightarrow> execution_plan_envelope_v1 \<Rightarrow> path \<Rightarrow> resolved_cache_root \<Rightarrow>
       (string, path) btree_map \<Rightarrow> string option \<Rightarrow> (workspace_error, workspace_plan_v1) result" where
  "build_with_cache_sources cx hs t envelope repository root cache_sources source_snapshot_digest =
     and_then (map_err WsIo (ch_canonicalize hs t repository)) (\<lambda>repository.
     if \<not> (case lookup t repository of Some (NDir _) \<Rightarrow> True | _ \<Rightarrow> False) then Err WsRepositoryNotDirectory
     else
       and_then (validate_host_path repository) (\<lambda>_.
       and_then (map_err WsCache (root_workspace_path root (pe_plan_digest envelope))) (\<lambda>run_root.
       and_then (validate_under_root run_root (rc_path root)) (\<lambda>_.
       and_then (try_fold (add_cache_mount cx envelope root cache_sources)
         ([repository_mount repository], [CONTAINER_WORKSPACE]) (pl_caches (pe_plan envelope))) (\<lambda>state.
       and_then (try_fold (add_artifact_mount run_root) state (artifacts_of (pe_plan envelope))) (\<lambda>(mounts, targets).
       Ok \<lparr>wk_schema_version = ''1.0'', wk_repository = repository, wk_source_snapshot_digest = source_snapshot_digest,
           wk_run_root = run_root, wk_mounts = mounts\<rparr>))))))"

definition build_workspace_plan ::
    "codec \<Rightarrow> cache_host \<Rightarrow> node \<Rightarrow> execution_plan_envelope_v1 \<Rightarrow> path \<Rightarrow> resolved_cache_root \<Rightarrow>
       (workspace_error, workspace_plan_v1) result" where
  "build_workspace_plan cx hs t envelope repository root =
     build_with_cache_sources cx hs t envelope repository root [] None"

section \<open>Files of the run\<close>

definition ws_error :: "cache_error \<Rightarrow> workspace_error" where
  "ws_error e = (case e of CacIo io \<Rightarrow> WsIo io | e \<Rightarrow> WsCache e)"

abbreviation ws_io :: "'a cache \<Rightarrow> 'a workspace" where
  "ws_io \<equiv> on_err ws_error"

abbreviation ws_cache :: "'a cache \<Rightarrow> 'a workspace" where
  "ws_cache \<equiv> on_err WsCache"

definition ensure_plain_directory :: "path \<Rightarrow> unit workspace" where
  "ensure_plain_directory p = do { r \<leftarrow> fs_create p (NDir []);
     case r of
       Inr _ \<Rightarrow> ok ()
     | Inl e \<Rightarrow>
         if e = CacIo already_exists
         then do { m \<leftarrow> fs_metadata p;
           case m of
             None \<Rightarrow> fail (WsIo not_found)
           | Some (NDir _) \<Rightarrow> ok ()
           | Some _ \<Rightarrow> fail WsUnsafeManagedObject }
         else fail (ws_error e) }"

fun create_chain :: "path \<Rightarrow> path \<Rightarrow> unit workspace" where
  "create_chain current [] = ok ()"
| "create_chain current (x # rest) =
     attempt (ensure_plain_directory (current @ [x])) (\<lambda>_. create_chain (current @ [x]) rest)"

definition create_managed_directory_chain :: "path \<Rightarrow> path \<Rightarrow> unit workspace" where
  "create_managed_directory_chain p root =
     attempt (of_result (validate_under_root p root)) (\<lambda>_. create_chain root (drop (length root) p))"

definition validate_repository_mount_target ::
    "cache_host \<Rightarrow> node \<Rightarrow> path \<Rightarrow> string \<Rightarrow> bool \<Rightarrow> (workspace_error, unit) result" where
  "validate_repository_mount_target hs t repository relative expect_directory =
     (let target = join_path repository relative in
      case lookup t target of
        None \<Rightarrow> Err (WsMissingRepositoryMountTarget relative)
      | Some n \<Rightarrow>
          let correct_type = (case n of NDir _ \<Rightarrow> expect_directory | NFile _ \<Rightarrow> \<not> expect_directory | _ \<Rightarrow> False) in
          if is_link (Some n) \<or> \<not> correct_type then Err (WsUnsafeRepositoryMountTarget relative)
          else
            and_then (map_err WsIo (ch_canonicalize hs t target)) (\<lambda>canonical.
            if \<not> prefix repository canonical then Err WsPathEscape else Ok ()))"

definition validate_repository_mount_targets ::
    "cache_host \<Rightarrow> node \<Rightarrow> execution_plan_envelope_v1 \<Rightarrow> path \<Rightarrow> (workspace_error, unit) result" where
  "validate_repository_mount_targets hs t envelope repository =
     and_then (map_err WsIo (ch_canonicalize hs t repository)) (\<lambda>repository.
     and_then (try_each (\<lambda>c. validate_repository_mount_target hs t repository (nc_mount_path c) True)
       (pl_caches (pe_plan envelope))) (\<lambda>_.
     try_each (\<lambda>(check, artifact). validate_repository_mount_target hs t repository artifact
       (artifact_kind_for check artifact = Directory)) (artifacts_of (pe_plan envelope))))"

definition prepare_artifact :: "path \<Rightarrow> string \<Rightarrow> artifact_kind \<Rightarrow> unit workspace" where
  "prepare_artifact run_root artifact kind =
     (let p = join_path (run_root @ [''artifacts'']) artifact in
      attempt (of_result (validate_under_root p run_root)) (\<lambda>_.
      case kind of
        Directory \<Rightarrow> create_managed_directory_chain p run_root
      | RegularFile \<Rightarrow>
          if p = [] then fail WsPathEscape
          else
            attempt (create_managed_directory_chain (butlast p) run_root) (\<lambda>_. do {
            m \<leftarrow> fs_metadata p;
            case m of
              None \<Rightarrow> ws_io (fs_truncate p)
            | Some (NFile _) \<Rightarrow> ws_io (fs_truncate p)
            | Some _ \<Rightarrow> fail WsUnsafeManagedObject })))"

section \<open>The lock of the run\<close>

record workspace_lock =
  lk_path :: path
  lk_owner :: string

definition next_run_lock_sequence :: "(cache_world, u64) state" where
  "next_run_lock_sequence = State (\<lambda>w. (cw_run_lock_sequence w, w\<lparr>cw_run_lock_sequence := cw_run_lock_sequence w + 1\<rparr>))"

definition acquire_workspace_lock :: "path \<Rightarrow> workspace_lock workspace" where
  "acquire_workspace_lock run_root =
     (let p = run_root @ [RUN_LOCK_FILE] in do {
      sequence \<leftarrow> next_run_lock_sequence;
      pid \<leftarrow> process_id;
      let owner = ''pid='' @ show_word pid @ '' sequence='' @ show_word sequence @ [CHR 0x0A];
      r \<leftarrow> fs_create p (NFile []);
      case r of
        Inl e \<Rightarrow> fail (if e = CacIo already_exists then WsBusy p else ws_error e)
      | Inr _ \<Rightarrow> do {
          r \<leftarrow> ws_io (fs_append p [] owner);
          case r of
            Inl e \<Rightarrow> do { _ \<leftarrow> fs_remove p; fail e }
          | Inr _ \<Rightarrow> ok \<lparr>lk_path = p, lk_owner = owner\<rparr> } })"

definition drop_workspace_lock :: "workspace_lock \<Rightarrow> (cache_world, unit) state" where
  "drop_workspace_lock lock = do {
     r \<leftarrow> fs_read (lk_path lock);
     if r = Ok (lk_owner lock) then do { _ \<leftarrow> fs_remove (lk_path lock); State_Monad.return () }
     else State_Monad.return () }"

section \<open>Preparing a run\<close>

record prepared_workspace =
  pw_plan :: workspace_plan_v1
  pw_cache_entries :: "prepared_cache_entry list"
  pw_lock :: workspace_lock

primrec drop_entries :: "cache_json \<Rightarrow> prepared_cache_entry list \<Rightarrow> (cache_world, unit) state" where
  "drop_entries cj [] = State_Monad.return ()"
| "drop_entries cj (e # es) = do { _ \<leftarrow> drop_prepared cj (pc_staging_path e); drop_entries cj es }"

definition or_release :: "cache_json \<Rightarrow> prepared_cache_entry list \<Rightarrow> 'a workspace \<Rightarrow> 'a workspace" where
  "or_release cj entries m = do {
     r \<leftarrow> m;
     if is_ok r then State_Monad.return r else do { _ \<leftarrow> drop_entries cj entries; State_Monad.return r } }"

fun prepare_caches ::
    "codec \<Rightarrow> cache_json \<Rightarrow> execution_plan_envelope_v1 \<Rightarrow> managed_cache \<Rightarrow> u64 \<Rightarrow>
       (string, path) btree_map \<times> prepared_cache_entry list \<Rightarrow> normalized_cache list \<Rightarrow>
       ((string, path) btree_map \<times> prepared_cache_entry list) workspace" where
  "prepare_caches cx cj envelope cache generation (sources, entries) [] = ok (sources, entries)"
| "prepare_caches cx cj envelope cache generation (sources, entries) (declared # rest) =
     attempt (or_release cj entries (of_result (map_err WsCache (for_plan_cache cx envelope declared)))) (\<lambda>key.
     attempt (or_release cj entries (ws_cache (prepare_entry cx cj cache key (pe_plan_digest envelope) generation))) (\<lambda>prepared.
     attempt (or_release cj (prepared # entries) (of_result (validate_under_root (pc_data_path prepared) (root_path cache)))) (\<lambda>_.
     prepare_caches cx cj envelope cache generation
       (bt_insert (nc_id declared) (pc_data_path prepared) sources, entries @ [prepared]) rest)))"

fun prepare_artifacts :: "path \<Rightarrow> (normalized_check \<times> string) list \<Rightarrow> unit workspace" where
  "prepare_artifacts run_root [] = ok ()"
| "prepare_artifacts run_root ((check, artifact) # rest) =
     attempt (prepare_artifact run_root artifact (artifact_kind_for check artifact)) (\<lambda>_. prepare_artifacts run_root rest)"

text \<open>The first cache mount whose source is that of the prepared entry expects its generation.\<close>

fun expect_generation :: "prepared_cache_entry \<Rightarrow> mount_binding list \<Rightarrow> mount_binding list" where
  "expect_generation entry [] = []"
| "expect_generation entry (m # ms) =
     (if mb_purpose m = MountCache \<and> mb_source m = pc_data_path entry
      then m\<lparr>mb_expectation := map_option (\<lambda>e. e\<lparr>me_cache_generation := Some (generation_expectation entry)\<rparr>) (mb_expectation m)\<rparr> # ms
      else m # expect_generation entry ms)"

definition prepare_with_generation ::
    "codec \<Rightarrow> cache_json \<Rightarrow> cache_host \<Rightarrow> execution_plan_envelope_v1 \<Rightarrow> path \<Rightarrow> managed_cache \<Rightarrow> u64 \<Rightarrow>
       prepared_workspace workspace" where
  "prepare_with_generation cx cj hs envelope repository cache generation = do { t \<leftarrow> cache_tree;
     attempt (of_result (validate_repository_mount_targets hs t envelope repository)) (\<lambda>_.
     attempt (of_result (map_err WsCache (root_workspace_path (mc_root cache) (pe_plan_digest envelope)))) (\<lambda>run_root.
     attempt (create_managed_directory_chain run_root (root_path cache)) (\<lambda>_.
     attempt (acquire_workspace_lock run_root) (\<lambda>lock. do {
     r \<leftarrow> attempt (prepare_caches cx cj envelope cache generation ([], []) (pl_caches (pe_plan envelope))) (\<lambda>(sources, entries).
       or_release cj entries
         (attempt (prepare_artifacts run_root (artifacts_of (pe_plan envelope))) (\<lambda>_. do { t \<leftarrow> cache_tree;
          attempt (of_result (build_with_cache_sources cx hs t envelope repository (mc_root cache) sources None)) (\<lambda>plan.
          ok \<lparr>pw_plan = plan\<lparr>wk_mounts := fold expect_generation entries (wk_mounts plan)\<rparr>,
              pw_cache_entries = entries, pw_lock = lock\<rparr>) })));
     if is_ok r then State_Monad.return r
     else do { _ \<leftarrow> drop_workspace_lock lock; State_Monad.return r } })))) }"

definition prepare ::
    "codec \<Rightarrow> cache_json \<Rightarrow> cache_host \<Rightarrow> execution_plan_envelope_v1 \<Rightarrow> path \<Rightarrow> managed_cache \<Rightarrow> prepared_workspace workspace" where
  "prepare cx cj hs envelope repository cache = prepare_with_generation cx cj hs envelope repository cache 0"

definition prepare_snapshot_with_generation ::
    "codec \<Rightarrow> cache_json \<Rightarrow> cache_host \<Rightarrow> execution_plan_envelope_v1 \<Rightarrow> path \<Rightarrow> string \<Rightarrow> managed_cache \<Rightarrow> u64 \<Rightarrow>
       prepared_workspace workspace" where
  "prepare_snapshot_with_generation cx cj hs envelope snapshot_root source_snapshot_digest cache generation =
     attempt (prepare_with_generation cx cj hs envelope snapshot_root cache generation) (\<lambda>prepared.
     ok (prepared\<lparr>pw_plan := (pw_plan prepared)\<lparr>wk_source_snapshot_digest := Some source_snapshot_digest\<rparr>\<rparr>))"

definition prepare_snapshot ::
    "codec \<Rightarrow> cache_json \<Rightarrow> cache_host \<Rightarrow> execution_plan_envelope_v1 \<Rightarrow> path \<Rightarrow> string \<Rightarrow> managed_cache \<Rightarrow> prepared_workspace workspace" where
  "prepare_snapshot cx cj hs envelope snapshot_root source_snapshot_digest cache =
     prepare_snapshot_with_generation cx cj hs envelope snapshot_root source_snapshot_digest cache 0"

definition mark_caches_complete ::
    "codec \<Rightarrow> cache_json \<Rightarrow> prepared_workspace \<Rightarrow> managed_cache \<Rightarrow> cache_promotion_outcome workspace" where
  "mark_caches_complete cx cj prepared cache = ws_cache (promote_entries cx cj cache (pw_cache_entries prepared))"

definition drop_prepared_workspace :: "cache_json \<Rightarrow> prepared_workspace \<Rightarrow> (cache_world, unit) state" where
  "drop_prepared_workspace cj prepared = do {
     _ \<leftarrow> drop_entries cj (pw_cache_entries prepared);
     drop_workspace_lock (pw_lock prepared) }"

section \<open>Before the mounts are used\<close>

fun plain_components :: "node \<Rightarrow> path \<Rightarrow> path \<Rightarrow> bool" where
  "plain_components t current [] \<longleftrightarrow> True"
| "plain_components t current (x # rest) \<longleftrightarrow>
     lookup t (current @ [x]) \<noteq> None \<and> \<not> is_link (lookup t (current @ [x])) \<and> plain_components t (current @ [x]) rest"

definition revalidate_mount_source ::
    "cache_json \<Rightarrow> cache_host \<Rightarrow> mount_binding \<Rightarrow> unit workspace" where
  "revalidate_mount_source cj hs mount = do { t \<leftarrow> cache_tree;
     case mb_expectation mount of
       None \<Rightarrow> fail WsMountExpectationMissing
     | Some expectation \<Rightarrow>
         let anchor = me_canonical_anchor expectation; changed = WsMountSourceChanged (mb_purpose mount) in
         if \<not> prefix anchor (mb_source mount) then fail changed
         else if \<not> plain_components t anchor (drop (length anchor) (mb_source mount)) then fail changed
         else if \<not> (case (lookup t (mb_source mount), me_kind expectation) of
                     (Some (NDir _), SourceDirectory) \<Rightarrow> True
                   | (Some (NFile _), SourceRegularFile) \<Rightarrow> True
                   | _ \<Rightarrow> False) then fail changed
         else if \<not> is_ok (validate_host_path (mb_source mount)) then fail changed
         else
           attempt (of_result (map_err (\<lambda>_. changed) (ch_canonicalize hs t (mb_source mount)))) (\<lambda>canonical.
           if (case me_exact_repository expectation of Some repository \<Rightarrow> canonical \<noteq> repository | None \<Rightarrow> False)
           then fail changed
           else if \<not> prefix anchor canonical then fail changed
           else if mb_purpose mount = MountCache
           then
             case me_cache_generation expectation of
               None \<Rightarrow> fail changed
             | Some generation \<Rightarrow> on_err (\<lambda>_. changed) (revalidate_generation_source cj (mb_source mount) generation)
           else ok ()) }"

fun revalidate_mount_sources :: "cache_json \<Rightarrow> cache_host \<Rightarrow> mount_binding list \<Rightarrow> unit workspace" where
  "revalidate_mount_sources cj hs [] = ok ()"
| "revalidate_mount_sources cj hs (mount # mounts) =
     attempt (revalidate_mount_source cj hs mount) (\<lambda>_. revalidate_mount_sources cj hs mounts)"

end
