(* ===== verification/Artifacts.thy ===== *)
theory Artifacts
  imports Workspace Receipt_Types
begin

text \<open>
  The observation of the artifacts of a run (\<^verbatim>\<open>src/src/workspace.rs\<close>: \<open>observe_artifacts\<close> and what it calls).
  A file is looked at again after it was read: the parameter \<open>again\<close> gives the disk at that moment, which
  is the disk itself when nothing else writes to it.
\<close>

datatype artifact_observation_error =
    ArtMissing string
  | ArtUnsafeObject string
  | ArtChangedDuringObservation string
  | ArtLimit string
  | ArtPathEscape
  | ArtManifest receipt_error
  | ArtIo io_error

record artifact_content_entry_v1 =
  ac_entry_path :: string
  ac_size_bytes :: u64
  ac_content_digest :: string

definition artifact_content_entry_to_value :: "artifact_content_entry_v1 \<Rightarrow> json" where
  "artifact_content_entry_to_value e = json_object
     [(''path'', JString (ac_entry_path e)), (''size_bytes'', json_u64 (ac_size_bytes e)),
      (''content_digest'', JString (ac_content_digest e))]"

definition artifact_content_manifest_to_value :: "artifact_content_entry_v1 list \<Rightarrow> json" where
  "artifact_content_manifest_to_value entries = json_object
     [(''schema_version'', JString ''1.0''), (''entries'', JArray (map artifact_content_entry_to_value entries))]"

definition map_artifact_io :: "string \<Rightarrow> io_error \<Rightarrow> artifact_observation_error" where
  "map_artifact_io p e = (if io_kind_of e = NotFound then ArtMissing p else ArtIo e)"

definition add_within :: "u64 \<Rightarrow> u64 \<Rightarrow> u64 \<Rightarrow> string \<Rightarrow> (artifact_observation_error, u64) result" where
  "add_within limit a b contract_path =
     ok_or (ArtLimit contract_path)
       (Option.bind (checked_add a b) (\<lambda>value. if value \<le> limit then Some value else None))"

text \<open>The file is read in buffers of 8192 bytes.\<close>

function count_buffers :: "u64 \<Rightarrow> string \<Rightarrow> u64 \<Rightarrow> string \<Rightarrow> (artifact_observation_error, u64) result" where
  "count_buffers max_bytes contract_path observed bytes =
     (if bytes = [] then Ok observed
      else
        and_then (add_within max_bytes observed (of_nat (length (take 8192 bytes))) contract_path) (\<lambda>observed.
        count_buffers max_bytes contract_path observed (drop 8192 bytes)))"
  by pat_completeness auto
termination
  by (relation "measure (\<lambda>(_, _, _, bytes). length bytes)") auto

definition observe_regular_file ::
    "codec \<Rightarrow> node \<Rightarrow> (path \<Rightarrow> node) \<Rightarrow> path \<Rightarrow> string \<Rightarrow> u64 \<Rightarrow> string \<Rightarrow>
       (artifact_observation_error, artifact_content_entry_v1) result" where
  "observe_regular_file cx t again p logical_path max_bytes contract_path =
     (case lookup t p of
        None \<Rightarrow> Err (map_artifact_io contract_path not_found)
      | Some (NFile bytes) \<Rightarrow>
          if unat max_bytes < length bytes then Err (ArtLimit contract_path)
          else
            and_then (count_buffers max_bytes contract_path 0 bytes) (\<lambda>observed.
            case lookup (again p) p of
              None \<Rightarrow> Err (map_artifact_io contract_path not_found)
            | Some (NFile after) \<Rightarrow>
                if length after \<noteq> unat observed then Err (ArtChangedDuringObservation contract_path)
                else Ok \<lparr>ac_entry_path = logical_path, ac_size_bytes = observed,
                         ac_content_digest = ''sha256:'' @ encode_hex (sha256 cx bytes)\<rparr>
            | Some _ \<Rightarrow> Err (ArtChangedDuringObservation contract_path))
      | Some _ \<Rightarrow> Err (ArtUnsafeObject contract_path))"

text \<open>
  One directory of the walk: the directories still to visit are a stack, each with its listing in the
  order of names.
\<close>

type_synonym artifact_walk = "(path \<times> (string \<times> node) list) list \<times> u64 \<times> artifact_content_entry_v1 list"

fun observe_children ::
    "codec \<Rightarrow> node \<Rightarrow> (path \<Rightarrow> node) \<Rightarrow> path \<Rightarrow> u64 \<Rightarrow> u64 \<Rightarrow> string \<Rightarrow> path \<Rightarrow> (string \<times> node) list \<Rightarrow>
       artifact_walk \<Rightarrow> (artifact_observation_error, artifact_walk) result" where
  "observe_children cx t again root max_bytes max_entries contract_path current [] walk = Ok walk"
| "observe_children cx t again root max_bytes max_entries contract_path current ((name, child) # children)
     (pending, total_bytes, entries) =
     (let child_path = current @ [name] in
      case child of
        NLink _ _ \<Rightarrow> Err (ArtUnsafeObject contract_path)
      | NDir es \<Rightarrow>
          observe_children cx t again root max_bytes max_entries contract_path current children
            ((child_path, es) # pending, total_bytes, entries)
      | NOther \<Rightarrow> Err (ArtUnsafeObject contract_path)
      | NFile _ \<Rightarrow>
          let logical = join ''/'' (drop (length root) child_path) in
          if \<not> utf8_valid logical then Err (ArtUnsafeObject contract_path)
          else
            and_then (observe_regular_file cx t again child_path logical
              (saturating_sub max_bytes total_bytes) contract_path) (\<lambda>entry.
            and_then (add_within max_bytes total_bytes (ac_size_bytes entry) contract_path) (\<lambda>total_bytes.
            if unat max_entries < length (entries @ [entry]) then Err (ArtLimit contract_path)
            else
              observe_children cx t again root max_bytes max_entries contract_path current children
                (pending, total_bytes, entries @ [entry]))))"

definition pending_size :: "(path \<times> (string \<times> node) list) list \<Rightarrow> nat" where
  "pending_size pending = sum_list (map (\<lambda>(p, es). Suc (size_list (size_prod (\<lambda>_. 0) size) es)) pending)"

lemma observe_children_size:
  "observe_children cx t again root mb me cp current children (pending, tb, entries) = Ok (pending', tb', entries') \<Longrightarrow>
     pending_size pending' \<le> pending_size pending + size_list (size_prod (\<lambda>_. 0) size) children"
proof (induction children arbitrary: pending tb entries)
  case (Cons c children)
  obtain name child where c: "c = (name, child)" by (cases c)
  show ?case
  proof (cases child)
    case (NFile b)
    with Cons.prems c show ?thesis
      by (auto simp: Let_def result_simps split: if_splits dest!: Cons.IH)
  next
    case (NDir es)
    with Cons.prems c have "pending_size pending' \<le> pending_size ((current @ [name], es) # pending) + size_list (size_prod (\<lambda>_. 0) size) children"
      by (auto simp: Let_def dest: Cons.IH)
    with NDir c show ?thesis by (simp add: pending_size_def)
  qed (use Cons.prems c in simp_all)
qed simp

function observe_pending ::
    "codec \<Rightarrow> node \<Rightarrow> (path \<Rightarrow> node) \<Rightarrow> path \<Rightarrow> u64 \<Rightarrow> u64 \<Rightarrow> string \<Rightarrow> artifact_walk \<Rightarrow>
       (artifact_observation_error, artifact_content_entry_v1 list) result" where
  "observe_pending cx t again root max_bytes max_entries contract_path ([], total_bytes, entries) = Ok entries"
| "observe_pending cx t again root max_bytes max_entries contract_path ((current, children) # pending, total_bytes, entries) =
     (case observe_children cx t again root max_bytes max_entries contract_path current children (pending, total_bytes, entries) of
        Inl e \<Rightarrow> Err e
      | Inr walk \<Rightarrow> observe_pending cx t again root max_bytes max_entries contract_path walk)"
  by pat_completeness auto
termination
  apply (relation "measure (\<lambda>(_, _, _, _, _, _, _, walk). pending_size (fst walk))")
   apply simp
  apply (auto dest: observe_children_size simp: pending_size_def)
  done

definition observe_directory ::
    "codec \<Rightarrow> node \<Rightarrow> (path \<Rightarrow> node) \<Rightarrow> path \<Rightarrow> u64 \<Rightarrow> u64 \<Rightarrow> string \<Rightarrow>
       (artifact_observation_error, artifact_content_entry_v1 list) result" where
  "observe_directory cx t again root max_bytes max_entries contract_path =
     (case lookup t root of
        None \<Rightarrow> Err (map_artifact_io contract_path not_found)
      | Some (NDir es) \<Rightarrow>
          and_then (observe_pending cx t again root max_bytes max_entries contract_path ([(root, es)], 0, [])) (\<lambda>entries.
          Ok (sort_key ac_entry_path entries))
      | Some _ \<Rightarrow> Err (ArtUnsafeObject contract_path))"

fun plain_chain :: "node \<Rightarrow> path \<Rightarrow> path \<Rightarrow> string \<Rightarrow> (artifact_observation_error, unit) result" where
  "plain_chain t current rest contract_path =
     (case lookup t current of
        None \<Rightarrow> Err (map_artifact_io contract_path not_found)
      | Some (NDir _) \<Rightarrow>
          (case rest of
             [] \<Rightarrow> Ok ()
           | x # rest \<Rightarrow> if x = ''..'' then Err ArtPathEscape else plain_chain t (current @ [x]) rest contract_path)
      | Some _ \<Rightarrow> Err (ArtUnsafeObject contract_path))"

definition ensure_plain_directory_chain :: "node \<Rightarrow> path \<Rightarrow> path \<Rightarrow> string \<Rightarrow> (artifact_observation_error, unit) result" where
  "ensure_plain_directory_chain t root directory contract_path =
     (if \<not> prefix root directory then Err ArtPathEscape
      else plain_chain t root (drop (length root) directory) contract_path)"

definition observe_artifact_contract ::
    "codec \<Rightarrow> node \<Rightarrow> (path \<Rightarrow> node) \<Rightarrow> path \<Rightarrow> normalized_artifact_contract \<Rightarrow>
       (artifact_observation_error, artifact_evidence) result" where
  "observe_artifact_contract cx t again artifact_root contract =
     (let target = join_path artifact_root (na_path contract) in
      if \<not> prefix artifact_root target then Err ArtPathEscape
      else if target = [] then Err ArtPathEscape
      else
        and_then (ensure_plain_directory_chain t artifact_root (butlast target) (na_path contract)) (\<lambda>_.
        and_then
          (case na_kind contract of
             RegularFile \<Rightarrow>
               map_result (\<lambda>e. [e]) (observe_regular_file cx t again target ''.'' (na_max_bytes contract) (na_path contract))
           | Directory \<Rightarrow>
               observe_directory cx t again target (na_max_bytes contract) (na_max_entries contract) (na_path contract))
          (\<lambda>entries.
        and_then (try_fold (\<lambda>total e. add_within (na_max_bytes contract) total (ac_size_bytes e) (na_path contract)) 0 entries)
          (\<lambda>total_bytes.
        if unat (na_max_entries contract) < length entries then Err (ArtLimit (na_path contract))
        else
          and_then (map_err ArtManifest (canonical_digest cx (artifact_content_manifest_to_value entries))) (\<lambda>manifest_digest.
          Ok \<lparr>ae_path = na_path contract, ae_kind = na_kind contract, ae_producer_check = na_producer_check contract,
              ae_entry_count = of_nat (length entries), ae_total_bytes = total_bytes, ae_manifest_digest = manifest_digest\<rparr>)))))"

primrec try_map :: "('a \<Rightarrow> ('e, 'b) result) \<Rightarrow> 'a list \<Rightarrow> ('e, 'b list) result" where
  "try_map f [] = Ok []"
| "try_map f (x # xs) = and_then (f x) (\<lambda>y. and_then (try_map f xs) (\<lambda>ys. Ok (y # ys)))"

definition observe_artifacts ::
    "codec \<Rightarrow> node \<Rightarrow> (path \<Rightarrow> node) \<Rightarrow> execution_plan_v1 \<Rightarrow> path \<Rightarrow>
       (artifact_observation_error, artifact_evidence list) result" where
  "observe_artifacts cx t again plan run_root =
     (let contracts = sort_key na_path (concat (map nk_artifact_contracts (pl_checks plan))) in
      if contracts = [] then Ok []
      else
        let artifact_root = run_root @ [''artifacts''] in
        and_then (map_err (\<lambda>_. ArtPathEscape) (validate_under_root artifact_root run_root)) (\<lambda>_.
        and_then (ensure_plain_directory_chain t run_root artifact_root ''artifacts'') (\<lambda>_.
        try_map (observe_artifact_contract cx t again artifact_root) contracts)))"

end
