(* ===== verification/Artifacts_Correct.thy ===== *)
theory Artifacts_Correct
  imports Artifacts Durable_Correct "HOL-Library.Multiset"
begin

text \<open>
  What the observation of an artifact finds, against the files of the tree themselves: a walk with a stack
  on one side, a structural recursion on the other.
\<close>

section \<open>The files of a tree\<close>

fun node_files :: "path \<Rightarrow> node \<Rightarrow> (path \<times> string) list"
  and entries_files :: "path \<Rightarrow> (string \<times> node) list \<Rightarrow> (path \<times> string) list" where
  "node_files p (NFile b) = [(p, b)]"
| "node_files p (NDir es) = entries_files p es"
| "node_files p (NLink _ _) = []"
| "node_files p NOther = []"
| "entries_files p [] = []"
| "entries_files p ((n, c) # es) = node_files (p @ [n]) c @ entries_files p es"

fun plain_node :: "node \<Rightarrow> bool"
  and plain_entries :: "(string \<times> node) list \<Rightarrow> bool" where
  "plain_node (NFile b) \<longleftrightarrow> True"
| "plain_node (NDir es) \<longleftrightarrow> plain_entries es"
| "plain_node (NLink _ _) \<longleftrightarrow> False"
| "plain_node NOther \<longleftrightarrow> False"
| "plain_entries [] \<longleftrightarrow> True"
| "plain_entries ((n, c) # es) \<longleftrightarrow> plain_node c \<and> plain_entries es"

definition file_entry :: "codec \<Rightarrow> path \<Rightarrow> path \<times> string \<Rightarrow> artifact_content_entry_v1" where
  "file_entry cx root f =
     \<lparr>ac_entry_path = join ''/'' (drop (length root) (fst f)), ac_size_bytes = of_nat (length (snd f)),
      ac_content_digest = ''sha256:'' @ encode_hex (sha256 cx (snd f))\<rparr>"

definition bytes_in :: "(path \<times> string) list \<Rightarrow> nat" where
  "bytes_in fs = sum_list (map (\<lambda>f. length (snd f)) fs)"

section \<open>One file\<close>

lemma add_within_iff: "add_within limit a b p = Ok c \<longleftrightarrow> unat c = unat a + unat b \<and> c \<le> limit"
  by (auto simp: add_within_def result_simps bind_eq_Some_conv u_simps split: if_splits)

lemma count_buffers_exact: "count_buffers mx p observed bytes = Ok n \<Longrightarrow> unat n = unat observed + length bytes"
proof (induction mx p observed bytes rule: count_buffers.induct)
  case (1 mx p observed bytes)
  show ?case
  proof (cases "bytes = []")
    case True
    with 1 show ?thesis by simp
  next
    case False
    with 1(2) obtain c where c: "add_within mx observed (of_nat (length (take 8192 bytes))) p = Ok c"
      "count_buffers mx p c (drop 8192 bytes) = Ok n"
      by (subst (asm) count_buffers.simps) (auto simp: result_simps simp del: count_buffers.simps)
    from 1(1) [OF False c] have "unat n = unat c + length (drop 8192 bytes)" .
    moreover have "unat c = unat observed + length (take 8192 bytes)"
      using c(1) by (simp add: add_within_iff unat_of_nat take_bit_nat_eq_self del: length_take) (simp add: min_def)
    ultimately show ?thesis by simp
  qed
qed

lemma observe_regular_file_still:
  assumes "observe_regular_file cx t (\<lambda>_. t) p logical mx cp = Ok e"
  shows "\<exists>b. lookup t p = Some (NFile b) \<and> length b \<le> unat mx \<and>
    e = \<lparr>ac_entry_path = logical, ac_size_bytes = of_nat (length b), ac_content_digest = ''sha256:'' @ encode_hex (sha256 cx b)\<rparr> \<and>
    unat (ac_size_bytes e) = length b"
proof -
  obtain b n where b: "lookup t p = Some (NFile b)" "length b \<le> unat mx" "count_buffers mx cp 0 b = Ok n"
    and e: "e = \<lparr>ac_entry_path = logical, ac_size_bytes = n, ac_content_digest = ''sha256:'' @ encode_hex (sha256 cx b)\<rparr>"
    using assms
    by (auto simp: observe_regular_file_def result_simps simp del: count_buffers.simps split: option.splits node.splits if_splits)
  have n: "unat n = length b" using count_buffers_exact [OF b(3)] by simp
  have "n = of_nat (unat n)" by simp
  with n have "n = of_nat (length b)" by simp
  with b e n show ?thesis by simp
qed

section \<open>The walk\<close>

definition walk_files :: "(path \<times> (string \<times> node) list) list \<Rightarrow> (path \<times> string) multiset" where
  "walk_files pending = sum_list (map (\<lambda>(p, es). mset (entries_files p es)) pending)"

definition on_tree :: "node \<Rightarrow> path \<Rightarrow> (string \<times> node) list \<Rightarrow> bool" where
  "on_tree t p es \<longleftrightarrow> (\<forall>(n, c) \<in> set es. lookup t (p @ [n]) = Some c \<and> tree_wf c)"

lemma on_tree_dir:
  assumes "lookup t p = Some (NDir es)" and "tree_wf (NDir es)"
  shows "on_tree t p es"
proof -
  have "lookup t (p @ [n]) = Some c" if "(n, c) \<in> set es" for n c
  proof -
    have "map_of es n = Some c" using assms(2) that bt.entries_iff [of es n c] by simp
    then show ?thesis using assms(1) by (simp add: lookup_append)
  qed
  then show ?thesis using assms(2) by (auto simp: on_tree_def)
qed

lemma observe_children_files:
  assumes "observe_children cx t (\<lambda>_. t) root mb me cp current children (pending, tb, entries) = Ok (pending', tb', entries')"
    and "on_tree t current children" and "\<forall>(p, es) \<in> set pending. on_tree t p es"
  shows "\<exists>fs. entries' = entries @ map (file_entry cx root) fs \<and>
    mset fs + walk_files pending' = mset (entries_files current children) + walk_files pending \<and>
    unat tb' = unat tb + bytes_in fs \<and> (unat tb \<le> unat mb \<longrightarrow> unat tb' \<le> unat mb) \<and>
    (length entries \<le> unat me \<longrightarrow> length entries' \<le> unat me) \<and>
    (\<forall>(p, es) \<in> set pending'. on_tree t p es) \<and>
    (list_all (\<lambda>(p, es). plain_entries es) pending' \<longrightarrow> plain_entries children \<and> list_all (\<lambda>(p, es). plain_entries es) pending)"
  using assms
proof (induction children arbitrary: pending tb entries)
  case Nil
  then show ?case by (intro exI [of _ "[]"]) (simp add: bytes_in_def)
next
  case (Cons c children)
  obtain name child where c: "c = (name, child)" by (cases c)
  have here: "lookup t (current @ [name]) = Some child" "tree_wf child" "on_tree t current children"
    using Cons.prems(2) c by (auto simp: on_tree_def)
  show ?case
  proof (cases child)
    case (NDir es)
    have "on_tree t (current @ [name]) es" using here(1,2) NDir by (intro on_tree_dir) auto
    with Cons.IH [of "(current @ [name], es) # pending" tb entries] Cons.prems here c NDir show ?thesis
      by (auto simp: walk_files_def ac_simps)
  next
    case (NFile b)
    from Cons.prems(1) c NFile obtain e tb1 where
      e: "observe_regular_file cx t (\<lambda>_. t) (current @ [name]) (join ''/'' (drop (length root) (current @ [name])))
        (saturating_sub mb tb) cp = Ok e"
      and tb1: "add_within mb tb (ac_size_bytes e) cp = Ok tb1" and n: "length (entries @ [e]) \<le> unat me"
      and rest: "observe_children cx t (\<lambda>_. t) root mb me cp current children (pending, tb1, entries @ [e]) = Ok (pending', tb', entries')"
      by (auto simp: Let_def result_simps split: if_splits)
    from observe_regular_file_still [OF e] here(1) NFile
    have e': "e = file_entry cx root (current @ [name], b)" "unat (ac_size_bytes e) = length b" by (auto simp: file_entry_def)
    from Cons.IH [OF rest here(3) Cons.prems(3)] obtain fs where fs: "entries' = (entries @ [e]) @ map (file_entry cx root) fs"
      "mset fs + walk_files pending' = mset (entries_files current children) + walk_files pending"
      "unat tb' = unat tb1 + bytes_in fs" "unat tb1 \<le> unat mb \<longrightarrow> unat tb' \<le> unat mb"
      "length (entries @ [e]) \<le> unat me \<longrightarrow> length entries' \<le> unat me"
      "\<forall>(p, es) \<in> set pending'. on_tree t p es"
      "list_all (\<lambda>(p, es). plain_entries es) pending' \<longrightarrow> plain_entries children \<and> list_all (\<lambda>(p, es). plain_entries es) pending"
      by blast
    show ?thesis
      using fs e' tb1 n c NFile
      by (intro exI [of _ "(current @ [name], b) # fs"]) (auto simp: add_within_iff bytes_in_def word_le_nat_alt)
  qed (use Cons.prems c in simp_all)
qed

lemma observe_pending_files:
  assumes "observe_pending cx t (\<lambda>_. t) root mb me cp walk = Ok entries'"
    and "walk = (pending, tb, entries)" and "\<forall>(p, es) \<in> set pending. on_tree t p es"
    and "unat tb \<le> unat mb" and "length entries \<le> unat me"
  shows "\<exists>fs. entries' = entries @ map (file_entry cx root) fs \<and> mset fs = walk_files pending \<and>
    unat tb + bytes_in fs \<le> unat mb \<and> length entries' \<le> unat me \<and> list_all (\<lambda>(p, es). plain_entries es) pending"
  using assms
proof (induction cx t "\<lambda>_ :: path. t" root mb me cp walk arbitrary: pending tb entries rule: observe_pending.induct)
  case (1 cx t root mb me cp tb0 entries0)
  then show ?case by (intro exI [of _ "[]"]) (auto simp: walk_files_def bytes_in_def)
next
  case (2 cx t root mb me cp current children pending0 tb0 entries0)
  then obtain pending1 tb1 entries1 where step:
      "observe_children cx t (\<lambda>_. t) root mb me cp current children (pending0, tb, entries) = Ok (pending1, tb1, entries1)"
    and rest: "observe_pending cx t (\<lambda>_. t) root mb me cp (pending1, tb1, entries1) = Ok entries'"
    by (auto split: sum.splits)
  from 2 have p: "pending = (current, children) # pending0" by simp
  from observe_children_files [OF step] 2(4) p obtain fs where fs: "entries1 = entries @ map (file_entry cx root) fs"
    "mset fs + walk_files pending1 = mset (entries_files current children) + walk_files pending0"
    "unat tb1 = unat tb + bytes_in fs" "unat tb1 \<le> unat mb" "length entries1 \<le> unat me"
    "\<forall>(p, es) \<in> set pending1. on_tree t p es"
    "list_all (\<lambda>(p, es). plain_entries es) pending1 \<longrightarrow> plain_entries children \<and> list_all (\<lambda>(p, es). plain_entries es) pending0"
    using 2(5,6) by auto
  from 2(1) [OF _ rest refl fs(6,4,5)] step 2(3) obtain gs where gs: "entries' = entries1 @ map (file_entry cx root) gs"
    "mset gs = walk_files pending1" "unat tb1 + bytes_in gs \<le> unat mb" "length entries' \<le> unat me"
    "list_all (\<lambda>(p, es). plain_entries es) pending1" by auto
  show ?case
    using fs gs p by (intro exI [of _ "fs @ gs"]) (auto simp: walk_files_def bytes_in_def)
qed

end
