(* ===== verification/Workspace_Props.thy ===== *)
theory Workspace_Props
  imports Artifacts_Correct Cache_Correct Samples
begin

text \<open>
  The properties of the workspace of a run (\<^verbatim>\<open>src/src/workspace.rs\<close>): the mounts that a normalized plan
  gets, the lock of the run, and the evidence of its artifacts.
\<close>

section \<open>Mounts\<close>

lemma container_target_sound:
  assumes "container_target p = Ok target"
  shows "target = CONTAINER_WORKSPACE @ ''/'' @ p" "plain_segments p" "\<not> path_is_absolute p"
  using assms by (auto simp: container_target_def Let_def result_simps path_is_absolute_def split: if_splits)

lemma target_segments: "split_on (CHR ''/'') (CONTAINER_WORKSPACE @ ''/'' @ p) = [] # ''workspace'' # split_on (CHR ''/'') p"
  by (cases "split_on (CHR ''/'') p") (simp_all add: CONTAINER_WORKSPACE_def)

lemma join_path_plain:
  assumes "plain_segments p" "\<not> path_is_absolute p"
  shows "join_path d p = d @ split_on (CHR ''/'') p"
proof -
  have "filter (\<lambda>x. x \<noteq> [] \<and> x \<noteq> ''.'') (split_on (CHR ''/'') p) = split_on (CHR ''/'') p"
    using assms(1) by (simp add: plain_segments_def list_all_iff filter_id_conv)
  then show ?thesis using assms(2) by (simp add: join_path_def path_parts_def)
qed

definition writable_below :: "path \<Rightarrow> mount_purpose \<Rightarrow> mount_binding \<Rightarrow> bool" where
  "writable_below root purpose m \<longleftrightarrow> mb_access m = MountReadWrite \<and> mb_purpose m = purpose \<and> prefix root (mb_source m)"

lemma add_cache_mounts:
  assumes "try_fold (add_cache_mount cx env root sources) (ms, ts) cs = Ok (ms', ts')"
  shows "\<exists>new. ms' = ms @ new \<and> list_all (writable_below (rc_path root) MountCache) new \<and>
    map mb_target new = map (\<lambda>c. CONTAINER_WORKSPACE @ ''/'' @ nc_mount_path c) cs"
  using assms
proof (induction cs arbitrary: ms ts)
  case (Cons c cs)
  from Cons.prems obtain s where step: "add_cache_mount cx env root sources (ms, ts) c = Ok s"
    and rest: "try_fold (add_cache_mount cx env root sources) s cs = Ok (ms', ts')" by (auto simp: result_simps)
  from step obtain m ts1 where s: "s = (ms @ [m], ts1)" and m: "writable_below (rc_path root) MountCache m"
      "mb_target m = CONTAINER_WORKSPACE @ ''/'' @ nc_mount_path c"
    by (auto simp: add_cache_mount_def result_simps Let_def validate_under_root_def writable_below_def
        dest!: container_target_sound(1) split: if_splits)
  from Cons.IH [OF rest [unfolded s]] obtain new where new: "ms' = (ms @ [m]) @ new" "list_all (writable_below (rc_path root) MountCache) new"
    "map mb_target new = map (\<lambda>c. CONTAINER_WORKSPACE @ ''/'' @ nc_mount_path c) cs" by blast
  with m show ?case by (intro exI [of _ "m # new"]) simp
qed simp

lemma add_artifact_mounts:
  assumes "try_fold (add_artifact_mount run_root) (ms, ts) as = Ok (ms', ts')"
  shows "\<exists>new. ms' = ms @ new \<and> list_all (writable_below run_root MountArtifact) new \<and>
    map mb_target new = map (\<lambda>a. CONTAINER_WORKSPACE @ ''/'' @ snd a) as \<and>
    map mb_source new = map (\<lambda>a. run_root @ ''artifacts'' # split_on (CHR ''/'') (snd a)) as"
  using assms
proof (induction as arbitrary: ms ts)
  case (Cons a as)
  obtain check artifact where a: "a = (check, artifact)" by (cases a)
  from Cons.prems obtain s where step: "add_artifact_mount run_root (ms, ts) a = Ok s"
    and rest: "try_fold (add_artifact_mount run_root) s as = Ok (ms', ts')" by (auto simp: result_simps)
  from step a obtain target where target: "container_target artifact = Ok target"
    by (auto simp: add_artifact_mount_def Let_def result_simps)
  from step a target container_target_sound [OF target]
  obtain m ts1 where s: "s = (ms @ [m], ts1)" and m: "writable_below run_root MountArtifact m"
      "mb_target m = CONTAINER_WORKSPACE @ ''/'' @ artifact" "mb_source m = run_root @ ''artifacts'' # split_on (CHR ''/'') artifact"
    by (auto simp: add_artifact_mount_def result_simps Let_def validate_under_root_def writable_below_def join_path_plain
        split: if_splits)
  from Cons.IH [OF rest [unfolded s]] obtain new where new: "ms' = (ms @ [m]) @ new" "list_all (writable_below run_root MountArtifact) new"
    "map mb_target new = map (\<lambda>a. CONTAINER_WORKSPACE @ ''/'' @ snd a) as"
    "map mb_source new = map (\<lambda>a. run_root @ ''artifacts'' # split_on (CHR ''/'') (snd a)) as" by blast
  with m a show ?case by (intro exI [of _ "m # new"]) simp
qed simp

lemma artifacts_of_paths: "map snd (artifacts_of plan) = concat (map nk_artifacts (pl_checks plan))"
  by (simp add: artifacts_of_def map_concat comp_def)

lemma workspace_mounts:
  assumes "build_with_cache_sources cx hs t env repository root sources digest = Ok plan"
  shows "\<exists>caches artifacts. wk_mounts plan = repository_mount (wk_repository plan) # caches @ artifacts \<and>
    list_all (writable_below (rc_path root) MountCache) caches \<and> list_all (writable_below (wk_run_root plan) MountArtifact) artifacts \<and>
    map mb_target caches = map (\<lambda>c. CONTAINER_WORKSPACE @ ''/'' @ nc_mount_path c) (pl_caches (pe_plan env)) \<and>
    map mb_target artifacts = map (\<lambda>a. CONTAINER_WORKSPACE @ ''/'' @ a) (concat (map nk_artifacts (pl_checks (pe_plan env)))) \<and>
    map mb_source artifacts = map (\<lambda>a. wk_run_root plan @ ''artifacts'' # split_on (CHR ''/'') a)
      (concat (map nk_artifacts (pl_checks (pe_plan env)))) \<and>
    prefix (rc_path root) (wk_run_root plan)"
proof -
  obtain ms ts ms' ts' run_root repo where
    caches: "try_fold (add_cache_mount cx env root sources) ([repository_mount repo], [CONTAINER_WORKSPACE])
      (pl_caches (pe_plan env)) = Ok (ms, ts)"
    and artifacts: "try_fold (add_artifact_mount run_root) (ms, ts) (artifacts_of (pe_plan env)) = Ok (ms', ts')"
    and plan: "wk_mounts plan = ms'" "wk_repository plan = repo" "wk_run_root plan = run_root" "prefix (rc_path root) run_root"
    using assms by (auto simp: build_with_cache_sources_def result_simps validate_under_root_def split: if_splits prod.splits)
  from add_cache_mounts [OF caches] obtain cs where cs: "ms = [repository_mount repo] @ cs"
    "list_all (writable_below (rc_path root) MountCache) cs"
    "map mb_target cs = map (\<lambda>c. CONTAINER_WORKSPACE @ ''/'' @ nc_mount_path c) (pl_caches (pe_plan env))" by blast
  from add_artifact_mounts [OF artifacts] obtain as where as: "ms' = ms @ as" "list_all (writable_below run_root MountArtifact) as"
    "map mb_target as = map (\<lambda>a. CONTAINER_WORKSPACE @ ''/'' @ a) (map snd (artifacts_of (pe_plan env)))"
    "map mb_source as = map (\<lambda>a. run_root @ ''artifacts'' # split_on (CHR ''/'') a) (map snd (artifacts_of (pe_plan env)))"
    by (auto simp: comp_def)
  show ?thesis
    using cs as plan unfolding artifacts_of_paths by (intro exI [of _ cs] exI [of _ as]) simp
qed

lemma Cons_parallel: "x # p \<parallel> x # q \<longleftrightarrow> p \<parallel> q"
  by (simp add: parallel_def)

lemma append_parallel_cancel: "d @ p \<parallel> d @ q \<longleftrightarrow> p \<parallel> q"
  by (induction d) (simp_all add: Cons_parallel)

text \<open>
  C3. The mounts of a plan that \<open>into_plan\<close> returned: the first one is the repository of the plan, mounted read-only at the
  container's workspace; every other mount is writable and its source lies in the managed cache root; the mount points are
  exactly those of the declared caches and artifacts below the container's workspace, and of any two of
  the writable ones neither lies inside the other; nor does any artifact's source lie inside another's.
\<close>

theorem workspace_mounts_isolated:
  assumes "into_plan cx cfg = Ok env"
    and "build_with_cache_sources cx' hs t env repository root sources digest = Ok plan"
  shows "mb_access (hd (wk_mounts plan)) = MountReadOnly \<and> mb_purpose (hd (wk_mounts plan)) = MountRepository \<and>
    mb_source (hd (wk_mounts plan)) = wk_repository plan \<and> mb_target (hd (wk_mounts plan)) = ''/workspace'' \<and>
    list_all (\<lambda>m. mb_access m = MountReadWrite \<and> prefix (rc_path root) (mb_source m)) (tl (wk_mounts plan)) \<and>
    map mb_target (tl (wk_mounts plan)) =
      map (\<lambda>p. ''/workspace/'' @ p) (map nc_mount_path (pl_caches (pe_plan env)) @ concat (map nk_artifacts (pl_checks (pe_plan env)))) \<and>
    sorted_wrt (\<lambda>m n. split_on (CHR ''/'') (mb_target m) \<parallel> split_on (CHR ''/'') (mb_target n)) (tl (wk_mounts plan)) \<and>
    sorted_wrt (\<lambda>m n. mb_source m \<parallel> mb_source n) (filter (\<lambda>m. mb_purpose m = MountArtifact) (tl (wk_mounts plan)))"
proof -
  let ?ps = "map nc_mount_path (pl_caches (pe_plan env))" and ?as = "concat (map nk_artifacts (pl_checks (pe_plan env)))"
  from workspace_mounts [OF assms(2)] obtain caches artifacts where
    mounts: "wk_mounts plan = repository_mount (wk_repository plan) # caches @ artifacts"
    and all: "list_all (writable_below (rc_path root) MountCache) caches" "list_all (writable_below (wk_run_root plan) MountArtifact) artifacts"
    and ps: "map mb_target caches = map (\<lambda>c. CONTAINER_WORKSPACE @ ''/'' @ nc_mount_path c) (pl_caches (pe_plan env))"
    and as: "map mb_target artifacts = map (\<lambda>a. CONTAINER_WORKSPACE @ ''/'' @ a) ?as"
    and sources: "map mb_source artifacts = map (\<lambda>a. wk_run_root plan @ ''artifacts'' # split_on (CHR ''/'') a) ?as"
    and run_root: "prefix (rc_path root) (wk_run_root plan)"
    by blast
  have targets: "map mb_target (caches @ artifacts) = map (\<lambda>p. CONTAINER_WORKSPACE @ ''/'' @ p) (?ps @ ?as)"
    unfolding map_append ps as by (simp add: comp_def)
  have "disjoint_paths (?ps @ ?as)" "disjoint_paths ?as"
    using validate_path_isolation_sound [OF into_plan_sound(7) [OF assms(1)]]
    by (simp_all add: disjoint_paths_def sorted_wrt_append)
  then have apart: "sorted_wrt (\<lambda>a b. split_on (CHR ''/'') a \<parallel> split_on (CHR ''/'') b) (?ps @ ?as)"
    "sorted_wrt (\<lambda>a b. split_on (CHR ''/'') a \<parallel> split_on (CHR ''/'') b) ?as"
    unfolding disjoint_paths_def path_overlap_iff de_Morgan_disj parallel_def by this
  have 1: "sorted_wrt (\<lambda>a b. split_on (CHR ''/'') a \<parallel> split_on (CHR ''/'') b) (map mb_target (caches @ artifacts))"
    unfolding targets sorted_wrt_map target_segments using apart(1) by (simp only: Cons_parallel)
  have 2: "sorted_wrt (\<parallel>) (map mb_source artifacts)"
    unfolding sources sorted_wrt_map using apart(2) by (simp only: append_parallel_cancel Cons_parallel)
  have none: "filter (\<lambda>m. mb_purpose m = MountArtifact) caches = []" "filter (\<lambda>m. mb_purpose m = MountArtifact) artifacts = artifacts"
    using all by (auto simp: list_all_iff writable_below_def filter_empty_conv filter_id_conv)
  have 3: "list_all (\<lambda>m. mb_access m = MountReadWrite \<and> prefix (rc_path root) (mb_source m)) (caches @ artifacts)"
    using all run_root by (auto simp: list_all_iff writable_below_def intro: prefix_order.trans)
  have 4: "map mb_target (caches @ artifacts) = map (\<lambda>p. ''/workspace/'' @ p) (?ps @ ?as)"
    unfolding targets by (simp add: CONTAINER_WORKSPACE_def)
  show ?thesis
    unfolding mounts list.sel filter_append none append_Nil using 1 2 3 4 unfolding sorted_wrt_map
    by (simp add: repository_mount_def CONTAINER_WORKSPACE_def)
qed

text \<open>A disk with an empty repository, and an operating system without links.\<close>

definition sample_host :: cache_host where
  "sample_host = \<lparr>ch_canonicalize = (\<lambda>t p. Ok p), ch_temp_dir = [''tmp''], ch_pause = (\<lambda>t. t)\<rparr>"

definition sample_root :: resolved_cache_root where
  "sample_root = \<lparr>rc_path = [''cache''], rc_source = RootExplicit\<rparr>"

definition sample_repository :: node where
  "sample_repository = NDir [(''repo'', NDir [])]"

definition sample_mounts :: "(workspace_error, mount_binding list) result" where
  "sample_mounts = map_result wk_mounts
     (build_with_cache_sources sample_codec sample_host sample_repository sample_plan [''repo''] sample_root [] None)"

theorem workspace_mounts_isolated_witness:
  "(case sample_mounts of
      Inr ms \<Rightarrow> map mb_access ms = MountReadOnly # replicate (length ms - 1) MountReadWrite \<and>
        map mb_target ms = ''/workspace'' # map (\<lambda>p. ''/workspace/'' @ p)
        (map nc_mount_path (pl_caches (pe_plan sample_plan)) @ concat (map nk_artifacts (pl_checks (pe_plan sample_plan))))
    | Inl _ \<Rightarrow> False)"
proof -
  have "is_ok sample_mounts" by (code_simp; simp)
  then obtain plan where plan:
      "build_with_cache_sources sample_codec sample_host sample_repository sample_plan [''repo''] sample_root [] None = Ok plan"
    by (auto simp: sample_mounts_def is_ok_def map_result_def split: sum.splits)
  obtain m ms where ms: "wk_mounts plan = m # ms" using workspace_mounts [OF plan] by auto
  from workspace_mounts_isolated [OF sample_into_plan plan] plan ms show ?thesis
    by (auto simp: sample_mounts_def list_all_iff intro!: replicate_eqI)
qed

section \<open>The lock of a run\<close>

lemma lookup_above:
  assumes "lookup t (p @ x # q) \<noteq> None" shows "\<exists>es. lookup t p = Some (NDir es)"
proof -
  from assms obtain n where "lookup t p = Some n" "lookup n (x # q) \<noteq> None" by (auto simp: lookup_append bind_eq_Some_conv)
  then show ?thesis by (cases n) auto
qed

lemma create_chain_exists:
  assumes "lookup (tr w) (current @ rest @ [x]) \<noteq> None" and "Q (Ok ()) w"
  shows "wp (create_chain current rest) Q w"
  using assms
proof (induction rest arbitrary: current)
  case (Cons y rest)
  have "\<exists>es. lookup (tr w) current = Some (NDir es)"
    using Cons.prems(1) lookup_above [of "tr w" current y "rest @ [x]"] by simp
  moreover have "\<exists>es. lookup (tr w) (current @ [y]) = Some (NDir es)"
    using Cons.prems(1) lookup_above [of "tr w" "current @ [y]" "hd (rest @ [x])" "tl (rest @ [x])"] by simp
  ultimately show ?case
    using Cons.IH [of "current @ [y]"] Cons.prems
    by (auto simp: wp_simps ensure_plain_directory_def fs_create_def already_exists_def)
qed (simp add: wp_simps)

lemma acquire_busy:
  assumes "lookup (tr w) run_root = Some (NDir es)" and "lookup (tr w) (run_root @ [RUN_LOCK_FILE]) \<noteq> None"
    and "\<And>w'. cw_disk w' = cw_disk w \<Longrightarrow> Q (Err (WsBusy (run_root @ [RUN_LOCK_FILE]))) w'"
  shows "wp (acquire_workspace_lock run_root) Q w"
proof -
  have draw: "wp next_run_lock_sequence R w = R (cw_run_lock_sequence w) (w\<lparr>cw_run_lock_sequence := cw_run_lock_sequence w + 1\<rparr>)" for R
    by (simp add: next_run_lock_sequence_def wp_def)
  show ?thesis
    using assms by (simp add: acquire_workspace_lock_def wp_bind draw wp_process_id Let_def fs_create_def wp_cache_tree wp_fail)
qed

text \<open>
  C34. While the lock file of a run is there, whatever it holds and whoever wrote it, no preparation of the same plan
  succeeds, and none of them changes the disk.
\<close>

theorem workspace_lock_excludes:
  assumes "root_workspace_path (mc_root cache) (pe_plan_digest env) = Ok run_root"
    and "lookup (tr w) (run_root @ [RUN_LOCK_FILE]) \<noteq> None"
    and "run_state (prepare_with_generation cx cj hs env repository cache generation) w = (r, w')"
  shows "\<not> is_ok r \<and> cw_disk w' = cw_disk w"
proof -
  from assms(2) obtain es where dir: "lookup (tr w) run_root = Some (NDir es)" using lookup_above by blast
  have "prefix (root_path cache) run_root"
    using assms(1) by (auto simp: root_workspace_path_def result_simps)
  then obtain rest where rest: "run_root = root_path cache @ rest" by (auto simp: prefix_def)
  have chain: "wp (create_managed_directory_chain run_root (root_path cache)) Q w" if "Q (Ok ()) w" for Q
    using that assms(2) rest
    by (auto simp: create_managed_directory_chain_def wp_simps validate_under_root_def intro!: create_chain_exists)
  have "wp (prepare_with_generation cx cj hs env repository cache generation) (\<lambda>r w'. \<not> is_ok r \<and> cw_disk w' = cw_disk w) w"
    apply (subst prepare_with_generation_def, subst wp_bind, subst wp_cache_tree, subst wp_attempt, subst wp_of_result)
    apply (cases "validate_repository_mount_targets hs (tr w) env repository")
     apply (simp add: is_ok_def)
    apply (simp only: sum.case, subst wp_attempt, subst wp_of_result)
    apply (simp only: assms(1) map_err_simps sum.case)
    apply (subst wp_attempt, rule chain, simp only: sum.case)
    apply (subst wp_attempt, rule acquire_busy [OF dir assms(2)])
    apply (simp add: is_ok_def)
    done
  with assms(3) show ?thesis by (simp add: wp_def)
qed

text \<open>A disk with the directories the plan mounts in its repository, and with the lock of a run.\<close>

definition locked_run :: path where
  "locked_run = [''cache'', WORKSPACES_DIR, ''sha256-'' @ replicate 64 (CHR ''a'')]"

definition locked_plan :: execution_plan_envelope_v1 where
  "locked_plan = sample_plan\<lparr>pe_plan_digest := ''sha256:'' @ replicate 64 (CHR ''a'')\<rparr>"

definition sample_locked :: cache_world where
  "sample_locked = \<lparr>cw_disk = \<lparr>dk_tree = NDir [
       (''cache'', NDir [(WORKSPACES_DIR, NDir [(''sha256-'' @ replicate 64 (CHR ''a''), NDir [(RUN_LOCK_FILE, NFile [])])])]),
       (''repo'', NDir [(''cache'', NDir [(''cargo'', NDir []), (''target'', NDir [])]), (''out'', NDir [(''app'', NFile [])])])], dk_faults = []\<rparr>,
     cw_locks = [], cw_owners = [], cw_sequence = 0, cw_durable_sequence = 0,
     cw_run_lock_sequence = 0, cw_pid = 0, cw_power = None\<rparr>"

abbreviation locked_preparation :: "(workspace_error, prepared_workspace) result \<times> cache_world" where
  "locked_preparation \<equiv> run_state (prepare_with_generation sample_codec \<lparr>manifest_from_slice = Err, promotion_from_slice = Err\<rparr> sample_host
     locked_plan [''repo''] \<lparr>mc_root = sample_root, mc_disk_budget_bytes = 0\<rparr> 1) sample_locked"

lemma locked_preparation_busy: "fst locked_preparation = Err (WsBusy (locked_run @ [RUN_LOCK_FILE]))"
  by code_simp

theorem workspace_lock_excludes_witness:
  "fst locked_preparation = Err (WsBusy (locked_run @ [RUN_LOCK_FILE])) \<and> cw_disk (snd locked_preparation) = cw_disk sample_locked"
proof -
  have "root_workspace_path sample_root (pe_plan_digest locked_plan) = Ok locked_run" by (code_simp; simp)
  moreover have "lookup (tr sample_locked) (locked_run @ [RUN_LOCK_FILE]) \<noteq> None"
    by (simp add: sample_locked_def locked_run_def)
  ultimately show ?thesis
    using workspace_lock_excludes [of "\<lparr>mc_root = sample_root, mc_disk_budget_bytes = 0\<rparr>" locked_plan locked_run sample_locked,
        OF _ _ prod.collapse [symmetric]] locked_preparation_busy
    by simp
qed

section \<open>Artifacts\<close>

fun nest :: "path \<Rightarrow> node \<Rightarrow> node" where
  "nest [] n = n"
| "nest (x # p) n = NDir [(x, nest p n)]"

lemma lookup_nest: "lookup (nest p n) p = Some n"
  by (induction p) simp_all


definition manifest_entries :: "codec \<Rightarrow> path \<Rightarrow> node \<Rightarrow> artifact_content_entry_v1 list" where
  "manifest_entries cx target n =
     (case n of
        NFile b \<Rightarrow> [(file_entry cx target (target, b))\<lparr>ac_entry_path := ''.''\<rparr>]
      | _ \<Rightarrow> map (file_entry cx target) (node_files target n))"

lemma fold_sizes:
  assumes "try_fold (\<lambda>s e. add_within limit s (ac_size_bytes e) p) s es = Ok s'"
  shows "unat s' = unat s + sum_list (map (unat \<circ> ac_size_bytes) es) \<and> (s \<le> limit \<longrightarrow> s' \<le> limit)"
  using assms by (induction es arbitrary: s) (fastforce simp: result_simps add_within_iff)+

lemma sum_sizes:
  "bytes_in fs < 2 ^ 64 \<Longrightarrow> sum_list (map (unat \<circ> ac_size_bytes \<circ> file_entry cx root) fs) = bytes_in fs"
proof (induction fs)
  case (Cons f fs)
  then have "length (snd f) < 2 ^ 64" by (simp add: bytes_in_def)
  then have "unat (of_nat (length (snd f)) :: u64) = length (snd f)" by (simp add: unsigned_of_nat take_bit_nat_eq_self)
  with Cons show ?case by (simp add: bytes_in_def file_entry_def)
qed (simp add: bytes_in_def)

lemma sum_list_mset: "mset xs = mset ys \<Longrightarrow> sum_list (map f xs) = (sum_list (map f ys) :: nat)"
  by (simp flip: sum_mset_sum_list)

lemma bytes_in_mset: "mset fs = mset gs \<Longrightarrow> bytes_in fs = bytes_in gs"
  unfolding bytes_in_def by (rule sum_list_mset)

lemma observe_directory_files:
  assumes "tree_wf t" and "observe_directory cx t (\<lambda>_. t) root mb me cp = Ok entries"
  shows "\<exists>es. lookup t root = Some (NDir es) \<and> plain_entries es \<and> sorted (map ac_entry_path entries) \<and>
    mset entries = mset (map (file_entry cx root) (entries_files root es)) \<and>
    bytes_in (entries_files root es) \<le> unat mb \<and> length entries \<le> unat me"
proof -
  from assms(2) obtain es entries' where es: "lookup t root = Some (NDir es)"
    and run: "observe_pending cx t (\<lambda>_. t) root mb me cp ([(root, es)], 0, []) = Ok entries'" and sort: "entries = sort_key ac_entry_path entries'"
    by (auto simp: observe_directory_def result_simps split: option.splits node.splits)
  have "on_tree t root es" using es lookup_wf [OF assms(1) es] by (rule on_tree_dir)
  then have all: "\<forall>(p, es) \<in> set [(root, es)]. on_tree t p es" by simp
  obtain fs where "entries' = [] @ map (file_entry cx root) fs" and "mset fs = walk_files [(root, es)]"
    and "unat (0 :: u64) + bytes_in fs \<le> unat mb" and few: "length entries' \<le> unat me"
    and "list_all (\<lambda>(p, es). plain_entries es) [(root, es)]"
    using observe_pending_files [OF run refl all] by (simp only: unat_0 list.size le0) blast
  then have fs: "entries' = map (file_entry cx root) fs" "mset fs = mset (entries_files root es)"
    "bytes_in fs \<le> unat mb" "plain_entries es" by (simp_all add: walk_files_def)
  have "bytes_in (entries_files root es) = bytes_in fs" by (rule bytes_in_mset) (simp add: fs(2))
  moreover have "mset entries = mset (map (file_entry cx root) (entries_files root es))" by (simp add: sort fs(1,2))
  moreover have "sorted (map ac_entry_path entries)" by (simp add: sort)
  moreover have "length entries = length entries'" by (simp add: sort)
  ultimately show ?thesis using es fs(3,4) few by (intro exI [of _ es]) simp
qed

text \<open>
  C35. The evidence of an artifact that nothing else writes to is exact: the tree at the declared path holds only files
  and directories and has the declared kind; the manifest that is digested has one entry for each of its
  files, with the file's relative path, size and content digest, in the order of paths; the counts are those of the
  files, and within the declared limits.
\<close>

theorem artifact_evidence_exact:
  assumes "tree_wf t" and "observe_artifact_contract cx t (\<lambda>_. t) artifact_root contract = Ok evidence"
  shows "\<exists>n entries. lookup t (join_path artifact_root (na_path contract)) = Some n \<and> plain_node n \<and>
    (na_kind contract = Directory \<longleftrightarrow> (\<exists>es. n = NDir es)) \<and>
    canonical_digest cx (artifact_content_manifest_to_value entries) = Ok (ae_manifest_digest evidence) \<and>
    mset entries = mset (manifest_entries cx (join_path artifact_root (na_path contract)) n) \<and> sorted (map ac_entry_path entries) \<and>
    unat (ae_entry_count evidence) = length (node_files (join_path artifact_root (na_path contract)) n) \<and>
    unat (ae_total_bytes evidence) = bytes_in (node_files (join_path artifact_root (na_path contract)) n) \<and>
    ae_entry_count evidence \<le> na_max_entries contract \<and> ae_total_bytes evidence \<le> na_max_bytes contract"
proof -
  let ?p = "join_path artifact_root (na_path contract)"
  from assms(2) obtain entries sum where
    entries: "(case na_kind contract of
        RegularFile \<Rightarrow> map_result (\<lambda>e. [e]) (observe_regular_file cx t (\<lambda>_. t) ?p ''.'' (na_max_bytes contract) (na_path contract))
      | Directory \<Rightarrow> observe_directory cx t (\<lambda>_. t) ?p (na_max_bytes contract) (na_max_entries contract) (na_path contract)) = Ok entries"
    and sum: "try_fold (\<lambda>s e. add_within (na_max_bytes contract) s (ac_size_bytes e) (na_path contract)) 0 entries = Ok sum"
    and few: "length entries \<le> unat (na_max_entries contract)"
    and digest: "canonical_digest cx (artifact_content_manifest_to_value entries) = Ok (ae_manifest_digest evidence)"
    and ev: "ae_entry_count evidence = of_nat (length entries)" "ae_total_bytes evidence = sum"
    by (auto simp: observe_artifact_contract_def Let_def result_simps split: if_splits)
  have count: "unat (of_nat (length entries) :: u64) = length entries"
    using few unsigned_less [of "na_max_entries contract", where 'a = nat] by (simp add: unsigned_of_nat take_bit_nat_eq_self)
  note total = fold_sizes [OF sum]
  show ?thesis
  proof (cases "na_kind contract")
    case RegularFile
    with entries obtain b where b: "lookup t ?p = Some (NFile b)"
        "entries = [(file_entry cx ?p (?p, b))\<lparr>ac_entry_path := ''.''\<rparr>]" "unat (of_nat (length b) :: u64) = length b"
      by (auto simp: result_simps file_entry_def dest!: observe_regular_file_still)
    show ?thesis
      by (intro exI [of _ "NFile b"] exI [of _ entries])
        (use b RegularFile digest ev count few total in
          \<open>auto simp: manifest_entries_def bytes_in_def file_entry_def word_le_nat_alt\<close>)
  next
    case Directory
    with entries have "observe_directory cx t (\<lambda>_. t) ?p (na_max_bytes contract) (na_max_entries contract) (na_path contract) = Ok entries"
      by simp
    from observe_directory_files [OF assms(1) this] obtain es where es: "lookup t ?p = Some (NDir es)" "plain_entries es"
      "sorted (map ac_entry_path entries)" "mset entries = mset (map (file_entry cx ?p) (entries_files ?p es))"
      "bytes_in (entries_files ?p es) \<le> unat (na_max_bytes contract)" by blast
    have "bytes_in (entries_files ?p es) < 2 ^ 64"
      using es(5) unsigned_less [of "na_max_bytes contract", where 'a = nat] by simp
    from sum_sizes [OF this, of cx ?p] have "sum_list (map (unat \<circ> ac_size_bytes) (map (file_entry cx ?p) (entries_files ?p es))) = bytes_in (entries_files ?p es)"
      by (simp add: comp_def)
    then have "sum_list (map (unat \<circ> ac_size_bytes) entries) = bytes_in (entries_files ?p es)"
      using sum_list_mset [OF es(4), of "unat \<circ> ac_size_bytes"] by simp
    moreover have "length entries = length (entries_files ?p es)" using mset_eq_length [OF es(4)] by simp
    ultimately show ?thesis
      by (intro exI [of _ "NDir es"] exI [of _ entries])
        (use es Directory digest ev count few total in \<open>auto simp: manifest_entries_def word_le_nat_alt\<close>)
  qed
qed

definition sample_output :: node where
  "sample_output = nest [''run'', ''artifacts'', ''out''] (NDir [(''a'', NFile ''xy''), (''b'', NDir [(''c'', NFile ''z'')])])"

definition sample_contract :: normalized_artifact_contract where
  "sample_contract = \<lparr>na_path = ''out'', na_kind = Directory, na_max_bytes = 10, na_max_entries = 2, na_producer_check = ''build''\<rparr>"

theorem artifact_evidence_exact_witness:
  "(case observe_artifact_contract sample_codec sample_output (\<lambda>_. sample_output) [''run'', ''artifacts''] sample_contract of
      Inr e \<Rightarrow> unat (ae_entry_count e) = 2 \<and> unat (ae_total_bytes e) = 3
    | Inl _ \<Rightarrow> False)"
proof -
  have "is_ok (observe_artifact_contract sample_codec sample_output (\<lambda>_. sample_output) [''run'', ''artifacts''] sample_contract)"
    by (code_simp; simp)
  then obtain e where e: "observe_artifact_contract sample_codec sample_output (\<lambda>_. sample_output) [''run'', ''artifacts''] sample_contract = Ok e"
    by (auto simp: is_ok_def split: sum.splits)
  have p: "join_path [''run'', ''artifacts''] (na_path sample_contract) = [''run'', ''artifacts'', ''out'']"
    by (simp add: join_path_def path_parts_def sample_contract_def path_is_absolute_def starts_with_def)
  have wf: "tree_wf sample_output" by (simp add: sample_output_def bt_inv_def)
  have at: "lookup sample_output [''run'', ''artifacts'', ''out''] = Some (NDir [(''a'', NFile ''xy''), (''b'', NDir [(''c'', NFile ''z'')])])"
    by (simp add: sample_output_def lookup_nest)
  from artifact_evidence_exact [OF wf e] have "unat (ae_entry_count e) = 2" "unat (ae_total_bytes e) = 3"
    unfolding p at by (auto simp: bytes_in_def)
  with e show ?thesis by simp
qed

end
