(* ===== verification/Runtime.thy ===== *)
theory Runtime
  imports Workspace Process Text_Scan Receipt_Types
begin

text \<open>
  The container runtime (\<^verbatim>\<open>src/src/runtime.rs\<close>): the probe of the daemon and of its capabilities, the
  environment and the command of a check, and the life of its container. The supervisor that runs
  the commands, the environment of the process and the JSON reader are parameters. What is modelled is the
  Unix build.
\<close>

section \<open>Types\<close>

definition DOCTOR_TIMEOUT :: duration where "DOCTOR_TIMEOUT = secs 5"
definition DOCTOR_CAPTURE_BYTES :: nat where "DOCTOR_CAPTURE_BYTES = 65536"
definition LIFECYCLE_CAPTURE_BYTES :: nat where "LIFECYCLE_CAPTURE_BYTES = 1048576"

text \<open>\<open>RtmPanic\<close> is not a variant of \<^verbatim>\<open>RuntimeError\<close>: it is the model's value for \<^verbatim>\<open>unreachable!\<close>.\<close>

datatype runtime_error =
    RtmUnsupported string
  | RtmUnsupportedCapability string
  | RtmUnavailable
  | RtmTimedOut
  | RtmCancelled
  | RtmCleanupUncertain
  | RtmInvalidProbe string
  | RtmLifecycleFailure string
  | RtmFixedEnvironmentBinding string string
  | RtmWorkspace workspace_error
  | RtmProcess process_error
  | RtmPanic string

definition runtime_exit_code :: "runtime_error \<Rightarrow> int" where
  "runtime_exit_code e =
     (case e of
        RtmUnsupported _ \<Rightarrow> 4 | RtmUnsupportedCapability _ \<Rightarrow> 4 | RtmUnavailable \<Rightarrow> 4 | RtmInvalidProbe _ \<Rightarrow> 4
      | RtmTimedOut \<Rightarrow> 5 | RtmCancelled \<Rightarrow> 5
      | RtmWorkspace _ \<Rightarrow> 2
      | RtmProcess PrcStaleGeneration \<Rightarrow> 5
      | _ \<Rightarrow> 70)"

datatype runtime_flavor = FlavorDockerCompatible | FlavorOrbStack

datatype containment_mechanism = ProcessGroup | JobObject

datatype graceful_stop_capability = ProcessGroupSignal | HardStopOnly

record runtime_probe =
  rp_runtime :: runtime_kind
  rp_flavor :: runtime_flavor
  rp_server_version :: "string option"
  rp_operating_system :: "string option"
  rp_os_type :: "string option"
  rp_memory_limit_supported :: "bool option"
  rp_swap_limit_supported :: "bool option"
  rp_containment :: containment_mechanism
  rp_graceful_stop :: graceful_stop_capability

record dry_run_check =
  dc_id :: string
  dc_program :: string
  dc_argv :: "string list"
  dc_depends_on :: "string list"
  dc_mounts :: "mount_binding list"

datatype workspace_mount_policy = ExplicitBindings

record dry_run_plan =
  dp_schema_version :: string
  dp_plan_digest :: string
  dp_runtime :: runtime_kind
  dp_program :: string
  dp_checks :: "dry_run_check list"
  dp_workspace :: workspace_plan_v1
  dp_workspace_mount_policy :: workspace_mount_policy
  dp_executed :: bool

text \<open>
  The files of the machine with their permission bits, the sequence of temporary receipt names and the rest of
  the world; the token of the run, or a fresh one that nobody cancels; the supervisor, which may change
  everything.
\<close>

record 'd runtime_world =
  rw_files :: cache_world
  rw_modes :: "path \<Rightarrow> u32"
  rw_receipt_sequence :: u64
  rw_outside :: 'd

datatype cancellation = RunToken | FreshToken

type_synonym 'd supervisor_port =
  "process_request \<Rightarrow> cancellation \<Rightarrow> ('d runtime_world, process_error, process_result) action"

record runtime_host =
  rh_var_os :: "string \<Rightarrow> string option"
  rh_from_slice :: "string \<Rightarrow> (string, json) result"

section \<open>Texts and JSON values\<close>

definition as_bool :: "json \<Rightarrow> bool option" where
  "as_bool v = (case v of JBool b \<Rightarrow> Some b | _ \<Rightarrow> None)"

definition as_array :: "json \<Rightarrow> json list option" where
  "as_array v = (case v of JArray xs \<Rightarrow> Some xs | _ \<Rightarrow> None)"

definition as_object :: "json \<Rightarrow> (string, json) btree_map option" where
  "as_object v = (case v of JObject kvs \<Rightarrow> Some kvs | _ \<Rightarrow> None)"

definition to_ascii_lowercase :: "string \<Rightarrow> string" where
  "to_ascii_lowercase s = map (\<lambda>c. if 65 \<le> byte_val c \<and> byte_val c \<le> 90 then char_of (byte_val c + 32) else c) s"

definition bounded_field :: "json \<Rightarrow> string \<Rightarrow> string option" where
  "bounded_field value key =
     Option.bind (json_get value key) (\<lambda>v. Option.bind (as_str v) (\<lambda>s.
     let field = trim s in
     if field = [] \<or> 128 < length field \<or> any_control field then None else Some field))"

definition valid_sha256_digest :: "string \<Rightarrow> bool" where
  "valid_sha256_digest value \<longleftrightarrow> length value = 71 \<and> starts_with ''sha256:'' value \<and> list_all is_lower_hex (drop 7 value)"

section \<open>Environment\<close>

definition runtime_environment :: "runtime_host \<Rightarrow> (string, string) btree_map" where
  "runtime_environment rh =
     bt_collect (List.map_filter (\<lambda>name. map_option (Pair name) (rh_var_os rh name))
       [''PATH'', ''HOME'', ''USERPROFILE'', ''HOMEDRIVE'', ''HOMEPATH'', ''DOCKER_HOST'', ''DOCKER_CONTEXT'', ''DOCKER_CONFIG''])"

definition bind_fixed_value ::
    "codec \<Rightarrow> (string, string) btree_map \<Rightarrow> (string, string) btree_map \<Rightarrow> normalized_fixed_environment \<Rightarrow>
       (runtime_error, (string, string) btree_map) result" where
  "bind_fixed_value cx fixed values binding =
     (let failed = RtmFixedEnvironmentBinding (nfe_name binding) in
      and_then (ok_or (failed ''is missing from the private envelope'') (bt_get fixed (nfe_name binding))) (\<lambda>value.
      and_then (map_err (\<lambda>_. failed ''cannot be canonically digested'') (canonical_digest cx (JString value))) (\<lambda>actual.
      if actual \<noteq> nfe_value_digest binding then Err (failed ''does not match the normalized plan digest'')
      else Ok (bt_insert (nfe_name binding) value values))))"

definition validate_fixed_environment ::
    "codec \<Rightarrow> execution_plan_envelope_v1 \<Rightarrow> (runtime_error, (string, string) btree_map) result" where
  "validate_fixed_environment cx envelope =
     (let declared = bt_collect (map (\<lambda>b. (nfe_name b, nfe_value_digest b)) (ne_fixed (pl_environment (pe_plan envelope)))) in
      and_then
        (try_each (\<lambda>name. if bt_get declared name = None
           then Err (RtmFixedEnvironmentBinding name ''is not declared in the normalized plan'') else Ok ())
          (map fst (pe_fixed_environment envelope))) (\<lambda>_.
      try_fold (bind_fixed_value cx (pe_fixed_environment envelope)) [] (ne_fixed (pl_environment (pe_plan envelope)))))"

definition docker_execution_environment ::
    "codec \<Rightarrow> runtime_host \<Rightarrow> execution_plan_envelope_v1 \<Rightarrow> (runtime_error, (string, string) btree_map) result" where
  "docker_execution_environment cx rh envelope =
     (let environment = pl_environment (pe_plan envelope);
          inherited = fold (\<lambda>name m. case rh_var_os rh name of Some v \<Rightarrow> bt_insert name v m | None \<Rightarrow> m)
            (ne_inherit environment) (runtime_environment rh) in
      and_then (validate_fixed_environment cx envelope) (\<lambda>values.
      Ok (fold (\<lambda>b. bt_insert (nri_name b) (nri_container_target b)) (ne_runtime_internal environment)
           (fold (\<lambda>(name, value). bt_insert name value) values inherited))))"

section \<open>The command of a check\<close>

definition docker_mount_argument :: "mount_binding \<Rightarrow> (runtime_error, string) result" where
  "docker_mount_argument mount =
     and_then (map_err RtmWorkspace (validate_host_path (mb_source mount))) (\<lambda>_.
     and_then (map_err RtmWorkspace (validate_container_mount_target (mb_target mount))) (\<lambda>_.
     Ok (''type=bind,src='' @ path_text (mb_source mount) @ '',dst='' @ mb_target mount @
         (if mb_access mount = MountReadOnly then '',readonly'' else ''''))))"

definition container_working_directory :: "string \<Rightarrow> string" where
  "container_working_directory relative = (if relative = ''.'' then ''/workspace'' else ''/workspace/'' @ relative)"

primrec mount_arguments :: "mount_binding list \<Rightarrow> (runtime_error, string list) result" where
  "mount_arguments [] = Ok []"
| "mount_arguments (m # ms) =
     and_then (docker_mount_argument m) (\<lambda>a. and_then (mount_arguments ms) (\<lambda>as. Ok (''--mount'' # a # as)))"

definition limit_options :: "normalized_runtime \<Rightarrow> string list" where
  "limit_options runtime =
     (let memory = show_word (nr_memory_mib runtime) @ ''m'';
          sealed = (nr_pull_policy runtime = Some PullNever \<and> nr_swap_mode runtime = Some SwapDisabled) in
      [''run'', ''--rm'', ''--init'', ''--read-only'', ''--network'', if nr_network runtime then ''bridge'' else ''none'',
       ''--cpus'', show_word (nr_cpu_count runtime)] @
      (if sealed then [''--pull'', ''never''] else []) @
      [''--memory'', memory] @
      (if sealed then [''--memory-swap'', memory] else []) @
      [''--pids-limit'', show_word (nr_pids_limit runtime), ''--tmpfs'', ''/tmp:rw,noexec,nosuid,nodev,size=64m''])"

definition docker_dry_run_check ::
    "normalized_runtime \<Rightarrow> normalized_check \<Rightarrow> string list \<Rightarrow> workspace_plan_v1 \<Rightarrow> (runtime_error, dry_run_check) result" where
  "docker_dry_run_check runtime check environment_allow workspace =
     and_then (mount_arguments (wk_mounts workspace)) (\<lambda>mounts.
     if list_ex (\<lambda>name. CHR 0x00 \<in> set name) (nk_argv check)
     then Err (RtmPanic ''normalized configuration rejects NUL characters'')
     else Ok \<lparr>dc_id = nk_id check, dc_program = ''docker'',
              dc_argv = limit_options runtime @ concat (map (\<lambda>name. [''--env'', name]) environment_allow) @
                [''--env'', ''TMPDIR=/tmp''] @ mounts @
                [''--workdir'', container_working_directory (nk_working_directory check)] @ [nr_image runtime] @ nk_argv check,
              dc_depends_on = nk_depends_on check, dc_mounts = wk_mounts workspace\<rparr>)"

primrec dry_run_checks ::
    "normalized_runtime \<Rightarrow> string list \<Rightarrow> workspace_plan_v1 \<Rightarrow> normalized_check list \<Rightarrow> (runtime_error, dry_run_check list) result" where
  "dry_run_checks runtime allow workspace [] = Ok []"
| "dry_run_checks runtime allow workspace (c # cs) =
     and_then (docker_dry_run_check runtime c allow workspace) (\<lambda>d.
     and_then (dry_run_checks runtime allow workspace cs) (\<lambda>ds. Ok (d # ds)))"

definition dry_run ::
    "codec \<Rightarrow> execution_plan_envelope_v1 \<Rightarrow> workspace_plan_v1 \<Rightarrow> (runtime_error, dry_run_plan) result" where
  "dry_run cx envelope workspace =
     and_then (validate_fixed_environment cx envelope) (\<lambda>_.
     and_then (dry_run_checks (pl_runtime (pe_plan envelope)) (environment_names (pl_environment (pe_plan envelope)))
       workspace (pl_checks (pe_plan envelope))) (\<lambda>checks.
     Ok \<lparr>dp_schema_version = ''1.0'', dp_plan_digest = pe_plan_digest envelope, dp_runtime = DockerCompatible,
         dp_program = ''docker'', dp_checks = checks, dp_workspace = workspace,
         dp_workspace_mount_policy = ExplicitBindings, dp_executed = False\<rparr>))"

section \<open>The probe of the daemon\<close>

definition doctor_identity :: "execution_plan_envelope_v1 \<Rightarrow> run_identity" where
  "doctor_identity envelope =
     \<lparr>ri_project = pl_project (pe_plan envelope), ri_commit = None, ri_config_digest = pe_plan_digest envelope,
      ri_generation = ''doctor-v1''\<rparr>"

definition doctor_guard :: "execution_plan_envelope_v1 \<Rightarrow> generation_guard" where
  "doctor_guard envelope = generation_guard_new (doctor_identity envelope)"

definition interpret_docker_probe :: "runtime_host \<Rightarrow> process_result \<Rightarrow> (runtime_error, runtime_probe) result" where
  "interpret_docker_probe rh result =
     (case ps_termination result of
        TimedOut \<Rightarrow> Err RtmTimedOut
      | Cancelled \<Rightarrow> Err RtmCancelled
      | Completed \<Rightarrow>
          if ps_cleanup result \<noteq> Verified then Err RtmCleanupUncertain
          else
            and_then (ok_or (RtmInvalidProbe ''runtime probe completed without an exit status'') (ps_exit result)) (\<lambda>exit.
            if \<not> eo_success exit then Err RtmUnavailable
            else if cs_truncated (ps_stdout result) \<or> cs_truncated (ps_stderr result)
            then Err (RtmInvalidProbe ''runtime probe output exceeded the capture limit'')
            else if \<not> utf8_valid (cs_bytes (ps_stdout result)) then Err (RtmInvalidProbe ''runtime probe output is not UTF-8'')
            else
              and_then (map_err (\<lambda>_. RtmInvalidProbe ''runtime probe output is not valid JSON'')
                (rh_from_slice rh (trim (cs_bytes (ps_stdout result))))) (\<lambda>value.
              if as_object value = None then Err (RtmInvalidProbe ''runtime probe output is not a JSON object'')
              else
                and_then (ok_or (RtmInvalidProbe ''runtime probe did not report a server version'')
                  (bounded_field value ''ServerVersion'')) (\<lambda>server_version.
                and_then (ok_or (RtmInvalidProbe ''runtime probe did not report an OS type'') (bounded_field value ''OSType'')) (\<lambda>os_type.
                if to_ascii_lowercase os_type \<noteq> ''linux''
                then Err (RtmUnsupported ''the Docker-compatible runtime is not serving Linux containers'')
                else
                  let operating_system = bounded_field value ''OperatingSystem'';
                      orbstack = list_ex (\<lambda>field. case field of None \<Rightarrow> False | Some s \<Rightarrow> contains_str ''orbstack'' (to_ascii_lowercase s))
                        [operating_system, bounded_field value ''Name''] in
                  Ok \<lparr>rp_runtime = DockerCompatible, rp_flavor = (if orbstack then FlavorOrbStack else FlavorDockerCompatible),
                      rp_server_version = Some server_version, rp_operating_system = operating_system, rp_os_type = Some os_type,
                      rp_memory_limit_supported = Option.bind (json_get value ''MemoryLimit'') as_bool,
                      rp_swap_limit_supported = Option.bind (json_get value ''SwapLimit'') as_bool,
                      rp_containment = ProcessGroup, rp_graceful_stop = ProcessGroupSignal\<rparr>)))))"

definition spawn_unavailable :: "process_error \<Rightarrow> runtime_error" where
  "spawn_unavailable e = (case e of PrcSpawn _ \<Rightarrow> RtmUnavailable | e \<Rightarrow> RtmProcess e)"

definition doctor_request :: "runtime_host \<Rightarrow> execution_plan_envelope_v1 \<Rightarrow> string \<Rightarrow> string list \<Rightarrow> process_request" where
  "doctor_request rh envelope current_dir argv =
     \<lparr>rq_identity = doctor_identity envelope, rq_program = ''docker'', rq_argv = argv, rq_current_dir = current_dir,
      rq_environment = runtime_environment rh, rq_timeout = DOCTOR_TIMEOUT, rq_max_capture_bytes = DOCTOR_CAPTURE_BYTES\<rparr>"

definition docker_probe ::
    "runtime_host \<Rightarrow> 'd supervisor_port \<Rightarrow> execution_plan_envelope_v1 \<Rightarrow> string \<Rightarrow> generation_guard \<Rightarrow>
       ('d runtime_world, runtime_error, runtime_probe) action" where
  "docker_probe rh supervisor envelope current_dir generation =
     attempt (of_result (map_err RtmProcess (ensure_current generation (doctor_identity envelope)))) (\<lambda>_.
     attempt (on_err spawn_unavailable
       (supervisor (doctor_request rh envelope current_dir [''info'', ''--format'', ''{{json .}}'']) RunToken)) (\<lambda>result.
     of_result (interpret_docker_probe rh result)))"

section \<open>The capabilities of the daemon\<close>

definition bounded_successful_output :: "process_result \<Rightarrow> (runtime_error, string) result" where
  "bounded_successful_output result =
     (case ps_termination result of
        TimedOut \<Rightarrow> Err RtmTimedOut
      | Cancelled \<Rightarrow> Err RtmCancelled
      | Completed \<Rightarrow>
          if ps_cleanup result \<noteq> Verified then Err RtmCleanupUncertain
          else if map_option eo_success (ps_exit result) \<noteq> Some True then Err RtmUnavailable
          else if cs_truncated (ps_stdout result) \<or> cs_truncated (ps_stderr result)
          then Err (RtmInvalidProbe ''runtime capability output exceeded the capture limit'')
          else Ok (cs_bytes (ps_stdout result)))"

definition execute_capability_command ::
    "runtime_host \<Rightarrow> 'd supervisor_port \<Rightarrow> execution_plan_envelope_v1 \<Rightarrow> string \<Rightarrow> generation_guard \<Rightarrow> string list \<Rightarrow>
       ('d runtime_world, runtime_error, string) action" where
  "execute_capability_command rh supervisor envelope current_dir generation argv =
     attempt (of_result (map_err RtmProcess (ensure_current generation (doctor_identity envelope)))) (\<lambda>_.
     attempt (on_err spawn_unavailable (supervisor (doctor_request rh envelope current_dir argv) RunToken)) (\<lambda>result.
     of_result (bounded_successful_output result)))"

definition bounded_context :: "string \<Rightarrow> (runtime_error, string) result" where
  "bounded_context bytes =
     (if \<not> utf8_valid bytes then Err (RtmInvalidProbe ''Docker context output is not UTF-8'')
      else
        let context = trim bytes in
        if context = [] \<or> 128 < length context \<or> any_control context
        then Err (RtmInvalidProbe ''Docker context output is unsafe or out of bounds'') else Ok context)"

definition interpret_runtime_capabilities ::
    "codec \<Rightarrow> runtime_host \<Rightarrow> runtime_probe \<Rightarrow> string \<Rightarrow> string \<Rightarrow> string \<Rightarrow>
       (runtime_error, runtime_capability_evidence_v1) result" where
  "interpret_runtime_capabilities cx rh probe context image_json expected_image_reference =
     (if rp_memory_limit_supported probe \<noteq> Some True then Err (RtmUnsupportedCapability ''memory_limit'')
      else if rp_swap_limit_supported probe \<noteq> Some True then Err (RtmUnsupportedCapability ''swap_limit'')
      else
        and_then (map_err (\<lambda>_. RtmInvalidProbe ''image inspect output is not valid JSON'') (rh_from_slice rh image_json)) (\<lambda>value.
        and_then (ok_or (RtmInvalidProbe ''image inspect output omitted a canonical image ID'')
          (Option.bind (json_get value ''Id'') (\<lambda>v. Option.bind (as_str v) (\<lambda>s. if valid_sha256_digest s then Some s else None))))
          (\<lambda>image_id.
        if \<not> (case Option.bind (json_get value ''RepoDigests'') as_array of
                None \<Rightarrow> False
              | Some digests \<Rightarrow> expected_image_reference \<in> set (List.map_filter as_str digests))
        then Err (RtmInvalidProbe ''image inspect output did not bind the configured image reference'')
        else
          and_then (map_err (\<lambda>_. RtmInvalidProbe ''cannot digest Docker context'') (canonical_digest cx (JString context)))
            (\<lambda>context_digest.
          Ok \<lparr>rce_schema_version = ''1.0'', rce_memory_limit_supported = True, rce_swap_limit_supported = True,
              rce_context_digest = context_digest, rce_resolved_image_id = image_id,
              rce_resolved_image_reference = expected_image_reference\<rparr>))))"

definition capability_probe ::
    "codec \<Rightarrow> runtime_host \<Rightarrow> 'd supervisor_port \<Rightarrow> execution_plan_envelope_v1 \<Rightarrow> runtime_probe \<Rightarrow> string \<Rightarrow> generation_guard \<Rightarrow>
       ('d runtime_world, runtime_error, runtime_capability_evidence_v1 option) action" where
  "capability_probe cx rh supervisor envelope probe current_dir generation =
     (if pl_schema_version (pe_plan envelope) \<noteq> ''1.3'' then ok None
      else if rp_runtime probe \<noteq> DockerCompatible then fail (RtmUnsupported ''schema 1.3 requires a Docker-compatible runtime'')
      else
        attempt (execute_capability_command rh supervisor envelope current_dir generation [''context'', ''show'']) (\<lambda>context.
        attempt (execute_capability_command rh supervisor envelope current_dir generation
          [''image'', ''inspect'', ''--format'', ''{{json .}}'', nr_image (pl_runtime (pe_plan envelope))]) (\<lambda>image_json.
        attempt (of_result (bounded_context context)) (\<lambda>context.
        attempt (of_result (interpret_runtime_capabilities cx rh probe context image_json (nr_image (pl_runtime (pe_plan envelope))))) (\<lambda>e.
        ok (Some e))))))"

record runtime_preflight =
  rf_runtime_probe :: "runtime_probe option"
  rf_capability_evidence :: "runtime_capability_evidence_v1 option"

definition preflight_runtime_capabilities ::
    "codec \<Rightarrow> runtime_host \<Rightarrow> 'd supervisor_port \<Rightarrow> execution_plan_envelope_v1 \<Rightarrow> string \<Rightarrow> generation_guard \<Rightarrow>
       ('d runtime_world, runtime_error, runtime_preflight) action" where
  "preflight_runtime_capabilities cx rh supervisor envelope current_dir generation =
     (if pl_schema_version (pe_plan envelope) \<noteq> ''1.3''
      then ok \<lparr>rf_runtime_probe = None, rf_capability_evidence = None\<rparr>
      else
        attempt (docker_probe rh supervisor envelope current_dir generation) (\<lambda>probe.
        attempt (capability_probe cx rh supervisor envelope probe current_dir generation) (\<lambda>evidence.
        ok \<lparr>rf_runtime_probe = Some probe, rf_capability_evidence = evidence\<rparr>)))"

definition runtime_for :: "runtime_kind \<Rightarrow> (runtime_error, unit) result" where
  "runtime_for kind =
     (case kind of
        DockerCompatible \<Rightarrow> Ok ()
      | Host \<Rightarrow> Err (RtmUnsupported ''host runtime execution is not qualified in receipt v1''))"

section \<open>The life of a container\<close>

record docker_lifecycle_plan =
  dl_container_name :: string
  dl_owner_label :: string
  dl_run_label :: string
  dl_check_label :: string
  dl_create_argv :: "string list"
  dl_start_argv :: "string list"
  dl_attach_argv :: "string list"
  dl_wait_argv :: "string list"
  dl_inspect_argv :: "string list"
  dl_stop_argv :: "string list"
  dl_kill_argv :: "string list"
  dl_remove_argv :: "string list"

definition lifecycle_build ::
    "codec \<Rightarrow> string \<Rightarrow> normalized_check \<Rightarrow> dry_run_check \<Rightarrow> (runtime_error, docker_lifecycle_plan) result" where
  "lifecycle_build cx run_id check rendered =
     (if run_id = [] \<or> nk_id check = [] \<or> dc_program rendered \<noteq> ''docker''
      then Err (RtmLifecycleFailure ''lifecycle identity or rendered runtime is invalid'')
      else if dc_argv rendered = [] \<or> hd (dc_argv rendered) \<noteq> ''run''
      then Err (RtmLifecycleFailure ''lifecycle requires a docker run plan'')
      else
        let digest = encode_hex (sha256 cx (''commit-ci-preflight-container-v1'' @ [CHR 0x00] @ run_id @ [CHR 0x00] @ nk_id check));
            container_name = ''ccp-'' @ take 24 digest;
            owner_label = ''com.commit-ci-preflight.owner=commit-ci-preflight'';
            run_label = ''com.commit-ci-preflight.run-id='' @ run_id;
            check_label = ''com.commit-ci-preflight.check-id='' @ nk_id check in
        Ok \<lparr>dl_container_name = container_name, dl_owner_label = owner_label, dl_run_label = run_label,
            dl_check_label = check_label,
            dl_create_argv = [''create'', ''--name'', container_name, ''--label'', owner_label, ''--label'', run_label,
              ''--label'', check_label] @ filter (\<lambda>argument. argument \<noteq> ''--rm'') (tl (dc_argv rendered)),
            dl_start_argv = [''start'', container_name],
            dl_attach_argv = [''attach'', ''--sig-proxy=false'', container_name],
            dl_wait_argv = [''wait'', container_name],
            dl_inspect_argv = [''inspect'', ''--format'', ''{{json .}}'', container_name],
            dl_stop_argv = [''stop'', ''--time'', ''5'', container_name],
            dl_kill_argv = [''kill'', container_name],
            dl_remove_argv = [''rm'', ''--force'', container_name]\<rparr>)"

definition completed_success :: "process_result \<Rightarrow> bool" where
  "completed_success result \<longleftrightarrow>
     ps_termination result = Completed \<and> ps_cleanup result = Verified \<and>
     (case ps_exit result of Some exit \<Rightarrow> eo_success exit | None \<Rightarrow> False)"

text \<open>A byte that is not UTF-8 becomes a replacement character, which is no hexadecimal digit.\<close>

definition is_ascii_hexdigit :: "char \<Rightarrow> bool" where
  "is_ascii_hexdigit c \<longleftrightarrow> is_lower_hex c \<or> 65 \<le> byte_val c \<and> byte_val c \<le> 70"

definition valid_container_id :: "string \<Rightarrow> bool" where
  "valid_container_id bytes \<longleftrightarrow>
     utf8_valid bytes \<and> 12 \<le> length (trim bytes) \<and> length (trim bytes) \<le> 64 \<and> list_all is_ascii_hexdigit (trim bytes)"

definition parse_i32 :: "string \<Rightarrow> i32 option" where
  "parse_i32 s =
     (let (negative, ds) = (case s of
            c # r \<Rightarrow> if c = CHR ''-'' then (True, r) else if c = CHR ''+'' then (False, r) else (False, s)
          | [] \<Rightarrow> (False, s)) in
      if ds = [] \<or> \<not> digits ds then None
      else
        let n = (if negative then - int (dec_value ds) else int (dec_value ds)) in
        if - 2147483648 \<le> n \<and> n \<le> 2147483647 then Some (of_int n) else None)"

definition parse_wait_exit_code :: "string \<Rightarrow> (runtime_error, i32) result" where
  "parse_wait_exit_code bytes =
     (if \<not> utf8_valid bytes then Err (RtmLifecycleFailure ''docker wait output is not UTF-8'')
      else
        and_then (ok_or (RtmLifecycleFailure ''docker wait output is not an exit code'') (parse_i32 (trim bytes))) (\<lambda>code.
        if sint code < 0 \<or> 255 < sint code then Err (RtmLifecycleFailure ''docker wait returned an invalid exit code'')
        else Ok code))"

definition label_matches :: "(string, json) btree_map \<Rightarrow> string \<Rightarrow> bool" where
  "label_matches labels key_value =
     (case split_once (CHR ''='') key_value of
        None \<Rightarrow> False
      | Some (key, value) \<Rightarrow> Option.bind (bt_get labels key) as_str = Some value)"

definition parse_container_state ::
    "runtime_host \<Rightarrow> string \<Rightarrow> docker_lifecycle_plan \<Rightarrow> (runtime_error, string) result" where
  "parse_container_state rh bytes lifecycle =
     and_then (map_err (\<lambda>_. RtmLifecycleFailure ''docker inspect output is not JSON'') (rh_from_slice rh bytes)) (\<lambda>value.
     if map_option (dropWhile (\<lambda>c. c = CHR ''/'')) (Option.bind (json_get value ''Name'') as_str) \<noteq> Some (dl_container_name lifecycle)
     then Err (RtmLifecycleFailure ''docker inspect returned an unexpected container name'')
     else
       and_then (ok_or (RtmLifecycleFailure ''docker inspect omitted container labels'')
         (Option.bind (json_get value ''Config'') (\<lambda>config. Option.bind (json_get config ''Labels'') as_object))) (\<lambda>labels.
       if \<not> label_matches labels (dl_owner_label lifecycle) \<or> \<not> label_matches labels (dl_run_label lifecycle) \<or>
          \<not> label_matches labels (dl_check_label lifecycle)
       then Err (RtmLifecycleFailure ''docker inspect returned non-CCP ownership labels'')
       else
         and_then (ok_or (RtmLifecycleFailure ''docker inspect omitted container state'')
           (Option.bind (json_get value ''State'') (\<lambda>state. Option.bind (json_get state ''Status'') as_str))) (\<lambda>state.
         if state \<in> set [''created'', ''running'', ''restarting'', ''paused'', ''exited'', ''dead''] then Ok state
         else Err (RtmLifecycleFailure ''docker inspect returned an unknown container state''))))"

record 'd runtime_execution_context =
  rx_execution_root :: string
  rx_environment :: "(string, string) btree_map"
  rx_identity :: run_identity
  rx_run_id :: string
  rx_supervisor :: "'d supervisor_port"
  rx_timeout_seconds :: u64

definition execute_cli ::
    "'d runtime_execution_context \<Rightarrow> string list \<Rightarrow> cancellation \<Rightarrow> ('d runtime_world, runtime_error, process_result) action" where
  "execute_cli context argv cancellation =
     on_err RtmProcess (rx_supervisor context
       \<lparr>rq_identity = rx_identity context, rq_program = ''docker'', rq_argv = argv,
        rq_current_dir = rx_execution_root context, rq_environment = rx_environment context,
        rq_timeout = secs (unat (rx_timeout_seconds context)), rq_max_capture_bytes = LIFECYCLE_CAPTURE_BYTES\<rparr> cancellation)"

definition execute_cleanup_cli ::
    "'d runtime_execution_context \<Rightarrow> string list \<Rightarrow> cancellation \<Rightarrow> ('d runtime_world, runtime_error, process_result) action" where
  "execute_cleanup_cli context argv cancellation =
     on_err (\<lambda>_. RtmLifecycleFailure ''daemon cleanup command failed'') (execute_cli context argv cancellation)"

definition cleanup_container ::
    "runtime_host \<Rightarrow> docker_lifecycle_plan \<Rightarrow> 'd runtime_execution_context \<Rightarrow> cancellation \<Rightarrow> ('d runtime_world, runtime_error, unit) action" where
  "cleanup_container rh lifecycle context cancellation =
     attempt (execute_cleanup_cli context (dl_inspect_argv lifecycle) cancellation) (\<lambda>inspect.
     if \<not> completed_success inspect then fail (RtmLifecycleFailure ''daemon inspection failed before cleanup'')
     else
       attempt (of_result (parse_container_state rh (cs_bytes (ps_stdout inspect)) lifecycle)) (\<lambda>state.
       attempt
         (if state \<in> set [''created'', ''running'', ''restarting'', ''paused'']
          then do {
            stop \<leftarrow> execute_cleanup_cli context (dl_stop_argv lifecycle) cancellation;
            if (case stop of Inr r \<Rightarrow> completed_success r | Inl _ \<Rightarrow> False) then ok ()
            else
              attempt (execute_cleanup_cli context (dl_kill_argv lifecycle) cancellation) (\<lambda>kill.
              if \<not> completed_success kill then fail (RtmLifecycleFailure ''daemon stop and kill both failed'') else ok ()) }
          else ok ())
         (\<lambda>_.
       attempt (execute_cleanup_cli context (dl_remove_argv lifecycle) cancellation) (\<lambda>remove.
       if \<not> completed_success remove then fail (RtmLifecycleFailure ''daemon removal failed'')
       else
         attempt (execute_cleanup_cli context (dl_inspect_argv lifecycle) cancellation) (\<lambda>final.
         if ps_termination final \<noteq> Completed \<or> ps_cleanup final \<noteq> Verified \<or>
            (case ps_exit final of None \<Rightarrow> True | Some exit \<Rightarrow> eo_success exit)
         then fail (RtmLifecycleFailure ''daemon removal was not proven by final not-found inspection'')
         else ok ())))))"

definition on_files :: "(cache_world, 'a) state \<Rightarrow> ('d runtime_world, 'a) state" where
  "on_files m = State (\<lambda>w. case run_state m (rw_files w) of (r, f) \<Rightarrow> (r, w\<lparr>rw_files := f\<rparr>))"

text \<open>Cleaned up first: the error of the cleanup wins.\<close>

definition after_removal ::
    "runtime_host \<Rightarrow> docker_lifecycle_plan \<Rightarrow> 'd runtime_execution_context \<Rightarrow> (runtime_error, process_result) result \<Rightarrow>
       ('d runtime_world, runtime_error, process_result) action" where
  "after_removal rh lifecycle context r = attempt (cleanup_container rh lifecycle context FreshToken) (\<lambda>_. of_result r)"

definition execute_check ::
    "codec \<Rightarrow> cache_json \<Rightarrow> cache_host \<Rightarrow> runtime_host \<Rightarrow> normalized_check \<Rightarrow> dry_run_check \<Rightarrow> 'd runtime_execution_context \<Rightarrow>
       ('d runtime_world, runtime_error, process_result) action" where
  "execute_check cx cj hs rh check rendered context =
     attempt (on_err RtmWorkspace (on_files (revalidate_mount_sources cj hs (dc_mounts rendered)))) (\<lambda>_.
     attempt (of_result (lifecycle_build cx (rx_run_id context) check rendered)) (\<lambda>lifecycle.
     attempt (execute_cli context (dl_create_argv lifecycle) RunToken) (\<lambda>create.
     if \<not> completed_success create then ok create
     else if \<not> valid_container_id (cs_bytes (ps_stdout create))
     then after_removal rh lifecycle context (Err (RtmLifecycleFailure ''docker create did not return a valid container id''))
     else do {
       start \<leftarrow> execute_cli context (dl_start_argv lifecycle) RunToken;
       case start of
         Inl e \<Rightarrow> after_removal rh lifecycle context (Err e)
       | Inr start \<Rightarrow>
           if \<not> completed_success start then after_removal rh lifecycle context (Ok start)
           else do {
             attach \<leftarrow> execute_cli context (dl_attach_argv lifecycle) RunToken;
             case attach of
               Inl e \<Rightarrow> after_removal rh lifecycle context (Err e)
             | Inr attach \<Rightarrow>
                 if ps_termination attach \<noteq> Completed then after_removal rh lifecycle context (Ok attach)
                 else
                   attempt (execute_cli context (dl_wait_argv lifecycle) RunToken) (\<lambda>wait.
                   if \<not> completed_success wait
                   then after_removal rh lifecycle context
                     (Err (RtmLifecycleFailure ''docker wait did not return the container exit code''))
                   else
                     attempt (of_result (parse_wait_exit_code (cs_bytes (ps_stdout wait)))) (\<lambda>exit_code.
                     after_removal rh lifecycle context
                       (Ok (attach\<lparr>ps_exit := Some \<lparr>eo_success = (exit_code = 0), eo_code = Some exit_code\<rparr>\<rparr>)))) } })))"

end
