(* ===== verification/Runtime_Props.thy ===== *)
theory Runtime_Props
  imports Runtime Samples Durable_Correct Cache_Correct
begin

text \<open>
  The properties of the container runtime (\<^verbatim>\<open>src/src/runtime.rs\<close>): the environment the commands get, the
  command the container is created with, and what becomes of the container.
\<close>

section \<open>Environment\<close>

lemma normalize_environment_digests:
  assumes "normalize_environment cx sv env caches = Ok e"
  shows "\<forall>b\<in>set (ne_fixed e). \<exists>v. (nfe_name b, v) \<in> set (env_fixed env) \<and> canonical_digest cx (JString v) = Ok (nfe_value_digest b)"
proof -
  from assms obtain names names' fixed where
    f: "try_fold (fixed_environment_step cx) (names, []) (env_fixed env) = Ok (names', fixed)" and e: "ne_fixed e = sort_key nfe_name fixed"
    by (auto simp: normalize_environment_def result_simps split: if_splits prod.splits)
  from fixed_environment_fold [OF f] e show ?thesis by simp
qed

lemma bind_fixed_values:
  assumes "\<forall>b\<in>set bs. \<exists>v. map_of fixed (nfe_name b) = Some v \<and> canonical_digest cx (JString v) = Ok (nfe_value_digest b)"
    and "bt_inv values"
  shows "\<exists>values'. try_fold (bind_fixed_value cx fixed) values bs = Ok values' \<and> bt_inv values' \<and>
    map_of values' = map_of values ++ (map_of fixed |` set (map nfe_name bs))"
  using assms
proof (induction bs arbitrary: "values")
  case Nil
  then show ?case by simp
next
  case (Cons b bs)
  from Cons.prems(1) obtain v where v: "map_of fixed (nfe_name b) = Some v" "canonical_digest cx (JString v) = Ok (nfe_value_digest b)"
    by auto
  then have step: "bind_fixed_value cx fixed values b = Ok (bt_insert (nfe_name b) v values)"
    by (simp add: bind_fixed_value_def)
  from Cons.IH [of "bt_insert (nfe_name b) v values"] Cons.prems obtain values' where
    IH: "try_fold (bind_fixed_value cx fixed) (bt_insert (nfe_name b) v values) bs = Ok values'" "bt_inv values'"
      "map_of values' = map_of (bt_insert (nfe_name b) v values) ++ (map_of fixed |` set (map nfe_name bs))"
    by (auto simp: bt_insert_inv)
  have "map_of values' = map_of values ++ (map_of fixed |` set (map nfe_name (b # bs)))"
    using v(1) Cons.prems(2) unfolding IH(3) map_of_bt_insert [OF Cons.prems(2)]
    by (auto simp: fun_eq_iff map_add_def restrict_map_def split: option.splits)
  with step IH show ?case by simp
qed

lemma validate_fixed_environment_into_plan:
  assumes plan: "into_plan cx cfg = Ok env" and inv: "bt_inv (pe_fixed_environment env)"
  shows "validate_fixed_environment cx env = Ok (pe_fixed_environment env)"
proof -
  let ?fixed = "pe_fixed_environment env" and ?bs = "ne_fixed (pl_environment (pe_plan env))"
  note ne = into_plan_sound(4) [OF plan] and same = into_plan_sound(12) [OF plan]
  have names: "set (map nfe_name ?bs) = fst ` set ?fixed"
    using normalize_environment_sound(4) [OF ne] by (simp add: same)
  have digests: "\<forall>b\<in>set ?bs. \<exists>v. map_of ?fixed (nfe_name b) = Some v \<and> canonical_digest cx (JString v) = Ok (nfe_value_digest b)"
    using normalize_environment_digests [OF ne] bt.entries_iff [OF inv] by (fastforce simp: same)
  from bind_fixed_values [OF digests, of "[]"] obtain values' where v: "try_fold (bind_fixed_value cx ?fixed) [] ?bs = Ok values'"
      "bt_inv values'" "map_of values' = map_of ?fixed |` set (map nfe_name ?bs)" by auto
  have "map_of values' = map_of ?fixed"
    unfolding v(3) names by (rule ext) (metis restrict_map_def map_of_eq_None_iff)
  then have "values' = ?fixed" using bt.entries_unique [OF v(2) inv] by simp
  moreover have "bt_get (bt_collect (map (\<lambda>b. (nfe_name b, nfe_value_digest b)) ?bs)) n \<noteq> None" if "n \<in> set (map fst ?fixed)" for n
    using that names by (auto simp: map_of_bt_collect map_of_eq_None_iff image_image)
  then have "try_each (\<lambda>name. if bt_get (bt_collect (map (\<lambda>b. (nfe_name b, nfe_value_digest b)) ?bs)) name = None
      then Err (RtmFixedEnvironmentBinding name ''is not declared in the normalized plan'') else Ok ()) (map fst ?fixed) = Ok ()"
    unfolding try_each_eq_Inr_iff by (metis (full_types))
  ultimately show ?thesis using v(1) by (simp add: validate_fixed_environment_def Let_def)
qed

definition runtime_variables :: "string list" where
  "runtime_variables =
     [''PATH'', ''HOME'', ''USERPROFILE'', ''HOMEDRIVE'', ''HOMEPATH'', ''DOCKER_HOST'', ''DOCKER_CONTEXT'', ''DOCKER_CONFIG'']"

lemma map_of_present: "map_of (List.map_filter (\<lambda>n. map_option (Pair n) (f n)) ns) n = (if n \<in> set ns then f n else None)"
  by (induction ns) (auto simp: List.map_filter_simps split: option.split)

lemma runtime_environment_inv: "bt_inv (runtime_environment rh)"
  unfolding runtime_environment_def by (rule bt_collect_inv)

lemma runtime_environment_get: "map_of (runtime_environment rh) n = (if n \<in> set runtime_variables then rh_var_os rh n else None)"
proof -
  let ?kvs = "List.map_filter (\<lambda>name. map_option (Pair name) (rh_var_os rh name)) runtime_variables"
  have keys: "map fst ?kvs = filter (\<lambda>n. rh_var_os rh n \<noteq> None) ns"
    if "?kvs = List.map_filter (\<lambda>name. map_option (Pair name) (rh_var_os rh name)) ns" for ns
    unfolding that by (induction ns) (auto simp: List.map_filter_simps split: option.split)
  have "distinct (map fst ?kvs)" unfolding keys [OF refl] by (rule distinct_filter) (simp add: runtime_variables_def)
  then have "map_of (rev ?kvs) = map_of ?kvs" by (intro map_of_inject_set [THEN iffD2]) (simp_all add: rev_map [symmetric])
  then show ?thesis
    unfolding runtime_environment_def runtime_variables_def [symmetric] map_of_bt_collect by (simp add: map_of_present)
qed

lemma fold_inherit:
  "bt_inv m \<Longrightarrow> bt_inv (fold (\<lambda>name m. case f name of Some v \<Rightarrow> bt_insert name v m | None \<Rightarrow> m) ns m) \<and>
     map_of (fold (\<lambda>name m. case f name of Some v \<Rightarrow> bt_insert name v m | None \<Rightarrow> m) ns m) =
       (\<lambda>n. if n \<in> set ns \<and> f n \<noteq> None then f n else map_of m n)"
  by (induction ns arbitrary: m) (auto simp: bt_insert_inv map_of_bt_insert fun_eq_iff split: option.split)

text \<open>
  C31. The environment in which the container commands of a normalized plan run is always computed, and it is exact:
  a runtime-internal name is bound to its mount point, else a fixed name to its configured value, whatever the
  process has inherited, else an allowed name or one that the client of the daemon needs to the inherited value. No other
  variable is passed on; a secret for the remote side is not.
\<close>

theorem execution_environment_exact:
  assumes "into_plan cx cfg = Ok env" and "bt_inv (env_fixed (cfg_environment cfg))"
  shows "\<exists>e. docker_execution_environment cx rh env = Ok e \<and> (\<forall>n. bt_get e n =
    (case map_of (map (\<lambda>b. (nri_name b, nri_container_target b)) (ne_runtime_internal (pl_environment (pe_plan env)))) n of
       Some target \<Rightarrow> Some target
     | None \<Rightarrow>
         (case bt_get (env_fixed (cfg_environment cfg)) n of
            Some v \<Rightarrow> Some v
          | None \<Rightarrow> if n \<in> set (env_allow (cfg_environment cfg)) \<union> set runtime_variables then rh_var_os rh n else None)))"
proof -
  let ?E = "pl_environment (pe_plan env)" and ?fixed = "env_fixed (cfg_environment cfg)"
  let ?bound = "map (\<lambda>b. (nri_name b, nri_container_target b)) (ne_runtime_internal ?E)"
  define inherited where "inherited = fold (\<lambda>name m. case rh_var_os rh name of Some v \<Rightarrow> bt_insert name v m | None \<Rightarrow> m)
    (ne_inherit ?E) (runtime_environment rh)"
  note ne = into_plan_sound(4) [OF assms(1)] and same = into_plan_sound(12) [OF assms(1)]
  have inh: "bt_inv inherited" "map_of inherited = (\<lambda>n. if n \<in> set (ne_inherit ?E) \<and> rh_var_os rh n \<noteq> None then rh_var_os rh n
      else if n \<in> set runtime_variables then rh_var_os rh n else None)"
    using fold_inherit [OF runtime_environment_inv, of "rh_var_os rh" "ne_inherit ?E" rh]
    unfolding inherited_def by (simp_all add: runtime_environment_get cong: if_cong)
  have "map_of (rev m) = map_of m" if "distinct (map fst m)" for m :: "(string \<times> string) list"
    using that by (intro map_of_inject_set [THEN iffD2]) (simp_all add: rev_map [symmetric])
  moreover have "distinct (map fst ?fixed)" using bt.entries_distinct [OF assms(2)] by simp
  moreover have "distinct (map fst ?bound)" using normalize_environment_sound(1) [OF ne] by (simp add: comp_def)
  ultimately have rev: "map_of (rev ?fixed) = map_of ?fixed" "map_of (rev ?bound) = map_of ?bound" by blast+
  define e where "e = fold (\<lambda>kv. bt_insert (fst kv) (snd kv)) ?bound (fold (\<lambda>kv. bt_insert (fst kv) (snd kv)) ?fixed inherited)"
  have "map_of e = map_of inherited ++ map_of ?fixed ++ map_of ?bound"
    using bt.fold_insert [OF inh(1), of ?fixed] bt.fold_insert [of "fold (\<lambda>kv. bt_insert (fst kv) (snd kv)) ?fixed inherited" ?bound]
    by (simp only: e_def bt_get_map_of rev)
  moreover have "docker_execution_environment cx rh env = Ok e"
    using validate_fixed_environment_into_plan [OF assms(1)] assms(2)
    by (simp add: docker_execution_environment_def Let_def same e_def inherited_def fold_map comp_def case_prod_beta')
  ultimately show ?thesis
    using normalize_environment_sound(2) [OF ne]
    by (intro exI [of _ e]) (auto simp: inh(2) map_add_def split: option.split)
qed

section \<open>The command the container is created with\<close>

lemma try_fold_each: "try_fold f s xs = Ok s' \<Longrightarrow> x \<in> set xs \<Longrightarrow> \<exists>t t'. f t x = Ok t'"
  by (induction xs arbitrary: s) (auto simp: result_simps)

lemma normalize_environment_names:
  assumes "normalize_environment cx sv env caches = Ok e" and "n \<in> set (environment_names e)"
  shows "valid_environment_name n"
proof -
  note sound = normalize_environment_sound [OF assms(1)]
  from assms(1) obtain inh s s' t t' T where
    "unique_sorted ''environment.allow'' (env_allow env) validate_environment_name = Ok inh"
    "try_fold (fixed_environment_step cx) s (env_fixed env) = Ok s'"
    "try_fold (runtime_internal_step T) t (env_runtime_internal env) = Ok t'"
    by (auto simp: normalize_environment_def result_simps split: if_splits prod.splits)
  then have allow: "\<forall>n\<in>set (env_allow env). valid_environment_name n"
    and fixed: "\<forall>nv\<in>set (env_fixed env). valid_environment_name (fst nv)"
    and bound: "\<forall>b\<in>set (env_runtime_internal env). valid_environment_name (rie_name b)"
    by - (simp add: env_name.unique_sorted_iff list_all_iff,
        (auto simp: fixed_environment_step_def result_simps validate_environment_name_iff dest!: try_fold_each)[1],
        (auto simp: runtime_internal_step_def result_simps validate_environment_name_iff dest!: try_fold_each)[1])
  from assms(2) have "n \<in> set (ne_inherit e) \<or> n \<in> set (map nfe_name (ne_fixed e)) \<or> n \<in> set (map nri_name (ne_runtime_internal e))"
    by (simp add: environment_names_def)
  then show ?thesis unfolding sound(2,4,7) using allow fixed bound by blast
qed

lemma plan_runtime:
  assumes "into_plan cx cfg = Ok env"
  shows "pl_runtime (pe_plan env) =
    \<lparr>nr_kind = rc_kind (cfg_runtime cfg), nr_image = rc_image (cfg_runtime cfg), nr_cpu_count = rc_cpu_count (cfg_runtime cfg),
     nr_memory_mib = rc_memory_mib (cfg_runtime cfg), nr_pids_limit = rc_pids_limit (cfg_runtime cfg),
     nr_network = rc_network (cfg_runtime cfg), nr_pull_policy = rc_pull_policy (cfg_runtime cfg),
     nr_swap_mode = rc_swap_mode (cfg_runtime cfg)\<rparr>"
  using into_plan_sound(3) [OF assms] by (auto simp: normalize_runtime_def result_simps split: if_splits option.splits)

lemma plan_image_not_flag:
  assumes "into_plan cx cfg = Ok env"
  shows "nr_image (pl_runtime (pe_plan env)) \<noteq> ''--rm''"
proof -
  have "nr_image (pl_runtime (pe_plan env)) = rc_image (cfg_runtime cfg)" by (simp add: plan_runtime [OF assms])
  moreover have "validate_image_reference (rc_image (cfg_runtime cfg)) = Ok ()"
    using into_plan_sound(1) [OF assms] by (auto simp: validate_top_level_def result_simps split: if_splits)
  moreover have "validate_image_reference ''--rm'' \<noteq> Ok ()" by code_simp
  ultimately show ?thesis by metis
qed

lemma mount_arguments_not_flag: "mount_arguments ms = Ok as \<Longrightarrow> ''--rm'' \<notin> set as"
  by (induction ms arbitrary: as) (auto simp: result_simps docker_mount_argument_def)

lemma show_word_not_flag: "show_word n \<noteq> ''--rm''" "show_word n @ ''m'' \<noteq> ''--rm''"
  using show_nat_digits [of "CHR ''-''" "unat n"]
  by (auto simp: show_word_def append_eq_Cons_conv is_ascii_digit_def)

lemma limit_options_flags: "filter (\<lambda>a. a \<noteq> ''--rm'') (tl (limit_options r)) = drop 2 (limit_options r)"
  using show_word_not_flag [of "nr_memory_mib r"] show_word_not_flag(1) [of "nr_cpu_count r"] show_word_not_flag(1) [of "nr_pids_limit r"]
  by (simp add: limit_options_def Let_def)

lemma mount_arguments_words:
  "mount_arguments ms = Ok as \<Longrightarrow> as = concat (map (\<lambda>m.
     [''--mount'', ''type=bind,src='' @ path_text (mb_source m) @ '',dst='' @ mb_target m @
       (if mb_access m = MountReadOnly then '',readonly'' else [])]) ms)"
  by (induction ms arbitrary: as) (auto simp: result_simps docker_mount_argument_def)

text \<open>
  C32. The container of a check is created with exactly this command: its name and labels, no other network than the one the
  configuration asks for, its processors, memory and process count (with no swap and no pull where it forbids
  them), a read-only root with a small temporary file system, the names of the variables of the plan, one bind mount
  per mount of the workspace with the flag \<^verbatim>\<open>readonly\<close> on the read-only ones, the working directory below the
  workspace, the configured image and the words of the check. The exception: every word \<^verbatim>\<open>--rm\<close> of the command
  of the check itself is lost, because the flag of \<^verbatim>\<open>docker run\<close> is filtered out of the whole command line.
\<close>

theorem create_command_exact:
  assumes "into_plan cx cfg = Ok env" and "runtime = cfg_runtime cfg"
    and "names = environment_names (pl_environment (pe_plan env))"
    and "docker_dry_run_check (pl_runtime (pe_plan env)) check names workspace = Ok d"
    and "lifecycle_build cx run_id check d = Ok lifecycle"
    and "sealed \<longleftrightarrow> rc_pull_policy runtime = Some PullNever \<and> rc_swap_mode runtime = Some SwapDisabled"
  shows "dl_create_argv lifecycle =
      [''create'', ''--name'', dl_container_name lifecycle, ''--label'', dl_owner_label lifecycle,
       ''--label'', dl_run_label lifecycle, ''--label'', dl_check_label lifecycle, ''--init'', ''--read-only'',
       ''--network'', if rc_network runtime then ''bridge'' else ''none'', ''--cpus'', show_nat (unat (rc_cpu_count runtime))] @
      (if sealed then [''--pull'', ''never''] else []) @ [''--memory'', show_nat (unat (rc_memory_mib runtime)) @ ''m''] @
      (if sealed then [''--memory-swap'', show_nat (unat (rc_memory_mib runtime)) @ ''m''] else []) @
      [''--pids-limit'', show_nat (unat (rc_pids_limit runtime)), ''--tmpfs'', ''/tmp:rw,noexec,nosuid,nodev,size=64m''] @
      concat (map (\<lambda>n. [''--env'', n]) names) @ [''--env'', ''TMPDIR=/tmp''] @
      concat (map (\<lambda>m. [''--mount'', ''type=bind,src='' @ path_text (mb_source m) @ '',dst='' @ mb_target m @
        (if mb_access m = MountReadOnly then '',readonly'' else [])]) (wk_mounts workspace)) @
      [''--workdir'', if nk_working_directory check = ''.'' then ''/workspace'' else ''/workspace/'' @ nk_working_directory check,
       rc_image runtime] @
      filter (\<lambda>word. word \<noteq> ''--rm'') (nk_argv check)"
proof -
  let ?r = "pl_runtime (pe_plan env)"
  have kept: "filter (\<lambda>a. a \<noteq> ''--rm'') (concat (map (\<lambda>n. [''--env'', n]) ns)) = concat (map (\<lambda>n. [''--env'', n]) ns)"
    if "\<forall>n\<in>set ns. valid_environment_name n" for ns
    using that by (induction ns) (auto simp: valid_environment_name_def ascii_class_defs)
  have ns: "\<forall>n\<in>set names. valid_environment_name n"
    using normalize_environment_names [OF into_plan_sound(4) [OF assms(1)]] assms(3) by blast
  from assms(4) obtain mounts where mounts: "mount_arguments (wk_mounts workspace) = Ok mounts"
    by (auto simp: docker_dry_run_check_def result_simps)
  have flags: "filter (\<lambda>a. a \<noteq> ''--rm'') mounts = mounts"
    using mount_arguments_not_flag [OF mounts] by (simp add: filter_id_conv) metis
  note image = plan_image_not_flag [OF assms(1)]
  have "tl (limit_options ?r @ xs) = tl (limit_options ?r) @ xs" for xs by (simp add: limit_options_def Let_def)
  with assms(4,5) mounts image flags
  have "dl_create_argv lifecycle = [''create'', ''--name'', dl_container_name lifecycle, ''--label'', dl_owner_label lifecycle,
       ''--label'', dl_run_label lifecycle, ''--label'', dl_check_label lifecycle] @ drop 2 (limit_options ?r) @
      concat (map (\<lambda>n. [''--env'', n]) names) @ [''--env'', ''TMPDIR=/tmp''] @ mounts @
      [''--workdir'', container_working_directory (nk_working_directory check), nr_image ?r] @
      filter (\<lambda>word. word \<noteq> ''--rm'') (nk_argv check)"
    by (auto simp: docker_dry_run_check_def lifecycle_build_def Let_def result_simps container_working_directory_def
        limit_options_flags kept [OF ns] split: if_splits)
  then show ?thesis
    unfolding mount_arguments_words [OF mounts] using assms(2,6)
    by (simp add: limit_options_def Let_def container_working_directory_def show_word_def plan_runtime [OF assms(1)])
qed

section \<open>What becomes of the container\<close>

text \<open>A supervisor whose outside world keeps the list of the commands it was asked for, with their results.\<close>

type_synonym 'd call_history = "'d \<Rightarrow> (string list \<times> (process_error, process_result) result) list"

definition keeps_history :: "'d call_history \<Rightarrow> 'd supervisor_port \<Rightarrow> bool" where
  "keeps_history hist port \<longleftrightarrow> (\<forall>rq c w. case run_state (port rq c) w of (r, w') \<Rightarrow>
     hist (rw_outside w') = hist (rw_outside w) @ [(rq_argv rq, r)])"

definition inspected_gone :: "process_result \<Rightarrow> bool" where
  "inspected_gone r \<longleftrightarrow> ps_termination r = Completed \<and> ps_cleanup r = Verified \<and>
     (case ps_exit r of Some exit \<Rightarrow> \<not> eo_success exit | None \<Rightarrow> False)"

definition ends_removed :: "docker_lifecycle_plan \<Rightarrow> (string list \<times> (process_error, process_result) result) list \<Rightarrow> bool" where
  "ends_removed lc calls \<longleftrightarrow> (\<exists>before removed gone.
     calls = before @ [(dl_remove_argv lc, Ok removed), (dl_inspect_argv lc, Ok gone)] \<and> completed_success removed \<and> inspected_gone gone)"

lemma ends_removedI:
  "completed_success removed \<Longrightarrow> inspected_gone gone \<Longrightarrow> ends_removed lc [(dl_remove_argv lc, Ok removed), (dl_inspect_argv lc, Ok gone)]"
  unfolding ends_removed_def by blast

lemma ends_removed_append: "ends_removed lc calls \<Longrightarrow> ends_removed lc (before @ calls)"
  unfolding ends_removed_def by (metis append.assoc)

lemma wp_execute_cli:
  assumes "keeps_history hist (rx_supervisor cxt)"
    and "\<And>r w'. hist (rw_outside w') = hist (rw_outside w) @ [(argv, r)] \<Longrightarrow> Q (map_err RtmProcess r) w'"
  shows "wp (execute_cli cxt argv token) Q w"
  using assms unfolding keeps_history_def execute_cli_def wp_on_err wp_def
  by (fastforce split: prod.splits)

lemma wp_execute_cleanup_cli:
  assumes "keeps_history hist (rx_supervisor cxt)"
    and "\<And>r w'. hist (rw_outside w') = hist (rw_outside w) @ [(argv, r)] \<Longrightarrow>
      Q (map_err (\<lambda>_. RtmLifecycleFailure ''daemon cleanup command failed'') r) w'"
  shows "wp (execute_cleanup_cli cxt argv token) Q w"
  unfolding execute_cleanup_cli_def wp_on_err
proof (rule wp_execute_cli [OF assms(1)])
  fix r and w' :: "'a runtime_world"
  assume "hist (rw_outside w') = hist (rw_outside w) @ [(argv, r)]"
  then show "Q (map_err (\<lambda>_. RtmLifecycleFailure ''daemon cleanup command failed'') (map_err RtmProcess r)) w'"
    using assms(2) by (cases r) fastforce+
qed

text \<open>The two phases of a cleanup: stop what still runs, then remove and look again.\<close>

definition stop_phase :: "docker_lifecycle_plan \<Rightarrow> 'd runtime_execution_context \<Rightarrow> cancellation \<Rightarrow> string \<Rightarrow> ('d runtime_world, runtime_error, unit) action" where
  "stop_phase lc cxt token state =
     (if state \<in> set [''created'', ''running'', ''restarting'', ''paused'']
      then do {
        stop \<leftarrow> execute_cleanup_cli cxt (dl_stop_argv lc) token;
        if (case stop of Inr r \<Rightarrow> completed_success r | Inl _ \<Rightarrow> False) then ok ()
        else
          attempt (execute_cleanup_cli cxt (dl_kill_argv lc) token) (\<lambda>kill.
          if \<not> completed_success kill then fail (RtmLifecycleFailure ''daemon stop and kill both failed'') else ok ()) }
      else ok ())"

definition remove_phase :: "docker_lifecycle_plan \<Rightarrow> 'd runtime_execution_context \<Rightarrow> cancellation \<Rightarrow> ('d runtime_world, runtime_error, unit) action" where
  "remove_phase lc cxt token =
     attempt (execute_cleanup_cli cxt (dl_remove_argv lc) token) (\<lambda>remove.
     if \<not> completed_success remove then fail (RtmLifecycleFailure ''daemon removal failed'')
     else
       attempt (execute_cleanup_cli cxt (dl_inspect_argv lc) token) (\<lambda>final.
       if ps_termination final \<noteq> Completed \<or> ps_cleanup final \<noteq> Verified \<or>
          (case ps_exit final of None \<Rightarrow> True | Some exit \<Rightarrow> eo_success exit)
       then fail (RtmLifecycleFailure ''daemon removal was not proven by final not-found inspection'')
       else ok ()))"

lemma cleanup_container_phases:
  "cleanup_container rh lc cxt token =
     attempt (execute_cleanup_cli cxt (dl_inspect_argv lc) token) (\<lambda>inspect.
     if \<not> completed_success inspect then fail (RtmLifecycleFailure ''daemon inspection failed before cleanup'')
     else attempt (of_result (parse_container_state rh (cs_bytes (ps_stdout inspect)) lc)) (\<lambda>state.
       attempt (stop_phase lc cxt token state) (\<lambda>_. remove_phase lc cxt token)))"
  unfolding cleanup_container_def stop_phase_def remove_phase_def by (rule refl)

lemma wp_stop_phase:
  assumes "keeps_history hist (rx_supervisor cxt)"
  shows "wp (stop_phase lc cxt token state) (\<lambda>r v. \<exists>rest. hist (rw_outside v) = hist (rw_outside u) @ rest) u"
  unfolding stop_phase_def wp_simps
  by (auto simp: wp_simps split: sum.splits intro!: wp_execute_cleanup_cli [OF assms])

lemma wp_remove_phase:
  assumes "keeps_history hist (rx_supervisor cxt)"
  shows "wp (remove_phase lc cxt token) (\<lambda>r v. \<exists>rest. hist (rw_outside v) = hist (rw_outside u) @ rest \<and> (is_ok r \<longrightarrow> ends_removed lc rest)) u"
  unfolding remove_phase_def wp_attempt
  by (intro wp_execute_cleanup_cli [OF assms])
    (auto simp: wp_simps inspected_gone_def result_simps split: sum.splits option.splits intro!: wp_execute_cleanup_cli [OF assms] ends_removedI)

lemma wp_cleanup_container:
  assumes hist: "keeps_history hist (rx_supervisor cxt)"
  shows "wp (cleanup_container rh lc cxt token) (\<lambda>r v. \<exists>x rest. hist (rw_outside v) = hist (rw_outside w) @ (dl_inspect_argv lc, x) # rest \<and>
    (is_ok r \<longrightarrow> ends_removed lc rest)) w"
  unfolding cleanup_container_phases wp_attempt
proof (rule wp_execute_cleanup_cli [OF hist], goal_cases)
  case (1 x v)
  have tail: "wp (attempt (stop_phase lc cxt token state) (\<lambda>_. remove_phase lc cxt token))
    (\<lambda>r u. \<exists>rest. hist (rw_outside u) = hist (rw_outside v) @ rest \<and> (is_ok r \<longrightarrow> ends_removed lc rest)) v" for state
    unfolding wp_attempt
    by (rule wp_mono [OF wp_stop_phase [OF hist]])
      (auto split: sum.splits intro!: wp_mono [OF wp_remove_phase [OF hist]] intro: ends_removed_append)
  show ?case
    using 1 by (auto simp: wp_ok wp_fail wp_attempt [of "of_result _"] wp_of_result split: sum.splits intro!: wp_mono [OF tail])
qed

lemma wp_after_removal:
  assumes "keeps_history hist (rx_supervisor cxt)"
  shows "wp (after_removal rh lc cxt r0) (\<lambda>r v. \<exists>x rest. hist (rw_outside v) = hist (rw_outside w) @ (dl_inspect_argv lc, x) # rest \<and>
    (r = r0 \<and> ends_removed lc rest \<or> \<not> is_ok r)) w"
  unfolding after_removal_def wp_attempt
  by (rule wp_mono [OF wp_cleanup_container [OF assms]]) (fastforce simp: wp_of_result split: sum.splits)

lemma wp_on_files: "(\<And>r v. rw_outside v = rw_outside w \<Longrightarrow> Q r v) \<Longrightarrow> wp (on_files m) Q w"
  by (simp add: wp_def on_files_def split: prod.splits)

text \<open>A wait that ends the lifecycle with an error at once: it was not answered, or what it printed is no exit code.\<close>

definition wait_broken :: "(process_error, process_result) result \<Rightarrow> bool" where
  "wait_broken x = (case x of Inl _ \<Rightarrow> True | Inr r \<Rightarrow> completed_success r \<and> \<not> is_ok (parse_wait_exit_code (cs_bytes (ps_stdout r))))"

text \<open>The shapes the commands of one check can take.\<close>

inductive lifecycle_calls ::
    "docker_lifecycle_plan \<Rightarrow> (runtime_error, process_result) result \<Rightarrow> (string list \<times> (process_error, process_result) result) list \<Rightarrow> bool"
  for lc where
  uncreated: "\<not> (case x of Inl _ \<Rightarrow> False | Inr c \<Rightarrow> completed_success c) \<Longrightarrow> lifecycle_calls lc (map_err RtmProcess x) [(dl_create_argv lc, x)]"
| cleaned: "completed_success c \<Longrightarrow> set (map fst before) \<subseteq> {dl_start_argv lc, dl_attach_argv lc, dl_wait_argv lc} \<Longrightarrow>
    (is_ok r \<Longrightarrow> ends_removed lc rest) \<Longrightarrow> lifecycle_calls lc r ((dl_create_argv lc, Ok c) # before @ (dl_inspect_argv lc, y) # rest)"
| abandoned: "completed_success c \<Longrightarrow> wait_broken x \<Longrightarrow> \<not> is_ok r \<Longrightarrow>
    lifecycle_calls lc r [(dl_create_argv lc, Ok c), (dl_start_argv lc, Ok s), (dl_attach_argv lc, Ok a), (dl_wait_argv lc, x)]"

definition created_calls :: "docker_lifecycle_plan \<Rightarrow> (string list \<times> (process_error, process_result) result) list \<Rightarrow> bool" where
  "created_calls lc calls = (case calls of
     (argv, Inr c) # before \<Rightarrow> argv = dl_create_argv lc \<and> completed_success c \<and>
       set (map fst before) \<subseteq> {dl_start_argv lc, dl_attach_argv lc, dl_wait_argv lc}
   | _ \<Rightarrow> False)"

lemma wp_after_calls:
  assumes "keeps_history hist (rx_supervisor cxt)"
    and "take (length (hist (rw_outside w))) (hist (rw_outside v)) = hist (rw_outside w)"
    and "created_calls lc (drop (length (hist (rw_outside w))) (hist (rw_outside v)))"
  shows "wp (after_removal rh lc cxt r0) (\<lambda>r u. P r u \<or> (\<exists>calls. hist (rw_outside u) = hist (rw_outside w) @ calls \<and> lifecycle_calls lc r calls)) v"
proof -
  from assms(3) obtain c before where
    before: "drop (length (hist (rw_outside w))) (hist (rw_outside v)) = (dl_create_argv lc, Ok c) # before" and
    c: "completed_success c" "set (map fst before) \<subseteq> {dl_start_argv lc, dl_attach_argv lc, dl_wait_argv lc}"
    by (auto simp: created_calls_def split: list.splits prod.splits sum.splits)
  have "hist (rw_outside v) = hist (rw_outside w) @ (dl_create_argv lc, Ok c) # before"
    by (metis assms(2) before append_take_drop_id)
  then show ?thesis
    by (intro wp_mono [OF wp_after_removal [OF assms(1)]]) (use lifecycle_calls.cleaned [OF c] in fastforce)
qed

lemma wp_execute_cli_cases:
  assumes "keeps_history hist (rx_supervisor cxt)"
    and "\<And>e v. hist (rw_outside v) = hist (rw_outside w) @ [(argv, Inl e)] \<Longrightarrow> Q (Inl (RtmProcess e)) v"
    and "\<And>x v. hist (rw_outside v) = hist (rw_outside w) @ [(argv, Inr x)] \<Longrightarrow> Q (Inr x) v"
  shows "wp (execute_cli cxt argv token) Q w"
proof (rule wp_execute_cli [OF assms(1)])
  fix r and v :: "'a runtime_world"
  assume "hist (rw_outside v) = hist (rw_outside w) @ [(argv, r)]"
  with assms(2,3) show "Q (map_err RtmProcess r) v" by (cases r) auto
qed

lemma uncreated_cases:
  "lifecycle_calls lc (Err (RtmProcess e)) [(dl_create_argv lc, Inl e)]"
  "\<not> completed_success c \<Longrightarrow> lifecycle_calls lc (Ok c) [(dl_create_argv lc, Inr c)]"
  using uncreated [of "Inl e" lc] uncreated [of "Inr c" lc] by simp_all

lemma wp_execute_check:
  assumes hist: "keeps_history hist (rx_supervisor cxt)"
  shows "wp (execute_check cx cj hs rh check d cxt) (\<lambda>r v. \<not> is_ok r \<and> hist (rw_outside v) = hist (rw_outside w) \<or>
    (\<exists>lc calls. lifecycle_build cx (rx_run_id cxt) check d = Ok lc \<and> hist (rw_outside v) = hist (rw_outside w) @ calls \<and> lifecycle_calls lc r calls)) w"
  unfolding execute_check_def wp_attempt wp_on_err
proof (rule wp_on_files, goal_cases)
  case (1 r v)
  then show ?case
    by (auto simp: wp_simps wait_broken_def created_calls_def split: sum.splits
        intro!: wp_execute_cli_cases [OF hist] wp_after_calls [OF hist] uncreated_cases abandoned)
qed

lemma execute_check_calls:
  assumes "keeps_history hist (rx_supervisor cxt)" and "run_state (execute_check cx cj hs rh check d cxt) w = (r, w')"
  shows "\<not> is_ok r \<and> hist (rw_outside w') = hist (rw_outside w) \<or>
    (\<exists>lc calls. lifecycle_build cx (rx_run_id cxt) check d = Ok lc \<and> hist (rw_outside w') = hist (rw_outside w) @ calls \<and> lifecycle_calls lc r calls)"
  using wp_execute_check [OF assms(1), of cx cj hs rh check d w] by (simp add: wp_def assms(2))

lemma lifecycle_argv:
  assumes "lifecycle_build cx run_id check d = Ok lc"
  shows "hd (dl_create_argv lc) = ''create''" "hd (dl_start_argv lc) = ''start''" "hd (dl_attach_argv lc) = ''attach''"
    "hd (dl_wait_argv lc) = ''wait''" "hd (dl_inspect_argv lc) = ''inspect''"
  using assms by (auto simp: lifecycle_build_def Let_def split: if_splits)

text \<open>
  C4. When a check returns the result of a process and its container was created, as the creation reported, then the last
  two commands of the check removed the container with success and then looked for it in vain. When the creation did not
  report success (it failed, was cancelled or timed out), its result is returned at once: no command looks for
  a container or removes one, although the daemon may have gone on and created it.
\<close>

theorem created_container_removed:
  assumes "keeps_history hist (rx_supervisor cxt)"
    and "run_state (execute_check cx cj hs rh check d cxt) w = (Ok r, w')"
  shows "\<exists>lc c calls. lifecycle_build cx (rx_run_id cxt) check d = Ok lc \<and>
    hist (rw_outside w') = hist (rw_outside w) @ (dl_create_argv lc, Ok c) # calls \<and>
    (if completed_success c then ends_removed lc calls else calls = [] \<and> r = c)"
proof -
  from execute_check_calls [OF assms] obtain lc calls where
    lc: "lifecycle_build cx (rx_run_id cxt) check d = Ok lc" "hist (rw_outside w') = hist (rw_outside w) @ calls"
      and calls: "lifecycle_calls lc (Ok r) calls" by auto
  from calls have "\<exists>c rest. calls = (dl_create_argv lc, Ok c) # rest \<and>
      (if completed_success c then ends_removed lc rest else rest = [] \<and> r = c)"
  proof cases
    case (uncreated x)
    then show ?thesis by (cases x) auto
  next
    case (cleaned c before rest y)
    then show ?thesis using ends_removed_append [of lc rest "before @ [(dl_inspect_argv lc, y)]"] by simp
  qed simp
  with lc show ?thesis by blast
qed

text \<open>
  C33. A container that was created is left behind without even an attempt to clean up in exactly one situation: the
  check ran to its end and the wait for the exit code was not answered, or answered with something that is no exit
  code. The check then returns an error. All other failures are followed by a cleanup.
\<close>

theorem container_abandoned_iff:
  assumes "keeps_history hist (rx_supervisor cxt)" and "lifecycle_build cx (rx_run_id cxt) check d = Ok lc"
    and "run_state (execute_check cx cj hs rh check d cxt) w = (r, w')"
    and "hist (rw_outside w') = hist (rw_outside w) @ (dl_create_argv lc, Ok c) # calls" and "completed_success c"
  shows "(dl_inspect_argv lc \<notin> set (map fst calls) \<longleftrightarrow>
      (\<exists>s a x. calls = [(dl_start_argv lc, Ok s), (dl_attach_argv lc, Ok a), (dl_wait_argv lc, x)] \<and> wait_broken x)) \<and>
    (dl_inspect_argv lc \<notin> set (map fst calls) \<longrightarrow> \<not> is_ok r)"
proof -
  from lifecycle_argv [OF assms(2)] have other: "dl_inspect_argv lc \<notin> {dl_start_argv lc, dl_attach_argv lc, dl_wait_argv lc}" by auto
  from execute_check_calls [OF assms(1,3)] assms(2,4) have "lifecycle_calls lc r ((dl_create_argv lc, Ok c) # calls)" by auto
  then show ?thesis by cases (use other assms(5) in \<open>auto simp: append_eq_Cons_conv\<close>)
qed

section \<open>Sample runs\<close>

definition proxy_host :: runtime_host where
  "proxy_host = \<lparr>rh_var_os = \<lambda>n. Some (''host-'' @ n), rh_from_slice = \<lambda>_. Err []\<rparr>"

lemma sample_plan_bindings:
  "map (\<lambda>b. (nri_name b, nri_container_target b)) (ne_runtime_internal (pl_environment (pe_plan sample_plan))) =
     [(''CARGO_HOME'', ''/workspace/cache/cargo'')]"
proof -
  have "case into_plan sample_codec sample_config of Inl e \<Rightarrow> False | Inr env \<Rightarrow>
     map (\<lambda>b. (nri_name b, nri_container_target b)) (ne_runtime_internal (pl_environment (pe_plan env))) =
       [(''CARGO_HOME'', ''/workspace/cache/cargo'')]" by code_simp
  then show ?thesis by (simp add: sample_into_plan)
qed

theorem execution_environment_exact_witness:
  "\<exists>e. docker_execution_environment sample_codec proxy_host sample_plan = Ok e \<and>
     bt_get e ''CARGO_HOME'' = Some ''/workspace/cache/cargo'' \<and> bt_get e ''CI'' = Some ''true'' \<and>
     bt_get e ''PATH'' = Some ''host-PATH'' \<and> bt_get e ''TOKEN'' = None"
proof -
  have "bt_inv (env_fixed (cfg_environment sample_config))" by (simp add: sample_config_def bt_inv_def)
  from execution_environment_exact [OF sample_into_plan this, of proxy_host] show ?thesis
    by (auto simp: sample_plan_bindings sample_config_def runtime_variables_def proxy_host_def)
qed

definition flag_check :: normalized_check where
  "flag_check = \<lparr>nk_id = ''image'', nk_required = True, nk_argv = [''build-image'', ''--rm'', ''.''], nk_working_directory = ''.'',
     nk_timeout_seconds = 60, nk_depends_on = [], nk_artifacts = [], nk_artifact_contracts = []\<rparr>"

definition mounted_workspace :: workspace_plan_v1 where
  "mounted_workspace = \<lparr>wk_schema_version = ''1.0'', wk_repository = [''repo''], wk_source_snapshot_digest = None,
     wk_run_root = [], wk_mounts = [repository_mount [''repo'']]\<rparr>"

definition flag_rendered :: dry_run_check where
  "flag_rendered = projr (docker_dry_run_check (pl_runtime (pe_plan sample_plan)) flag_check
     (environment_names (pl_environment (pe_plan sample_plan))) mounted_workspace)"

lemma flag_rendered: "docker_dry_run_check (pl_runtime (pe_plan sample_plan)) flag_check
     (environment_names (pl_environment (pe_plan sample_plan))) mounted_workspace = Ok flag_rendered"
proof -
  have "is_ok (mount_arguments [repository_mount [''repo'']])" by (code_simp; simp)
  then show ?thesis
    by (auto simp: flag_rendered_def docker_dry_run_check_def flag_check_def mounted_workspace_def is_ok_def split: sum.splits)
qed

lemma sample_plan_names: "environment_names (pl_environment (pe_plan sample_plan)) = [''CARGO_HOME'', ''CI'']"
proof -
  have "case into_plan sample_codec sample_config of Inl e \<Rightarrow> False | Inr env \<Rightarrow>
     environment_names (pl_environment (pe_plan env)) = [''CARGO_HOME'', ''CI'']" by code_simp
  then show ?thesis by (simp add: sample_into_plan)
qed

theorem create_command_exact_witness:
  "\<exists>lc. lifecycle_build sample_codec ''run'' flag_check flag_rendered = Ok lc \<and>
     drop 9 (dl_create_argv lc) =
       [''--init'', ''--read-only'', ''--network'', ''none'', ''--cpus'', ''2'', ''--memory'', ''2048m'', ''--pids-limit'', ''256'',
        ''--tmpfs'', ''/tmp:rw,noexec,nosuid,nodev,size=64m'', ''--env'', ''CARGO_HOME'', ''--env'', ''CI'', ''--env'', ''TMPDIR=/tmp'',
        ''--mount'', ''type=bind,src=/repo,dst=/workspace,readonly'', ''--workdir'', ''/workspace'', sample_image,
        ''build-image'', ''.'']"
proof -
  have "dc_program d = ''docker'' \<and> (\<exists>xs. dc_argv d = ''run'' # xs)" if "docker_dry_run_check r c ns ws = Ok d" for r c ns ws d
    using that by (auto simp: docker_dry_run_check_def result_simps limit_options_def Let_def split: if_splits)
  from this [OF flag_rendered] have "is_ok (lifecycle_build sample_codec ''run'' flag_check flag_rendered)"
    by (auto simp: lifecycle_build_def Let_def is_ok_def flag_check_def)
  then obtain lc where lc: "lifecycle_build sample_codec ''run'' flag_check flag_rendered = Ok lc"
    by (auto simp: is_ok_def split: sum.splits)
  have digits: "show_nat 2 = ''2''" "show_nat 2048 = ''2048''" "show_nat 256 = ''256''" by code_simp+
  from create_command_exact [OF sample_into_plan refl refl flag_rendered lc refl] lc digits show ?thesis
    by (simp add: sample_plan_names sample_config_def flag_check_def mounted_workspace_def repository_mount_def path_text_def
        CONTAINER_WORKSPACE_def)
qed

text \<open>A daemon that answers every command with success, prints what is asked for, and knows no container after its removal.\<close>

definition plain_rendered :: dry_run_check where
  "plain_rendered = \<lparr>dc_id = ''image'', dc_program = ''docker'', dc_argv = [''run'', ''--rm'', ''img'', ''true''], dc_depends_on = [], dc_mounts = []\<rparr>"

definition plain_lifecycle :: docker_lifecycle_plan where
  "plain_lifecycle = projr (lifecycle_build sample_codec ''r'' flag_check plain_rendered)"

lemma plain_lifecycle: "lifecycle_build sample_codec ''r'' flag_check plain_rendered = Ok plain_lifecycle"
  by (simp add: plain_lifecycle_def lifecycle_build_def plain_rendered_def flag_check_def Let_def)

definition sample_result :: "bool \<Rightarrow> string \<Rightarrow> process_result" where
  "sample_result success out =
     \<lparr>ps_identity = \<lparr>ri_project = ''p'', ri_commit = None, ri_config_digest = ''d'', ri_generation = ''g''\<rparr>,
      ps_termination = Completed, ps_cleanup = Verified,
      ps_exit = Some \<lparr>eo_success = success, eo_code = Some (if success then 0 else 1)\<rparr>,
      ps_stdout = \<lparr>cs_bytes = out, cs_byte_count = 0, cs_full_digest = [], cs_truncated = False\<rparr>,
      ps_stderr = \<lparr>cs_bytes = [], cs_byte_count = 0, cs_full_digest = [], cs_truncated = False\<rparr>, ps_elapsed_millis = 1\<rparr>"

type_synonym call_log = "(string list \<times> (process_error, process_result) result) list"

definition daemon_answer :: "string \<Rightarrow> call_log \<Rightarrow> string list \<Rightarrow> (process_error, process_result) result" where
  "daemon_answer waited log argv =
     (if hd argv = ''create'' then Ok (sample_result True ''0123456789ab'')
      else if hd argv = ''wait'' then Ok (sample_result True waited)
      else if hd argv = ''inspect'' then Ok (sample_result (\<not> list_ex (\<lambda>(a, _). hd a = ''rm'') log) [])
      else Ok (sample_result True []))"

abbreviation quiet_world :: "cache_world \<Rightarrow> 'd \<Rightarrow> 'd runtime_world" where
  "quiet_world f d \<equiv> \<lparr>rw_files = f, rw_modes = \<lambda>_. 420, rw_receipt_sequence = 0, rw_outside = d\<rparr>"

definition daemon :: "string \<Rightarrow> call_log supervisor_port" where
  "daemon waited rq token = State (\<lambda>w. let x = daemon_answer waited (rw_outside w) (rq_argv rq) in
     (x, w\<lparr>rw_outside := rw_outside w @ [(rq_argv rq, x)]\<rparr>))"

lemma daemon_keeps_history: "keeps_history (\<lambda>log. log) (daemon waited)"
  by (simp add: keeps_history_def daemon_def Let_def)

definition describing_host :: runtime_host where
  "describing_host = \<lparr>rh_var_os = \<lambda>_. None, rh_from_slice = \<lambda>_. Ok (JObject
     [(''Config'', JObject [(''Labels'', JObject
        [(''com.commit-ci-preflight.check-id'', JString ''image''),
         (''com.commit-ci-preflight.owner'', JString ''commit-ci-preflight''),
         (''com.commit-ci-preflight.run-id'', JString ''r'')])]),
      (''Name'', JString (CHR ''/'' # dl_container_name plain_lifecycle)),
      (''State'', JObject [(''Status'', JString ''exited'')])])\<rparr>"

definition plain_context :: "string \<Rightarrow> call_log runtime_execution_context" where
  "plain_context waited = \<lparr>rx_execution_root = ''/x'', rx_environment = [],
     rx_identity = \<lparr>ri_project = ''p'', ri_commit = None, ri_config_digest = ''d'', ri_generation = ''g''\<rparr>,
     rx_run_id = ''r'', rx_supervisor = daemon waited, rx_timeout_seconds = 60\<rparr>"

lemma run_attempt: "run_state (attempt m k) w = (case run_state m w of (Inl e, v) \<Rightarrow> (Inl e, v) | (Inr x, v) \<Rightarrow> run_state (k x) v)"
  by (auto simp: attempt_def State_Monad.bind_def State_Monad.return_def split: prod.splits sum.splits)

lemma plain_container_state: "parse_container_state describing_host bytes plain_lifecycle = Ok ''exited''"
  by code_simp

lemma daemon_cli: "run_state (execute_cli (plain_context waited) argv token) w =
    (map_err RtmProcess (daemon_answer waited (rw_outside w) argv), w\<lparr>rw_outside := rw_outside w @ [(argv, daemon_answer waited (rw_outside w) argv)]\<rparr>)"
  by (simp add: execute_cli_def on_err_def State_Monad.bind_def State_Monad.return_def plain_context_def daemon_def Let_def)

lemmas daemon_simps =
  run_attempt execute_check_def after_removal_def cleanup_container_def execute_cleanup_cli_def on_err_def on_files_def
  State_Monad.bind_def State_Monad.return_def daemon_cli daemon_answer_def plain_container_state lifecycle_argv [OF plain_lifecycle]
  sample_result_def completed_success_def ok_def fail_def of_result_def

lemma plain_remove_argv: "hd (dl_remove_argv plain_lifecycle) = ''rm''"
  by (simp add: plain_lifecycle_def lifecycle_build_def plain_rendered_def flag_check_def Let_def)

lemma plain_mounts: "dc_mounts plain_rendered = []" "rx_run_id (plain_context waited) = ''r''"
  by (simp_all add: plain_rendered_def plain_context_def)

lemma daemon_run:
  "run_state (execute_check sample_codec cj hs describing_host flag_check plain_rendered (plain_context ''0''))
     (quiet_world f []) =
   (Ok (sample_result True []), quiet_world f (
     [(dl_create_argv plain_lifecycle, Ok (sample_result True ''0123456789ab'')), (dl_start_argv plain_lifecycle, Ok (sample_result True [])),
      (dl_attach_argv plain_lifecycle, Ok (sample_result True [])), (dl_wait_argv plain_lifecycle, Ok (sample_result True ''0'')),
      (dl_inspect_argv plain_lifecycle, Ok (sample_result True [])), (dl_remove_argv plain_lifecycle, Ok (sample_result True [])),
      (dl_inspect_argv plain_lifecycle, Ok (sample_result False []))]))"
proof -
  have "parse_wait_exit_code ''0'' = Ok 0" "valid_container_id ''0123456789ab''" by code_simp+
  then show ?thesis by (simp add: daemon_simps plain_lifecycle plain_mounts plain_remove_argv)
qed

lemma sample_success: "completed_success (sample_result True bytes)"
  by (simp add: completed_success_def sample_result_def)

theorem created_container_removed_witness:
  "\<forall>cj hs f. \<exists>r w'. run_state (execute_check sample_codec cj hs describing_host flag_check plain_rendered (plain_context ''0''))
     (quiet_world f []) = (Ok r, w') \<and> ends_removed plain_lifecycle (tl (rw_outside w'))"
proof (intro allI)
  fix cj hs f
  have "keeps_history (\<lambda>log. log) (rx_supervisor (plain_context ''0''))" by (simp add: plain_context_def daemon_keeps_history)
  from created_container_removed [OF this daemon_run [of cj hs f]]
  have "ends_removed plain_lifecycle (tl (rw_outside (snd (run_state
      (execute_check sample_codec cj hs describing_host flag_check plain_rendered (plain_context ''0'')) (quiet_world f [])))))"
    by (auto simp: daemon_run plain_mounts plain_lifecycle sample_success)
  then show "\<exists>r w'. run_state (execute_check sample_codec cj hs describing_host flag_check plain_rendered (plain_context ''0''))
     (quiet_world f []) = (Ok r, w') \<and> ends_removed plain_lifecycle (tl (rw_outside w'))"
    by (simp add: daemon_run)
qed

lemma daemon_run_lost:
  "run_state (execute_check sample_codec cj hs describing_host flag_check plain_rendered (plain_context ''?''))
     (quiet_world f []) =
   (Err (RtmLifecycleFailure ''docker wait output is not an exit code''), quiet_world f (
     (dl_create_argv plain_lifecycle, Ok (sample_result True ''0123456789ab'')) #
     [(dl_start_argv plain_lifecycle, Ok (sample_result True [])),
      (dl_attach_argv plain_lifecycle, Ok (sample_result True [])), (dl_wait_argv plain_lifecycle, Ok (sample_result True ''?''))]))"
proof -
  have "parse_wait_exit_code ''?'' = Err (RtmLifecycleFailure ''docker wait output is not an exit code'')"
    "valid_container_id ''0123456789ab''" by code_simp+
  then show ?thesis by (simp add: daemon_simps plain_lifecycle plain_mounts)
qed

theorem container_abandoned_iff_witness:
  "\<forall>cj hs f. \<exists>r w' calls. run_state (execute_check sample_codec cj hs describing_host flag_check plain_rendered (plain_context ''?''))
     (quiet_world f []) = (r, w') \<and> \<not> is_ok r \<and>
     rw_outside w' = (dl_create_argv plain_lifecycle, Ok (sample_result True ''0123456789ab'')) # calls \<and>
     dl_inspect_argv plain_lifecycle \<notin> set (map fst calls)"
proof (intro allI)
  fix cj hs f
  let ?calls = "[(dl_start_argv plain_lifecycle, Ok (sample_result True [])),
    (dl_attach_argv plain_lifecycle, Ok (sample_result True [])), (dl_wait_argv plain_lifecycle, Ok (sample_result True ''?''))] :: call_log"
  have hist: "keeps_history (\<lambda>log. log) (rx_supervisor (plain_context ''?''))" by (simp add: plain_context_def daemon_keeps_history)
  have build: "lifecycle_build sample_codec (rx_run_id (plain_context ''?'')) flag_check plain_rendered = Ok plain_lifecycle"
    by (simp add: plain_mounts plain_lifecycle)
  have "\<not> is_ok (parse_wait_exit_code ''?'')" by code_simp
  then have "wait_broken (Ok (sample_result True ''?''))" by (simp add: wait_broken_def sample_result_def completed_success_def)
  with container_abandoned_iff [OF hist build daemon_run_lost [of cj hs f], of "sample_result True ''0123456789ab''" ?calls]
  have "dl_inspect_argv plain_lifecycle \<notin> set (map fst ?calls)" by (simp add: completed_success_def sample_result_def)
  then show "\<exists>r w' calls. run_state (execute_check sample_codec cj hs describing_host flag_check plain_rendered (plain_context ''?''))
     (quiet_world f []) = (r, w') \<and> \<not> is_ok r \<and>
     rw_outside w' = (dl_create_argv plain_lifecycle, Ok (sample_result True ''0123456789ab'')) # calls \<and>
     dl_inspect_argv plain_lifecycle \<notin> set (map fst calls)"
    by (simp add: daemon_run_lost)
qed

end
