(* ===== verification/Snapshot.thy ===== *)
theory Snapshot
  imports Runtime Artifacts
begin

text \<open>
  The source snapshot of a run (\<^verbatim>\<open>src/src/source_snapshot.rs\<close>): the tree of a commit read from git and written to a
  directory of its own, the mount points added to it, and its revalidation after the run. Git runs through
  the supervisor; its large blobs are read through the supervisor's second entry point. What is modelled is
  the Unix build.
\<close>

section \<open>Data\<close>

definition SNAPSHOT_SCHEMA_VERSION :: string where "SNAPSHOT_SCHEMA_VERSION = ''1.0''"
definition SNAPSHOT_GIT_TIMEOUT :: duration where "SNAPSHOT_GIT_TIMEOUT = secs 30"
definition GIT_CAPTURE_LIMIT :: nat where "GIT_CAPTURE_LIMIT = 1048576"
definition TREE_CAPTURE_LIMIT :: nat where "TREE_CAPTURE_LIMIT = GIT_CAPTURE_LIMIT"
definition BLOB_CAPTURE_LIMIT :: nat where "BLOB_CAPTURE_LIMIT = MAX_SOURCE_BLOB_CAPTURE_BYTES"
definition MAX_ENTRIES :: nat where "MAX_ENTRIES = 50000"
definition LFS_HEADER :: string where "LFS_HEADER = ''version https://git-lfs.github.com/spec/v1'' @ [CHR 0x0A]"

datatype source_entry_kind_v1 = EntryRegular | EntryExecutable | EntrySymlink | EntrySubmodule

record source_manifest_entry_v1 =
  se_path :: string
  se_mode :: string
  se_kind :: source_entry_kind_v1
  se_blob_oid :: "string option"
  se_submodule_oid :: "string option"

record source_manifest_v1 =
  sm_schema_version :: string
  sm_commit_sha :: string
  sm_strategy :: string
  sm_entries :: "source_manifest_entry_v1 list"

record source_snapshot_evidence_v1 =
  sv_schema_version :: string
  sv_strategy :: string
  sv_manifest_digest :: string
  sv_entry_count :: u64

record source_snapshot =
  sn_root :: path
  sn_resource_root :: path
  sn_repository :: path
  sn_manifest :: source_manifest_v1
  sn_evidence :: source_snapshot_evidence_v1
  sn_cleaned :: bool
  sn_overlay_files :: "string btree_set"
  sn_overlay_directories :: "string btree_set"

datatype source_snapshot_error =
    SnpIo io_error
  | SnpInvalidCommit
  | SnpInvalidPath
  | SnpInvalidTree
  | SnpTooManyEntries
  | SnpDestinationExists
  | SnpGitFailure
  | SnpBlobTooLarge string u64 u64
  | SnpUnsupportedMode string
  | SnpUnsupportedSubmodule string
  | SnpUnsupportedSymlink string
  | SnpUnsupportedLfs string
  | SnpUnsupportedExecutableMode
  | SnpManifestSerialization
  | SnpSnapshotChanged
  | SnpDirtyRepository
  | SnpRepositoryNotDirectory

type_synonym ('d, 'a) snapshot_action = "('d runtime_world, source_snapshot_error, 'a) action"

definition optional_string :: "string option \<Rightarrow> json" where
  "optional_string s = (case s of None \<Rightarrow> JNull | Some t \<Rightarrow> JString t)"

definition entry_kind_to_value :: "source_entry_kind_v1 \<Rightarrow> json" where
  "entry_kind_to_value k = JString
     (case k of EntryRegular \<Rightarrow> ''regular'' | EntryExecutable \<Rightarrow> ''executable'' | EntrySymlink \<Rightarrow> ''symlink'' | EntrySubmodule \<Rightarrow> ''submodule'')"

definition source_entry_to_value :: "source_manifest_entry_v1 \<Rightarrow> json" where
  "source_entry_to_value e = json_object
     [(''path'', JString (se_path e)), (''mode'', JString (se_mode e)), (''kind'', entry_kind_to_value (se_kind e)),
      (''blob_oid'', optional_string (se_blob_oid e)), (''submodule_oid'', optional_string (se_submodule_oid e))]"

definition source_manifest_to_value :: "source_manifest_v1 \<Rightarrow> json" where
  "source_manifest_to_value m = json_object
     [(''schema_version'', JString (sm_schema_version m)), (''commit_sha'', JString (sm_commit_sha m)),
      (''strategy'', JString (sm_strategy m)), (''entries'', JArray (map source_entry_to_value (sm_entries m)))]"

section \<open>Git\<close>

definition git_environment :: "runtime_host \<Rightarrow> (string, string) btree_map" where
  "git_environment rh = bt_collect (List.map_filter (\<lambda>name. map_option (Pair name) (rh_var_os rh name))
     [''PATH'', ''HOME'', ''USERPROFILE'', ''HOMEDRIVE'', ''HOMEPATH'', ''SYSTEMROOT'', ''XDG_CONFIG_HOME''])"

definition clean_success :: "process_result \<Rightarrow> bool" where
  "clean_success result \<longleftrightarrow>
     \<not> (ps_termination result \<noteq> Completed \<or> ps_cleanup result \<noteq> Verified \<or>
        map_option eo_success (ps_exit result) \<noteq> Some True \<or> cs_truncated (ps_stdout result) \<or> cs_truncated (ps_stderr result))"

definition snapshot_git ::
    "runtime_host \<Rightarrow> path \<Rightarrow> string list \<Rightarrow> nat \<Rightarrow> 'd supervisor_port \<Rightarrow> cancellation \<Rightarrow> run_identity \<Rightarrow> ('d, string) snapshot_action" where
  "snapshot_git rh repository argv max_capture_bytes supervisor cancellation identity =
     attempt (on_err (\<lambda>_. SnpGitFailure) (supervisor
       \<lparr>rq_identity = identity, rq_program = ''git'', rq_argv = argv, rq_current_dir = path_text repository,
        rq_environment = git_environment rh, rq_timeout = SNAPSHOT_GIT_TIMEOUT, rq_max_capture_bytes = max_capture_bytes\<rparr>
       cancellation)) (\<lambda>result.
     if \<not> clean_success result then fail SnpGitFailure else ok (cs_bytes (ps_stdout result)))"

definition valid_oid :: "string \<Rightarrow> bool" where
  "valid_oid value \<longleftrightarrow> (length value = 40 \<or> length value = 64) \<and> list_all is_lower_hex value"

definition validate_source_commit :: "string \<Rightarrow> (source_snapshot_error, unit) result" where
  "validate_source_commit value = (if valid_oid value then Ok () else Err SnpInvalidCommit)"

definition validate_source_path :: "string \<Rightarrow> (source_snapshot_error, unit) result" where
  "validate_source_path value =
     (if value = [] \<or> list_ex (\<lambda>c. byte_val c < 32 \<or> byte_val c = 127) value \<or> path_is_absolute value \<or>
         list_ex (\<lambda>part. case part of Normal _ \<Rightarrow> False | _ \<Rightarrow> True) (components value)
      then Err SnpInvalidPath else Ok ())"

definition resolve_clean_head ::
    "cache_host \<Rightarrow> runtime_host \<Rightarrow> path \<Rightarrow> string \<Rightarrow> 'd supervisor_port \<Rightarrow> cancellation \<Rightarrow> run_identity \<Rightarrow> ('d, string) snapshot_action" where
  "resolve_clean_head hs rh repository receipt_output supervisor cancellation identity = do {
     t \<leftarrow> on_files cache_tree;
     attempt (of_result (map_err SnpIo (ch_canonicalize hs t repository))) (\<lambda>repository.
     if \<not> (case lookup t repository of Some (NDir _) \<Rightarrow> True | _ \<Rightarrow> False) then fail SnpRepositoryNotDirectory
     else
       attempt (snapshot_git rh repository [''rev-parse'', ''--verify'', ''HEAD''] 256 supervisor cancellation identity) (\<lambda>output.
       if \<not> utf8_valid output then fail SnpInvalidCommit
       else
         let commit = trim output in
         attempt (of_result (validate_source_commit commit)) (\<lambda>_.
         attempt (snapshot_git rh repository
           [''status'', ''--porcelain=v1'', ''--untracked-files=all'', ''--'', ''.'', '':(exclude)'' @ receipt_output]
           TREE_CAPTURE_LIMIT supervisor cancellation identity) (\<lambda>status.
         if status \<noteq> [] then fail SnpDirtyRepository else ok commit)))) }"

section \<open>The tree of a commit\<close>

definition entry_of_mode :: "string \<Rightarrow> string \<Rightarrow> string \<Rightarrow> string \<Rightarrow> (source_snapshot_error, source_manifest_entry_v1) result" where
  "entry_of_mode p mode object_type oid =
     (let entry = \<lambda>kind blob submodule.
        Ok \<lparr>se_path = p, se_mode = mode, se_kind = kind, se_blob_oid = blob, se_submodule_oid = submodule\<rparr> in
      if mode = ''100644'' \<and> object_type = ''blob'' then entry EntryRegular (Some oid) None
      else if mode = ''100755'' \<and> object_type = ''blob'' then entry EntryExecutable (Some oid) None
      else if mode = ''120000'' \<and> object_type = ''blob'' then entry EntrySymlink (Some oid) None
      else if mode = ''160000'' \<and> object_type = ''commit'' then entry EntrySubmodule None (Some oid)
      else Err (SnpUnsupportedMode mode))"

definition parse_record :: "source_manifest_entry_v1 list \<Rightarrow> string \<Rightarrow> (source_snapshot_error, source_manifest_entry_v1 list) result" where
  "parse_record entries record =
     (if MAX_ENTRIES \<le> length entries then Err SnpTooManyEntries
      else
        and_then (ok_or SnpInvalidTree (split_once (CHR 0x09) record)) (\<lambda>(header, p).
        if \<not> utf8_valid header then Err SnpInvalidTree
        else if \<not> utf8_valid p then Err SnpInvalidPath
        else
          and_then (validate_source_path p) (\<lambda>_.
          case split_on (CHR '' '') header of
            [mode, object_type, oid] \<Rightarrow>
              if \<not> valid_oid oid then Err SnpInvalidTree
              else and_then (entry_of_mode p mode object_type oid) (\<lambda>entry. Ok (entries @ [entry]))
          | _ \<Rightarrow> Err SnpInvalidTree)))"

definition parse_tree :: "string \<Rightarrow> (source_snapshot_error, source_manifest_entry_v1 list) result" where
  "parse_tree bytes =
     map_result (sort_key se_path)
       (try_fold parse_record [] (filter (\<lambda>record. record \<noteq> []) (split_on (CHR 0x00) bytes)))"
section \<open>Writing it\<close>

text \<open>The operations on files fail with an error of the operating system only.\<close>

definition io_of :: "cache_error \<Rightarrow> io_error" where
  "io_of e = (case e of CacIo x \<Rightarrow> x | _ \<Rightarrow> IoError OtherKind [])"

abbreviation snap_io :: "'a cache \<Rightarrow> ('d, 'a) snapshot_action" where
  "snap_io m \<equiv> on_err (\<lambda>e. SnpIo (io_of e)) (on_files m)"

definition write_new_file :: "path \<Rightarrow> string \<Rightarrow> ('d, unit) snapshot_action" where
  "write_new_file p bytes = snap_io (fs_write_new p bytes)"

definition set_permissions :: "path \<Rightarrow> u32 \<Rightarrow> ('d, unit) snapshot_action" where
  "set_permissions p mode = do {
     m \<leftarrow> on_files (fs_metadata p);
     if m = None then fail (SnpIo not_found)
     else State (\<lambda>w. (Ok (), w\<lparr>rw_modes := (rw_modes w)(p := mode)\<rparr>)) }"

definition set_entry_mode :: "path \<Rightarrow> source_manifest_entry_v1 \<Rightarrow> ('d, unit) snapshot_action" where
  "set_entry_mode p entry = set_permissions p (if se_kind entry = EntryExecutable then 0x1ED else 0x1A4)"

definition write_entry :: "path \<Rightarrow> source_manifest_entry_v1 \<Rightarrow> string \<Rightarrow> ('d, unit) snapshot_action" where
  "write_entry root entry bytes =
     (let p = join_path root (se_path entry) in
      if p = [] then fail SnpInvalidPath
      else
        attempt (snap_io (fs_create_dir_all [] (butlast p))) (\<lambda>_.
        attempt (write_new_file p bytes) (\<lambda>_. set_entry_mode p entry)))"

definition snapshot_blob ::
    "runtime_host \<Rightarrow> path \<Rightarrow> string list \<Rightarrow> 'd supervisor_port \<Rightarrow> cancellation \<Rightarrow> run_identity \<Rightarrow> ('d, string) snapshot_action" where
  "snapshot_blob rh repository argv execute_source_blob cancellation identity =
     snapshot_git rh repository argv BLOB_CAPTURE_LIMIT execute_source_blob cancellation identity"

fun materialize_entries ::
    "runtime_host \<Rightarrow> path \<Rightarrow> path \<Rightarrow> 'd supervisor_port \<Rightarrow> 'd supervisor_port \<Rightarrow> cancellation \<Rightarrow> run_identity \<Rightarrow>
       source_manifest_entry_v1 list \<Rightarrow> ('d, unit) snapshot_action" where
  "materialize_entries rh repository root supervisor execute_source_blob cancellation identity [] = ok ()"
| "materialize_entries rh repository root supervisor execute_source_blob cancellation identity (entry # entries) =
     attempt (of_result
       (case se_kind entry of
          EntrySubmodule \<Rightarrow> Err (SnpUnsupportedSubmodule (se_path entry))
        | EntrySymlink \<Rightarrow> Err (SnpUnsupportedSymlink (se_path entry))
        | _ \<Rightarrow> ok_or SnpInvalidTree (se_blob_oid entry))) (\<lambda>oid.
     attempt (snapshot_git rh repository [''cat-file'', ''-s'', oid] GIT_CAPTURE_LIMIT supervisor cancellation identity) (\<lambda>size_bytes.
     attempt (of_result (if \<not> utf8_valid size_bytes then Err SnpInvalidTree else ok_or SnpInvalidTree (parse_uint (trim size_bytes)))) (\<lambda>size.
     if (of_nat BLOB_CAPTURE_LIMIT :: u64) < size then fail (SnpBlobTooLarge (se_path entry) size (of_nat BLOB_CAPTURE_LIMIT))
     else
       attempt (snapshot_blob rh repository [''cat-file'', ''blob'', oid] execute_source_blob cancellation identity) (\<lambda>bytes.
       if starts_with LFS_HEADER bytes then fail (SnpUnsupportedLfs (se_path entry))
       else
         attempt (write_entry root entry bytes) (\<lambda>_.
         materialize_entries rh repository root supervisor execute_source_blob cancellation identity entries)))))"

text \<open>What the closure of \<open>materialize\<close> does, between the creation of the directories and the clean-up.\<close>

definition fill_snapshot ::
    "codec \<Rightarrow> runtime_host \<Rightarrow> path \<Rightarrow> string \<Rightarrow> path \<Rightarrow> 'd supervisor_port \<Rightarrow> 'd supervisor_port \<Rightarrow> cancellation \<Rightarrow> run_identity \<Rightarrow>
       ('d, source_manifest_v1 \<times> source_snapshot_evidence_v1) snapshot_action" where
  "fill_snapshot cx rh repository commit_sha resource_root supervisor execute_source_blob cancellation identity =
     attempt (snapshot_git rh repository [''ls-tree'', ''--full-tree'', ''-r'', ''-z'', commit_sha] TREE_CAPTURE_LIMIT
       supervisor cancellation identity) (\<lambda>tree.
     attempt (of_result (parse_tree tree)) (\<lambda>entries.
     attempt (materialize_entries rh repository (resource_root @ [''source'']) supervisor execute_source_blob cancellation identity entries) (\<lambda>_.
     let manifest = \<lparr>sm_schema_version = SNAPSHOT_SCHEMA_VERSION, sm_commit_sha = commit_sha,
           sm_strategy = ''git-object-materialization-v1'', sm_entries = entries\<rparr> in
     attempt (of_result (map_err (\<lambda>_. SnpManifestSerialization) (canonical_digest cx (source_manifest_to_value manifest)))) (\<lambda>manifest_digest.
     if 2 ^ 64 \<le> length entries then fail SnpTooManyEntries
     else
       let evidence = \<lparr>sv_schema_version = SNAPSHOT_SCHEMA_VERSION, sv_strategy = sm_strategy manifest,
             sv_manifest_digest = manifest_digest, sv_entry_count = of_nat (length entries)\<rparr> in
       attempt (of_result (map_err (\<lambda>_. SnpManifestSerialization) (to_vec cx (source_manifest_to_value manifest)))) (\<lambda>bytes.
       attempt (write_new_file (resource_root @ [''manifest-v1.json'']) (bytes @ [CHR 0x0A])) (\<lambda>_.
       ok (manifest, evidence)))))))"

definition materialize ::
    "codec \<Rightarrow> cache_host \<Rightarrow> runtime_host \<Rightarrow> path \<Rightarrow> string \<Rightarrow> path \<Rightarrow> 'd supervisor_port \<Rightarrow> 'd supervisor_port \<Rightarrow> cancellation \<Rightarrow>
       run_identity \<Rightarrow> ('d, source_snapshot) snapshot_action" where
  "materialize cx hs rh repository commit_sha resource_root supervisor execute_source_blob cancellation identity = do {
     t \<leftarrow> on_files cache_tree;
     attempt (of_result (map_err SnpIo (ch_canonicalize hs t repository))) (\<lambda>repository.
     if \<not> (case lookup t repository of Some (NDir _) \<Rightarrow> True | _ \<Rightarrow> False) then fail SnpRepositoryNotDirectory
     else
       attempt (of_result (validate_source_commit commit_sha)) (\<lambda>_.
       if lookup t resource_root \<noteq> None then fail SnpDestinationExists
       else
         attempt (snap_io (fs_create resource_root (NDir []))) (\<lambda>_. do {
         r \<leftarrow> snap_io (fs_create (resource_root @ [''source'']) (NDir []));
         case r of
           Inl e \<Rightarrow> do { _ \<leftarrow> on_files (fs_remove resource_root); fail e }
         | Inr _ \<Rightarrow> do {
             r \<leftarrow> fill_snapshot cx rh repository commit_sha resource_root supervisor execute_source_blob cancellation identity;
             case r of
               Inl e \<Rightarrow> do { _ \<leftarrow> on_files (fs_remove resource_root); fail e }
             | Inr (manifest, evidence) \<Rightarrow>
                 ok \<lparr>sn_root = resource_root @ [''source''], sn_resource_root = resource_root, sn_repository = repository,
                     sn_manifest = manifest, sn_evidence = evidence, sn_cleaned = False,
                     sn_overlay_files = [], sn_overlay_directories = []\<rparr> } }))) }"

section \<open>Mount points\<close>

fun overlay_caches :: "path \<Rightarrow> normalized_cache list \<Rightarrow> ('d, unit) snapshot_action" where
  "overlay_caches root [] = ok ()"
| "overlay_caches root (cache # caches) = do {
     let target = join_path root (nc_mount_path cache);
     present \<leftarrow> on_files (fs_exists target);
     attempt (if present then ok () else snap_io (fs_create_dir_all [] target)) (\<lambda>_. overlay_caches root caches) }"

definition overlay_artifact :: "source_snapshot \<Rightarrow> normalized_check \<times> string \<Rightarrow> ('d, source_snapshot) snapshot_action" where
  "overlay_artifact snapshot = (\<lambda>(check, artifact). do {
     let target = join_path (sn_root snapshot) artifact;
     present \<leftarrow> on_files (fs_exists target);
     if present then ok snapshot
     else
       case artifact_kind_for check artifact of
         Directory \<Rightarrow>
           attempt (snap_io (fs_create_dir_all [] target)) (\<lambda>_.
           ok (snapshot\<lparr>sn_overlay_directories := bs_insert artifact (sn_overlay_directories snapshot)\<rparr>))
       | RegularFile \<Rightarrow>
           if target = [] then fail SnpInvalidPath
           else
             attempt (snap_io (fs_create_dir_all [] (butlast target))) (\<lambda>_.
             attempt (write_new_file target []) (\<lambda>_.
             ok (snapshot\<lparr>sn_overlay_files := bs_insert artifact (sn_overlay_files snapshot)\<rparr>))) })"

fun overlay_artifacts :: "source_snapshot \<Rightarrow> (normalized_check \<times> string) list \<Rightarrow> ('d, source_snapshot) snapshot_action" where
  "overlay_artifacts snapshot [] = ok snapshot"
| "overlay_artifacts snapshot (a # as) = attempt (overlay_artifact snapshot a) (\<lambda>snapshot. overlay_artifacts snapshot as)"

definition prepare_mount_overlay :: "source_snapshot \<Rightarrow> execution_plan_envelope_v1 \<Rightarrow> ('d, source_snapshot) snapshot_action" where
  "prepare_mount_overlay snapshot envelope =
     attempt (overlay_caches (sn_root snapshot) (pl_caches (pe_plan envelope))) (\<lambda>_.
     overlay_artifacts snapshot (artifacts_of (pe_plan envelope)))"

section \<open>Revalidation\<close>

text \<open>The directories still to visit are a stack, each with its listing.\<close>

fun collect_children ::
    "path \<Rightarrow> path \<Rightarrow> (string \<times> node) list \<Rightarrow> (path \<times> (string \<times> node) list) list \<times> string btree_set \<Rightarrow>
       (source_snapshot_error, (path \<times> (string \<times> node) list) list \<times> string btree_set) result" where
  "collect_children root current [] walk = Ok walk"
| "collect_children root current ((name, child) # children) (pending, found) =
     (case child of
        NLink _ _ \<Rightarrow> Err SnpSnapshotChanged
      | NDir es \<Rightarrow> collect_children root current children ((current @ [name], es) # pending, found)
      | NFile _ \<Rightarrow>
          let logical = join ''/'' (drop (length root) (current @ [name])) in
          if \<not> utf8_valid logical then Err SnpInvalidPath
          else collect_children root current children (pending, bs_insert logical found)
      | NOther \<Rightarrow> Err SnpSnapshotChanged)"

lemma collect_children_size:
  "collect_children root current children (pending, found) = Ok (pending', found') \<Longrightarrow>
     pending_size pending' \<le> pending_size pending + size_list (size_prod (\<lambda>_. 0) size) children"
proof (induction children arbitrary: pending found)
  case (Cons c children)
  obtain name child where c: "c = (name, child)" by (cases c)
  show ?case
  proof (cases child)
    case (NFile b)
    with Cons.prems c show ?thesis by (auto simp: Let_def split: if_splits dest!: Cons.IH)
  next
    case (NDir es)
    with Cons.prems c have "pending_size pending' \<le> pending_size ((current @ [name], es) # pending) + size_list (size_prod (\<lambda>_. 0) size) children"
      by (auto dest: Cons.IH)
    with NDir c show ?thesis by (simp add: pending_size_def)
  qed (use Cons.prems c in simp_all)
qed simp

function collect_pending ::
    "path \<Rightarrow> (path \<times> (string \<times> node) list) list \<times> string btree_set \<Rightarrow> (source_snapshot_error, string btree_set) result" where
  "collect_pending root ([], found) = Ok found"
| "collect_pending root ((current, children) # pending, found) =
     (case collect_children root current children (pending, found) of
        Inl e \<Rightarrow> Err e
      | Inr walk \<Rightarrow> collect_pending root walk)"
  by pat_completeness auto
termination
  apply (relation "measure (\<lambda>(_, walk). pending_size (fst walk))")
   apply simp
  apply (auto dest: collect_children_size simp: pending_size_def)
  done

definition collect_regular_files :: "node \<Rightarrow> path \<Rightarrow> (source_snapshot_error, string btree_set) result" where
  "collect_regular_files t root =
     (case lookup t root of
        Some (NDir es) \<Rightarrow> collect_pending root ([(root, es)], [])
      | Some (NFile _) \<Rightarrow> Err (SnpIo (IoError OtherKind ''Not a directory''))
      | _ \<Rightarrow> Err (SnpIo not_found))"

definition validate_entry_mode :: "path \<Rightarrow> source_manifest_entry_v1 \<Rightarrow> ('d, unit) snapshot_action" where
  "validate_entry_mode p entry = do {
     m \<leftarrow> on_files (fs_metadata p);
     mode \<leftarrow> State (\<lambda>w. (rw_modes w p, w));
     case m of
       None \<Rightarrow> fail (SnpIo not_found)
     | Some (NFile _) \<Rightarrow>
         if (and mode 0x49 \<noteq> 0) \<noteq> (se_kind entry = EntryExecutable) then fail SnpSnapshotChanged else ok ()
     | Some _ \<Rightarrow> fail SnpSnapshotChanged }"

fun check_overlay_directories :: "path \<Rightarrow> string list \<Rightarrow> ('d, unit) snapshot_action" where
  "check_overlay_directories root [] = ok ()"
| "check_overlay_directories root (d # ds) = do {
     m \<leftarrow> on_files (fs_metadata (join_path root d));
     case m of
       None \<Rightarrow> fail (SnpIo not_found)
     | Some (NDir _) \<Rightarrow> check_overlay_directories root ds
     | Some _ \<Rightarrow> fail SnpSnapshotChanged }"

definition revalidate_entry ::
    "runtime_host \<Rightarrow> source_snapshot \<Rightarrow> 'd supervisor_port \<Rightarrow> cancellation \<Rightarrow> run_identity \<Rightarrow> source_manifest_entry_v1 \<Rightarrow> ('d, unit) snapshot_action" where
  "revalidate_entry rh snapshot supervisor cancellation identity entry =
     (let p = join_path (sn_root snapshot) (se_path entry) in
      attempt (validate_entry_mode p entry) (\<lambda>_.
      if \<not> utf8_valid (path_text p) then fail SnpInvalidPath
      else
        attempt (snapshot_git rh (sn_repository snapshot) [''hash-object'', ''--no-filters'', ''--'', path_text p] 256
          supervisor cancellation identity) (\<lambda>actual.
        if \<not> utf8_valid actual then fail SnpGitFailure
        else if se_blob_oid entry \<noteq> Some (trim actual) then fail SnpSnapshotChanged
        else ok ())))"

fun revalidate_entries ::
    "runtime_host \<Rightarrow> source_snapshot \<Rightarrow> 'd supervisor_port \<Rightarrow> cancellation \<Rightarrow> run_identity \<Rightarrow> source_manifest_entry_v1 list \<Rightarrow>
       ('d, unit) snapshot_action" where
  "revalidate_entries rh snapshot supervisor cancellation identity [] = ok ()"
| "revalidate_entries rh snapshot supervisor cancellation identity (entry # entries) =
     attempt (revalidate_entry rh snapshot supervisor cancellation identity entry) (\<lambda>_.
     revalidate_entries rh snapshot supervisor cancellation identity entries)"

definition revalidate_snapshot ::
    "codec \<Rightarrow> runtime_host \<Rightarrow> source_snapshot \<Rightarrow> 'd supervisor_port \<Rightarrow> cancellation \<Rightarrow> run_identity \<Rightarrow> ('d, unit) snapshot_action" where
  "revalidate_snapshot cx rh snapshot supervisor cancellation identity = do {
     t \<leftarrow> on_files cache_tree;
     attempt (of_result (collect_regular_files t (sn_root snapshot))) (\<lambda>found.
     if found \<noteq> fold bs_insert (sn_overlay_files snapshot) (bs_collect (map se_path (sm_entries (sn_manifest snapshot))))
     then fail SnpSnapshotChanged
     else
       attempt (check_overlay_directories (sn_root snapshot) (sn_overlay_directories snapshot)) (\<lambda>_.
       attempt (revalidate_entries rh snapshot supervisor cancellation identity (sm_entries (sn_manifest snapshot))) (\<lambda>_.
       attempt (of_result (map_err (\<lambda>_. SnpManifestSerialization)
         (canonical_digest cx (source_manifest_to_value (sn_manifest snapshot))))) (\<lambda>digest.
       if digest \<noteq> sv_manifest_digest (sn_evidence snapshot) then fail SnpSnapshotChanged else ok ())))) }"

section \<open>Removing it\<close>

definition cleanup_snapshot :: "source_snapshot \<Rightarrow> ('d, source_snapshot) snapshot_action" where
  "cleanup_snapshot snapshot = do {
     m \<leftarrow> on_files (fs_metadata (sn_resource_root snapshot));
     if m = None then fail (SnpIo not_found)
     else attempt (snap_io (fs_remove (sn_resource_root snapshot))) (\<lambda>_. ok (snapshot\<lparr>sn_cleaned := True\<rparr>)) }"

definition drop_snapshot :: "source_snapshot \<Rightarrow> ('d runtime_world, unit) state" where
  "drop_snapshot snapshot =
     (if sn_cleaned snapshot then State_Monad.return ()
      else do { _ \<leftarrow> on_files (fs_remove (sn_resource_root snapshot)); State_Monad.return () })"

end
