(* ===== verification/Snapshot_Props.thy ===== *)
theory Snapshot_Props
  imports Snapshot Artifacts_Correct Cache_Correct Samples
begin

text \<open>
  The properties of the source snapshot (\<^verbatim>\<open>src/src/source_snapshot.rs\<close>): the tree of a commit is read back exactly as
  git prints it, and a snapshot that passes its revalidation is the one that was written.
\<close>

section \<open>The tree of a commit\<close>

definition object_type_of :: "source_entry_kind_v1 \<Rightarrow> string" where
  "object_type_of k = (if k = EntrySubmodule then ''commit'' else ''blob'')"

definition mode_of :: "source_entry_kind_v1 \<Rightarrow> string" where
  "mode_of k = (case k of EntryRegular \<Rightarrow> ''100644'' | EntryExecutable \<Rightarrow> ''100755'' | EntrySymlink \<Rightarrow> ''120000'' | EntrySubmodule \<Rightarrow> ''160000'')"

definition oid_of :: "source_manifest_entry_v1 \<Rightarrow> string" where
  "oid_of e = the (if se_kind e = EntrySubmodule then se_submodule_oid e else se_blob_oid e)"

text \<open>One record of \<^verbatim>\<open>git ls-tree -z\<close>.\<close>

definition print_entry :: "source_manifest_entry_v1 \<Rightarrow> string" where
  "print_entry e = se_mode e @ '' '' @ object_type_of (se_kind e) @ '' '' @ oid_of e @ [CHR 0x09] @ se_path e"

definition print_tree :: "source_manifest_entry_v1 list \<Rightarrow> string" where
  "print_tree es = concat (map (\<lambda>e. print_entry e @ [CHR 0x00]) es)"

definition tree_entry :: "source_manifest_entry_v1 \<Rightarrow> bool" where
  "tree_entry e \<longleftrightarrow>
     utf8_valid (se_path e) \<and> validate_source_path (se_path e) = Ok () \<and> se_mode e = mode_of (se_kind e) \<and>
     (if se_kind e = EntrySubmodule then se_blob_oid e = None \<and> se_submodule_oid e \<noteq> None
      else se_blob_oid e \<noteq> None \<and> se_submodule_oid e = None) \<and> valid_oid (oid_of e)"

lemma utf8_valid_ascii: "list_all (\<lambda>c. byte_val c < 128) s \<Longrightarrow> utf8_valid s"
  by (induction s) (auto simp: Let_def)

lemma split_records:
  assumes "\<forall>e\<in>set es. c \<notin> set (f e) \<and> f e \<noteq> []"
  shows "filter (\<lambda>r. r \<noteq> []) (split_on c (concat (map (\<lambda>e. f e @ [c]) es))) = map f es"
  using assms
proof (induction es)
  case (Cons e es)
  have plain: "split_on c s = [s]" if "c \<notin> set s" for s using that by (induction s) auto
  from Cons show ?case by (simp add: split_on_append_sep plain)
qed simp

lemma entry_of_mode_Ok:
  assumes "entry_of_mode p mode object_type oid = Ok e"
  shows "se_path e = p \<and> se_mode e = mode \<and> mode = mode_of (se_kind e) \<and> object_type = object_type_of (se_kind e) \<and> oid = oid_of e \<and>
    (if se_kind e = EntrySubmodule then se_blob_oid e = None \<and> se_submodule_oid e \<noteq> None
     else se_blob_oid e \<noteq> None \<and> se_submodule_oid e = None)"
proof -
  let ?entry = "\<lambda>kind blob submodule. \<lparr>se_path = p, se_mode = mode, se_kind = kind, se_blob_oid = blob, se_submodule_oid = submodule\<rparr>"
  consider "mode = ''100644''" "object_type = ''blob''" "e = ?entry EntryRegular (Some oid) None"
    | "mode = ''100755''" "object_type = ''blob''" "e = ?entry EntryExecutable (Some oid) None"
    | "mode = ''120000''" "object_type = ''blob''" "e = ?entry EntrySymlink (Some oid) None"
    | "mode = ''160000''" "object_type = ''commit''" "e = ?entry EntrySubmodule None (Some oid)"
    using assms unfolding entry_of_mode_def Let_def by (metis Inl_Inr_False Inr_inject)
  then show ?thesis by cases (simp_all add: mode_of_def object_type_of_def oid_of_def)
qed

lemma entry_of_mode_entry:
  assumes "tree_entry e"
  shows "entry_of_mode (se_path e) (se_mode e) (object_type_of (se_kind e)) (oid_of e) = Ok e"
proof -
  obtain p mode kind blob submodule where e: "e = \<lparr>se_path = p, se_mode = mode, se_kind = kind, se_blob_oid = blob, se_submodule_oid = submodule\<rparr>"
    by (cases e)
  show ?thesis
    using assms unfolding e
    by (cases kind) (auto simp: tree_entry_def entry_of_mode_def mode_of_def object_type_of_def oid_of_def)
qed

lemma valid_oid_chars: "valid_oid oid \<Longrightarrow> c \<in> set oid \<Longrightarrow> is_lower_hex c"
  by (simp add: valid_oid_def list_all_iff)

lemma tree_entry_header:
  assumes "tree_entry e"
  shows "split_on (CHR '' '') (se_mode e @ '' '' @ object_type_of (se_kind e) @ '' '' @ oid_of e) =
      [se_mode e, object_type_of (se_kind e), oid_of e]"
    "utf8_valid (se_mode e @ '' '' @ object_type_of (se_kind e) @ '' '' @ oid_of e)"
    "\<forall>c\<in>{CHR 0x00, CHR 0x09}. c \<notin> set (se_mode e @ '' '' @ object_type_of (se_kind e) @ '' '' @ oid_of e)"
    "CHR 0x00 \<notin> set (se_path e)"
proof -
  have oid: "\<forall>c\<in>set (oid_of e). is_lower_hex c" using assms valid_oid_chars by (auto simp: tree_entry_def)
  have mode: "se_mode e = mode_of (se_kind e)" using assms by (simp add: tree_entry_def)
  have space: "CHR '' '' \<notin> set (oid_of e)" "CHR 0x00 \<notin> set (oid_of e)" "CHR 0x09 \<notin> set (oid_of e)"
    using oid by (auto simp: is_lower_hex_def is_ascii_digit_def dest!: bspec)
  have plain: "split_on c s = [s]" if "c \<notin> set s" for c s using that by (induction s) auto
  show "split_on (CHR '' '') (se_mode e @ '' '' @ object_type_of (se_kind e) @ '' '' @ oid_of e) =
      [se_mode e, object_type_of (se_kind e), oid_of e]"
    using plain [OF space(1)] by (cases "se_kind e") (simp_all add: mode mode_of_def object_type_of_def)
  show "utf8_valid (se_mode e @ '' '' @ object_type_of (se_kind e) @ '' '' @ oid_of e)"
    using oid by (intro utf8_valid_ascii) (cases "se_kind e"; auto simp: mode mode_of_def object_type_of_def list_all_iff is_lower_hex_def is_ascii_digit_def dest!: bspec)
  show "\<forall>c\<in>{CHR 0x00, CHR 0x09}. c \<notin> set (se_mode e @ '' '' @ object_type_of (se_kind e) @ '' '' @ oid_of e)"
    using space by (cases "se_kind e") (simp_all add: mode mode_of_def object_type_of_def)
  show "CHR 0x00 \<notin> set (se_path e)"
    using assms by (auto simp: tree_entry_def validate_source_path_def list_ex_iff split: if_splits)
qed

lemma three_fields_iff:
  "(case xs of [a, b, c] \<Rightarrow> f a b c | _ \<Rightarrow> Err e) = Ok y \<longleftrightarrow> (\<exists>a b c. xs = [a, b, c] \<and> f a b c = Ok y)"
  by (auto split: list.splits)

lemma parse_record_iff:
  "parse_record es rd = Ok es' \<longleftrightarrow> length es < MAX_ENTRIES \<and> (\<exists>e. tree_entry e \<and> rd = print_entry e \<and> es' = es @ [e])"
proof
  assume "parse_record es rd = Ok es'"
  then obtain header p mode object_type oid e where
    r: "length es < MAX_ENTRIES" "split_once (CHR 0x09) rd = Some (header, p)" "utf8_valid p" "validate_source_path p = Ok ()"
      "split_on (CHR '' '') header = [mode, object_type, oid]" "valid_oid oid" "entry_of_mode p mode object_type oid = Ok e" "es' = es @ [e]"
    by (auto simp: parse_record_def result_simps three_fields_iff split: if_splits)
  have "header = mode @ '' '' @ object_type @ '' '' @ oid"
    using join_split_on [of "CHR '' ''" header] by (simp add: r(5) join_def)
  with r show "length es < MAX_ENTRIES \<and> (\<exists>e. tree_entry e \<and> rd = print_entry e \<and> es' = es @ [e])"
    using entry_of_mode_Ok [OF r(7)] by (auto simp: tree_entry_def print_entry_def split_once_eq_Some_iff)
next
  assume "length es < MAX_ENTRIES \<and> (\<exists>e. tree_entry e \<and> rd = print_entry e \<and> es' = es @ [e])"
  then obtain e where e: "length es < MAX_ENTRIES" "tree_entry e" "rd = print_entry e" "es' = es @ [e]" by blast
  have "split_once (CHR 0x09) rd = Some (se_mode e @ '' '' @ object_type_of (se_kind e) @ '' '' @ oid_of e, se_path e)"
    using tree_entry_header(3) [OF e(2)] unfolding split_once_eq_Some_iff e(3) print_entry_def by simp
  then show "parse_record es rd = Ok es'"
    using e tree_entry_header(1,2) [OF e(2)] entry_of_mode_entry [OF e(2)] by (simp add: parse_record_def tree_entry_def)
qed

lemma parse_records_iff:
  "try_fold parse_record es rs = Ok es' \<longleftrightarrow>
     (\<exists>new. es' = es @ new \<and> rs = map print_entry new \<and> list_all tree_entry new \<and> (new \<noteq> [] \<longrightarrow> length es' \<le> MAX_ENTRIES))"
proof (induction rs arbitrary: es)
  case (Cons rd rs)
  show ?case
  proof
    assume "try_fold parse_record es (rd # rs) = Ok es'"
    then obtain e where e: "length es < MAX_ENTRIES" "tree_entry e" "rd = print_entry e" "try_fold parse_record (es @ [e]) rs = Ok es'"
      by (auto simp: result_simps parse_record_iff)
    with Cons.IH [of "es @ [e]"] obtain new where "es' = (es @ [e]) @ new" "rs = map print_entry new" "list_all tree_entry new"
      "new \<noteq> [] \<longrightarrow> length es' \<le> MAX_ENTRIES" by blast
    with e show "\<exists>new. es' = es @ new \<and> rd # rs = map print_entry new \<and> list_all tree_entry new \<and> (new \<noteq> [] \<longrightarrow> length es' \<le> MAX_ENTRIES)"
      by (intro exI [of _ "e # new"]) auto
  next
    assume "\<exists>new. es' = es @ new \<and> rd # rs = map print_entry new \<and> list_all tree_entry new \<and> (new \<noteq> [] \<longrightarrow> length es' \<le> MAX_ENTRIES)"
    then obtain e new where "es' = (es @ [e]) @ new" "rd = print_entry e" "tree_entry e" "rs = map print_entry new" "list_all tree_entry new"
      "length es' \<le> MAX_ENTRIES" by (auto simp: Cons_eq_map_conv)
    with Cons.IH [of "es @ [e]"] show "try_fold parse_record es (rd # rs) = Ok es'"
      by (auto simp: result_simps parse_record_iff)
  qed
qed auto

text \<open>
  C37. The tree of a commit is read exactly: what git prints for a list of entries parses to these entries in the order
  of their paths; and whatever parses is a list of at most fifty thousand entries with relative paths without
  dots or control characters, a known mode and an object name of the right length.
\<close>

theorem source_tree_round_trip:
  "(list_all tree_entry es \<and> length es \<le> MAX_ENTRIES \<longrightarrow> parse_tree (print_tree es) = Ok (sort_key se_path es)) \<and>
   (parse_tree bytes = Ok es' \<longrightarrow> list_all tree_entry es' \<and> length es' \<le> MAX_ENTRIES \<and> sorted (map se_path es'))"
proof (intro conjI impI)
  assume es: "list_all tree_entry es \<and> length es \<le> MAX_ENTRIES"
  have "CHR 0x00 \<notin> set (print_entry e) \<and> print_entry e \<noteq> []" if "e \<in> set es" for e
  proof -
    have "tree_entry e" using es that by (simp add: list_all_iff)
    from tree_entry_header(3,4) [OF this] show ?thesis by (simp add: print_entry_def)
  qed
  then have "filter (\<lambda>r. r \<noteq> []) (split_on (CHR 0x00) (print_tree es)) = map print_entry es"
    unfolding print_tree_def by (intro split_records) blast
  moreover have "try_fold parse_record [] (map print_entry es) = Ok es" unfolding parse_records_iff using es by auto
  ultimately show "parse_tree (print_tree es) = Ok (sort_key se_path es)" by (simp add: parse_tree_def map_result_def)
next
  assume "parse_tree bytes = Ok es'"
  then obtain new where "es' = sort_key se_path new" "list_all tree_entry new" "new \<noteq> [] \<longrightarrow> length new \<le> MAX_ENTRIES"
    by (auto simp: parse_tree_def result_simps parse_records_iff)
  then show "list_all tree_entry es'" "length es' \<le> MAX_ENTRIES" "sorted (map se_path es')"
    by (simp_all add: list_all_iff) (cases new, simp_all)
qed

definition sample_entries :: "source_manifest_entry_v1 list" where
  "sample_entries =
     [\<lparr>se_path = ''run.sh'', se_mode = ''100755'', se_kind = EntryExecutable, se_blob_oid = Some (replicate 40 (CHR ''a'')), se_submodule_oid = None\<rparr>,
      \<lparr>se_path = ''a/x'', se_mode = ''100644'', se_kind = EntryRegular, se_blob_oid = Some (replicate 40 (CHR ''b'')), se_submodule_oid = None\<rparr>]"

theorem source_tree_round_trip_witness:
  "parse_tree (print_tree sample_entries) = Ok (rev sample_entries) \<and> sorted (map se_path (rev sample_entries))"
proof -
  have "list_all tree_entry sample_entries \<and> length sample_entries \<le> MAX_ENTRIES" "sort_key se_path sample_entries = rev sample_entries"
    by code_simp+
  with source_tree_round_trip [of sample_entries "print_tree sample_entries" "rev sample_entries"] show ?thesis by simp
qed

section \<open>Revalidation\<close>

abbreviation file_names :: "path \<Rightarrow> (path \<times> string) list \<Rightarrow> string set" where
  "file_names root fs \<equiv> (\<lambda>f. join ''/'' (drop (length root) (fst f))) ` set fs"

definition pending_names :: "path \<Rightarrow> (path \<times> (string \<times> node) list) list \<Rightarrow> string set" where
  "pending_names root pending = (\<Union>(p, es)\<in>set pending. file_names root (entries_files p es))"

lemma collect_children_names:
  "collect_children root current children (pending, found) = Ok (pending', found') \<Longrightarrow>
     set found' \<union> pending_names root pending' = set found \<union> file_names root (entries_files current children) \<union> pending_names root pending \<and>
     (list_all (\<lambda>(p, es). plain_entries es) pending' \<longrightarrow> plain_entries children \<and> list_all (\<lambda>(p, es). plain_entries es) pending)"
proof (induction children arbitrary: pending found)
  case (Cons c children)
  obtain name child where c: "c = (name, child)" by (cases c)
  show ?case
  proof (cases child)
    case (NFile b)
    with Cons.prems c Cons.IH [of pending "bs_insert (join ''/'' (drop (length root) (current @ [name]))) found"] show ?thesis
      by (auto simp: Let_def split: if_splits)
  next
    case (NDir es)
    with Cons.prems c Cons.IH [of "(current @ [name], es) # pending" found] show ?thesis
      by (simp add: pending_names_def image_Un ac_simps)
  qed (use Cons.prems c in simp_all)
qed simp

lemma collect_pending_names:
  "collect_pending root walk = Ok found' \<Longrightarrow>
     set found' = set (snd walk) \<union> pending_names root (fst walk) \<and> list_all (\<lambda>(p, es). plain_entries es) (fst walk)"
proof (induction root walk rule: collect_pending.induct)
  case (1 root found)
  then show ?case by (simp add: pending_names_def)
next
  case (2 root current children pending found)
  then obtain pending1 found1 where step: "collect_children root current children (pending, found) = Ok (pending1, found1)"
    and rest: "collect_pending root (pending1, found1) = Ok found'" by (auto split: sum.splits)
  from collect_children_names [OF step] 2(1) [OF step rest] show ?case
    by (simp add: pending_names_def Un_assoc)
qed

lemma collect_regular_files_names:
  assumes "collect_regular_files t root = Ok found"
  shows "\<exists>es. lookup t root = Some (NDir es) \<and> plain_entries es \<and> set found = file_names root (entries_files root es)"
proof -
  obtain es where es: "lookup t root = Some (NDir es)" "collect_pending root ([(root, es)], []) = Ok found"
    using assms unfolding collect_regular_files_def by (cases "lookup t root"; cases "the (lookup t root)"; simp del: collect_pending.simps)
  from collect_pending_names [OF es(2)] es(1) show ?thesis by (simp add: pending_names_def)
qed

text \<open>Git reads the files and does not change them, and prints the name of the object that a file would be.\<close>

definition leaves_files :: "'d supervisor_port \<Rightarrow> bool" where
  "leaves_files port \<longleftrightarrow> (\<forall>rq c w. rw_files (snd (run_state (port rq c) w)) = rw_files w \<and> rw_modes (snd (run_state (port rq c) w)) = rw_modes w)"

definition git_hashes :: "(string \<Rightarrow> string) \<Rightarrow> 'd supervisor_port \<Rightarrow> bool" where
  "git_hashes h port \<longleftrightarrow> (\<forall>rq c w r w' p bytes. run_state (port rq c) w = (Ok r, w') \<and> clean_success r \<and>
     rq_argv rq = [''hash-object'', ''--no-filters'', ''--'', path_text p] \<and> lookup (tr (rw_files w)) p = Some (NFile bytes) \<longrightarrow>
     trim (cs_bytes (ps_stdout r)) = h bytes)"

definition same_files :: "'d runtime_world \<Rightarrow> 'd runtime_world \<Rightarrow> bool" where
  "same_files w v \<longleftrightarrow> rw_files v = rw_files w \<and> rw_modes v = rw_modes w"

definition entry_intact :: "(string \<Rightarrow> string) \<Rightarrow> 'd runtime_world \<Rightarrow> path \<Rightarrow> source_manifest_entry_v1 \<Rightarrow> bool" where
  "entry_intact h w root e \<longleftrightarrow> (\<exists>bytes. lookup (tr (rw_files w)) (join_path root (se_path e)) = Some (NFile bytes) \<and>
     se_blob_oid e = Some (h bytes) \<and> (and (rw_modes w (join_path root (se_path e))) 0x49 \<noteq> 0 \<longleftrightarrow> se_kind e = EntryExecutable))"

lemma wp_on_files_eq: "wp (on_files m) Q w = wp m (\<lambda>r f. Q r (w\<lparr>rw_files := f\<rparr>)) (rw_files w)"
  by (simp add: wp_def on_files_def split: prod.splits)

lemma wp_get: "wp (State (\<lambda>w. (f w, w))) Q = (\<lambda>w. Q (f w) w)"
  by (simp add: wp_def fun_eq_iff)

lemma wp_run: "(\<And>r v. run_state m w = (r, v) \<Longrightarrow> Q r v) \<Longrightarrow> wp m Q w"
  by (simp add: wp_def split: prod.splits)

lemma leaves_filesD:
  assumes "leaves_files port" and "run_state (port rq token) w = (r, v)"
  shows "same_files w v"
  using assms unfolding leaves_files_def same_files_def by (metis snd_conv)

lemma wp_snapshot_hash:
  assumes "leaves_files port" and "git_hashes h port" and "lookup (tr (rw_files w)) p = Some (NFile bytes)"
    and "\<And>e v. Q (Inl e) v" and "\<And>x v. same_files w v \<Longrightarrow> trim x = h bytes \<Longrightarrow> Q (Inr x) v"
  shows "wp (snapshot_git rh repository [''hash-object'', ''--no-filters'', ''--'', path_text p] n port token identity) Q w"
  unfolding snapshot_git_def wp_attempt wp_on_err
proof (rule wp_run, goal_cases)
  case (1 r v)
  show ?case
  proof (cases r)
    case (Inl e)
    then show ?thesis using assms(4) by simp
  next
    case (Inr x)
    have "Q (Ok (cs_bytes (ps_stdout x))) v" if "clean_success x"
      using assms(2) [unfolded git_hashes_def, rule_format, OF conjI, OF 1 [unfolded Inr]] that assms(3)
      by (intro assms(5) leaves_filesD [OF assms(1) 1]) auto
    then show ?thesis using assms(4) Inr by (simp add: wp_ok wp_fail)
  qed
qed

lemma wp_fs_metadata_files: "wp (on_files (fs_metadata p)) Q = (\<lambda>w. Q (lookup (tr (rw_files w)) p) w)"
  by (simp add: fun_eq_iff wp_on_files_eq wp_fs_metadata)

lemma wp_revalidate_entry:
  assumes "leaves_files port" and "git_hashes h port"
  shows "wp (revalidate_entry rh snapshot port token identity e)
    (\<lambda>r v. is_ok r \<longrightarrow> same_files w v \<and> entry_intact h w (sn_root snapshot) e) w"
proof -
  let ?p = "join_path (sn_root snapshot) (se_path e)"
  have mode: "wp (validate_entry_mode ?p e) Q w"
    if "\<And>x. Q (Inl x) w" and "\<And>bytes. lookup (tr (rw_files w)) ?p = Some (NFile bytes) \<Longrightarrow>
      (and (rw_modes w ?p) 0x49 \<noteq> 0 \<longleftrightarrow> se_kind e = EntryExecutable) \<Longrightarrow> Q (Inr ()) w" for Q
    using that by (auto simp: validate_entry_mode_def wp_bind wp_fs_metadata_files wp_get wp_fail wp_ok split: option.split node.split)
  show ?thesis
    unfolding revalidate_entry_def Let_def wp_attempt
  proof (rule mode, goal_cases)
    case (2 bytes)
    then show ?case
      by (auto simp: wp_fail wp_ok wp_attempt entry_intact_def split: sum.split if_splits intro!: wp_snapshot_hash [OF assms 2(1)])
  qed simp
qed

lemma wp_revalidate_entries:
  assumes "leaves_files port" and "git_hashes h port"
  shows "wp (revalidate_entries rh snapshot port token identity es)
    (\<lambda>r v. is_ok r \<longrightarrow> same_files w v \<and> list_all (entry_intact h w (sn_root snapshot)) es) w"
proof (induction es arbitrary: w)
  case Nil
  then show ?case by (simp add: wp_ok same_files_def)
next
  case (Cons e es)
  have same: "same_files w u \<and> list_all (entry_intact h w (sn_root snapshot)) es"
    if "same_files w v" "same_files v u \<and> list_all (entry_intact h v (sn_root snapshot)) es" for v u
  proof -
    have "entry_intact h v = entry_intact h w" using that(1) by (simp add: fun_eq_iff same_files_def entry_intact_def)
    with that show ?thesis by (simp add: same_files_def)
  qed
  show ?case
    unfolding revalidate_entries.simps wp_attempt
  proof (rule wp_mono [OF wp_revalidate_entry [OF assms]], goal_cases)
    case (1 r v)
    then show ?case
      by (cases r) (auto intro!: wp_mono [OF Cons.IH [of v]] dest: same)
  qed
qed

lemma wp_check_overlay_directories:
  "wp (check_overlay_directories root ds) (\<lambda>r v. v = w \<and> (is_ok r \<longrightarrow> list_all (\<lambda>d. is_dir (tr (rw_files w)) (join_path root d)) ds)) w"
  by (induction ds) (auto simp: wp_ok wp_fail wp_bind wp_fs_metadata_files is_dir_def elim!: wp_mono split: option.split node.split)

text \<open>
  C36. A revalidation that succeeds has found the snapshot unchanged: below its root there are only directories and
  regular files, the files are exactly those of the manifest and of the overlay, every file of the manifest has
  the content whose object name the manifest records, and is executable exactly when it was; the directories of the
  overlay are there, and the manifest has the digest of the evidence.
\<close>

theorem snapshot_revalidation_exact:
  assumes "leaves_files port" and "git_hashes h port"
    and "run_state (revalidate_snapshot cx rh snapshot port token identity) w = (Ok (), w')"
  shows "\<exists>es. lookup (tr (rw_files w)) (sn_root snapshot) = Some (NDir es) \<and> plain_entries es \<and>
      file_names (sn_root snapshot) (entries_files (sn_root snapshot) es) =
        set (map se_path (sm_entries (sn_manifest snapshot))) \<union> set (sn_overlay_files snapshot) \<and>
      list_all (entry_intact h w (sn_root snapshot)) (sm_entries (sn_manifest snapshot)) \<and>
      list_all (\<lambda>d. is_dir (tr (rw_files w)) (join_path (sn_root snapshot) d)) (sn_overlay_directories snapshot) \<and>
      canonical_digest cx (source_manifest_to_value (sn_manifest snapshot)) = Ok (sv_manifest_digest (sn_evidence snapshot))"
proof -
  let ?files = "tr (rw_files w)" and ?entries = "sm_entries (sn_manifest snapshot)"
  let ?P = "\<lambda>found. collect_regular_files ?files (sn_root snapshot) = Ok found \<and>
    found = fold bs_insert (sn_overlay_files snapshot) (bs_collect (map se_path ?entries)) \<and>
    list_all (\<lambda>d. is_dir ?files (join_path (sn_root snapshot) d)) (sn_overlay_directories snapshot) \<and>
    list_all (entry_intact h w (sn_root snapshot)) ?entries \<and>
    canonical_digest cx (source_manifest_to_value (sn_manifest snapshot)) = Ok (sv_manifest_digest (sn_evidence snapshot))"
  let ?tail = "attempt (revalidate_entries rh snapshot port token identity ?entries) (\<lambda>_.
       attempt (of_result (map_err (\<lambda>_. SnpManifestSerialization)
         (canonical_digest cx (source_manifest_to_value (sn_manifest snapshot))))) (\<lambda>digest.
       if digest \<noteq> sv_manifest_digest (sn_evidence snapshot) then fail SnpSnapshotChanged else ok ()))"
  have tail: "wp ?tail (\<lambda>r v. is_ok r \<longrightarrow> list_all (entry_intact h w (sn_root snapshot)) ?entries \<and>
      canonical_digest cx (source_manifest_to_value (sn_manifest snapshot)) = Ok (sv_manifest_digest (sn_evidence snapshot))) w"
    unfolding wp_attempt wp_of_result
    by (rule wp_mono [OF wp_revalidate_entries [OF assms(1,2)]])
      (auto simp: wp_ok wp_fail result_simps split: sum.split if_split)
  have rest: "wp (attempt (check_overlay_directories (sn_root snapshot) (sn_overlay_directories snapshot)) (\<lambda>_. ?tail))
    (\<lambda>r v. is_ok r \<longrightarrow> list_all (\<lambda>d. is_dir ?files (join_path (sn_root snapshot) d)) (sn_overlay_directories snapshot) \<and>
      list_all (entry_intact h w (sn_root snapshot)) ?entries \<and>
      canonical_digest cx (source_manifest_to_value (sn_manifest snapshot)) = Ok (sv_manifest_digest (sn_evidence snapshot))) w"
    by (subst wp_attempt, rule wp_mono [OF wp_check_overlay_directories]) (auto split: sum.split intro: wp_mono [OF tail])
  have "wp (revalidate_snapshot cx rh snapshot port token identity) (\<lambda>r v. is_ok r \<longrightarrow> (\<exists>found. ?P found)) w"
    unfolding revalidate_snapshot_def wp_bind wp_on_files_eq wp_cache_tree wp_attempt [of "of_result (collect_regular_files _ _)"] wp_of_result
    by (cases "collect_regular_files ?files (sn_root snapshot)") (auto simp: wp_fail intro: wp_mono [OF rest])
  then obtain found where f: "?P found" using assms(3) by (auto simp: wp_def)
  obtain es where "lookup ?files (sn_root snapshot) = Some (NDir es)" "plain_entries es"
      "set found = file_names (sn_root snapshot) (entries_files (sn_root snapshot) es)"
    using collect_regular_files_names f by blast
  moreover have "set found = set (map se_path ?entries) \<union> set (sn_overlay_files snapshot)"
    using f by (simp add: fold_bs_insert Un_commute)
  ultimately show ?thesis using f by (intro exI [of _ es]) simp
qed

text \<open>A snapshot with one file, and a git that knows only this one.\<close>

definition lone_entry :: source_manifest_entry_v1 where
  "lone_entry = \<lparr>se_path = ''a'', se_mode = ''100644'', se_kind = EntryRegular, se_blob_oid = Some (replicate 40 (CHR ''a'')), se_submodule_oid = None\<rparr>"

definition lone_manifest :: source_manifest_v1 where
  "lone_manifest = \<lparr>sm_schema_version = ''1.0'', sm_commit_sha = replicate 40 (CHR ''c''), sm_strategy = ''git-object-materialization-v1'',
     sm_entries = [lone_entry]\<rparr>"

definition lone_snapshot :: source_snapshot where
  "lone_snapshot = \<lparr>sn_root = [''s'', ''source''], sn_resource_root = [''s''], sn_repository = [''r''], sn_manifest = lone_manifest,
     sn_evidence = \<lparr>sv_schema_version = ''1.0'', sv_strategy = ''git-object-materialization-v1'',
       sv_manifest_digest = projr (canonical_digest sample_codec (source_manifest_to_value lone_manifest)), sv_entry_count = 1\<rparr>,
     sn_cleaned = False, sn_overlay_files = [], sn_overlay_directories = []\<rparr>"

definition lone_identity :: run_identity where
  "lone_identity = \<lparr>ri_project = ''p'', ri_commit = None, ri_config_digest = ''d'', ri_generation = ''g''\<rparr>"

definition lone_git :: "unit supervisor_port" where
  "lone_git rq token = ok
     \<lparr>ps_identity = rq_identity rq, ps_termination = Completed, ps_cleanup = Verified,
      ps_exit = Some \<lparr>eo_success = True, eo_code = Some 0\<rparr>,
      ps_stdout = \<lparr>cs_bytes = replicate 40 (CHR ''a'') @ [CHR 0x0A], cs_byte_count = 41, cs_full_digest = [], cs_truncated = False\<rparr>,
      ps_stderr = \<lparr>cs_bytes = [], cs_byte_count = 0, cs_full_digest = [], cs_truncated = False\<rparr>, ps_elapsed_millis = 1\<rparr>"

definition lone_files :: cache_world where
  "lone_files = \<lparr>cw_disk = \<lparr>dk_tree = NDir [(''s'', NDir [(''source'', NDir [(''a'', NFile ''x'')])])], dk_faults = []\<rparr>,
     cw_locks = [], cw_owners = [], cw_sequence = 0, cw_durable_sequence = 0, cw_run_lock_sequence = 0, cw_pid = 7, cw_power = None\<rparr>"

definition lone_world :: "unit runtime_world" where
  "lone_world = \<lparr>rw_files = lone_files, rw_modes = \<lambda>_. 420, rw_receipt_sequence = 0, rw_outside = ()\<rparr>"

definition lone_host :: runtime_host where
  "lone_host = \<lparr>rh_var_os = \<lambda>_. None, rh_from_slice = \<lambda>_. Err []\<rparr>"

theorem snapshot_revalidation_exact_witness:
  "fst (run_state (revalidate_snapshot sample_codec lone_host lone_snapshot lone_git FreshToken lone_identity) lone_world) = Ok () \<and>
   list_all (entry_intact (\<lambda>_. replicate 40 (CHR ''a'')) lone_world [''s'', ''source'']) [lone_entry]"
proof -
  have runs: "fst (run_state (revalidate_snapshot sample_codec lone_host lone_snapshot lone_git FreshToken lone_identity) lone_world) = Ok ()"
    by code_simp
  have "trim (replicate 40 (CHR ''a'') @ [CHR 0x0A]) = replicate 40 (CHR ''a'')" by code_simp
  then have "git_hashes (\<lambda>_. replicate 40 (CHR ''a'')) lone_git" "leaves_files lone_git"
    by (auto simp: git_hashes_def leaves_files_def lone_git_def ok_def State_Monad.return_def)
  from snapshot_revalidation_exact [OF this(2,1), of sample_codec lone_host lone_snapshot FreshToken lone_identity lone_world] runs
  show ?thesis by (auto simp: lone_snapshot_def lone_manifest_def prod_eq_iff)
qed

end
