(* ===== verification/Spec2Isabelle.thy ===== *)
theory Spec2Isabelle
  imports Config_Props Receipt_Props Resource_Props Process_Props Storage Journal_Props Cache_Props
    Workspace_Props Runtime_Props Snapshot_Props
begin

text \<open>
  \<^bold>\<open>commit-ci-preflight\<close>: a verification library for the Rust crate under \<^verbatim>\<open>src/src\<close>.

  The program runs the checks of a repository in containers before a commit is pushed, and leaves a
  receipt that can be verified later. A configuration file is validated and normalized to an execution
  plan with a digest (\<^verbatim>\<open>config.rs\<close>). A run of the plan may first write the
  tree of the commit to a snapshot (\<^verbatim>\<open>source_snapshot.rs\<close>). It prepares a workspace (\<^verbatim>\<open>workspace.rs\<close>) with staged
  generations of the plan's caches (\<^verbatim>\<open>cache.rs\<close>, \<^verbatim>\<open>cache_payload.rs\<close>), looks at the free storage and memory of the
  host (\<^verbatim>\<open>storage.rs\<close>, \<^verbatim>\<open>resource.rs\<close>), starts one container per check (\<^verbatim>\<open>runtime.rs\<close>) through a supervisor of
  processes (\<^verbatim>\<open>process.rs\<close>), writes every step to a journal (\<^verbatim>\<open>run_journal.rs\<close>) on a durable file system
  (\<^verbatim>\<open>durable_fs.rs\<close>), collects the artifacts of the checks (\<^verbatim>\<open>workspace.rs\<close>), promotes the caches and seals a receipt
  (\<^verbatim>\<open>receipt.rs\<close>), which is verified against a policy (\<^verbatim>\<open>verify.rs\<close>).

  \<^bold>\<open>Conventions.\<close> A \<^verbatim>\<open>String\<close> is the list of its UTF-8 bytes (\<open>Rust_Str\<close>), an ordered map or set the sorted list of its
  entries (\<open>BTree\<close>), a machine integer a word of its width, a \<^verbatim>\<open>Result\<close> a sum with the error on the left
  (\<open>Prelude\<close>: \<open>and_then\<close> is the operator \<^verbatim>\<open>?\<close>). A panic is an error constructor of its own, so that its absence is a
  theorem. Code that acts on an outside world is a state monad over results with a weakest-precondition
  calculus (\<open>Action\<close>). What is not in the repository is a parameter: SHA-256 and the JSON writer (\<open>codec\<close>), the JSON
  readers (\<open>parsers\<close>, \<open>cache_json\<close>, \<open>journal_json\<close>), the operating system (\<open>cache_host\<close>, \<open>runtime_host\<close>, the host of the
  supervisor). What a property needs of a parameter is one of its hypotheses, and its witness gives a
  parameter with which they hold.

  \<^bold>\<open>Theories.\<close>
    \<^item> \<open>Prelude\<close>, \<open>Rust_Str\<close>, \<open>Rust_Io\<close>, \<open>Text_Scan\<close>, \<open>BTree\<close>, \<open>Action\<close>: the standard library as the code uses it. The locale
      \<open>ordered_dict\<close> is the contract of the maps, \<open>unique_scan\<close> that of the duplicate checks.
    \<^item> \<open>Canonical\<close>: canonical JSON and digests (\<^verbatim>\<open>receipt.rs\<close>).
    \<^item> \<open>Config_Types\<close>, \<open>Config\<close>, \<open>Plan_Json\<close>: \<^verbatim>\<open>config.rs\<close> in the order of the file. \<open>Config_Topo\<close>, \<open>Config_Correct\<close> (locale
      \<open>string_validator\<close>), \<open>Config_Plan\<close>, \<open>Samples\<close> and \<open>Config_Props\<close>: the order of the checks against a declarative
      reference, what the validators accept, and the guarantees of \<open>into_plan\<close>: isolated paths, exact order,
      no abort, exact budgets, an environment without conflicts, a digest that determines the plan.
    \<^item> \<open>Receipt_Types\<close>, \<open>Receipt\<close>, \<open>Calendar\<close>, \<open>Timestamp\<close>, \<open>Verify\<close>: \<^verbatim>\<open>receipt.rs\<close> and \<^verbatim>\<open>verify.rs\<close>. \<open>Receipt_Correct\<close>
      (locale \<open>sealed_envelope\<close>, interpreted on both versions), \<open>Verify_Correct\<close>, \<open>Samples_Receipt\<close>, \<open>Receipt_Props\<close>: sealing and
      verifying are inverse, an identifier binds its receipt, green means that every required check
      passed, a pass means what the policy says; time stamps print and parse exactly.
    \<^item> \<open>Resource\<close>, \<open>Resource_Probe\<close>, \<open>Storage\<close>: \<^verbatim>\<open>resource.rs\<close> and \<^verbatim>\<open>storage.rs\<close>. \<open>Resource_Correct\<close>, \<open>Resource_Props\<close>: the watchdog
      refines a policy on the sample history, cancels under sustained pressure and only then, admission is exact; a
      panic while a sample is taken ends the thread without a trip.
    \<^item> \<open>Process\<close>, \<open>Supervisor\<close>, \<open>Std_Process\<close>: \<^verbatim>\<open>process.rs\<close>. \<open>Supervisor_Correct\<close>, \<open>Process_Props\<close>: the supervisor always
      answers, seals the group of the child first, and captures streams exactly.
    \<^item> \<open>Durable\<close>, \<open>Journal\<close>: \<^verbatim>\<open>durable_fs.rs\<close> and \<^verbatim>\<open>run_journal.rs\<close> on a tree of files and a schedule of failing operations.
      \<open>Durable_Correct\<close>, \<open>Journal_Correct\<close>, \<open>Journal_Disk\<close>, \<open>Journal_Recovery\<close>, \<open>Journal_Props\<close>: a replaced file is old or new
      whatever fails, with at most its temporary file left over; every journal that reads back is a path of the state
      machine; a transition that returns is durable, and an interrupted one may leave a torn entry with which the
      journal does not read; recovery quarantines once.
    \<^item> \<open>Cache_World\<close>, \<open>Cache_Payload\<close>, \<open>Cache_Root\<close>, \<open>Cache\<close>, \<open>Cache_Generation\<close>, \<open>Cache_Promotion\<close>, \<open>Cache_Inventory\<close>:
      \<^verbatim>\<open>cache_payload.rs\<close> and \<^verbatim>\<open>cache.rs\<close> on a disk that may lose power before any change, in the middle of a written
      file included. \<open>Cache_Correct\<close>, \<open>Cache_Recovery\<close>, \<open>Cache_Promote\<close>, \<open>Cache_Crash\<close>, \<open>Cache_Journal\<close>, \<open>Cache_Props\<close>: an interrupted
      promotion that replaces generations leaves each entry with its whole previous or its whole new one; an
      interrupted first promotion of an entry, a torn journal and a held lock stop recovery.
    \<^item> \<open>Workspace\<close>, \<open>Artifacts\<close>: \<^verbatim>\<open>workspace.rs\<close>. \<open>Artifacts_Correct\<close>, \<open>Workspace_Props\<close>: the mounts of a plan are isolated, a run
      lock excludes a second run, artifact evidence is exact.
    \<^item> \<open>Runtime\<close>: \<^verbatim>\<open>runtime.rs\<close> for Unix. \<open>Runtime_Props\<close>: the environment and the command line of a check are exact, a
      check that returns has removed the container it was told of, and the one situation in which such a container is left behind.
    \<^item> \<open>Snapshot\<close>: \<^verbatim>\<open>source_snapshot.rs\<close> for Unix. \<open>Snapshot_Props\<close>: the tree that git prints is read back exactly, and a
      snapshot that passes its revalidation is unchanged.

  \<^bold>\<open>Bounds and fuel.\<close> The polling loops of the supervisor take fuel and return \<open>None\<close> without; \<open>supervisor_always_answers\<close> and
  \<open>seal_unix_group_decisive\<close> prove that the fuel computed from the time-outs is enough on a host whose clock
  advances. All other loops are total functions with a termination proof (\<open>topological_loop\<close>, \<open>observe_pending\<close>,
  \<open>collect_pending\<close>, \<open>count_buffers\<close>). Power is a number of disk changes and the failures of the
  durable file system are a list of outcomes, one per operation and per written byte; the properties quantify over both.

  \<^bold>\<open>Not modelled.\<close> The texts of errors (\<^verbatim>\<open>Display\<close>), the generated JSON schemas, the TOML and JSON readers, the Windows
  build and the clone call of macOS. Links are opaque: a link holds its text and no path leads through it;
  what the operating system resolves is a parameter; where the program would list a directory through a link the model
  has an error. Changes of the disk are kept in the order in which they are made: a sync may fail but has no effect,
  and the loss or reordering of changes that were not synced is not modelled. In the cache the removal of a tree is one change of
  the disk.
  The modules \<^verbatim>\<open>main.rs\<close>, \<^verbatim>\<open>terminal.rs\<close>, \<^verbatim>\<open>github_actions.rs\<close>, \<^verbatim>\<open>agent_session.rs\<close>, \<^verbatim>\<open>benchmark.rs\<close>,
  \<^verbatim>\<open>economic_evaluation.rs\<close>, \<^verbatim>\<open>capability_pack.rs\<close>, \<^verbatim>\<open>schema_contract.rs\<close>, \<^verbatim>\<open>resource_history.rs\<close>,
  \<^verbatim>\<open>matrix.rs\<close>, \<^verbatim>\<open>matrix_legacy.rs\<close>, \<^verbatim>\<open>admission.rs\<close> and \<^verbatim>\<open>run.rs\<close> are left out: they print or bundle
  documents, or put the components above in sequence.
\<close>

end
